(* ===== verification/Prelude.thy ===== *)
theory Prelude
  imports Main "HOL-Library.Word" "HOL-Library.Monad_Syntax"
begin

unbundle bit_operations_syntax

text \<open>
  Shared vocabulary of the development: the widths of the C integers of
  @VQ/udp2raw, byte lists for buffers, the collections of rewrite rules the
  component theories extend, and facts on lists, options and words that more
  than one component uses.

  Conventions of the whole development: a failed \<open>assert\<close>, a \<open>myexit\<close>
  and a loop that never ends are \<open>None\<close> of the option type; a C return code
  is an \<open>int\<close>; a buffer whose old contents can be read again is a function
  from offsets to bytes, a fresh one a byte list.
\<close>

type_synonym u8 = "8 word"
type_synonym u16 = "16 word"
type_synonym u32 = "32 word"
type_synonym u64 = "64 word"
type_synonym bytes = "u8 list"
type_synonym buffer = "nat \<Rightarrow> u8"

named_theorems guard_simps
  \<open>how a guarded computation of the option monad reduces\<close>
named_theorems len_simps
  \<open>lengths of byte strings produced by the encoders\<close>
named_theorems roundtrip_simps
  \<open>decode after encode\<close>

text \<open>The bounds of common.h shared by all components.\<close>

definition max_data_len :: int where "max_data_len = 1800"
definition huge_data_len :: int where "huge_data_len = 65535 + 100"

section \<open>Aborting computations\<close>

text \<open>\<open>assert(c)\<close> of the C library: nothing happens when the condition holds,
  the process ends otherwise.\<close>

definition assert_c :: "bool \<Rightarrow> unit option" where
  "assert_c c = (if c then Some () else None)"

lemma assert_c_simps [simp, guard_simps]:
  "assert_c True = Some ()"
  "assert_c False = None"
  by (simp_all add: assert_c_def)

lemma assert_c_eq_Some [simp, guard_simps]:
  "(assert_c c = Some x) = c"
  by (simp add: assert_c_def)

lemma bind_assert_eq_Some [guard_simps]:
  "(Option.bind (assert_c c) f = Some x) = (c \<and> f () = Some x)"
  by (cases c) (simp_all)

lemma bind_eq_SomeE [elim?]:
  assumes "Option.bind m f = Some y"
  obtains x where "m = Some x" "f x = Some y"
  using assms by (cases m) auto

text \<open>Partial correctness of an aborting computation, by rules that follow the
  program text: \<open>ensures m Q\<close>, every result of \<open>m\<close> satisfies \<open>Q\<close>.\<close>

definition ensures :: "'a option \<Rightarrow> ('a \<Rightarrow> bool) \<Rightarrow> bool" where
  "ensures m Q \<longleftrightarrow> (\<forall>x. m = Some x \<longrightarrow> Q x)"

lemma postI: "(\<And>x. m = Some x \<Longrightarrow> Q x) \<Longrightarrow> ensures m Q"
  by (simp add: ensures_def)

lemma postD: "ensures m Q \<Longrightarrow> m = Some x \<Longrightarrow> Q x"
  by (simp add: ensures_def)

lemma post_weaken: "ensures m P \<Longrightarrow> (\<And>x. P x \<Longrightarrow> Q x) \<Longrightarrow> ensures m Q"
  by (simp add: ensures_def)

lemma post_bind: "ensures m (\<lambda>x. ensures (f x) Q) \<Longrightarrow> ensures (Option.bind m f) Q"
  by (cases m) (auto simp: ensures_def)

lemma post_some: "Q x \<Longrightarrow> ensures (Some x) Q"
  by (simp add: ensures_def)

lemma post_none: "ensures None Q"
  by (simp add: ensures_def)

lemma post_if: "(b \<Longrightarrow> ensures x Q) \<Longrightarrow> (\<not> b \<Longrightarrow> ensures y Q) \<Longrightarrow> ensures (if b then x else y) Q"
  by simp

lemma post_pair: "ensures (f a b) Q \<Longrightarrow> ensures (case (a, b) of (a, b) \<Rightarrow> f a b) Q"
  by simp

lemma post_prod: "(\<And>a b. x = (a, b) \<Longrightarrow> ensures (f a b) Q) \<Longrightarrow> ensures (case x of (a, b) \<Rightarrow> f a b) Q"
  by (cases x) simp

lemma post_let: "ensures (f e) Q \<Longrightarrow> ensures (Let e f) Q"
  by (simp add: Let_def)

lemma post_assert: "(b \<Longrightarrow> Q ()) \<Longrightarrow> ensures (assert_c b) Q"
  by (cases b) (simp_all add: ensures_def)

lemma post_option:
  "(x = None \<Longrightarrow> ensures g Q) \<Longrightarrow> (\<And>a. x = Some a \<Longrightarrow> ensures (f a) Q) \<Longrightarrow>
     ensures (case x of None \<Rightarrow> g | Some a \<Rightarrow> f a) Q"
  by (cases x) auto

lemma post_map: "ensures m (\<lambda>x. Q (f x)) \<Longrightarrow> ensures (map_option f m) Q"
  by (auto simp: ensures_def)

lemmas post_rules = post_pair post_bind post_some post_none post_if post_prod post_let post_assert
  post_option post_map

text \<open>Pairs computed by a branch or by a call.\<close>

lemma post_case_if:
  "(b \<Longrightarrow> ensures (case x of (p, q) \<Rightarrow> f p q) Q) \<Longrightarrow> (\<not> b \<Longrightarrow> ensures (case y of (p, q) \<Rightarrow> f p q) Q) \<Longrightarrow>
     ensures (case (if b then x else y) of (p, q) \<Rightarrow> f p q) Q"
  by simp

lemma post_case_let: "ensures (case g e of (p, q) \<Rightarrow> f p q) Q \<Longrightarrow> ensures (case (Let e g) of (p, q) \<Rightarrow> f p q) Q"
  by simp

lemma post_case_case:
  "ensures (case x of (s, t) \<Rightarrow> case g s t of (p, q) \<Rightarrow> f p q) Q \<Longrightarrow>
     ensures (case (case x of (s, t) \<Rightarrow> g s t) of (p, q) \<Rightarrow> f p q) Q"
  by (cases x) simp

lemmas post_cases = post_case_if post_case_let post_case_case

lemma post_known: "x = Some b \<Longrightarrow> Q b \<Longrightarrow> ensures x Q"
  by (simp add: post_some)

section \<open>Buffers\<close>

text \<open>\<open>memcpy(buf + off, bs, len)\<close> and the reading of \<open>len\<close> bytes at \<open>off\<close>.\<close>

definition buf_write :: "buffer \<Rightarrow> nat \<Rightarrow> bytes \<Rightarrow> buffer" where
  "buf_write b off bs =
     (\<lambda>i. if off \<le> i \<and> i < off + length bs then bs ! (i - off) else b i)"

definition buf_read :: "buffer \<Rightarrow> nat \<Rightarrow> nat \<Rightarrow> bytes" where
  "buf_read b off len = map (\<lambda>i. b (off + i)) [0..<len]"

lemma length_buf_read [simp, len_simps]: "length (buf_read b off n) = n"
  by (simp add: buf_read_def)

lemma nth_buf_read [simp]: "i < n \<Longrightarrow> buf_read b off n ! i = b (off + i)"
  by (simp add: buf_read_def)

lemma buf_read_write [simp, roundtrip_simps]:
  "n = length bs \<Longrightarrow> buf_read (buf_write b off bs) off n = bs"
  by (rule nth_equalityI) (auto simp: buf_read_def buf_write_def)

lemma buf_read_write_prefix:
  "n \<le> length bs \<Longrightarrow> buf_read (buf_write b off bs) off n = take n bs"
  by (rule nth_equalityI) (auto simp: buf_read_def buf_write_def)

lemma buf_write_outside:
  "i < off \<or> off + length bs \<le> i \<Longrightarrow> buf_write b off bs i = b i"
  by (auto simp: buf_write_def)

lemma buf_read_write_before:
  "o1 + n \<le> o2 \<Longrightarrow> buf_read (buf_write b o2 bs) o1 n = buf_read b o1 n"
  by (rule nth_equalityI) (auto simp: buf_read_def buf_write_def)

lemma buf_read_append:
  "buf_read b off (m + n) = buf_read b off m @ buf_read b (off + m) n"
  by (rule nth_equalityI) (auto simp: nth_append)

lemma buf_read_sub:
  "buf_read b off n = bs \<Longrightarrow> i + m \<le> n \<Longrightarrow> buf_read b (off + i) m = take m (drop i bs)"
  by (rule nth_equalityI) (auto simp: buf_read_def add.assoc)

lemma buf_read_nth: "buf_read b off n = bs \<Longrightarrow> i < n \<Longrightarrow> b (off + i) = bs ! i"
  by auto

section \<open>Words\<close>

lemma unat_inc: "(i :: 'a :: len word) < j \<Longrightarrow> unat (i + 1) = unat i + 1"
proof -
  assume "i < j"
  then have "Suc (unat i) < 2 ^ LENGTH('a)"
    using unsigned_less[of j] by (metis Suc_lessI less_trans_Suc word_less_nat_alt)
  then show ?thesis by (simp add: unat_word_ariths)
qed

lemma unat_diff: "(i :: 'a :: len word) \<le> j \<Longrightarrow> unat (j - i) = unat j - unat i"
  by (simp add: unat_sub_if_size word_le_nat_alt)

lemma ucast_and_ff [simp]: "ucast (w AND 0xff) = (ucast (w :: 'a :: len word) :: u8)"
proof -
  have ff: "(0xff :: 'a word) = mask 8" by (simp add: mask_eq_exp_minus_1)
  show ?thesis
    by (subst ff, rule bit_word_eqI) (auto simp: bit_simps dest: bit_imp_le_length)
qed

lemma word_add_disjoint: "(a :: 'a :: len word) AND b = 0 \<Longrightarrow> a + b = a OR b"
  by (simp add: disjunctive_add_eq_or)

lemma sint_cases32: "sint (k :: u32) = (if uint k < 2 ^ 31 then uint k else uint k - 2 ^ 32)"
proof -
  have "sint k = (uint k + 2 ^ 31) mod 2 ^ 32 - 2 ^ 31"
    using int_word_sint[of "uint k", where 'a = 32] by simp
  moreover have "uint k < 2 ^ 32" using uint_lt2p[of k] by simp
  ultimately show ?thesis
    using mod_pos_pos_trivial[of "uint k + 2 ^ 31" "2 ^ 32"]
      mod_pos_pos_trivial[of "uint k - 2 ^ 31" "2 ^ 32"] mod_add_self2[of "uint k - 2 ^ 31" "2 ^ 32"]
    by (cases "uint k < 2 ^ 31") (simp_all add: add.commute)
qed

section \<open>Bytes of a machine word\<close>

text \<open>The images of 16, 32 and 64 bit values in network (big-endian) byte
  order.\<close>

definition be16 :: "u16 \<Rightarrow> bytes" where
  "be16 w = [ucast (drop_bit 8 w), ucast w]"

definition be32 :: "u32 \<Rightarrow> bytes" where
  "be32 w = be16 (ucast (drop_bit 16 w)) @ be16 (ucast w)"

definition be64 :: "u64 \<Rightarrow> bytes" where
  "be64 w = be32 (ucast (drop_bit 32 w)) @ be32 (ucast w)"

definition of_be16 :: "bytes \<Rightarrow> u16" where
  "of_be16 bs = push_bit 8 (ucast (bs ! 0)) OR ucast (bs ! 1)"

definition of_be32 :: "bytes \<Rightarrow> u32" where
  "of_be32 bs = push_bit 16 (ucast (of_be16 bs)) OR ucast (of_be16 (drop 2 bs))"

definition of_be64 :: "bytes \<Rightarrow> u64" where
  "of_be64 bs = push_bit 32 (ucast (of_be32 bs)) OR ucast (of_be32 (drop 4 bs))"

lemma length_be [simp, len_simps]:
  "length (be16 a) = 2" "length (be32 b) = 4" "length (be64 c) = 8"
  by (simp_all add: be16_def be32_def be64_def)

lemma word_halves:
  "push_bit 8 (ucast (ucast (drop_bit 8 a) :: u8)) OR ucast (ucast a :: u8) = (a :: u16)"
  "push_bit 16 (ucast (ucast (drop_bit 16 b) :: u16)) OR ucast (ucast b :: u16) = (b :: u32)"
  "push_bit 32 (ucast (ucast (drop_bit 32 c) :: u32)) OR ucast (ucast c :: u32) = (c :: u64)"
  by (rule bit_word_eqI; auto simp: bit_simps)+

lemma halves_word:
  "ucast (drop_bit 8 (push_bit 8 (ucast x) OR ucast y :: u16)) = (x :: u8)"
  "ucast (push_bit 8 (ucast x) OR ucast y :: u16) = (y :: u8)"
  "ucast (drop_bit 16 (push_bit 16 (ucast p) OR ucast q :: u32)) = (p :: u16)"
  "ucast (push_bit 16 (ucast p) OR ucast q :: u32) = (q :: u16)"
  "ucast (drop_bit 32 (push_bit 32 (ucast s) OR ucast t :: u64)) = (s :: u32)"
  "ucast (push_bit 32 (ucast s) OR ucast t :: u64) = (t :: u32)"
  by (rule bit_word_eqI; auto simp: bit_simps dest: bit_imp_le_length)+

lemma of_be_append [simp, roundtrip_simps]:
  "of_be16 (be16 a @ xs) = a" "of_be32 (be32 b @ xs) = b" "of_be64 (be64 c @ xs) = c"
proof -
  have 16: "of_be16 (be16 a @ xs) = a" for a xs
    by (simp add: of_be16_def be16_def word_halves)
  have 32: "of_be32 (be32 b @ xs) = b" for b xs
    by (simp add: of_be32_def be32_def 16 word_halves)
  show "of_be16 (be16 a @ xs) = a" "of_be32 (be32 b @ xs) = b" by (fact 16, fact 32)
  show "of_be64 (be64 c @ xs) = c"
    by (simp add: of_be64_def be64_def 32 word_halves)
qed

lemma of_be_be [simp, roundtrip_simps]:
  "of_be16 (be16 a) = a" "of_be32 (be32 b) = b" "of_be64 (be64 c) = c"
  using of_be_append [where xs = "[]"] by simp_all

lemma be16_of_be16 [roundtrip_simps]:
  assumes "length bs = 2" shows "be16 (of_be16 bs) = bs"
proof -
  obtain x y where bs: "bs = [x, y]"
    using assms by (auto simp: length_Suc_conv eval_nat_numeral)
  show ?thesis unfolding of_be16_def be16_def halves_word by (simp add: bs)
qed

lemma be32_of_be32 [roundtrip_simps]:
  assumes "length bs = 4" shows "be32 (of_be32 bs) = bs"
proof -
  have "of_be16 bs = of_be16 (take 2 bs)" using assms by (simp add: of_be16_def)
  then show ?thesis
    unfolding of_be32_def be32_def halves_word using assms by (simp add: be16_of_be16)
qed

lemma be64_of_be64 [roundtrip_simps]:
  assumes "length bs = 8" shows "be64 (of_be64 bs) = bs"
proof -
  have "of_be32 bs = of_be32 (take 4 bs)" using assms by (simp add: of_be32_def of_be16_def)
  then show ?thesis
    unfolding of_be64_def be64_def halves_word using assms by (simp add: be32_of_be32)
qed

end
