(* ===== verification/AntiReplay.thy ===== *)
theory AntiReplay
  imports Prelude
begin

text \<open>
  The anti-replay window of a connection (\<open>anti_replay_t\<close>, connection.h and
  connection.cpp): a counter for the packets sent, the highest sequence number
  accepted, and a ring of 4000 flags. The locale \<open>replay_filter\<close> is the
  interface the encrypted channel relies on: what has been accepted is refused
  ever after.
\<close>

section \<open>The code\<close>

definition anti_replay_window_size :: u64 where
  "anti_replay_window_size = 4000"

record anti_replay =
  max_packet_received :: u64
  window :: buffer
  anti_replay_seq :: u64

text \<open>The constructor: the window is not cleared, so its first contents \<open>junk\<close>
  are whatever the memory held; \<open>rnd\<close> is the random number drawn.\<close>

definition anti_replay_init :: "buffer \<Rightarrow> u64 \<Rightarrow> anti_replay" where
  "anti_replay_init junk rnd =
     \<lparr> max_packet_received = 0, window = junk, anti_replay_seq = rnd div 10 \<rparr>"

definition ar_re_init :: "anti_replay \<Rightarrow> anti_replay" where
  "ar_re_init st = st \<lparr> max_packet_received := 0 \<rparr>"

definition get_new_seq_for_send :: "anti_replay \<Rightarrow> u64 \<times> anti_replay" where
  "get_new_seq_for_send st =
     (anti_replay_seq st, st \<lparr> anti_replay_seq := anti_replay_seq st + 1 \<rparr>)"

text \<open>\<open>window[i % anti_replay_window_size] = v\<close>\<close>

definition win_idx :: "u64 \<Rightarrow> nat" where
  "win_idx i = unat (i mod anti_replay_window_size)"

definition win_set :: "buffer \<Rightarrow> u64 \<Rightarrow> u8 \<Rightarrow> buffer" where
  "win_set w i v = w (win_idx i := v)"

text \<open>\<open>for (u64_t i = ...; i < seq; i++) window[i % size] = 0;\<close>\<close>

function clear_window :: "buffer \<Rightarrow> u64 \<Rightarrow> u64 \<Rightarrow> buffer" where
  "clear_window w i seq =
     (if i < seq then clear_window (win_set w i 0) (i + 1) seq else w)"
  by auto
termination
proof (relation "measure (\<lambda>(w, i, seq). unat seq - unat i)")
  fix w :: buffer and i seq :: u64
  assume "i < seq"
  then have "unat i < unat seq" and "unat (i + 1) = unat i + 1"
    by (auto simp: word_less_nat_alt unat_inc)
  then show "((win_set w i 0, i + 1, seq), (w, i, seq)) \<in> measure (\<lambda>(w, i, seq). unat seq - unat i)"
    by simp
qed simp

definition is_vaild :: "int \<Rightarrow> anti_replay \<Rightarrow> u64 \<Rightarrow> int \<times> anti_replay" where
  "is_vaild disable_anti_replay st seq =
     (if disable_anti_replay \<noteq> 0 then (1, st)
      else if seq = max_packet_received st then (0, st)
      else if seq > max_packet_received st then
        (let w = (if seq - max_packet_received st \<ge> anti_replay_window_size
                  then win_set (\<lambda>_. 0) seq 1
                  else win_set (clear_window (window st) (max_packet_received st + 1) seq) seq 1)
         in (1, st \<lparr> window := w, max_packet_received := seq \<rparr>))
      else if max_packet_received st - seq \<ge> anti_replay_window_size then (0, st)
      else if window st (win_idx seq) = 1 then (0, st)
      else (1, st \<lparr> window := win_set (window st) seq 1 \<rparr>))"

declare clear_window.simps [simp del]

text \<open>The state of the filter after a list of arrivals, the verdict on each,
  and the sequence numbers that were let through.\<close>

fun verdicts :: "('s \<Rightarrow> 'k \<Rightarrow> int \<times> 's) \<Rightarrow> 's \<Rightarrow> 'k list \<Rightarrow> int list" where
  "verdicts f s [] = []"
| "verdicts f s (k # ks) = (let (b, s') = f s k in b # verdicts f s' ks)"

fun accepted_seqs :: "('s \<Rightarrow> 'k \<Rightarrow> int \<times> 's) \<Rightarrow> 's \<Rightarrow> 'k list \<Rightarrow> 'k list" where
  "accepted_seqs f s [] = []"
| "accepted_seqs f s (k # ks) =
     (let (b, s') = f s k in (if b = 1 then k # accepted_seqs f s' ks else accepted_seqs f s' ks))"

section \<open>The interface: a replay filter\<close>

locale replay_filter =
  fixes accept :: "'s \<Rightarrow> 'k \<Rightarrow> int \<times> 's"
    and blocked :: "'s \<Rightarrow> 'k \<Rightarrow> bool"
  assumes accept_blocks: "accept s k = (1, s') \<Longrightarrow> blocked s' k"
    and blocked_refused: "blocked s k \<Longrightarrow> fst (accept s k) \<noteq> 1"
    and blocked_stays: "blocked s j \<Longrightarrow> blocked (snd (accept s k)) j"
begin

lemma accepted_not_blocked:
  "k \<in> set (accepted_seqs accept s ks) \<Longrightarrow> \<not> blocked s k"
proof (induction ks arbitrary: s)
  case (Cons a ks)
  obtain b s' where acc: "accept s a = (b, s')" by (cases "accept s a")
  have later: "\<not> blocked s k" if "k \<in> set (accepted_seqs accept s' ks)"
    using Cons.IH[OF that] blocked_stays[of s k a] by (auto simp: acc)
  have now: "\<not> blocked s a" if "b = 1"
    using blocked_refused[of s a] that by (auto simp: acc)
  show ?case
    using Cons.prems now later by (auto simp: acc split: if_splits)
qed simp

lemma accepted_distinct: "distinct (accepted_seqs accept s ks)"
proof (induction ks arbitrary: s)
  case (Cons a ks)
  obtain b s' where acc: "accept s a = (b, s')" by (cases "accept s a")
  have "a \<notin> set (accepted_seqs accept s' ks)" if "b = 1"
    using accepted_not_blocked[of a s' ks] accept_blocks[of s a s'] that acc by auto
  then show ?case using Cons.IH[of s'] by (simp add: acc)
qed simp

lemma blocked_forever: "blocked s k \<Longrightarrow> k \<notin> set (accepted_seqs accept s ks)"
  using accepted_not_blocked by blast

end

section \<open>The window as a set of refused numbers\<close>

lemma win_idx_unat: "win_idx i = unat i mod 4000"
  by (simp add: win_idx_def anti_replay_window_size_def unat_mod_distrib)

lemma clear_window_eq:
  "clear_window w i seq =
     (\<lambda>j. if \<exists>k. unat i \<le> k \<and> k < unat seq \<and> k mod 4000 = j then 0 else w j)"
proof (induction w i seq rule: clear_window.induct)
  case (1 w i seq)
  show ?case
  proof (cases "i < seq")
    case True
    have i1: "unat (i + 1) = unat i + 1"
      using True by (rule unat_inc)
    have step: "(\<exists>k\<ge>unat i. k < unat seq \<and> k mod 4000 = j) \<longleftrightarrow>
          unat i mod 4000 = j \<or> (\<exists>k\<ge>unat i + 1. k < unat seq \<and> k mod 4000 = j)" for j
      using True by (metis Suc_eq_plus1 Suc_le_eq le_eq_less_or_eq word_less_nat_alt)
    then show ?thesis
      unfolding clear_window.simps[of w i seq] 1[OF True] i1 step
      using True by (auto simp: win_set_def win_idx_unat fun_eq_iff)
  next
    case False
    then show ?thesis
      by (subst clear_window.simps) (auto simp: word_less_nat_alt fun_eq_iff)
  qed
qed

lemma mod_window_inj:
  assumes "a mod 4000 = b mod (4000 :: nat)" "a \<le> b" "b < a + 4000"
  shows "a = b"
proof -
  have "(b - a) mod 4000 = 0" using assms by (metis mod_eq_dvd_iff_nat dvd_imp_mod_0)
  then show ?thesis using assms by (simp add: mod_less)
qed

text \<open>The numbers the window refuses: too old, or marked.\<close>

definition ar_blocked :: "anti_replay \<Rightarrow> u64 \<Rightarrow> bool" where
  "ar_blocked st k \<longleftrightarrow> unat k \<le> unat (max_packet_received st) \<and>
     (unat (max_packet_received st) \<ge> unat k + 4000 \<or> window st (unat k mod 4000) = 1)"

lemma is_vaild_cases:
  obtains (same) "seq = max_packet_received st" "is_vaild 0 st seq = (0, st)"
  | (jump) "unat seq \<ge> unat (max_packet_received st) + 4000"
      "is_vaild 0 st seq = (1, st \<lparr> window := (\<lambda>_. 0) (unat seq mod 4000 := 1), max_packet_received := seq \<rparr>)"
  | (ahead) "unat seq > unat (max_packet_received st)" "unat seq < unat (max_packet_received st) + 4000"
      "is_vaild 0 st seq = (1, st \<lparr> window := (\<lambda>j. if \<exists>k. unat (max_packet_received st) < k \<and> k < unat seq \<and> k mod 4000 = j
          then 0 else window st j) (unat seq mod 4000 := 1), max_packet_received := seq \<rparr>)"
  | (old) "unat (max_packet_received st) \<ge> unat seq + 4000" "is_vaild 0 st seq = (0, st)"
  | (seen) "unat seq < unat (max_packet_received st)" "unat (max_packet_received st) < unat seq + 4000"
      "window st (unat seq mod 4000) = 1" "is_vaild 0 st seq = (0, st)"
  | (late) "unat seq < unat (max_packet_received st)" "unat (max_packet_received st) < unat seq + 4000"
      "window st (unat seq mod 4000) \<noteq> 1"
      "is_vaild 0 st seq = (1, st \<lparr> window := (window st) (unat seq mod 4000 := 1) \<rparr>)"
proof -
  let ?m = "max_packet_received st"
  have d1: "?m < seq \<Longrightarrow> unat (seq - ?m) = unat seq - unat ?m"
    by (simp add: unat_diff)
  have d2: "seq < ?m \<Longrightarrow> unat (?m - seq) = unat ?m - unat seq"
    by (simp add: unat_diff)
  have m1: "?m < seq \<Longrightarrow> unat (?m + 1) = unat ?m + 1"
    by (rule unat_inc)
  have le: "anti_replay_window_size \<le> x \<longleftrightarrow> 4000 \<le> unat x" for x
    by (simp add: anti_replay_window_size_def word_le_nat_alt)
  consider "seq = ?m" | "?m < seq" | "seq < ?m" by fastforce
  then show thesis
  proof cases
    case 1 then show ?thesis using same by (simp add: is_vaild_def)
  next
    case 2
    then have u: "unat ?m < unat seq" by (simp add: word_less_nat_alt)
    show ?thesis
    proof (cases "unat seq \<ge> unat ?m + 4000")
      case True
      then show ?thesis using 2 u
        by (intro jump) (auto simp: is_vaild_def le d1 win_set_def win_idx_unat)
    next
      case False
      then show ?thesis using 2 u
        by (intro ahead) (auto simp: is_vaild_def le d1 win_set_def win_idx_unat clear_window_eq m1 Suc_le_eq)
    qed
  next
    case 3
    then have u: "unat seq < unat ?m" by (simp add: word_less_nat_alt)
    consider (a) "unat ?m \<ge> unat seq + 4000"
      | (b) "unat ?m < unat seq + 4000" "window st (unat seq mod 4000) = 1"
      | (c) "unat ?m < unat seq + 4000" "window st (unat seq mod 4000) \<noteq> 1" by fastforce
    then show ?thesis
    proof cases
      case a then show ?thesis using 3 u by (intro old) (auto simp: is_vaild_def le d2)
    next
      case b then show ?thesis using 3 u
        by (intro seen) (auto simp: is_vaild_def le d2 win_idx_unat)
    next
      case c then show ?thesis using 3 u
        by (intro late) (auto simp: is_vaild_def le d2 win_idx_unat win_set_def)
    qed
  qed
qed

lemma ar_blocked_stays:
  assumes "ar_blocked st j" shows "ar_blocked (snd (is_vaild 0 st k)) j"
proof (cases rule: is_vaild_cases[of k st])
  case ahead
  have "\<not> (unat (max_packet_received st) < i \<and> i < unat k \<and> i mod 4000 = unat j mod 4000)"
    if "unat k < unat j + 4000" for i
    using that assms mod_window_inj[of "unat j" i] by (auto simp: ar_blocked_def)
  then show ?thesis
    using assms ahead by (auto simp: ar_blocked_def not_le) (metis not_le)
qed (use assms in \<open>auto simp: ar_blocked_def\<close>)

lemma ar_accept_blocks: "is_vaild 0 st k = (1, st') \<Longrightarrow> ar_blocked st' k"
  by (cases rule: is_vaild_cases[of k st]) (auto simp: ar_blocked_def)

lemma ar_blocked_refused: "ar_blocked st k \<Longrightarrow> fst (is_vaild 0 st k) \<noteq> 1"
  by (cases rule: is_vaild_cases[of k st]) (auto simp: ar_blocked_def)

interpretation ar: replay_filter "is_vaild 0" ar_blocked
  by unfold_locales (auto intro: ar_accept_blocks ar_blocked_stays dest: ar_blocked_refused)

section \<open>The abstract window\<close>

text \<open>What the filter promises, with no ring: a number is let through when it
  has not been let through before and no number 4000 or more above it has.\<close>

definition sw_step :: "nat set \<Rightarrow> nat \<Rightarrow> bool \<times> nat set" where
  "sw_step S k =
     (if k \<notin> S \<and> (\<forall>m\<in>S. m < k + 4000) then (True, insert k S) else (False, S))"

fun sw_verdicts :: "nat set \<Rightarrow> nat list \<Rightarrow> bool list" where
  "sw_verdicts S [] = []"
| "sw_verdicts S (k # ks) = (let (b, S') = sw_step S k in b # sw_verdicts S' ks)"

definition sw_rel :: "anti_replay \<Rightarrow> nat set \<Rightarrow> bool" where
  "sw_rel st S \<longleftrightarrow> (\<forall>m\<in>S. m \<le> unat (max_packet_received st)) \<and>
     (max_packet_received st \<noteq> 0 \<longrightarrow> unat (max_packet_received st) \<in> S) \<and>
     (\<forall>k\<ge>1. k \<le> unat (max_packet_received st) \<and> unat (max_packet_received st) < k + 4000
        \<longrightarrow> (k \<in> S \<longleftrightarrow> window st (k mod 4000) = 1))"

lemma sw_rel_initial: "max_packet_received st = 0 \<Longrightarrow> sw_rel st {}"
  by (simp add: sw_rel_def)

lemma sw_step_simulated:
  assumes R: "sw_rel st S" and k: "k \<noteq> 0"
  shows "fst (is_vaild 0 st k) = of_bool (fst (sw_step S (unat k))) \<and>
         sw_rel (snd (is_vaild 0 st k)) (snd (sw_step S (unat k)))"
proof -
  let ?m = "unat (max_packet_received st)"
  have k0: "unat k \<noteq> 0" using k by (simp add: unat_eq_zero)
  have le: "m \<le> ?m" if "m \<in> S" for m using R that by (simp add: sw_rel_def)
  have top: "?m \<in> S" if "?m \<noteq> 0" using R that by (auto simp: sw_rel_def)
  have mark: "j \<in> S \<longleftrightarrow> window st (j mod 4000) = 1" if "1 \<le> j" "j \<le> ?m" "?m < j + 4000" for j
    using R that by (simp add: sw_rel_def)
  note inj = mod_window_inj
  show ?thesis
  proof (cases rule: is_vaild_cases[of k st])
    case same
    then show ?thesis using R top k0 by (auto simp: sw_step_def)
  next
    case jump
    have "unat k \<notin> S" "\<forall>m\<in>S. m < unat k + 4000" using jump le by fastforce+
    then have ok: "fst (sw_step S (unat k))" "snd (sw_step S (unat k)) = insert (unat k) S"
      by (simp_all add: sw_step_def)
    have "j = unat k \<longleftrightarrow> unat k mod 4000 = j mod 4000" if "1 \<le> j" "j \<le> unat k" "unat k < j + 4000" for j
      using inj[of j "unat k"] that by auto
    then show ?thesis using jump ok le
      by (auto simp: sw_rel_def) (fastforce dest: le)+
  next
    case ahead
    have "unat k \<notin> S" "\<forall>m\<in>S. m < unat k + 4000" using ahead le by fastforce+
    then have ok: "fst (sw_step S (unat k))" "snd (sw_step S (unat k)) = insert (unat k) S"
      by (simp_all add: sw_step_def)
    have "j \<in> insert (unat k) S \<longleftrightarrow> window (snd (is_vaild 0 st k)) (j mod 4000) = 1"
      if j: "1 \<le> j" "j \<le> unat k" "unat k < j + 4000" for j
    proof -
      have a: "unat k mod 4000 = j mod 4000 \<longleftrightarrow> j = unat k" using inj[of j "unat k"] j by auto
      consider (below) "j \<le> ?m" "j \<noteq> unat k" | (between) "?m < j" "j < unat k" | (at) "j = unat k"
        using j ahead by linarith
      then show ?thesis
      proof cases
        case below
        have "\<not> (\<exists>i. ?m < i \<and> i < unat k \<and> i mod 4000 = j mod 4000)"
        proof
          assume "\<exists>i. ?m < i \<and> i < unat k \<and> i mod 4000 = j mod 4000"
          then obtain i where "?m < i" "i < unat k" "i mod 4000 = j mod 4000" by blast
          then show False using inj[of j i] below j by simp
        qed
        then show ?thesis using ahead a below mark[of j] j by auto
      next
        case between
        then show ?thesis using ahead(3) a le[of j] by auto
      next
        case at
        then show ?thesis using ahead(3) by simp
      qed
    qed
    then show ?thesis using ahead ok le
      by (auto simp: sw_rel_def) (fastforce dest: le)+
  next
    case old
    then have "?m \<in> S" using top by auto
    then show ?thesis using R old by (fastforce simp: sw_step_def)
  next
    case seen
    then have "unat k \<in> S" using mark[of "unat k"] k0 by auto
    then show ?thesis using R seen by (simp add: sw_step_def)
  next
    case late
    have "unat k \<notin> S" "\<forall>m\<in>S. m < unat k + 4000"
      using late le mark[of "unat k"] k0 by fastforce+
    then have ok: "fst (sw_step S (unat k))" "snd (sw_step S (unat k)) = insert (unat k) S"
      by (simp_all add: sw_step_def)
    have "j \<in> insert (unat k) S \<longleftrightarrow> window (snd (is_vaild 0 st k)) (j mod 4000) = 1"
      if j: "1 \<le> j" "j \<le> ?m" "?m < j + 4000" for j
    proof (cases "j = unat k")
      case False
      have "unat k mod 4000 \<noteq> j mod 4000"
        using inj[of "unat k" j] inj[of j "unat k"] j late False by (cases "j \<le> unat k") auto
      then show ?thesis using late mark[OF j] False by simp
    qed (use late in simp)
    moreover have "\<forall>m\<in>insert (unat k) S. m \<le> ?m" using le late by auto
    moreover have "?m \<in> S" if "max_packet_received st \<noteq> 0"
      using top that by (simp add: unat_eq_zero)
    ultimately show ?thesis using late ok by (simp add: sw_rel_def)
  qed
qed

lemma sw_verdicts_simulated:
  "sw_rel st S \<Longrightarrow> 0 \<notin> set ks \<Longrightarrow>
     verdicts (is_vaild 0) st ks = map of_bool (sw_verdicts S (map unat ks))"
proof (induction ks arbitrary: st S)
  case (Cons k ks)
  then have "k \<noteq> 0" by auto
  from sw_step_simulated[OF Cons.prems(1) this] Cons
  show ?case by (auto simp: split_beta Let_def)
qed simp

section \<open>Properties\<close>

text \<open>With the filter enabled, no sequence number is ever let through
  twice, whatever the state it starts from (its uninitialised window included)
  and whatever sequence of packets arrives.\<close>

theorem replay_never_accepted_twice:
  "distinct (accepted_seqs (is_vaild 0) st seqs)"
  by (rule ar.accepted_distinct)

text \<open>C8. From a fresh or recovered connection the verdict on every packet of
  an arrival sequence is that of the abstract window: accepted exactly when the
  number is new and no number 4000 or more above it was accepted. In
  particular the uninitialised window never matters. (The sender's counter
  starts at a random number; 0 is left out because the code refuses it as equal
  to the initial maximum.)\<close>

theorem replay_window_refines_spec:
  assumes "0 \<notin> set seqs"
  shows "verdicts (is_vaild 0) (ar_re_init st) seqs
         = map of_bool (sw_verdicts {} (map unat seqs))"
  using assms by (intro sw_verdicts_simulated sw_rel_initial) (simp_all add: ar_re_init_def)

lemma replay_window_refines_spec_witness:
  "verdicts (is_vaild 0) (ar_re_init (anti_replay_init (\<lambda>_. 1) 77)) [5, 3, 5, 4003, 4, 3]
     = [1, 1, 0, 1, 1, 0]"
  using replay_window_refines_spec
    [of "[5, 3, 5, 4003, 4, 3]" "anti_replay_init (\<lambda>_. 1) 77"]
  by (simp add: sw_step_def)

end
