(* ===== verification/World.thy ===== *)
theory World
  imports Prelude
begin

text \<open>
  The environment the program runs in, as one record that every operation with
  an effect threads through: the readings of the wall clock and of
  /dev/urandom, the results of the system calls and the log of the calls made.
  On top of it the two services of common.cpp that hide it: a clock that never
  goes back and the random numbers.
\<close>

section \<open>The environment\<close>

datatype sysop =
    SysSendto int bytes bytes     \<comment> \<open>socket, data, destination address image\<close>
  | SysSend int bytes             \<comment> \<open>connected socket, data\<close>
  | SysRawSend bytes              \<comment> \<open>a packet handed to the raw socket\<close>
  | SysClose int
  | SysSocket int                 \<comment> \<open>a fresh UDP socket of an address family; the result is its fd\<close>
  | SysFcntlGetfl int
  | SysFcntlSetfl int int         \<comment> \<open>fd, flags\<close>
  | SysSetsockopt int string int  \<comment> \<open>fd, option, value\<close>
  | SysConnect int bytes
  | SysBind int bytes
  | SysTimerfdCreate
  | SysTimerfdSettime int int     \<comment> \<open>fd, period in ms\<close>
  | SysEpollAdd int int u64       \<comment> \<open>epoll fd, fd watched, 64 bit user data\<close>
  | SysSocketType int int         \<comment> \<open>address family, socket type\<close>
  | SysListen int
  | SysGetsockname int
  | SysAttachFilter int "(nat \<times> nat \<times> nat \<times> u32) list"  \<comment> \<open>fd, packet filter program\<close>
  | SysIoctl int string string    \<comment> \<open>fd, request, interface name\<close>
  | SysRecv int nat               \<comment> \<open>fd, size of the buffer\<close>
  | SysRead int nat
  | SysOpen string
  | SysMkfifo string
  | SysFstat int
  | SysSleep int
  | SysSocketProto int int int    \<comment> \<open>address family, socket type, protocol\<close>
  | SysEpollCreate
  | SysPopen string               \<comment> \<open>a command handed to the shell\<close>
  | SysFread
  | SysPclose

record world =
  raw_time :: "nat \<Rightarrow> u64"    \<comment> \<open>\<open>(u64_t)(ev_time() * 1000 * 1000)\<close>, reading by reading\<close>
  time_i :: nat
  rand_read :: "nat \<Rightarrow> nat \<Rightarrow> bytes"  \<comment> \<open>the bytes each \<open>read\<close> of the random device returns for a size\<close>
  rand_i :: nat
  sys_ret :: "nat \<Rightarrow> int"     \<comment> \<open>the result of each system call\<close>
  sys_out :: "nat \<Rightarrow> bytes list"  \<comment> \<open>what each system call writes through its pointer arguments\<close>
  sys_i :: nat
  sys_log :: "sysop list"
  value_fix :: u64            \<comment> \<open>the two static variables of \<open>get_current_time_us\<close>\<close>
  largest_value :: u64

definition syscall :: "sysop \<Rightarrow> world \<Rightarrow> int \<times> world" where
  "syscall op w = (sys_ret w (sys_i w),
     w \<lparr> sys_i := sys_i w + 1, sys_log := sys_log w @ [op] \<rparr>)"

text \<open>Calls that fill a buffer of \<open>n\<close> bytes (\<open>recv\<close>, \<open>read\<close>): \<open>-1\<close>, or the number of
  bytes written, which never exceeds \<open>n\<close>.\<close>

definition sys_receive :: "sysop \<Rightarrow> nat \<Rightarrow> world \<Rightarrow> int \<times> bytes \<times> world" where
  "sys_receive op n w =
     (let out = sys_out w (sys_i w);
          bs = take n (case out of [] \<Rightarrow> [] | b # _ \<Rightarrow> b);
          (rc, w) = syscall op w
      in if rc < 0 then (-1, [], w) else (int (length bs), bs, w))"

text \<open>The second buffer of such a call (an address).\<close>

definition sys_second :: "world \<Rightarrow> bytes" where
  "sys_second w = (case sys_out w (sys_i w) of _ # a # _ \<Rightarrow> a | _ \<Rightarrow> [])"

lemma syscall_simps [simp]:
  "sys_log (snd (syscall op w)) = sys_log w @ [op]"
  "fst (syscall op w) = sys_ret w (sys_i w)"
  "raw_time (snd (syscall op w)) = raw_time w"
  "largest_value (snd (syscall op w)) = largest_value w"
  "value_fix (snd (syscall op w)) = value_fix w"
  by (simp_all add: syscall_def)

text \<open>An environment for the examples: all readings zero, every call returns 0.\<close>

definition example_world :: world where
  "example_world = \<lparr> raw_time = (\<lambda>_. 0), time_i = 0, rand_read = (\<lambda>_ n. take n [1, 2, 3, 4, 5, 6, 7, 8]), rand_i = 0,
     sys_ret = (\<lambda>_. 0), sys_out = (\<lambda>_. []), sys_i = 0, sys_log = [], value_fix = 0, largest_value = 0 \<rparr>"

section \<open>The clock\<close>

definition get_current_time_us :: "world \<Rightarrow> u64 \<times> world" where
  "get_current_time_us w =
     (let raw_value = raw_time w (time_i w);
          w = w \<lparr> time_i := time_i w + 1 \<rparr>;
          fixed_value = raw_value + value_fix w;
          w = (if fixed_value < largest_value w
               then w \<lparr> value_fix := value_fix w + (largest_value w - fixed_value) \<rparr>
               else w \<lparr> largest_value := fixed_value \<rparr>)
      in (raw_value + value_fix w, w))"

definition get_current_time :: "world \<Rightarrow> u64 \<times> world" where
  "get_current_time w = (let (t, w) = get_current_time_us w in (t div 1000, w))"

text \<open>The interface the users of the clock rely on: every reading is at least
  the floor of the state, and becomes the floor of the next one.\<close>

locale monotone_clock =
  fixes read_clock :: "'s \<Rightarrow> 'v :: linorder \<times> 's"
    and clock_floor :: "'s \<Rightarrow> 'v"
  assumes read_ge: "read_clock s = (v, s') \<Longrightarrow> clock_floor s \<le> v"
    and read_floor: "read_clock s = (v, s') \<Longrightarrow> clock_floor s' = v"
begin

primrec readings :: "nat \<Rightarrow> 's \<Rightarrow> 'v list" where
  "readings 0 s = []"
| "readings (Suc n) s = (let (v, s') = read_clock s in v # readings n s')"

lemma readings_ge: "v \<in> set (readings n s) \<Longrightarrow> clock_floor s \<le> v"
proof (induction n arbitrary: s)
  case (Suc n)
  obtain u s' where r: "read_clock s = (u, s')" by (cases "read_clock s")
  show ?case
    using Suc.prems Suc.IH[of s'] read_ge[OF r] read_floor[OF r] by (auto simp: r)
qed simp

lemma readings_sorted: "sorted (readings n s)"
proof (induction n arbitrary: s)
  case (Suc n)
  obtain u s' where r: "read_clock s = (u, s')" by (cases "read_clock s")
  show ?case
    using Suc.IH[of s'] readings_ge[of _ n s'] read_floor[OF r] by (auto simp: r)
qed simp

end

lemma get_current_time_us_floor:
  "get_current_time_us w = (t, w') \<Longrightarrow> largest_value w \<le> t \<and> largest_value w' = t"
  by (auto simp: get_current_time_us_def Let_def split: if_splits)

lemma word_div_mono: "(a :: u64) \<le> b \<Longrightarrow> a div 1000 \<le> b div 1000"
  by (simp add: word_le_nat_alt unat_div div_le_mono)

definition now_floor :: "world \<Rightarrow> u64" where
  "now_floor w = largest_value w div 1000"

lemma get_current_time_floor:
  "get_current_time w = (t, w') \<Longrightarrow> now_floor w \<le> t \<and> now_floor w' = t"
  using get_current_time_us_floor[of w]
  by (auto simp: get_current_time_def now_floor_def Let_def word_div_mono split: prod.splits)

interpretation clock_us: monotone_clock get_current_time_us largest_value
  by unfold_locales (auto dest: get_current_time_us_floor)

interpretation clock_ms: monotone_clock get_current_time now_floor
  by unfold_locales (auto dest: get_current_time_floor)

lemma get_current_time_other [simp]:
  "sys_log (snd (get_current_time w)) = sys_log w"
  "sys_i (snd (get_current_time w)) = sys_i w"
  "sys_ret (snd (get_current_time w)) = sys_ret w"
  "rand_read (snd (get_current_time w)) = rand_read w"
  "rand_i (snd (get_current_time w)) = rand_i w"
  "raw_time (snd (get_current_time w)) = raw_time w"
  by (simp_all add: get_current_time_def get_current_time_us_def Let_def)

primrec time_readings :: "nat \<Rightarrow> world \<Rightarrow> u64 list" where
  "time_readings 0 w = []"
| "time_readings (Suc n) w = (let (t, w) = get_current_time w in t # time_readings n w)"

lemma time_readings_3: "get_current_time w = (t1, w1) \<Longrightarrow> get_current_time w1 = (t2, w2) \<Longrightarrow> get_current_time w2 = (t3, w3) \<Longrightarrow>
   time_readings 3 w = [t1, t2, t3]"
  by (simp add: numeral_3_eq_3)

lemma time_readings_eq: "time_readings n w = clock_ms.readings n w"
  by (induction n arbitrary: w) (auto split: prod.splits)

text \<open>C17. The clock never goes back: whatever the wall clock does (steps
  backwards and wrap-around of the 64 bit counter included), the successive
  values of \<open>get_current_time\<close> are sorted and none is below the last value
  returned before.\<close>

theorem clock_never_goes_back:
  "sorted (now_floor w # time_readings n w)"
  using clock_ms.readings_sorted[of n w] clock_ms.readings_ge[of _ n w]
  by (auto simp: time_readings_eq)

section \<open>Random numbers\<close>

definition get_true_random_number_64 :: "world \<Rightarrow> (u64 \<times> world) option" where
  "get_true_random_number_64 w =
     (let bs = rand_read w (rand_i w) 8; w = w \<lparr> rand_i := rand_i w + 1 \<rparr>
      in if length bs \<noteq> 8 then None else Some (of_be64 (rev bs), w))"

definition get_true_random_number :: "world \<Rightarrow> (u32 \<times> world) option" where
  "get_true_random_number w =
     (let bs = rand_read w (rand_i w) 4; w = w \<lparr> rand_i := rand_i w + 1 \<rparr>
      in if length bs \<noteq> 4 then None else Some (of_be32 (rev bs), w))"

partial_function (option) get_true_random_number_nz :: "world \<Rightarrow> (u32 \<times> world) option" where
  [code]: "get_true_random_number_nz w =
     Option.bind (get_true_random_number w)
       (\<lambda>rw. if fst rw = 0 then get_true_random_number_nz (snd rw) else Some rw)"

lemma rand_other:
  assumes "get_true_random_number w = Some (r, w')"
  shows "w' = w \<lparr> rand_i := rand_i w + 1 \<rparr>"
  using assms by (auto simp: get_true_random_number_def Let_def split: if_splits)

lemma rand_nz_result:
  "get_true_random_number_nz w = Some rw \<Longrightarrow>
     fst rw \<noteq> 0 \<and> (\<exists>n. snd rw = w \<lparr> rand_i := n \<rparr>)"
proof (erule get_true_random_number_nz.raw_induct
    [where P = "\<lambda>w rw. fst rw \<noteq> 0 \<and> (\<exists>n. snd rw = w \<lparr> rand_i := n \<rparr>)", rotated])
  fix f w y
  assume IH: "\<And>x z. f x = Some z \<Longrightarrow> fst z \<noteq> 0 \<and> (\<exists>n. snd z = x \<lparr> rand_i := n \<rparr>)"
    and "Option.bind (get_true_random_number w)
           (\<lambda>rw. if fst rw = 0 then f (snd rw) else Some rw) = Some y"
  then obtain s v where s: "get_true_random_number w = Some (s, v)"
    and f: "(if s = 0 then f v else Some (s, v)) = Some y"
    by (cases "get_true_random_number w") (auto split: if_splits)
  show "fst y \<noteq> 0 \<and> (\<exists>n. snd y = w \<lparr> rand_i := n \<rparr>)"
  proof (cases "s = 0")
    case True
    then show ?thesis using IH[of v y] f rand_other[OF s] by auto
  next
    case False
    then show ?thesis using f rand_other[OF s] by auto
  qed
qed

text \<open>The loop ends as soon as the device delivers four bytes that are not all
  zero, with every earlier read complete.\<close>

lemma rand_nz_returns:
  assumes "\<And>i. length (rand_read w i 4) = 4"
    and "of_be32 (rev (rand_read w n 4)) \<noteq> 0" "rand_i w \<le> n"
  shows "\<exists>r w'. get_true_random_number_nz w = Some (r, w')"
  using assms
proof (induction "n - rand_i w" arbitrary: w)
  case 0
  then show ?case
    by (subst get_true_random_number_nz.simps) (auto simp: get_true_random_number_def)
next
  case (Suc m)
  let ?w = "w \<lparr> rand_i := rand_i w + 1 \<rparr>"
  have "\<exists>r w'. get_true_random_number_nz ?w = Some (r, w')"
    using Suc.prems Suc.hyps(2) by (intro Suc.hyps(1)) auto
  then show ?case using Suc.prems
    by (subst get_true_random_number_nz.simps) (auto simp: get_true_random_number_def)
qed

end
