(* ===== verification/Wire.thy ===== *)
theory Wire
  imports Prelude
begin

text \<open>
  The byte-level helpers of common.cpp and common.h: 16, 32 and 64 bit fields
  in network order, the three identifiers of a handshake message, serial number
  comparison, and the images of socket addresses. The host is little-endian,
  as in every build of the repository.
\<close>

section \<open>Fields in network order\<close>

text \<open>\<open>htonl\<close>/\<open>ntohl\<close> and \<open>htons\<close>/\<open>ntohs\<close> on a little-endian host.\<close>

definition htonl :: "u32 \<Rightarrow> u32" where "htonl w = of_be32 (rev (be32 w))"
definition htons :: "u16 \<Rightarrow> u16" where "htons w = of_be16 (rev (be16 w))"

lemma htonl_htonl [simp, roundtrip_simps]: "htonl (htonl w) = w"
  by (simp add: htonl_def be32_of_be32)

lemma htons_htons [simp, roundtrip_simps]: "htons (htons w) = w"
  by (simp add: htons_def be16_of_be16)

definition pack_u64 :: "u32 \<Rightarrow> u32 \<Rightarrow> u64" where
  "pack_u64 a b = push_bit 32 (ucast a) + ucast b"

definition get_u64_h :: "u64 \<Rightarrow> u32" where
  "get_u64_h a = ucast (drop_bit 32 a)"

definition get_u64_l :: "u64 \<Rightarrow> u32" where
  "get_u64_l a = ucast (drop_bit 32 (push_bit 32 a))"

definition ntoh64 :: "u64 \<Rightarrow> u64" where
  "ntoh64 a = pack_u64 (htonl (get_u64_l a)) (htonl (get_u64_h a))"

definition hton64 :: "u64 \<Rightarrow> u64" where
  "hton64 a = ntoh64 a"

text \<open>\<open>p\<close> is the memory from the pointer on.\<close>

definition write_u16 :: "bytes \<Rightarrow> u16 \<Rightarrow> bytes" where
  "write_u16 p w = (p [1 := ucast (w AND 0xff)]) [0 := ucast (drop_bit 8 w)]"

definition read_u16 :: "bytes \<Rightarrow> u16" where
  "read_u16 p = (let res = ucast (p ! 0); res = ucast (p ! 1) + push_bit 8 res in res)"

definition write_u32 :: "bytes \<Rightarrow> u32 \<Rightarrow> bytes" where
  "write_u32 p l =
     (((p [3 := ucast (l AND 0xff)])
          [2 := ucast (drop_bit 8 l AND 0xff)])
          [1 := ucast (drop_bit 16 l AND 0xff)])
          [0 := ucast (drop_bit 24 l AND 0xff)]"

definition read_u32 :: "bytes \<Rightarrow> u32" where
  "read_u32 p =
     (let res = ucast (p ! 0);
          res = ucast (p ! 1) + push_bit 8 res;
          res = ucast (p ! 2) + push_bit 8 res;
          res = ucast (p ! 3) + push_bit 8 res
      in res)"

section \<open>Handshake identifiers and serial numbers\<close>

definition numbers_to_char :: "u32 \<Rightarrow> u32 \<Rightarrow> u32 \<Rightarrow> bytes" where
  "numbers_to_char id1 id2 id3 = be32 id1 @ be32 id2 @ be32 id3"

text \<open>\<open>data\<close> is the message, of length \<open>len\<close>.\<close>

definition char_to_numbers :: "bytes \<Rightarrow> int \<times> u32 \<times> u32 \<times> u32" where
  "char_to_numbers data =
     (if length data < 12 then (-1, 0, 0, 0)
      else (0, of_be32 data, of_be32 (drop 4 data), of_be32 (drop 8 data)))"

definition larger_than_u32 :: "u32 \<Rightarrow> u32 \<Rightarrow> bool" where
  "larger_than_u32 a b \<longleftrightarrow> sint (a - b) > 0"

definition larger_than_u16 :: "u16 \<Rightarrow> u16 \<Rightarrow> bool" where
  "larger_than_u16 a b \<longleftrightarrow> sint (a - b) > 0"

text \<open>The interface of serial number arithmetic: a strict comparison in which no
  two numbers are each after the other.\<close>

locale serial_order =
  fixes after :: "'a :: len word \<Rightarrow> 'a word \<Rightarrow> bool"
  assumes after_dist: "after a b \<longleftrightarrow> sint (a - b) > 0"
begin

lemma irrefl: "\<not> after a a"
  by (simp add: after_dist)

lemma asym: "after a b \<Longrightarrow> \<not> after b a"
proof
  assume ab: "after a b" and ba: "after b a"
  have "sint (- (a - b)) = signed_take_bit (LENGTH('a) - 1) (- sint (a - b))"
    by (rule sint_word_minus)
  then have "sint (b - a) = - sint (a - b)"
    using ab sint_lt [of "a - b"]
    by (simp add: after_dist signed_take_bit_int_eq_self)
  then show False using ab ba by (simp add: after_dist)
qed

lemma shift: "after (a + k) (b + k) = after a b"
  by (simp add: after_dist)

end

interpretation serial32: serial_order larger_than_u32
  by unfold_locales (rule larger_than_u32_def)

interpretation serial16: serial_order larger_than_u16
  by unfold_locales (rule larger_than_u16_def)

lemma larger_than_u32_iff:
  "larger_than_u32 (a + k) a \<longleftrightarrow> 0 < unat k \<and> unat k < 2 ^ 31"
proof -
  obtain n where n: "unat k = n" by blast
  then have u: "uint k = int n" by (metis of_nat_unat)
  have "n < 2 ^ 32" using unsigned_less[of k, where ?'a = nat] n by simp
  then show ?thesis
    unfolding larger_than_u32_def add_diff_cancel_left' sint_cases32 u n by auto
qed

section \<open>Round trips of the fields\<close>

lemma write_u16_be: "2 \<le> length p \<Longrightarrow> write_u16 p w = be16 w @ drop 2 p"
  by (cases p; cases "tl p") (auto simp: write_u16_def be16_def)

lemma read_u16_be: "read_u16 p = of_be16 p"
proof -
  have "ucast (p ! 1 :: u8) AND push_bit 8 (ucast (p ! 0 :: u8)) = (0 :: u16)"
    by (rule bit_word_eqI) (auto simp: bit_simps dest: bit_imp_le_length)
  then show ?thesis
    by (simp add: read_u16_def of_be16_def Let_def word_add_disjoint or.commute)
qed

lemma add_low_byte32: "ucast (b :: u8) + push_bit 8 (x :: u32) = ucast b OR push_bit 8 x"
  by (rule word_add_disjoint, rule bit_word_eqI) (auto simp: bit_simps dest: bit_imp_le_length)

lemma read_u32_be: "4 \<le> length p \<Longrightarrow> read_u32 p = of_be32 p"
proof -
  assume "4 \<le> length p"
  moreover
  have "ucast (push_bit 8 (ucast a) OR ucast b :: u16) = (push_bit 8 (ucast a) OR ucast b :: u32)"
    for a b :: u8
    by (rule bit_word_eqI) (auto simp: bit_simps dest: bit_imp_le_length)
  ultimately show ?thesis
    by (simp add: read_u32_def Let_def add_low_byte32 of_be32_def of_be16_def
        push_bit_or or.assoc or.commute or.left_commute del: add.commute)
qed

lemma write_u32_be: "4 \<le> length p \<Longrightarrow> write_u32 p w = be32 w @ drop 4 p"
proof -
  assume "4 \<le> length p"
  then obtain a b c d q where "p = a # b # c # d # q"
    by (auto simp: Suc_le_length_iff eval_nat_numeral)
  moreover have "ucast (drop_bit 8 (ucast (drop_bit 16 w) :: u16)) = (ucast (drop_bit 24 w) :: u8)"
    "ucast (ucast (drop_bit 16 w) :: u16) = (ucast (drop_bit 16 w) :: u8)"
    "ucast (drop_bit 8 (ucast w :: u16)) = (ucast (drop_bit 8 w) :: u8)"
    "ucast (ucast w :: u16) = (ucast w :: u8)"
    by (rule bit_word_eqI; auto simp: bit_simps add.commute dest: bit_imp_le_length)+
  ultimately show ?thesis
    by (simp add: write_u32_def be32_def be16_def)
qed

lemma pack_u64_be:
  "pack_u64 a b = of_be64 (be32 a @ be32 b)"
proof -
  have "push_bit 32 (ucast (a :: u32)) AND ucast (b :: u32) = (0 :: u64)"
    by (rule bit_word_eqI) (auto simp: bit_simps dest: bit_imp_le_length)
  then show ?thesis by (simp add: pack_u64_def of_be64_def word_add_disjoint)
qed

lemma get_u64_be: "be32 (get_u64_h a) @ be32 (get_u64_l a) = be64 a"
proof -
  have "get_u64_l a = ucast a"
    unfolding get_u64_l_def by (rule bit_word_eqI) (auto simp: bit_simps)
  then show ?thesis by (simp add: be64_def get_u64_h_def)
qed

lemma hton64_image: "be64 (hton64 a) = rev (be64 a)"
proof -
  have "be64 a = be32 (get_u64_h a) @ be32 (get_u64_l a)"
    by (simp add: get_u64_be)
  then show ?thesis
    by (simp add: hton64_def ntoh64_def pack_u64_be be64_of_be64 htonl_def be32_of_be32)
qed

section \<open>Properties\<close>

text \<open>Writing a 16 or 32 bit field and reading it back gives the value, the
  field is in network order, and the bytes after it are untouched.\<close>

theorem field_write_read:
  assumes "4 \<le> length p"
  shows "read_u16 (write_u16 p v) = v \<and> read_u32 (write_u32 p w) = w
       \<and> write_u16 p v = be16 v @ drop 2 p \<and> write_u32 p w = be32 w @ drop 4 p"
  using assms by (simp add: write_u16_be write_u32_be read_u16_be read_u32_be)

lemma field_write_read_witness:
  "read_u16 (write_u16 [9, 9, 9, 9, 7] 513) = 513 \<and> read_u32 (write_u32 [9, 9, 9, 9, 7] 1) = 1
       \<and> write_u16 [9, 9, 9, 9, 7] 513 = be16 513 @ drop 2 [9, 9, 9, 9, 7]
       \<and> write_u32 [9, 9, 9, 9, 7] 1 = be32 1 @ drop 4 [9, 9, 9, 9, 7]"
  by (rule field_write_read) simp

text \<open>The three identifiers of a handshake message survive the trip, also
  when bytes follow them; a message shorter than twelve bytes is refused; the
  64 bit byte swap is an involution that reverses the memory image.\<close>

theorem identifiers_roundtrip:
  "char_to_numbers (numbers_to_char a b c @ rest) = (0, a, b, c)
   \<and> (fst (char_to_numbers msg) = 0 \<longleftrightarrow> 12 \<le> length msg)
   \<and> ntoh64 (hton64 x) = x \<and> be64 (hton64 x) = rev (be64 x)"
proof -
  have "be64 (hton64 (hton64 x)) = be64 x" by (simp add: hton64_image)
  then have "ntoh64 (hton64 x) = x"
    using of_be_be(3) by (metis hton64_def)
  then show ?thesis
    by (auto simp: char_to_numbers_def numbers_to_char_def hton64_image)
qed

text \<open>Serial number comparison survives wrap-around: moving forward by 1 up
  to \<open>2^31 - 1\<close> always counts as larger, nothing else does, and no two numbers
  are each larger than the other.\<close>

theorem serial_comparison:
  "(larger_than_u32 (a + k) a \<longleftrightarrow> 0 < unat k \<and> unat k < 2 ^ 31)
   \<and> \<not> (larger_than_u32 a b \<and> larger_than_u32 b a)
   \<and> \<not> (larger_than_u16 c d \<and> larger_than_u16 d c)"
  using larger_than_u32_iff serial32.asym serial16.asym by blast

end
