(* ===== verification/Checksum.thy ===== *)
theory Checksum
  imports Wire
begin

text \<open>
  The Internet checksum of common.cpp (\<open>csum\<close>, \<open>csum_with_header\<close>) over raw
  memory of a little-endian host, and the two string hashes (djb2, sdbm). The
  64 bit accumulator \<open>long sum\<close> is a natural number: a message of an \<open>int\<close>
  length cannot overflow it.
\<close>

section \<open>Internet checksum\<close>

text \<open>The two loops: 16 bit words as the host reads them, a last odd byte
  zero-extended.\<close>

fun csum_words :: "bytes \<Rightarrow> nat" where
  "csum_words (a # b # ptr) = unat a + 256 * unat b + csum_words ptr"
| "csum_words [a] = unat a"
| "csum_words [] = 0"

definition csum_fold :: "nat \<Rightarrow> u16" where
  "csum_fold s =
     (let s = s div 65536 + s mod 65536;
          s = s + s div 65536
      in NOT (word_of_nat s))"

definition csum :: "bytes \<Rightarrow> u16" where
  "csum ptr = csum_fold (csum_words ptr)"

definition csum_with_header :: "bytes \<Rightarrow> bytes \<Rightarrow> u16 option" where
  "csum_with_header header ptr =
     (if length header mod 2 = 0 then Some (csum_fold (csum_words header + csum_words ptr)) else None)"

text \<open>A checksum is stored in the packet as the host holds it.\<close>

definition le16 :: "u16 \<Rightarrow> bytes" where "le16 w = rev (be16 w)"

lemma length_le16 [simp, len_simps]: "length (le16 w) = 2"
  by (simp add: le16_def)

lemma csum_words_append:
  "even (length xs) \<Longrightarrow> csum_words (xs @ ys) = csum_words xs + csum_words ys"
  by (induction xs rule: csum_words.induct) auto

lemma csum_with_header_append:
  "even (length h) \<Longrightarrow> csum_with_header h p = Some (csum (h @ p))"
  by (simp add: csum_with_header_def csum_def csum_words_append even_iff_mod_2_eq_zero)

lemma csum_words_bound: "csum_words xs \<le> 65535 * ((length xs + 1) div 2)"
proof (induction xs rule: csum_words.induct)
  case (1 a b ptr)
  have "unat a < 256" "unat b < 256"
    using unsigned_less[of a, where ?'a = nat] unsigned_less[of b, where ?'a = nat] by simp_all
  then show ?case using 1 by simp
next
  case (2 a)
  have "unat a < 256" using unsigned_less[of a, where ?'a = nat] by simp
  then show ?case by simp
qed simp

lemma csum_words_le16 [simp]: "csum_words (le16 w) = unat w"
proof -
  have "unat (ucast (drop_bit 8 w) :: u8) = unat w div 256"
    using unsigned_less[of w, where ?'a = nat]
    by (simp add: unsigned_ucast_eq drop_bit_eq_div take_bit_eq_mod unat_div)
  moreover have "unat (ucast w :: u8) = unat w mod 256"
    by (simp add: unsigned_ucast_eq take_bit_eq_mod)
  ultimately show ?thesis by (simp add: le16_def be16_def)
qed

text \<open>The fold is the negated remainder modulo 65535, with 65535 for the
  nonzero multiples.\<close>

definition ones_sum :: "nat \<Rightarrow> nat" where
  "ones_sum s = (if s = 0 then 0 else (s - 1) mod 65535 + 1)"

lemma csum_fold_unat:
  assumes "s < 2 ^ 32" shows "unat (csum_fold s) = 65535 - ones_sum s"
proof -
  define a b where "a = s div 65536" and "b = s mod 65536"
  have s: "s = 65536 * a + b" and b: "b < 65536" and a: "a < 65536"
    using assms by (auto simp: a_def b_def less_mult_imp_div_less)
  define t where "t = a + b + (a + b) div 65536"
  have "t mod 65536 = ones_sum s"
  proof (cases "a + b < 65536")
    case True
    then have t: "t = a + b" by (simp add: t_def)
    show ?thesis
    proof (cases "s = 0")
      case False
      then have "a + b \<noteq> 0" using s by auto
      then have "s - 1 = (a + b - 1) + 65535 * a" using s by auto
      then have "(s - 1) mod 65535 = (a + b - 1) mod 65535" by simp
      then show ?thesis using True t False \<open>a + b \<noteq> 0\<close> by (simp add: ones_sum_def)
    qed (use s t in \<open>simp add: ones_sum_def\<close>)
  next
    case False
    then have d: "(a + b) div 65536 = 1" using a b by (intro div_nat_eqI) auto
    have t: "t = a + b + 1" by (simp add: t_def d)
    have "s - 1 = (a + b - 65536) + 65535 * (a + 1)" using s False by auto
    then have "(s - 1) mod 65535 = (a + b - 65536) mod 65535" by (metis mod_mult_self2)
    moreover have "a + b - 65536 < 65535" using a b by linarith
    moreover have "t mod 65536 = a + b - 65536 + 1"
    proof -
      obtain n where "a + b = 65536 + n" "n < 65535"
        using False a b by (metis add_diff_inverse \<open>a + b - 65536 < 65535\<close>)
      moreover have "(Suc n + 65536) mod 65536 = Suc n mod 65536" by (rule mod_add_self2)
      ultimately show ?thesis using t by (simp add: add.commute)
    qed
    ultimately show ?thesis using s False by (auto simp: ones_sum_def)
  qed
  moreover have "csum_fold s = NOT (word_of_nat t)"
    by (simp add: csum_fold_def Let_def t_def a_def b_def)
  moreover have "unat (NOT w) = 65535 - unat w" for w :: u16
  proof -
    have "NOT w = - 1 - w" by (simp add: not_eq_complement)
    then show ?thesis
      using unat_diff[of w "-1"] by (simp add: unsigned_minus_1_eq_mask mask_eq_exp_minus_1)
  qed
  ultimately show ?thesis by (simp add: unat_of_nat)
qed

lemma ones_sum_le: "ones_sum s \<le> 65535"
  by (auto simp: ones_sum_def)

lemma csum_zero_iff:
  assumes "s < 2 ^ 32" shows "csum_fold s = 0 \<longleftrightarrow> s \<noteq> 0 \<and> s mod 65535 = 0"
proof -
  have "csum_fold s = 0 \<longleftrightarrow> unat (csum_fold s) = 0" by (simp add: unat_eq_zero)
  also have "\<dots> \<longleftrightarrow> ones_sum s = 65535"
    using csum_fold_unat[OF assms] ones_sum_le[of s] by auto
  also have "\<dots> \<longleftrightarrow> s \<noteq> 0 \<and> (s - 1) mod 65535 = 65534"
    by (auto simp: ones_sum_def)
  also have "\<dots> \<longleftrightarrow> s \<noteq> 0 \<and> s mod 65535 = 0"
    by (cases s) (auto simp: mod_Suc)
  finally show ?thesis .
qed

lemma csum_fold_cancels:
  assumes "s + 65535 < 2 ^ 32"
  shows "csum_fold (s + unat (csum_fold s)) = 0"
proof -
  have c: "unat (csum_fold s) = 65535 - ones_sum s"
    using assms by (intro csum_fold_unat) simp
  have "(s + (65535 - ones_sum s)) mod 65535 = 0"
  proof (cases "s = 0")
    case False
    then obtain n where s: "s = Suc n" by (cases s) auto
    have r: "n mod 65535 < 65535" by simp
    have "s + (65535 - ones_sum s) = n - n mod 65535 + 65535"
      using r unfolding s ones_sum_def
      by (simp add: Suc_diff_le mod_less_eq_dividend)
    then show ?thesis by (simp add: minus_mod_eq_mult_div)
  qed (simp add: ones_sum_def)
  moreover have "s + (65535 - ones_sum s) \<noteq> 0"
    by (cases "s = 0") (auto simp: ones_sum_def)
  ultimately show ?thesis
    using assms by (subst csum_zero_iff) (auto simp: c)
qed

section \<open>String hashes\<close>

definition djb2 :: "bytes \<Rightarrow> u32" where
  "djb2 str = htonl (fold (\<lambda>c hash. (push_bit 5 hash + hash) XOR ucast c) str 5381)"

definition sdbm :: "bytes \<Rightarrow> u32" where
  "sdbm str = fold (\<lambda>c hash. ucast c + push_bit 6 hash + push_bit 16 hash - hash) str 0"

lemma csum_insert_zero:
  assumes "even (length pre)" "length pre + length post < 65534"
  shows "csum (pre @ le16 (csum (pre @ [0, 0] @ post)) @ post) = 0"
proof -
  let ?s = "csum_words pre + csum_words post"
  have "?s \<le> 65535 * ((length pre + 1) div 2) + 65535 * ((length post + 1) div 2)"
    using csum_words_bound[of pre] csum_words_bound[of post] by linarith
  also have "\<dots> \<le> 65535 * 32768" using assms(2) by linarith
  finally have "?s + 65535 < 2 ^ 32" by simp
  from csum_fold_cancels[OF this] show ?thesis
    using assms(1) by (simp add: csum_def csum_words_append add.commute add.left_commute add.assoc)
qed

lemma csum_with_header_insert:
  assumes "even (length ps)" "even (length pre)" "length ps + length pre + length post < 65534"
    and "csum_with_header ps (pre @ [0, 0] @ post) = Some c"
  shows "csum_with_header ps (pre @ le16 c @ post) = Some 0"
proof -
  have c: "c = csum ((ps @ pre) @ [0, 0] @ post)"
    using assms csum_with_header_append[of ps "pre @ [0, 0] @ post"] by simp
  have "csum ((ps @ pre) @ le16 c @ post) = 0"
    unfolding c using assms(1-3) by (intro csum_insert_zero) simp_all
  then show ?thesis using csum_with_header_append[OF assms(1)] by simp
qed

section \<open>Properties\<close>

text \<open>C13. The checksum verifies: in a packet of less than 64K whose checksum field
  (at an even offset) holds the checksum computed with the field zero, the
  checksum of the whole is 0; so does the two-part version over pseudo header
  and segment.\<close>

theorem checksum_verifies:
  assumes "even (length pre)" "length pre + length post < 65534"
  shows "csum (pre @ le16 (csum (pre @ [0, 0] @ post)) @ post) = 0"
  using assms by (rule csum_insert_zero)

lemma checksum_verifies_witness:
  "csum ([0x45, 0, 0, 40] @ le16 (csum ([0x45, 0, 0, 40] @ [0, 0] @ [7, 9, 1])) @ [7, 9, 1]) = 0"
  by (rule checksum_verifies) simp_all

end
