(* ===== verification/Hashes.thy ===== *)
theory Hashes
  imports Wire
begin

text \<open>
  The authentication layer of encrypt.cpp: the two hashes written there (a
  CRC-32 computed eight bits at a time, and the djb2/sdbm pair), and the five
  modes that append a tag to a message and verify it. MD5 and HMAC-SHA1 are
  fields of a record, byte by byte: the library writes 16 and 20 bytes. The theory
  Bundled fills the record with the functions of src/lib. The locale \<open>auth_scheme\<close> is the contract
  the encryption functions rely on.
\<close>

section \<open>The bundled primitives\<close>

text \<open>Each returns the bytes it writes; the two AES functions take the key
  material and a block of sixteen bytes.\<close>

record crypto_lib =
  lib_md5 :: "bytes \<Rightarrow> nat \<Rightarrow> u8"
  lib_sha1_hmac :: "bytes \<Rightarrow> bytes \<Rightarrow> nat \<Rightarrow> u8"
  lib_aes_enc :: "bytes \<Rightarrow> bytes \<Rightarrow> nat \<Rightarrow> u8"
  lib_aes_dec :: "bytes \<Rightarrow> bytes \<Rightarrow> nat \<Rightarrow> u8"

definition md5 :: "crypto_lib \<Rightarrow> bytes \<Rightarrow> bytes" where
  "md5 L m = map (lib_md5 L m) [0..<16]"

definition sha1_hmac :: "crypto_lib \<Rightarrow> bytes \<Rightarrow> bytes \<Rightarrow> bytes" where
  "sha1_hmac L k m = map (lib_sha1_hmac L k m) [0..<20]"

lemma length_md5 [simp, len_simps]: "length (md5 L m) = 16"
  by (simp add: md5_def)

lemma length_sha1_hmac [simp, len_simps]: "length (sha1_hmac L k m) = 20"
  by (simp add: sha1_hmac_def)

section \<open>The hashes of encrypt.cpp\<close>

text \<open>\<open>crc << n >> 31\<close> on a signed \<open>int\<close>: all ones when bit \<open>31 - n\<close> is set.\<close>

definition crc_mask :: "u32 \<Rightarrow> nat \<Rightarrow> u32" where
  "crc_mask crc n = signed_drop_bit 31 (push_bit n crc)"

definition crc32h_step :: "u8 \<Rightarrow> u32 \<Rightarrow> u32" where
  "crc32h_step byte crc =
     (let g0 = 0xEDB88320; g1 = drop_bit 1 g0;
          g2 = drop_bit 2 g0; g3 = drop_bit 3 g0; g4 = drop_bit 4 g0; g5 = drop_bit 5 g0;
          g6 = drop_bit 6 g0 XOR g0; g7 = drop_bit 1 (drop_bit 6 g0 XOR g0);
          crc = crc XOR ucast byte;
          c = (crc_mask crc 31 AND g7) XOR (crc_mask crc 30 AND g6) XOR
              (crc_mask crc 29 AND g5) XOR (crc_mask crc 28 AND g4) XOR
              (crc_mask crc 27 AND g3) XOR (crc_mask crc 26 AND g2) XOR
              (crc_mask crc 25 AND g1) XOR (crc_mask crc 24 AND g0)
      in drop_bit 8 crc XOR c)"

definition crc32h :: "bytes \<Rightarrow> u32" where
  "crc32h message = NOT (fold crc32h_step message 0xFFFFFFFF)"

text \<open>The textbook CRC-32, one bit at a time.\<close>

definition crc_bit :: "u32 \<Rightarrow> u32" where
  "crc_bit crc = (if bit crc 0 then drop_bit 1 crc XOR 0xEDB88320 else drop_bit 1 crc)"

definition crc32_spec :: "bytes \<Rightarrow> u32" where
  "crc32_spec m = NOT (fold (\<lambda>b crc. (crc_bit ^^ 8) (crc XOR ucast b)) m 0xFFFFFFFF)"

definition simple_hash :: "bytes \<Rightarrow> bytes" where
  "simple_hash str =
     (let (h1, h2) = fold (\<lambda>c (h1, h2).
            ((push_bit 5 h1 + h1) XOR ucast c,
             ucast c + push_bit 6 h2 + push_bit 16 h2 - h2)) str (5381 :: u32, 0 :: u32)
      in be32 h1 @ be32 h2)"

lemma length_simple_hash [simp, len_simps]: "length (simple_hash m) = 8"
  by (simp add: simple_hash_def split: prod.splits)

section \<open>Tags\<close>

text \<open>A \<open>cal\<close> function returns its code, the bytes it wrote to \<open>output\<close> and the
  new \<open>len\<close>; a \<open>verify\<close> function its code and the new \<open>len\<close>. \<open>data\<close> has length
  \<open>len\<close> on entry.\<close>

type_synonym cres = "int \<times> bytes \<times> int"

definition auth_md5_cal :: "crypto_lib \<Rightarrow> bytes \<Rightarrow> cres" where
  "auth_md5_cal L data = (0, data @ md5 L data, int (length data) + 16)"

definition auth_hmac_sha1_cal :: "crypto_lib \<Rightarrow> bytes \<Rightarrow> bytes \<Rightarrow> cres" where
  "auth_hmac_sha1_cal L hmac_key_encrypt data =
     (0, data @ sha1_hmac L (take 20 hmac_key_encrypt) data, int (length data) + 20)"

definition auth_crc32_cal :: "bytes \<Rightarrow> cres" where
  "auth_crc32_cal data = (0, data @ be32 (crc32h data), int (length data) + 4)"

definition auth_simple_cal :: "bytes \<Rightarrow> cres" where
  "auth_simple_cal data = (0, data @ simple_hash data, int (length data) + 8)"

definition auth_none_cal :: "bytes \<Rightarrow> cres" where
  "auth_none_cal data = (0, data, int (length data))"

definition auth_hmac_sha1_verify :: "crypto_lib \<Rightarrow> bytes \<Rightarrow> bytes \<Rightarrow> int \<times> int" where
  "auth_hmac_sha1_verify L hmac_key_decrypt data =
     (let len = length data in
      if len < 20 then (-1, int len)
      else if sha1_hmac L (take 20 hmac_key_decrypt) (take (len - 20) data) \<noteq> drop (len - 20) data
      then (-2, int len)
      else (0, int len - 20))"

definition auth_simple_verify :: "bytes \<Rightarrow> int \<times> int" where
  "auth_simple_verify data =
     (let len = length data in
      if len < 8 then (-1, int len)
      else if simple_hash (take (len - 8) data) \<noteq> drop (len - 8) data then (-1, int len - 8)
      else (0, int len - 8))"

definition auth_md5_verify :: "crypto_lib \<Rightarrow> bytes \<Rightarrow> int \<times> int" where
  "auth_md5_verify L data =
     (let len = length data in
      if len < 16 then (-1, int len)
      else if md5 L (take (len - 16) data) \<noteq> drop (len - 16) data then (-2, int len)
      else (0, int len - 16))"

definition auth_none_verify :: "bytes \<Rightarrow> int \<times> int" where
  "auth_none_verify data = (0, int (length data))"

definition auth_crc32_verify :: "bytes \<Rightarrow> int \<times> int" where
  "auth_crc32_verify data =
     (let len = length data in
      if len < 4 then (-1, int len)
      else if drop (len - 4) data \<noteq> be32 (crc32h (take (len - 4) data)) then (-1, int len)
      else (0, int len - 4))"

section \<open>The contract of a tag\<close>

locale auth_scheme =
  fixes cal :: "bytes \<Rightarrow> cres" and verify :: "bytes \<Rightarrow> int \<times> int"
  assumes cal_appends: "\<exists>t. cal m = (0, m @ t, int (length (m @ t)))"
    and verify_iff: "fst (verify x) = 0 \<longleftrightarrow> (\<exists>m. cal m = (0, x, int (length x)))"
    and verify_len: "cal m = (0, x, int (length x)) \<Longrightarrow> snd (verify x) = int (length m)"
begin

lemma verify_cal: "cal m = (0, x, l) \<Longrightarrow> verify x = (0, int (length m))"
  using cal_appends[of m] verify_iff[of x] verify_len[of m x]
  by (metis prod.collapse prod.inject)

lemma verify_prefix:
  assumes "fst (verify x) = 0"
  shows "0 \<le> snd (verify x) \<and> snd (verify x) \<le> int (length x)"
proof -
  obtain m where m: "cal m = (0, x, int (length x))" using assms verify_iff by auto
  then show ?thesis using verify_len[OF m] cal_appends[of m] by auto
qed

end

text \<open>The four tagging modes are instances of one shape: append a tag of fixed
  length, compare it again.\<close>

lemma append_tag_contract:
  assumes T: "\<And>m. length (T m) = n"
    and V: "\<And>x. verify x = (if length x < n then (-1, f x)
         else if T (take (length x - n) x) \<noteq> drop (length x - n) x then (e, g x)
         else (0 :: int, int (length x) - int n))"
    and e: "e \<noteq> 0"
  shows "auth_scheme (\<lambda>m. (0, m @ T m, int (length m) + int n)) verify"
proof
  fix m x
  show "\<exists>t. (0, m @ T m, int (length m) + int n) = (0 :: int, m @ t, int (length (m @ t)))"
    using T by auto
  have "x = take (length x - n) x @ T (take (length x - n) x)"
    if "T (take (length x - n) x) = drop (length x - n) x"
    using that by (metis append_take_drop_id)
  moreover have "T (take (length (m' @ T m') - n) (m' @ T m')) = drop (length (m' @ T m') - n) (m' @ T m')" for m'
    by (simp add: T)
  ultimately show "fst (verify x) = 0 \<longleftrightarrow>
      (\<exists>m. (0, m @ T m, int (length m) + int n) = (0 :: int, x, int (length x)))"
    using e T by (auto simp: V not_less intro!: exI[of _ "take (length x - n) x"])
  show "snd (verify x) = int (length m)"
    if "(0, m @ T m, int (length m) + int n) = (0 :: int, x, int (length x))"
    using that T by (auto simp: V)
qed

interpretation auth_md5: auth_scheme "auth_md5_cal L" "auth_md5_verify L" for L
  using append_tag_contract[of "md5 L" 16 "auth_md5_verify L" "\<lambda>x. int (length x)" "-2" "\<lambda>x. int (length x)"]
  by (simp add: auth_md5_cal_def[abs_def] auth_md5_verify_def Let_def)

interpretation auth_hmac: auth_scheme "auth_hmac_sha1_cal L k" "auth_hmac_sha1_verify L k" for L k
  using append_tag_contract[of "sha1_hmac L (take 20 k)" 20 "auth_hmac_sha1_verify L k"
      "\<lambda>x. int (length x)" "-2" "\<lambda>x. int (length x)"]
  by (simp add: auth_hmac_sha1_cal_def[abs_def] auth_hmac_sha1_verify_def Let_def)

interpretation auth_crc: auth_scheme auth_crc32_cal auth_crc32_verify
  using append_tag_contract[of "\<lambda>m. be32 (crc32h m)" 4 auth_crc32_verify
      "\<lambda>x. int (length x)" "-1" "\<lambda>x. int (length x)"]
  by (simp add: auth_crc32_cal_def[abs_def] auth_crc32_verify_def Let_def eq_commute)

interpretation auth_smp: auth_scheme auth_simple_cal auth_simple_verify
  using append_tag_contract[of simple_hash 8 auth_simple_verify
      "\<lambda>x. int (length x)" "-1" "\<lambda>x. int (length x) - 8"]
  by (simp add: auth_simple_cal_def[abs_def] auth_simple_verify_def Let_def)

interpretation auth_non: auth_scheme auth_none_cal auth_none_verify
  by unfold_locales (auto simp: auth_none_cal_def auth_none_verify_def)

section \<open>The CRC is the textbook one\<close>

lemma crc_mask_and:
  "k < 32 \<Longrightarrow> crc_mask x (31 - k) AND g = (if bit x k then g else 0)"
  unfolding crc_mask_def
  by (rule bit_word_eqI) (auto simp: bit_simps Suc_le_eq dest: bit_imp_le_length)

lemma crc_bit_xor: "crc_bit (a XOR b) = crc_bit a XOR crc_bit b"
  by (auto simp: crc_bit_def bit_xor_iff drop_bit_xor ac_simps xor.left_commute)

lemma crc_bits_xor: "(crc_bit ^^ n) (a XOR b) = (crc_bit ^^ n) a XOR (crc_bit ^^ n) b"
  by (induction n) (simp_all add: crc_bit_xor)

lemma crc_bit_push: "\<not> bit z 31 \<Longrightarrow> crc_bit (push_bit 1 z) = z"
proof -
  assume z: "\<not> bit z 31"
  have "drop_bit 1 (push_bit 1 z) = z"
  proof (rule bit_word_eqI)
    fix n assume "n < LENGTH(32)"
    then show "bit (drop_bit 1 (push_bit 1 z)) n = bit z n"
      using z by (cases "n = 31") (auto simp: bit_simps simp del: push_bit_Suc)
  qed
  then show ?thesis by (simp add: crc_bit_def bit_push_bit_iff del: push_bit_Suc)
qed

lemma crc_bits_high: "(crc_bit ^^ n) (push_bit n (drop_bit n x)) = drop_bit n x"
proof (induction n arbitrary: x)
  case (Suc n)
  let ?y = "push_bit n (drop_bit n (drop_bit 1 x))"
  have "push_bit (Suc n) (drop_bit (Suc n) x) = push_bit 1 ?y"
    by (simp add: push_bit_push_bit drop_bit_drop_bit)
  moreover have "\<not> bit ?y 31"
    using bit_imp_le_length[of x 32] by (auto simp: bit_simps)
  then have "crc_bit (push_bit 1 ?y) = ?y" by (rule crc_bit_push)
  ultimately have "crc_bit (push_bit (Suc n) (drop_bit (Suc n) x)) = ?y" by simp
  then show ?case
    using Suc[of "drop_bit 1 x"]
    by (simp only: funpow_Suc_right o_apply) (simp add: drop_bit_drop_bit)
qed simp

lemma crc_bits_zero [simp]: "(crc_bit ^^ n) 0 = 0"
  by (induction n) (simp_all add: crc_bit_def)

text \<open>The polynomial shifted by the position of one bit.\<close>

lemma crc_bits_basis:
  "(crc_bit ^^ 8) 1 = 0x77073096" "(crc_bit ^^ 8) 2 = 0xEE0E612C"
  "(crc_bit ^^ 8) 4 = 0x076DC419" "(crc_bit ^^ 8) 8 = 0x0EDB8832"
  "(crc_bit ^^ 8) 16 = 0x1DB71064" "(crc_bit ^^ 8) 32 = 0x3B6E20C8"
  "(crc_bit ^^ 8) 64 = 0x76DC4190" "(crc_bit ^^ 8) 128 = 0xEDB88320"
  by code_simp+

lemma take_bit_step: "take_bit (Suc n) x = take_bit n x XOR (if bit x n then 2 ^ n else 0)"
  for x :: u32
  by (rule bit_word_eqI) (auto simp: bit_simps less_Suc_eq)

lemma crc_bits_step:
  "(crc_bit ^^ 8) (take_bit (Suc n) x) =
     (crc_bit ^^ 8) (take_bit n x) XOR (if bit x n then (crc_bit ^^ 8) (2 ^ n) else 0)"
  unfolding take_bit_step crc_bits_xor by simp

lemma unroll_low_byte:
  fixes C :: "u32 \<Rightarrow> u32"
  assumes C: "\<And>n. C (take_bit (Suc n) x) = C (take_bit n x) XOR (if bit x n then C (2 ^ n) else 0)"
    and zero: "C 0 = 0"
  shows "C (take_bit 8 x) =
    (if bit x 0 then C 1 else 0) XOR (if bit x 1 then C 2 else 0) XOR
    (if bit x 2 then C 4 else 0) XOR (if bit x 3 then C 8 else 0) XOR
    (if bit x 4 then C 16 else 0) XOR (if bit x 5 then C 32 else 0) XOR
    (if bit x 6 then C 64 else 0) XOR (if bit x 7 then C 128 else 0)"
proof -
  define T where "T n = C (take_bit n x)" for n
  have "T 0 = 0" using zero by (simp add: T_def)
  moreover have "T (Suc n) = T n XOR (if bit x n then C (2 ^ n) else 0)" for n
    unfolding T_def by (rule C)
  from this[of 0] this[of 1] this[of 2] this[of 3] this[of 4] this[of 5] this[of 6] this[of 7]
  have "T (Suc 0) = T 0 XOR (if bit x 0 then C 1 else 0)"
    "T 2 = T (Suc 0) XOR (if bit x 1 then C 2 else 0)"
    "T 3 = T 2 XOR (if bit x 2 then C 4 else 0)" "T 4 = T 3 XOR (if bit x 3 then C 8 else 0)"
    "T 5 = T 4 XOR (if bit x 4 then C 16 else 0)" "T 6 = T 5 XOR (if bit x 5 then C 32 else 0)"
    "T 7 = T 6 XOR (if bit x 6 then C 64 else 0)" "T 8 = T 7 XOR (if bit x 7 then C 128 else 0)"
    by (simp_all add: eval_nat_numeral)
  ultimately have "T 8 = (if bit x 0 then C 1 else 0) XOR (if bit x 1 then C 2 else 0) XOR
    (if bit x 2 then C 4 else 0) XOR (if bit x 3 then C 8 else 0) XOR
    (if bit x 4 then C 16 else 0) XOR (if bit x 5 then C 32 else 0) XOR
    (if bit x 6 then C 64 else 0) XOR (if bit x 7 then C 128 else 0)"
    by (simp add: xor.assoc split del: if_split)
  then show ?thesis by (simp only: T_def)
qed

lemma crc32h_step_eq: "crc32h_step b crc = (crc_bit ^^ 8) (crc XOR ucast b)"
proof -
  define x where "x = crc XOR ucast b"
  have "x = push_bit 8 (drop_bit 8 x) XOR take_bit 8 x"
    by (rule bit_word_eqI) (auto simp: bit_simps)
  then have "(crc_bit ^^ 8) x = drop_bit 8 x XOR (crc_bit ^^ 8) (take_bit 8 x)"
    by (metis crc_bits_xor crc_bits_high)
  moreover have "(crc_bit ^^ 8) (take_bit 8 x) =
    (if bit x 0 then 0x77073096 else 0) XOR (if bit x 1 then 0xEE0E612C else 0) XOR
    (if bit x 2 then 0x076DC419 else 0) XOR (if bit x 3 then 0x0EDB8832 else 0) XOR
    (if bit x 4 then 0x1DB71064 else 0) XOR (if bit x 5 then 0x3B6E20C8 else 0) XOR
    (if bit x 6 then 0x76DC4190 else 0) XOR (if bit x 7 then 0xEDB88320 else 0)"
    using unroll_low_byte[of "crc_bit ^^ 8" x, OF crc_bits_step crc_bits_zero]
    by (simp only: crc_bits_basis)
  moreover have "crc32h_step b crc = drop_bit 8 x XOR
    ((crc_mask x (31 - 0) AND 0x77073096) XOR (crc_mask x (31 - 1) AND 0xEE0E612C) XOR
     (crc_mask x (31 - 2) AND 0x076DC419) XOR (crc_mask x (31 - 3) AND 0x0EDB8832) XOR
     (crc_mask x (31 - 4) AND 0x1DB71064) XOR (crc_mask x (31 - 5) AND 0x3B6E20C8) XOR
     (crc_mask x (31 - 6) AND 0x76DC4190) XOR (crc_mask x (31 - 7) AND 0xEDB88320))"
    by (simp add: crc32h_step_def Let_def x_def)
  ultimately show ?thesis
    by (simp only: crc_mask_and x_def)
qed

section \<open>Properties\<close>

text \<open>C14. The byte-at-a-time CRC of encrypt.cpp, with its eight shifted
  polynomials and sign-extended masks, is the bit-by-bit CRC-32 of every
  message.\<close>

theorem crc32h_correct: "crc32h message = crc32_spec message"
  by (simp add: crc32h_def crc32_spec_def crc32h_step_eq[abs_def])

end
