(* ===== verification/Encrypt.thy ===== *)
theory Encrypt
  imports Hashes
begin

text \<open>
  The encryption layer of encrypt.cpp: the xor and none ciphers, AES-128 in CBC
  and CFB mode (the chaining of lib/aes_faster_c over a block function that is
  a parameter here and filled in Bundled.thy), padding, the dispatch on the configured modes and the two entry
  points \<open>my_encrypt\<close> and \<open>my_decrypt\<close>. The first key each AES routine is called
  with is kept in a static context and used ever after (\<open>aes_key_optimize\<close>);
  the record \<open>key_cache\<close> is that state.
\<close>

section \<open>Configuration and state\<close>

datatype auth_mode_t = auth_none | auth_md5 | auth_crc32 | auth_simple | auth_hmac_sha1 | auth_end
datatype cipher_mode_t = cipher_none | cipher_aes128cbc | cipher_xor | cipher_aes128cfb | cipher_end

record crypt_conf =
  normal_key :: bytes
  hmac_key_encrypt :: bytes
  hmac_key_decrypt :: bytes
  cipher_key_encrypt :: bytes
  cipher_key_decrypt :: bytes
  auth_mode :: auth_mode_t
  cipher_mode :: cipher_mode_t
  is_hmac_used :: int
  aes128cfb_old :: int

record key_cache =
  k_ecb_enc :: "bytes option"
  k_ecb_dec :: "bytes option"
  k_cbc_enc :: "bytes option"
  k_cbc_dec :: "bytes option"
  k_cfb_enc :: "bytes option"
  k_cfb_dec :: "bytes option"

definition key_cache_init :: key_cache where
  "key_cache_init = \<lparr> k_ecb_enc = None, k_ecb_dec = None, k_cbc_enc = None,
     k_cbc_dec = None, k_cfb_enc = None, k_cfb_dec = None \<rparr>"

text \<open>The key an AES routine works with: the one of its first call.\<close>

definition first_key :: "bytes option \<Rightarrow> bytes \<Rightarrow> bytes" where
  "first_key cached key = (case cached of None \<Rightarrow> key | Some k \<Rightarrow> k)"

definition zero_iv :: bytes where "zero_iv = replicate 16 0"


section \<open>Block modes\<close>

definition aes_block_enc :: "crypto_lib \<Rightarrow> bytes \<Rightarrow> bytes \<Rightarrow> bytes" where
  "aes_block_enc L key b = map (lib_aes_enc L (take 16 key) b) [0..<16]"

definition aes_block_dec :: "crypto_lib \<Rightarrow> bytes \<Rightarrow> bytes \<Rightarrow> bytes" where
  "aes_block_dec L key b = map (lib_aes_dec L (take 16 key) b) [0..<16]"

definition xor_bytes :: "bytes \<Rightarrow> bytes \<Rightarrow> bytes" where
  "xor_bytes a b = map2 (XOR) a b"

function cbc_encrypt_blocks :: "(bytes \<Rightarrow> bytes) \<Rightarrow> bytes \<Rightarrow> bytes \<Rightarrow> bytes" where
  "cbc_encrypt_blocks E iv input =
     (if input = [] then []
      else let c = E (xor_bytes (take 16 input) iv)
           in c @ cbc_encrypt_blocks E c (drop 16 input))"
  by auto
termination by (relation "measure (\<lambda>(E, iv, input). length input)") auto

function cbc_decrypt_blocks :: "(bytes \<Rightarrow> bytes) \<Rightarrow> bytes \<Rightarrow> bytes \<Rightarrow> bytes" where
  "cbc_decrypt_blocks D iv input =
     (if input = [] then []
      else xor_bytes (D (take 16 input)) iv @ cbc_decrypt_blocks D (take 16 input) (drop 16 input))"
  by auto
termination by (relation "measure (\<lambda>(D, iv, input). length input)") auto

declare cbc_encrypt_blocks.simps [simp del] cbc_decrypt_blocks.simps [simp del]

fun cfb_encrypt_bytes :: "(bytes \<Rightarrow> bytes) \<Rightarrow> nat \<Rightarrow> bytes \<Rightarrow> bytes \<Rightarrow> bytes" where
  "cfb_encrypt_bytes E n iv [] = []"
| "cfb_encrypt_bytes E n iv (x # input) =
     (let iv = (if n = 0 then E iv else iv); c = iv ! n XOR x
      in c # cfb_encrypt_bytes E ((n + 1) mod 16) (iv [n := c]) input)"

fun cfb_decrypt_bytes :: "(bytes \<Rightarrow> bytes) \<Rightarrow> nat \<Rightarrow> bytes \<Rightarrow> bytes \<Rightarrow> bytes" where
  "cfb_decrypt_bytes E n iv [] = []"
| "cfb_decrypt_bytes E n iv (c # input) =
     (let iv = (if n = 0 then E iv else iv)
      in (c XOR iv ! n) # cfb_decrypt_bytes E ((n + 1) mod 16) (iv [n := c]) input)"

section \<open>Ciphers\<close>

definition cipher_xor_encrypt :: "bytes \<Rightarrow> bytes \<Rightarrow> cres" where
  "cipher_xor_encrypt key data =
     (0, map (\<lambda>i. data ! i XOR key ! (i mod 16)) [0..<length data], int (length data))"

definition cipher_xor_decrypt :: "bytes \<Rightarrow> bytes \<Rightarrow> cres" where
  "cipher_xor_decrypt key data =
     (0, map (\<lambda>i. data ! i XOR key ! (i mod 16)) [0..<length data], int (length data))"

text \<open>\<open>padding\<close> works in a larger buffer; what lies between the data and the last
  byte keeps its old contents.\<close>

definition padding :: "buffer \<Rightarrow> nat \<Rightarrow> nat \<Rightarrow> int \<times> buffer \<times> nat" where
  "padding data data_len padding_num =
     (let old_len = data_len;
          data_len = data_len + 1;
          data_len = (if data_len mod padding_num \<noteq> 0
                      then data_len div padding_num * padding_num + padding_num else data_len)
      in (0, data (data_len - 1 := word_of_nat (data_len - old_len)), data_len))"

definition de_padding :: "bytes \<Rightarrow> int \<Rightarrow> int \<Rightarrow> int \<times> int" where
  "de_padding data data_len padding_num =
     (if data_len = 0 then (-1, data_len)
      else let v = uint (data ! nat (data_len - 1)) in
        if v > padding_num then (-1, data_len)
        else if data_len - v < 0 then (-1, data_len - v)
        else (0, data_len - v))"

definition aes_ecb_encrypt :: "crypto_lib \<Rightarrow> crypt_conf \<Rightarrow> key_cache \<Rightarrow> bytes \<Rightarrow> bytes \<times> key_cache" where
  "aes_ecb_encrypt L cf kc data =
     (let key = first_key (k_ecb_enc kc) (cipher_key_encrypt cf)
      in (aes_block_enc L key (take 16 data), kc \<lparr> k_ecb_enc := Some key \<rparr>))"

definition aes_ecb_decrypt :: "crypto_lib \<Rightarrow> crypt_conf \<Rightarrow> key_cache \<Rightarrow> bytes \<Rightarrow> bytes \<times> key_cache" where
  "aes_ecb_decrypt L cf kc data =
     (let key = first_key (k_ecb_dec kc) (cipher_key_decrypt cf)
      in (aes_block_dec L key (take 16 data), kc \<lparr> k_ecb_dec := Some key \<rparr>))"

text \<open>\<open>aes_ecb_encrypt1\<close>, \<open>aes_ecb_decrypt1\<close>: the first block of a buffer in
  place.\<close>

definition aes_ecb_encrypt1 :: "crypto_lib \<Rightarrow> crypt_conf \<Rightarrow> key_cache \<Rightarrow> bytes \<Rightarrow> bytes \<times> key_cache" where
  "aes_ecb_encrypt1 L cf kc data =
     (let (b, kc) = aes_ecb_encrypt L cf kc (take 16 data) in (b @ drop 16 data, kc))"

definition aes_ecb_decrypt1 :: "crypto_lib \<Rightarrow> crypt_conf \<Rightarrow> key_cache \<Rightarrow> bytes \<Rightarrow> bytes \<times> key_cache" where
  "aes_ecb_decrypt1 L cf kc data =
     (let (b, kc) = aes_ecb_decrypt L cf kc (take 16 data) in (b @ drop 16 data, kc))"

text \<open>\<open>stack\<close>: what the local buffer holds before anything is written to it.\<close>

definition cipher_aes128cbc_encrypt ::
  "crypto_lib \<Rightarrow> buffer \<Rightarrow> key_cache \<Rightarrow> bytes \<Rightarrow> bytes \<Rightarrow> cres \<times> key_cache" where
  "cipher_aes128cbc_encrypt L stack kc key data =
     (let buf = buf_write stack 0 data;
          (rc, buf, len) = padding buf (length data) 16
      in if rc < 0 then ((-1, [], int len), kc)
         else let key = first_key (k_cbc_enc kc) key
              in ((0, cbc_encrypt_blocks (aes_block_enc L key) zero_iv (buf_read buf 0 len), int len),
                  kc \<lparr> k_cbc_enc := Some key \<rparr>))"

definition cipher_aes128cbc_decrypt ::
  "crypto_lib \<Rightarrow> key_cache \<Rightarrow> bytes \<Rightarrow> bytes \<Rightarrow> cres \<times> key_cache" where
  "cipher_aes128cbc_decrypt L kc key data =
     (if length data mod 16 \<noteq> 0 then ((-1, [], int (length data)), kc)
      else let key = first_key (k_cbc_dec kc) key;
               output = cbc_decrypt_blocks (aes_block_dec L key) zero_iv data;
               (rc, len) = de_padding output (int (length data)) 16
           in ((if rc < 0 then -1 else 0, output, len), kc \<lparr> k_cbc_dec := Some key \<rparr>))"

definition cipher_aes128cfb_encrypt ::
  "crypto_lib \<Rightarrow> crypt_conf \<Rightarrow> key_cache \<Rightarrow> bytes \<Rightarrow> bytes \<Rightarrow> (cres \<times> key_cache) option" where
  "cipher_aes128cfb_encrypt L cf kc key data =
     do {
       assert_c (length data \<ge> 16);
       let key = first_key (k_cfb_enc kc) key;
       let kc = kc \<lparr> k_cfb_enc := Some key \<rparr>;
       let (buf, kc) = (if aes128cfb_old cf = 0
                        then let (b, kc) = aes_ecb_encrypt L cf kc data in (b @ drop 16 data, kc)
                        else (data, kc));
       Some ((0, cfb_encrypt_bytes (aes_block_enc L key) 0 zero_iv buf, int (length data)), kc)
     }"

definition cipher_aes128cfb_decrypt ::
  "crypto_lib \<Rightarrow> crypt_conf \<Rightarrow> key_cache \<Rightarrow> bytes \<Rightarrow> bytes \<Rightarrow> cres \<times> key_cache" where
  "cipher_aes128cfb_decrypt L cf kc key data =
     (if length data < 16 then ((-1, [], int (length data)), kc)
      else let key = first_key (k_cfb_dec kc) key;
               kc = kc \<lparr> k_cfb_dec := Some key \<rparr>;
               output = cfb_decrypt_bytes (aes_block_enc L key) 0 zero_iv data;
               (output, kc) = (if aes128cfb_old cf = 0 then aes_ecb_decrypt1 L cf kc output
                               else (output, kc))
           in ((0, output, int (length data)), kc))"

definition cipher_none_encrypt :: "bytes \<Rightarrow> cres" where
  "cipher_none_encrypt data = (0, data, int (length data))"

definition cipher_none_decrypt :: "bytes \<Rightarrow> cres" where
  "cipher_none_decrypt data = (0, data, int (length data))"

section \<open>Dispatch\<close>

definition auth_cal :: "crypto_lib \<Rightarrow> crypt_conf \<Rightarrow> bytes \<Rightarrow> cres option" where
  "auth_cal L cf data =
     (case auth_mode cf of
        auth_crc32 \<Rightarrow> Some (auth_crc32_cal data)
      | auth_md5 \<Rightarrow> Some (auth_md5_cal L data)
      | auth_simple \<Rightarrow> Some (auth_simple_cal data)
      | auth_none \<Rightarrow> Some (auth_none_cal data)
      | auth_hmac_sha1 \<Rightarrow> Some (auth_hmac_sha1_cal L (hmac_key_encrypt cf) data)
      | auth_end \<Rightarrow> None)"

definition auth_verify :: "crypto_lib \<Rightarrow> crypt_conf \<Rightarrow> bytes \<Rightarrow> (int \<times> int) option" where
  "auth_verify L cf data =
     (case auth_mode cf of
        auth_crc32 \<Rightarrow> Some (auth_crc32_verify data)
      | auth_md5 \<Rightarrow> Some (auth_md5_verify L data)
      | auth_simple \<Rightarrow> Some (auth_simple_verify data)
      | auth_none \<Rightarrow> Some (auth_none_verify data)
      | auth_hmac_sha1 \<Rightarrow> Some (auth_hmac_sha1_verify L (hmac_key_decrypt cf) data)
      | auth_end \<Rightarrow> None)"

definition cipher_encrypt ::
  "crypto_lib \<Rightarrow> crypt_conf \<Rightarrow> buffer \<Rightarrow> key_cache \<Rightarrow> bytes \<Rightarrow> bytes \<Rightarrow> (cres \<times> key_cache) option" where
  "cipher_encrypt L cf stack kc key data =
     (case cipher_mode cf of
        cipher_aes128cbc \<Rightarrow> Some (cipher_aes128cbc_encrypt L stack kc key data)
      | cipher_aes128cfb \<Rightarrow> cipher_aes128cfb_encrypt L cf kc key data
      | cipher_xor \<Rightarrow> Some (cipher_xor_encrypt key data, kc)
      | cipher_none \<Rightarrow> Some (cipher_none_encrypt data, kc)
      | cipher_end \<Rightarrow> None)"

definition cipher_decrypt ::
  "crypto_lib \<Rightarrow> crypt_conf \<Rightarrow> key_cache \<Rightarrow> bytes \<Rightarrow> bytes \<Rightarrow> (cres \<times> key_cache) option" where
  "cipher_decrypt L cf kc key data =
     (case cipher_mode cf of
        cipher_aes128cbc \<Rightarrow> Some (cipher_aes128cbc_decrypt L kc key data)
      | cipher_aes128cfb \<Rightarrow> Some (cipher_aes128cfb_decrypt L cf kc key data)
      | cipher_xor \<Rightarrow> Some (cipher_xor_decrypt key data, kc)
      | cipher_none \<Rightarrow> Some (cipher_none_decrypt data, kc)
      | cipher_end \<Rightarrow> None)"

definition encrypt_AE ::
  "crypto_lib \<Rightarrow> crypt_conf \<Rightarrow> buffer \<Rightarrow> key_cache \<Rightarrow> bytes \<Rightarrow> (cres \<times> key_cache) option" where
  "encrypt_AE L cf stack kc data =
     do {
       ((rc, buf2, len), kc) \<leftarrow> cipher_encrypt L cf stack kc (cipher_key_encrypt cf) data;
       if rc \<noteq> 0 then Some ((-1, [], len), kc)
       else do {
         (rc, output, len) \<leftarrow> auth_cal L cf (take (nat len) buf2);
         Some ((if rc \<noteq> 0 then -1 else 0, output, len), kc)
       }
     }"

definition decrypt_AE ::
  "crypto_lib \<Rightarrow> crypt_conf \<Rightarrow> key_cache \<Rightarrow> bytes \<Rightarrow> (cres \<times> key_cache) option" where
  "decrypt_AE L cf kc data =
     do {
       (rc, len) \<leftarrow> auth_verify L cf data;
       if rc \<noteq> 0 then Some ((-1, [], len), kc)
       else do {
         ((rc, output, len), kc) \<leftarrow>
            cipher_decrypt L cf kc (cipher_key_decrypt cf) (take (nat len) data);
         Some ((if rc \<noteq> 0 then -1 else 0, output, len), kc)
       }
     }"

definition my_encrypt ::
  "crypto_lib \<Rightarrow> crypt_conf \<Rightarrow> buffer \<Rightarrow> key_cache \<Rightarrow> bytes \<Rightarrow> (cres \<times> key_cache) option" where
  "my_encrypt L cf stack kc data =
     (let len = int (length data) in
      if len > max_data_len then Some ((-1, [], len), kc)
      else if is_hmac_used cf \<noteq> 0 then encrypt_AE L cf stack kc data
      else do {
        (rc, buf2, len) \<leftarrow> auth_cal L cf data;
        if rc \<noteq> 0 then Some ((-1, [], len), kc)
        else do {
          ((rc, output, len), kc) \<leftarrow>
             cipher_encrypt L cf stack kc (normal_key cf) (take (nat len) buf2);
          Some ((if rc \<noteq> 0 then -1 else 0, output, len), kc)
        }
      })"

definition my_decrypt ::
  "crypto_lib \<Rightarrow> crypt_conf \<Rightarrow> key_cache \<Rightarrow> bytes \<Rightarrow> (cres \<times> key_cache) option" where
  "my_decrypt L cf kc data =
     (let len = int (length data) in
      if len > max_data_len then Some ((-1, [], len), kc)
      else if is_hmac_used cf \<noteq> 0 then decrypt_AE L cf kc data
      else do {
        ((rc, output, len), kc) \<leftarrow> cipher_decrypt L cf kc (normal_key cf) data;
        if rc \<noteq> 0 then Some ((-1, output, len), kc)
        else do {
          (rc, len) \<leftarrow> auth_verify L cf (take (nat len) output);
          Some ((if rc \<noteq> 0 then -1 else 0, output, len), kc)
        }
      })"

section \<open>Block modes invert\<close>

lemma length_aes_block [simp, len_simps]:
  "length (aes_block_enc L k b) = 16" "length (aes_block_dec L k b) = 16"
  by (simp_all add: aes_block_enc_def aes_block_dec_def)

lemma xor_bytes_twice [simp]: "length a = length b \<Longrightarrow> xor_bytes (xor_bytes a b) b = a"
  by (induction a b rule: list_induct2) (auto simp: xor_bytes_def xor.assoc)

lemma length_xor_bytes [simp]: "length (xor_bytes a b) = min (length a) (length b)"
  by (simp add: xor_bytes_def)

lemma length_cbc_encrypt [simp, len_simps]:
  "\<forall>b. length (E b) = 16 \<Longrightarrow> length input mod 16 = 0 \<Longrightarrow>
     length (cbc_encrypt_blocks E iv input) = length input"
proof (induction E iv input rule: cbc_encrypt_blocks.induct)
  case (1 E iv input)
  show ?case
  proof (cases "input = []")
    case False
    then have "16 \<le> length input" using 1(3) by (cases "length input < 16") auto
    moreover have "length (drop 16 input) mod 16 = 0"
      using 1(3) \<open>16 \<le> length input\<close> by (simp add: mod_eq_0_iff_dvd)
    ultimately show ?thesis
      using 1 False by (subst cbc_encrypt_blocks.simps) (simp add: Let_def)
  qed (simp add: cbc_encrypt_blocks.simps)
qed

lemma cbc_roundtrip:
  assumes inv: "\<forall>b. length b = 16 \<longrightarrow> D (E b) = b" and len: "\<forall>b. length (E b) = 16"
  shows "length iv = 16 \<Longrightarrow> length input mod 16 = 0 \<Longrightarrow>
    cbc_decrypt_blocks D iv (cbc_encrypt_blocks E iv input) = input"
proof (induction "length input" arbitrary: input iv rule: less_induct)
  case less
  show ?case
  proof (cases "input = []")
    case False
    let ?c = "E (xor_bytes (take 16 input) iv)"
    have ge: "16 \<le> length input" using False less.prems by (cases "length input < 16") auto
    have m: "length (drop 16 input) mod 16 = 0"
      using less.prems ge by (simp add: mod_eq_0_iff_dvd)
    have rest: "cbc_decrypt_blocks D ?c (cbc_encrypt_blocks E ?c (drop 16 input)) = drop 16 input"
      using less.hyps[of "drop 16 input" ?c] m False len by auto
    have "cbc_encrypt_blocks E iv input = ?c @ cbc_encrypt_blocks E ?c (drop 16 input)"
      using False by (subst cbc_encrypt_blocks.simps) (simp add: Let_def)
    moreover have "?c \<noteq> []" using len by (metis list.size(3) zero_neq_numeral)
    moreover have "D ?c = xor_bytes (take 16 input) iv" using inv ge less.prems by simp
    ultimately show ?thesis
      using rest len ge less.prems by (subst cbc_decrypt_blocks.simps) simp
  qed (simp add: cbc_encrypt_blocks.simps cbc_decrypt_blocks.simps)
qed

lemma length_cbc_decrypt [simp, len_simps]:
  "\<forall>b. length (D b) = 16 \<Longrightarrow> length iv = 16 \<Longrightarrow> length input mod 16 = 0 \<Longrightarrow>
     length (cbc_decrypt_blocks D iv input) = length input"
proof (induction "length input" arbitrary: input iv rule: less_induct)
  case less
  show ?case
  proof (cases "input = []")
    case False
    have ge: "16 \<le> length input" using False less.prems by (cases "length input < 16") auto
    have m: "length (drop 16 input) mod 16 = 0"
      using less.prems ge by (simp add: mod_eq_0_iff_dvd)
    have "length (cbc_decrypt_blocks D (take 16 input) (drop 16 input)) = length (drop 16 input)"
      using less.hyps[of "drop 16 input" "take 16 input"] less.prems m False ge by auto
    then show ?thesis
      using less.prems ge False by (subst cbc_decrypt_blocks.simps) simp
  qed (simp add: cbc_decrypt_blocks.simps)
qed

lemma cfb_roundtrip [roundtrip_simps]:
  "cfb_decrypt_bytes E n iv (cfb_encrypt_bytes E n iv input) = input"
  by (induction input arbitrary: n iv) (simp_all add: Let_def xor.commute xor.left_commute)

lemma length_cfb_encrypt [simp, len_simps]:
  "length (cfb_encrypt_bytes E n iv input) = length input"
  by (induction input arbitrary: n iv) (simp_all add: Let_def)

lemma length_cfb_decrypt [simp, len_simps]:
  "length (cfb_decrypt_bytes E n iv input) = length input"
  by (induction input arbitrary: n iv) (simp_all add: Let_def)

section \<open>Padding\<close>

lemma padding_result:
  obtains buf' n where "padding buf len 16 = (0, buf', n)"
    "n mod 16 = 0" "len < n" "n \<le> len + 16"
    "buf' (n - 1) = word_of_nat (n - len)" "\<And>i. i < len \<Longrightarrow> buf' i = buf i"
proof -
  define n where "n = (if (len + 1) mod 16 \<noteq> 0 then (len + 1) div 16 * 16 + 16 else len + 1)"
  have "len < n" "n \<le> len + 16" unfolding n_def by presburger+
  moreover have "n mod 16 = 0" by (simp add: n_def)
  ultimately show thesis
    by (intro that[of "buf (n - 1 := word_of_nat (n - len))" n])
      (auto simp: padding_def n_def Let_def)
qed

lemma de_padding_result:
  assumes "0 < n" "length out = n" "out ! (n - 1) = word_of_nat k" "1 \<le> k" "k \<le> 16" "k \<le> n"
  shows "de_padding out (int n) 16 = (0, int n - int k)"
proof -
  have "uint (word_of_nat k :: u8) = int k" using assms by (simp add: uint_nat unat_of_nat)
  moreover have "nat (int n - 1) = n - 1" using assms by simp
  ultimately show ?thesis using assms by (simp add: de_padding_def Let_def)
qed

section \<open>The two ends of a connection\<close>

text \<open>What is documented of AES: decryption under a key inverts encryption under
  the same key, block by block.\<close>

definition aes_inverts :: "crypto_lib \<Rightarrow> bool" where
  "aes_inverts L \<longleftrightarrow> (\<forall>k b. length b = 16 \<longrightarrow> aes_block_dec L k (aes_block_enc L k b) = b)"

text \<open>The other end derives the same keys with the two directions swapped.\<close>

definition peer_conf :: "crypt_conf \<Rightarrow> crypt_conf" where
  "peer_conf cf = cf \<lparr> hmac_key_encrypt := hmac_key_decrypt cf, hmac_key_decrypt := hmac_key_encrypt cf,
     cipher_key_encrypt := cipher_key_decrypt cf, cipher_key_decrypt := cipher_key_encrypt cf \<rparr>"

lemma peer_conf_simps [simp]:
  "normal_key (peer_conf cf) = normal_key cf" "auth_mode (peer_conf cf) = auth_mode cf"
  "cipher_mode (peer_conf cf) = cipher_mode cf" "is_hmac_used (peer_conf cf) = is_hmac_used cf"
  "aes128cfb_old (peer_conf cf) = aes128cfb_old cf"
  "hmac_key_encrypt (peer_conf cf) = hmac_key_decrypt cf" "hmac_key_decrypt (peer_conf cf) = hmac_key_encrypt cf"
  "cipher_key_encrypt (peer_conf cf) = cipher_key_decrypt cf" "cipher_key_decrypt (peer_conf cf) = cipher_key_encrypt cf"
  by (simp_all add: peer_conf_def)

definition data_key_encrypt :: "crypt_conf \<Rightarrow> bytes" where
  "data_key_encrypt cf = (if is_hmac_used cf \<noteq> 0 then cipher_key_encrypt cf else normal_key cf)"

definition data_key_decrypt :: "crypt_conf \<Rightarrow> bytes" where
  "data_key_decrypt cf = (if is_hmac_used cf \<noteq> 0 then cipher_key_decrypt cf else normal_key cf)"

text \<open>The cached keys are the configured ones: true before any use and kept by
  every operation.\<close>

definition cache_ok :: "crypt_conf \<Rightarrow> key_cache \<Rightarrow> bool" where
  "cache_ok cf kc \<longleftrightarrow>
     first_key (k_ecb_enc kc) (cipher_key_encrypt cf) = cipher_key_encrypt cf \<and>
     first_key (k_ecb_dec kc) (cipher_key_decrypt cf) = cipher_key_decrypt cf \<and>
     first_key (k_cbc_enc kc) (data_key_encrypt cf) = data_key_encrypt cf \<and>
     first_key (k_cbc_dec kc) (data_key_decrypt cf) = data_key_decrypt cf \<and>
     first_key (k_cfb_enc kc) (data_key_encrypt cf) = data_key_encrypt cf \<and>
     first_key (k_cfb_dec kc) (data_key_decrypt cf) = data_key_decrypt cf"

lemma first_key_simps [simp]: "first_key None k = k" "first_key (Some c) k = c"
  by (simp_all add: first_key_def)

lemma cache_ok_init [simp]: "cache_ok cf key_cache_init"
  by (simp add: cache_ok_def key_cache_init_def)

lemma auth_roundtrip:
  assumes "auth_mode cf \<noteq> auth_end"
  obtains t where "auth_cal L cf m = Some (0, m @ t, int (length (m @ t)))"
    "auth_verify L (peer_conf cf) (m @ t) = Some (0, int (length m))" "length t \<le> 20"
proof (cases "auth_mode cf")
  case auth_none
  then show ?thesis
    by (intro that[of "[]"]) (simp_all add: auth_cal_def auth_verify_def auth_none_cal_def auth_none_verify_def)
next
  case auth_md5
  then show ?thesis
    using auth_md5.verify_cal[of L m "m @ md5 L m"]
    by (intro that[of "md5 L m"]) (simp_all add: auth_cal_def auth_verify_def auth_md5_cal_def)
next
  case auth_crc32
  then show ?thesis
    using auth_crc.verify_cal[of m "m @ be32 (crc32h m)"]
    by (intro that[of "be32 (crc32h m)"]) (simp_all add: auth_cal_def auth_verify_def auth_crc32_cal_def)
next
  case auth_simple
  then show ?thesis
    using auth_smp.verify_cal[of m "m @ simple_hash m"]
    by (intro that[of "simple_hash m"]) (simp_all add: auth_cal_def auth_verify_def auth_simple_cal_def)
next
  case auth_hmac_sha1
  then show ?thesis
    using auth_hmac.verify_cal[of L "hmac_key_encrypt cf" m "m @ sha1_hmac L (take 20 (hmac_key_encrypt cf)) m"]
    by (intro that[of "sha1_hmac L (take 20 (hmac_key_encrypt cf)) m"])
      (simp_all add: auth_cal_def auth_verify_def auth_hmac_sha1_cal_def)
qed (use assms in simp)

lemma cipher_xor_roundtrip:
  "cipher_xor_encrypt k m = (0, c, len) \<Longrightarrow>
     cipher_xor_decrypt k c = (0, m, int (length m)) \<and> len = int (length m) \<and> length c = length m"
  by (auto simp: cipher_xor_encrypt_def cipher_xor_decrypt_def xor.assoc intro!: nth_equalityI)

lemma cbc_cipher_roundtrip:
  assumes L: "aes_inverts L"
    and ke: "first_key (k_cbc_enc kc) key = key" and kd: "first_key (k_cbc_dec kr) key = key"
  obtains c where
    "cipher_aes128cbc_encrypt L stack kc key m = ((0, c, int (length c)), kc \<lparr> k_cbc_enc := Some key \<rparr>)"
    "length c \<le> length m + 16" "length m \<le> length c"
    "\<exists>w. cipher_aes128cbc_decrypt L kr key c = ((0, w, int (length m)), kr \<lparr> k_cbc_dec := Some key \<rparr>)
         \<and> take (length m) w = m"
proof -
  obtain buf n where pad: "padding (buf_write stack 0 m) (length m) 16 = (0, buf, n)"
    and n: "n mod 16 = 0" "length m < n" "n \<le> length m + 16"
    and last: "buf (n - 1) = word_of_nat (n - length m)"
    and same: "\<And>i. i < length m \<Longrightarrow> buf i = buf_write stack 0 m i"
    using padding_result[of "buf_write stack 0 m" "length m"] by metis
  let ?x = "buf_read buf 0 n"
  define c where "c = cbc_encrypt_blocks (aes_block_enc L key) zero_iv ?x"
  have len: "length c = n" using n by (simp add: c_def)
  have dec: "cbc_decrypt_blocks (aes_block_dec L key) zero_iv c = ?x"
    unfolding c_def using L n by (intro cbc_roundtrip) (auto simp: aes_inverts_def zero_iv_def)
  have "de_padding ?x (int n) 16 = (0, int n - int (n - length m))"
    using n last by (intro de_padding_result) auto
  then have "de_padding ?x (int n) 16 = (0, int (length m))" using n by simp
  moreover have "take (length m) ?x = m"
    using n same by (intro nth_equalityI) (auto simp: buf_write_def)
  ultimately show thesis
    using pad ke kd len n dec
    by (intro that[of c])
      (simp_all add: cipher_aes128cbc_encrypt_def cipher_aes128cbc_decrypt_def Let_def c_def)
qed

lemma cfb_cipher_roundtrip:
  assumes L: "aes_inverts L" and m: "16 \<le> length m"
    and ke: "first_key (k_cfb_enc kc) key = key" and kd: "first_key (k_cfb_dec kr) key = key"
    and ee: "first_key (k_ecb_enc kc) (cipher_key_encrypt cf) = cipher_key_encrypt cf"
    and ed: "first_key (k_ecb_dec kr) (cipher_key_encrypt cf) = cipher_key_encrypt cf"
  obtains c kc' kr' where
    "cipher_aes128cfb_encrypt L cf kc key m = Some ((0, c, int (length c)), kc')"
    "kc' = kc \<lparr> k_cfb_enc := Some key \<rparr> \<or>
       kc' = kc \<lparr> k_cfb_enc := Some key, k_ecb_enc := Some (cipher_key_encrypt cf) \<rparr>"
    "length c = length m"
    "cipher_aes128cfb_decrypt L (peer_conf cf) kr key c = ((0, m, int (length m)), kr')"
    "kr' = kr \<lparr> k_cfb_dec := Some key \<rparr> \<or>
       kr' = kr \<lparr> k_cfb_dec := Some key, k_ecb_dec := Some (cipher_key_encrypt cf) \<rparr>"
proof -
  define x where "x = (if aes128cfb_old cf = 0
    then aes_block_enc L (cipher_key_encrypt cf) (take 16 m) @ drop 16 m else m)"
  have "aes_block_dec L (cipher_key_encrypt cf) (aes_block_enc L (cipher_key_encrypt cf) (take 16 m)) = take 16 m"
    using L m by (simp add: aes_inverts_def)
  moreover have "length x = length m" using m by (simp add: x_def)
  ultimately show thesis
    using m ke kd ee ed
    by (intro that[of "cfb_encrypt_bytes (aes_block_enc L key) 0 zero_iv x"
          "if aes128cfb_old cf = 0 then kc \<lparr> k_cfb_enc := Some key, k_ecb_enc := Some (cipher_key_encrypt cf) \<rparr>
           else kc \<lparr> k_cfb_enc := Some key \<rparr>"
          "if aes128cfb_old cf = 0 then kr \<lparr> k_cfb_dec := Some key, k_ecb_dec := Some (cipher_key_encrypt cf) \<rparr>
           else kr \<lparr> k_cfb_dec := Some key \<rparr>"])
      (auto simp: cipher_aes128cfb_encrypt_def cipher_aes128cfb_decrypt_def Let_def cfb_roundtrip
        aes_ecb_encrypt_def aes_ecb_decrypt1_def aes_ecb_decrypt_def x_def)
qed

lemma data_key_peer [simp]: "data_key_decrypt (peer_conf cf) = data_key_encrypt cf"
  by (simp add: data_key_encrypt_def data_key_decrypt_def)

lemma cipher_roundtrip:
  assumes L: "aes_inverts L" and mode: "cipher_mode cf \<noteq> cipher_end"
    and cfb: "cipher_mode cf = cipher_aes128cfb \<Longrightarrow> 16 \<le> length m"
    and kc: "cache_ok cf kc" and kr: "cache_ok (peer_conf cf) kr"
  obtains c kc' where
    "cipher_encrypt L cf stack kc (data_key_encrypt cf) m = Some ((0, c, int (length c)), kc')"
    "cache_ok cf kc'" "length c \<le> length m + 16" "length m \<le> length c"
    "\<exists>w kr'. cipher_decrypt L (peer_conf cf) kr (data_key_encrypt cf) c
        = Some ((0, w, int (length m)), kr') \<and> take (length m) w = m \<and> cache_ok (peer_conf cf) kr'"
proof (cases "cipher_mode cf")
  case cipher_none
  then show ?thesis
    using kc kr by (intro that[of m kc])
      (auto simp: cipher_encrypt_def cipher_decrypt_def cipher_none_encrypt_def cipher_none_decrypt_def)
next
  case cipher_aes128cbc
  obtain c where c: "cipher_aes128cbc_encrypt L stack kc (data_key_encrypt cf) m
      = ((0, c, int (length c)), kc \<lparr> k_cbc_enc := Some (data_key_encrypt cf) \<rparr>)" "length c \<le> length m + 16" "length m \<le> length c"
    and d: "\<exists>w. cipher_aes128cbc_decrypt L kr (data_key_encrypt cf) c
      = ((0, w, int (length m)), kr \<lparr> k_cbc_dec := Some (data_key_encrypt cf) \<rparr>) \<and> take (length m) w = m"
    using cbc_cipher_roundtrip[OF L, of kc "data_key_encrypt cf" kr stack m] kc kr
    by (auto simp: cache_ok_def)
  show ?thesis
    using c d kc kr cipher_aes128cbc
    by (intro that[of c "kc \<lparr> k_cbc_enc := Some (data_key_encrypt cf) \<rparr>"])
      (auto simp: cipher_encrypt_def cipher_decrypt_def cache_ok_def)
next
  case cipher_xor
  obtain c where c: "cipher_xor_encrypt (data_key_encrypt cf) m = (0, c, int (length m))"
    by (simp add: cipher_xor_encrypt_def)
  show ?thesis
    using cipher_xor_roundtrip[OF c] c cipher_xor kc kr
    by (intro that[of c kc]) (auto simp: cipher_encrypt_def cipher_decrypt_def)
next
  case cipher_aes128cfb
  obtain c kc' kr' where c:
    "cipher_aes128cfb_encrypt L cf kc (data_key_encrypt cf) m = Some ((0, c, int (length c)), kc')"
    "kc' = kc \<lparr> k_cfb_enc := Some (data_key_encrypt cf) \<rparr> \<or>
       kc' = kc \<lparr> k_cfb_enc := Some (data_key_encrypt cf), k_ecb_enc := Some (cipher_key_encrypt cf) \<rparr>"
    "length c = length m"
    "cipher_aes128cfb_decrypt L (peer_conf cf) kr (data_key_encrypt cf) c = ((0, m, int (length m)), kr')"
    "kr' = kr \<lparr> k_cfb_dec := Some (data_key_encrypt cf) \<rparr> \<or>
       kr' = kr \<lparr> k_cfb_dec := Some (data_key_encrypt cf), k_ecb_dec := Some (cipher_key_encrypt cf) \<rparr>"
    using cfb_cipher_roundtrip[OF L cfb[OF cipher_aes128cfb], of kc "data_key_encrypt cf" kr cf] kc kr
    by (auto simp: cache_ok_def)
  show ?thesis
    using c kc kr cipher_aes128cfb
    by (intro that[of c kc']) (auto simp: cipher_encrypt_def cipher_decrypt_def cache_ok_def)
qed (use mode in simp)

lemma crypt_roundtrip:
  assumes L: "aes_inverts L"
    and modes: "cipher_mode cf \<noteq> cipher_end" "auth_mode cf \<noteq> auth_end"
    and cfb: "cipher_mode cf = cipher_aes128cfb \<longrightarrow> 16 \<le> length m"
    and len: "length m \<le> 1800"
    and kc: "cache_ok cf kc" and kr: "cache_ok (peer_conf cf) kr"
  shows "\<exists>c kc'. my_encrypt L cf stack kc m = Some ((0, c, int (length c)), kc')
     \<and> cache_ok cf kc' \<and> length c \<le> length m + 36 \<and> length m \<le> length c
     \<and> (length c \<le> 1800 \<longrightarrow> (\<exists>w kr'. my_decrypt L (peer_conf cf) kr c = Some ((0, w, int (length m)), kr')
          \<and> take (length m) w = m \<and> cache_ok (peer_conf cf) kr'))"
proof (cases "is_hmac_used cf = 0")
  case False
  obtain c kc' where c: "cipher_encrypt L cf stack kc (data_key_encrypt cf) m = Some ((0, c, int (length c)), kc')"
    "cache_ok cf kc'" "length c \<le> length m + 16" "length m \<le> length c"
    and d: "\<exists>w kr'. cipher_decrypt L (peer_conf cf) kr (data_key_encrypt cf) c
        = Some ((0, w, int (length m)), kr') \<and> take (length m) w = m \<and> cache_ok (peer_conf cf) kr'"
    by (rule cipher_roundtrip[OF L modes(1) cfb[rule_format] kc kr])
  obtain t where t: "auth_cal L cf c = Some (0, c @ t, int (length (c @ t)))"
    "auth_verify L (peer_conf cf) (c @ t) = Some (0, int (length c))" "length t \<le> 20"
    using auth_roundtrip[OF modes(2)] by metis
  have "data_key_encrypt cf = cipher_key_encrypt cf" using False by (simp add: data_key_encrypt_def)
  then obtain w kr' where w: "cipher_decrypt L (peer_conf cf) kr (cipher_key_encrypt cf) c
        = Some ((0, w, int (length m)), kr')" "take (length m) w = m" "cache_ok (peer_conf cf) kr'"
    using d by auto
  have "my_encrypt L cf stack kc m = Some ((0, c @ t, int (length (c @ t))), kc')"
    using c t len False \<open>data_key_encrypt cf = cipher_key_encrypt cf\<close>
    by (simp add: my_encrypt_def encrypt_AE_def max_data_len_def)
  moreover have "my_decrypt L (peer_conf cf) kr (c @ t) = Some ((0, w, int (length m)), kr')"
    if "length (c @ t) \<le> 1800"
    using that t w False by (simp add: my_decrypt_def decrypt_AE_def max_data_len_def)
  moreover have "length (c @ t) \<le> length m + 36" "length m \<le> length (c @ t)" using c t by simp_all
  ultimately show ?thesis using w c(2) by blast
next
  case True
  obtain t where t: "auth_cal L cf m = Some (0, m @ t, int (length (m @ t)))"
    "auth_verify L (peer_conf cf) (m @ t) = Some (0, int (length m))" "length t \<le> 20"
    using auth_roundtrip[OF modes(2)] by metis
  have cfb': "cipher_mode cf = cipher_aes128cfb \<Longrightarrow> 16 \<le> length (m @ t)"
    using cfb by simp
  obtain c kc' where c: "cipher_encrypt L cf stack kc (data_key_encrypt cf) (m @ t) = Some ((0, c, int (length c)), kc')"
    "cache_ok cf kc'" "length c \<le> length (m @ t) + 16" "length (m @ t) \<le> length c"
    and d: "\<exists>w kr'. cipher_decrypt L (peer_conf cf) kr (data_key_encrypt cf) c
        = Some ((0, w, int (length (m @ t))), kr') \<and> take (length (m @ t)) w = m @ t \<and> cache_ok (peer_conf cf) kr'"
    by (rule cipher_roundtrip[OF L modes(1) cfb' kc kr])
  have k: "data_key_encrypt cf = normal_key cf" using True by (simp add: data_key_encrypt_def)
  obtain w kr' where w: "cipher_decrypt L (peer_conf cf) kr (normal_key cf) c
        = Some ((0, w, int (length (m @ t))), kr')" "take (length (m @ t)) w = m @ t" "cache_ok (peer_conf cf) kr'"
    using d k by auto
  have "take (length m) w = m"
    using w(2) by (metis append_eq_conv_conj le_add1 length_append min.absorb1 take_take)
  have len': "nat (int (length m) + int (length t)) = length m + length t" by simp
  have "my_encrypt L cf stack kc m = Some ((0, c, int (length c)), kc')"
    using c t len True k by (simp add: my_encrypt_def max_data_len_def len')
  moreover have "my_decrypt L (peer_conf cf) kr c = Some ((0, w, int (length m)), kr')"
    if "length c \<le> 1800"
    using that t w True by (simp add: my_decrypt_def max_data_len_def len')
  moreover have "length c \<le> length m + 36" "length m \<le> length c" using c t by simp_all
  ultimately show ?thesis using w c(2) \<open>take (length m) w = m\<close> by blast
qed

section \<open>Properties\<close>

text \<open>C4. What one end encrypts the other end decrypts to the same bytes and
  length, in every authentication and cipher mode, encrypt-then-MAC (hmac_sha1)
  and MAC-then-encrypt alike, whatever the uninitialised stack buffer holds,
  at any moment of the two key caches, provided the ciphertext is not above the
  1800 bytes the receiver accepts. The caches stay consistent, so this holds
  for every packet of a session.\<close>

theorem encrypt_decrypt_roundtrip:
  assumes L: "aes_inverts L"
    and modes: "cipher_mode cf \<noteq> cipher_end" "auth_mode cf \<noteq> auth_end"
    and cfb: "cipher_mode cf = cipher_aes128cfb \<longrightarrow> 16 \<le> length m"
    and len: "length m \<le> 1800"
    and kc: "cache_ok cf kc" and kr: "cache_ok (peer_conf cf) kr"
  shows "\<exists>c kc'. my_encrypt L cf stack kc m = Some ((0, c, int (length c)), kc')
     \<and> cache_ok cf kc' \<and> length c \<le> length m + 36
     \<and> (length c \<le> 1800 \<longrightarrow> (\<exists>w kr'. my_decrypt L (peer_conf cf) kr c = Some ((0, w, int (length m)), kr')
          \<and> take (length m) w = m \<and> cache_ok (peer_conf cf) kr'))"
  using crypt_roundtrip[OF assms] by blast

text \<open>A toy block function used only to run the examples: each byte xored with
  a byte of the key.\<close>

definition xor_lib :: crypto_lib where
  "xor_lib = \<lparr> lib_md5 = (\<lambda>m i. word_of_nat (length m + i)),
     lib_sha1_hmac = (\<lambda>k m i. word_of_nat (length k + length m + i)),
     lib_aes_enc = (\<lambda>k b i. b ! i XOR k ! i), lib_aes_dec = (\<lambda>k b i. b ! i XOR k ! i) \<rparr>"

lemma xor_lib_inverts: "aes_inverts xor_lib"
  by (auto simp: aes_inverts_def aes_block_enc_def aes_block_dec_def xor_lib_def xor.assoc
      intro!: nth_equalityI)

definition example_conf :: crypt_conf where
  "example_conf = \<lparr> normal_key = replicate 16 7, hmac_key_encrypt = replicate 64 1,
     hmac_key_decrypt = replicate 64 2, cipher_key_encrypt = replicate 64 3,
     cipher_key_decrypt = replicate 64 4, auth_mode = auth_hmac_sha1, cipher_mode = cipher_aes128cbc,
     is_hmac_used = 1, aes128cfb_old = 0 \<rparr>"

lemma encrypt_decrypt_roundtrip_witness:
  "\<exists>c kc'. my_encrypt xor_lib example_conf (\<lambda>_. 9) key_cache_init [1, 2, 3] = Some ((0, c, int (length c)), kc')
     \<and> cache_ok example_conf kc' \<and> length c \<le> length [1, 2, 3 :: u8] + 36
     \<and> (length c \<le> 1800 \<longrightarrow> (\<exists>w kr'. my_decrypt xor_lib (peer_conf example_conf) key_cache_init c
          = Some ((0, w, int (length [1, 2, 3 :: u8])), kr')
          \<and> take (length [1, 2, 3 :: u8]) w = [1, 2, 3] \<and> cache_ok (peer_conf example_conf) kr'))"
  by (rule encrypt_decrypt_roundtrip)
    (simp_all add: xor_lib_inverts, simp_all add: example_conf_def)

end
