(* ===== verification/Lru.thy ===== *)
theory Lru
  imports World
begin

text \<open>
  The LRU list of common.h (\<open>lru_collector_t\<close>): a list of (key, time stamp)
  pairs, newest in front, and a map from keys to list iterators. An iterator is
  modelled by the identity of the list node it points to, so a stale iterator
  would point to no node. The locale \<open>timed_lru\<close> is what the conversation
  manager relies on; the assertions of the code never fail under it because the
  clock is monotone.
\<close>

section \<open>The code\<close>

record 'k lru =
  lru_mp :: "'k \<rightharpoonup> nat"
  lru_q :: "(nat \<times> 'k \<times> u64) list"
  lru_fresh :: nat   \<comment> \<open>identity of the next node\<close>

definition lru_empty_state :: "'k lru" where
  "lru_empty_state = \<lparr> lru_mp = Map.empty, lru_q = [], lru_fresh = 0 \<rparr>"

definition q_erase :: "nat \<Rightarrow> (nat \<times> 'k \<times> u64) list \<Rightarrow> (nat \<times> 'k \<times> u64) list" where
  "q_erase i q = filter (\<lambda>n. fst n \<noteq> i) q"

text \<open>The common tail of \<open>update\<close> and \<open>new_key\<close>: stamp, check the order, push in
  front, remember the iterator.\<close>

definition lru_push_front :: "'k \<Rightarrow> 'k lru \<Rightarrow> world \<Rightarrow> ('k lru \<times> world) option" where
  "lru_push_front key l w =
     do {
       let (value, w) = get_current_time w;
       assert_c (lru_q l = [] \<or> value \<ge> snd (snd (hd (lru_q l))));
       Some (l \<lparr> lru_q := (lru_fresh l, key, value) # lru_q l,
                 lru_mp := (lru_mp l)(key \<mapsto> lru_fresh l),
                 lru_fresh := lru_fresh l + 1 \<rparr>, w)
     }"

definition lru_update :: "'k \<Rightarrow> 'k lru \<Rightarrow> world \<Rightarrow> ('k lru \<times> world) option" where
  "lru_update key l w =
     (case lru_mp l key of
        None \<Rightarrow> None
      | Some it \<Rightarrow> lru_push_front key (l \<lparr> lru_q := q_erase it (lru_q l) \<rparr>) w)"

definition lru_new_key :: "'k \<Rightarrow> 'k lru \<Rightarrow> world \<Rightarrow> ('k lru \<times> world) option" where
  "lru_new_key key l w =
     do { assert_c (lru_mp l key = None); lru_push_front key l w }"

definition lru_size :: "'k lru \<Rightarrow> nat" where "lru_size l = length (lru_q l)"

definition lru_empty :: "'k lru \<Rightarrow> bool" where "lru_empty l = (lru_q l = [])"

definition lru_clear :: "'k lru \<Rightarrow> 'k lru" where
  "lru_clear l = l \<lparr> lru_mp := Map.empty, lru_q := [] \<rparr>"

definition lru_ts_of :: "'k \<Rightarrow> 'k lru \<Rightarrow> u64 option" where
  "lru_ts_of key l =
     (case lru_mp l key of
        None \<Rightarrow> None
      | Some it \<Rightarrow> map_option snd (map_of (lru_q l) it))"

definition lru_peek_back :: "'k lru \<Rightarrow> (u64 \<times> 'k) option" where
  "lru_peek_back l =
     (if lru_q l = [] then None
      else let (i, k, ts) = last (lru_q l) in Some (ts, k))"

definition lru_erase :: "'k \<Rightarrow> 'k lru \<Rightarrow> 'k lru option" where
  "lru_erase key l =
     (case lru_mp l key of
        None \<Rightarrow> None
      | Some it \<Rightarrow> Some (l \<lparr> lru_q := q_erase it (lru_q l), lru_mp := (lru_mp l)(key := None) \<rparr>))"

section \<open>The interface\<close>

text \<open>The abstract value: keys with their last use, newest first.\<close>

locale timed_lru =
  fixes entries :: "'s \<Rightarrow> ('k \<times> u64) list"
    and inv :: "world \<Rightarrow> 's \<Rightarrow> bool"
    and new_key update :: "'k \<Rightarrow> 's \<Rightarrow> world \<Rightarrow> ('s \<times> world) option"
    and erase :: "'k \<Rightarrow> 's \<Rightarrow> 's option"
    and peek_back :: "'s \<Rightarrow> (u64 \<times> 'k) option"
  assumes keys_distinct: "inv w s \<Longrightarrow> distinct (map fst (entries s))"
    and newest_first: "inv w s \<Longrightarrow> sorted_wrt (\<ge>) (map snd (entries s))"
    and not_future: "inv w s \<Longrightarrow> e \<in> set (entries s) \<Longrightarrow> snd e \<le> now_floor w"
    and inv_later: "inv w s \<Longrightarrow> now_floor w \<le> now_floor w' \<Longrightarrow> inv w' s"
    and new_key_ok: "inv w s \<Longrightarrow> k \<notin> fst ` set (entries s) \<Longrightarrow> get_current_time w = (t, w') \<Longrightarrow>
      \<exists>s'. new_key k s w = Some (s', w') \<and> entries s' = (k, t) # entries s \<and> inv w' s'"
    and update_ok: "inv w s \<Longrightarrow> k \<in> fst ` set (entries s) \<Longrightarrow> get_current_time w = (t, w') \<Longrightarrow>
      \<exists>s'. update k s w = Some (s', w') \<and>
        entries s' = (k, t) # filter (\<lambda>e. fst e \<noteq> k) (entries s) \<and> inv w' s'"
    and erase_ok: "inv w s \<Longrightarrow> k \<in> fst ` set (entries s) \<Longrightarrow>
      \<exists>s'. erase k s = Some s' \<and> entries s' = filter (\<lambda>e. fst e \<noteq> k) (entries s) \<and> inv w s'"
    and peek_back_ok: "inv w s \<Longrightarrow> entries s \<noteq> [] \<Longrightarrow>
      peek_back s = Some (snd (last (entries s)), fst (last (entries s)))"
begin

lemma back_is_oldest:
  assumes "inv w s" "peek_back s = Some (t, k)" "entries s \<noteq> []" "e \<in> set (entries s)"
  shows "t \<le> snd e"
proof -
  obtain es where es: "entries s = es @ [last (entries s)]"
    using assms(3) by (metis append_butlast_last_id)
  have "sorted_wrt (\<ge>) (map snd (es @ [last (entries s)]))"
    using newest_first[OF assms(1)] es by metis
  then have "\<forall>x\<in>set es. snd (last (entries s)) \<le> snd x" by (auto simp: sorted_wrt_append)
  moreover have "t = snd (last (entries s))" using peek_back_ok[OF assms(1,3)] assms(2) by simp
  moreover have "e \<in> set es \<or> e = last (entries s)" using assms(4) es
    by (metis Un_iff empty_iff empty_set list.set(2) set_append insert_iff)
  ultimately show ?thesis by auto
qed

lemma erase_back:
  assumes "inv w s" "entries s \<noteq> []"
  shows "\<exists>s'. erase (fst (last (entries s))) s = Some s' \<and> entries s' = butlast (entries s) \<and> inv w s'"
proof -
  let ?k = "fst (last (entries s))"
  have "?k \<in> fst ` set (entries s)" using assms(2) by simp
  from erase_ok[OF assms(1) this] obtain s' where s': "erase ?k s = Some s'"
    "entries s' = filter (\<lambda>e. fst e \<noteq> ?k) (entries s)" "inv w s'" by auto
  have d: "distinct (map fst (butlast (entries s) @ [last (entries s)]))"
    using keys_distinct[OF assms(1)] assms(2) by simp
  then have "?k \<notin> fst ` set (butlast (entries s))" by simp
  then have "\<forall>e\<in>set (butlast (entries s)). fst e \<noteq> ?k" by (metis imageI)
  then have "filter (\<lambda>e. fst e \<noteq> ?k) (butlast (entries s) @ [last (entries s)]) = butlast (entries s)"
    by (simp add: filter_id_conv)
  then show ?thesis using s' assms(2) by simp
qed

end

section \<open>The code meets the interface\<close>

definition lru_entries :: "'k lru \<Rightarrow> ('k \<times> u64) list" where
  "lru_entries l = map snd (lru_q l)"

definition lru_inv :: "world \<Rightarrow> 'k lru \<Rightarrow> bool" where
  "lru_inv w l \<longleftrightarrow>
     distinct (map fst (lru_q l)) \<and> distinct (map fst (lru_entries l)) \<and>
     (\<forall>n\<in>set (lru_q l). fst n < lru_fresh l) \<and>
     (\<forall>k i. lru_mp l k = Some i \<longleftrightarrow> (\<exists>ts. (i, k, ts) \<in> set (lru_q l))) \<and>
     sorted_wrt (\<ge>) (map snd (lru_entries l)) \<and>
     (\<forall>e\<in>set (lru_entries l). snd e \<le> now_floor w)"

lemma lru_inv_empty [simp]: "lru_inv w lru_empty_state"
  by (simp add: lru_inv_def lru_empty_state_def lru_entries_def)

lemma lru_inv_clear: "lru_inv w (lru_clear l)"
  by (simp add: lru_inv_def lru_clear_def lru_entries_def)

lemma lru_mp_some: "lru_inv w l \<Longrightarrow> (\<exists>i. lru_mp l k = Some i) \<longleftrightarrow> k \<in> fst ` set (lru_entries l)"
proof -
  assume "lru_inv w l"
  then have "\<And>i. lru_mp l k = Some i \<longleftrightarrow> (\<exists>ts. (i, k, ts) \<in> set (lru_q l))"
    by (simp add: lru_inv_def)
  moreover have "k \<in> fst ` set (lru_entries l) \<longleftrightarrow> (\<exists>i ts. (i, k, ts) \<in> set (lru_q l))"
    unfolding lru_entries_def by force
  ultimately show ?thesis by simp
qed

lemma q_erase_entries:
  assumes "lru_inv w l" "lru_mp l k = Some i"
  shows "map snd (q_erase i (lru_q l)) = filter (\<lambda>e. fst e \<noteq> k) (lru_entries l)"
proof -
  have "fst n = i \<longleftrightarrow> fst (snd n) = k" if "n \<in> set (lru_q l)" for n
  proof -
    obtain ts where ts: "(i, k, ts) \<in> set (lru_q l)" using assms by (auto simp: lru_inv_def)
    obtain j k' ts' where n: "n = (j, k', ts')" by (cases n)
    have "lru_mp l k' = Some j" using assms(1) that n by (auto simp: lru_inv_def)
    moreover have "j = i \<Longrightarrow> k' = k"
      using assms(1) ts that n by (auto simp: lru_inv_def dest: eq_key_imp_eq_value)
    ultimately show ?thesis using assms(2) n by auto
  qed
  then have "q_erase i (lru_q l) = filter (\<lambda>n. fst (snd n) \<noteq> k) (lru_q l)"
    unfolding q_erase_def by (intro filter_cong) auto
  then show ?thesis by (simp add: lru_entries_def filter_map o_def)
qed

lemma lru_push_front_ok:
  assumes q: "distinct (map fst (lru_q l))" "distinct (map fst (lru_entries l))"
      "\<forall>n\<in>set (lru_q l). fst n < lru_fresh l"
      "sorted_wrt (\<ge>) (map snd (lru_entries l))" "\<forall>e\<in>set (lru_entries l). snd e \<le> now_floor w"
    and mp: "\<And>k' i. k' \<noteq> k \<Longrightarrow> lru_mp l k' = Some i \<longleftrightarrow> (\<exists>ts. (i, k', ts) \<in> set (lru_q l))"
    and k: "k \<notin> fst ` set (lru_entries l)" and t: "get_current_time w = (t, w')"
  shows "\<exists>l'. lru_push_front k l w = Some (l', w') \<and> lru_entries l' = (k, t) # lru_entries l \<and> lru_inv w' l'"
proof -
  have f: "now_floor w \<le> t" "now_floor w' = t" using get_current_time_floor[OF t] by auto
  let ?l = "l \<lparr> lru_q := (lru_fresh l, k, t) # lru_q l,
                 lru_mp := (lru_mp l)(k \<mapsto> lru_fresh l), lru_fresh := lru_fresh l + 1 \<rparr>"
  have old: "\<forall>e\<in>set (lru_entries l). snd e \<le> t" using q(5) f by auto
  then have "lru_q l = [] \<or> t \<ge> snd (snd (hd (lru_q l)))" by (cases "lru_q l") (auto simp: lru_entries_def)
  then have "lru_push_front k l w = Some (?l, w')" by (simp add: lru_push_front_def t)
  moreover have "lru_entries ?l = (k, t) # lru_entries l" by (simp add: lru_entries_def)
  moreover have "lru_inv w' ?l"
    unfolding lru_inv_def
  proof (intro conjI allI)
    show "distinct (map fst (lru_q ?l))" "\<forall>n\<in>set (lru_q ?l). fst n < lru_fresh ?l"
      using q(1,3) by (auto simp: less_Suc_eq)
    show "distinct (map fst (lru_entries ?l))" using q(2) k by (simp add: lru_entries_def image_image)
    show "sorted_wrt (\<ge>) (map snd (lru_entries ?l))" using q(4) old by (simp add: lru_entries_def)
    show "\<forall>e\<in>set (lru_entries ?l). snd e \<le> now_floor w'" using old f by (simp add: lru_entries_def)
    fix k' i
    have "(j, k, ts) \<notin> set (lru_q l)" for j ts using k by (force simp: lru_entries_def)
    then show "(lru_mp ?l k' = Some i) = (\<exists>ts. (i, k', ts) \<in> set (lru_q ?l))"
      using mp[of k' i] by (cases "k' = k") auto
  qed
  ultimately show ?thesis by blast
qed

lemma lru_erased_ok:
  assumes inv: "lru_inv w l" and it: "lru_mp l k = Some i"
  defines "l' \<equiv> l \<lparr> lru_q := q_erase i (lru_q l) \<rparr>"
  shows "lru_entries l' = filter (\<lambda>e. fst e \<noteq> k) (lru_entries l)"
    and "distinct (map fst (lru_q l'))" "\<forall>n\<in>set (lru_q l'). fst n < lru_fresh l'"
    and "k' \<noteq> k \<Longrightarrow> lru_mp l' k' = Some j \<longleftrightarrow> (\<exists>ts. (j, k', ts) \<in> set (lru_q l'))"
proof -
  show "lru_entries l' = filter (\<lambda>e. fst e \<noteq> k) (lru_entries l)"
    using q_erase_entries[OF inv it] by (simp add: l'_def lru_entries_def)
  show "distinct (map fst (lru_q l'))" "\<forall>n\<in>set (lru_q l'). fst n < lru_fresh l'"
    using inv by (auto simp: lru_inv_def l'_def q_erase_def distinct_map_filter)
  have mp: "\<And>k j. lru_mp l k = Some j \<longleftrightarrow> (\<exists>ts. (j, k, ts) \<in> set (lru_q l))"
    using inv by (simp add: lru_inv_def)
  have "i \<noteq> j" if k': "lru_mp l k' = Some j" "k' \<noteq> k"
  proof
    assume "i = j"
    then obtain ts ts' where "(i, k, ts) \<in> set (lru_q l)" "(i, k', ts') \<in> set (lru_q l)"
      using mp[of k i] mp[of k' j] it k' by auto
    moreover have "distinct (map fst (lru_q l))" using inv by (simp add: lru_inv_def)
    ultimately show False using k' by (auto dest: eq_key_imp_eq_value)
  qed
  then show "k' \<noteq> k \<Longrightarrow> lru_mp l' k' = Some j \<longleftrightarrow> (\<exists>ts. (j, k', ts) \<in> set (lru_q l'))"
    using mp[of k' j] by (auto simp: l'_def q_erase_def)
qed

lemma filter_entries_ok:
  assumes "lru_inv w l"
  shows "distinct (map fst (filter P (lru_entries l)))"
    and "sorted_wrt (\<ge>) (map snd (filter P (lru_entries l)))"
    and "\<forall>e\<in>set (filter P (lru_entries l)). snd e \<le> now_floor w"
  using assms by (auto simp: lru_inv_def distinct_map_filter sorted_wrt_map sorted_wrt_filter)

lemma lru_update_ok:
  assumes inv: "lru_inv w l" and k: "k \<in> fst ` set (lru_entries l)" and t: "get_current_time w = (t, w')"
  shows "\<exists>l'. lru_update k l w = Some (l', w') \<and>
    lru_entries l' = (k, t) # filter (\<lambda>e. fst e \<noteq> k) (lru_entries l) \<and> lru_inv w' l'"
proof -
  obtain i where it: "lru_mp l k = Some i" using lru_mp_some[OF inv] k by blast
  note er = lru_erased_ok[OF inv it]
  let ?l = "l \<lparr> lru_q := q_erase i (lru_q l) \<rparr>"
  have "\<exists>l'. lru_push_front k ?l w = Some (l', w') \<and> lru_entries l' = (k, t) # lru_entries ?l \<and> lru_inv w' l'"
    using er(2,3) filter_entries_ok[OF inv] er(4)
    by (intro lru_push_front_ok[OF _ _ _ _ _ _ _ t]) (auto simp: er(1))
  then show ?thesis using it er(1) by (simp add: lru_update_def)
qed

lemma lru_erase_ok:
  assumes inv: "lru_inv w l" and k: "k \<in> fst ` set (lru_entries l)"
  shows "\<exists>l'. lru_erase k l = Some l' \<and>
    lru_entries l' = filter (\<lambda>e. fst e \<noteq> k) (lru_entries l) \<and> lru_inv w l'"
proof -
  obtain i where it: "lru_mp l k = Some i" using lru_mp_some[OF inv] k by blast
  note er = lru_erased_ok[OF inv it]
  let ?l = "l \<lparr> lru_q := q_erase i (lru_q l) \<rparr>"
  let ?l' = "?l \<lparr> lru_mp := (lru_mp l)(k := None) \<rparr>"
  have e: "lru_entries ?l' = filter (\<lambda>e. fst e \<noteq> k) (lru_entries l)"
    using er(1) by (simp add: lru_entries_def)
  have "lru_inv w ?l'"
    unfolding lru_inv_def e
  proof (intro conjI allI)
    fix k' j
    have "(j, k, ts) \<notin> set (q_erase i (lru_q l))" for j ts
    proof
      assume "(j, k, ts) \<in> set (q_erase i (lru_q l))"
      then have "(k, ts) \<in> set (lru_entries ?l')" by (force simp: lru_entries_def)
      then show False by (simp add: e)
    qed
    then show "(lru_mp ?l' k' = Some j) = (\<exists>ts. (j, k', ts) \<in> set (lru_q ?l'))"
      using er(4)[of k' j] by (cases "k' = k") auto
  qed (use er(2,3) filter_entries_ok[OF inv] in simp_all)
  then show ?thesis using it e by (simp add: lru_erase_def)
qed

interpretation lru: timed_lru lru_entries lru_inv lru_new_key lru_update lru_erase lru_peek_back
proof unfold_locales
  fix w w' :: world and l :: "'k lru" and k t e
  show "lru_inv w l \<Longrightarrow> distinct (map fst (lru_entries l))"
    "lru_inv w l \<Longrightarrow> sorted_wrt (\<ge>) (map snd (lru_entries l))"
    "lru_inv w l \<Longrightarrow> e \<in> set (lru_entries l) \<Longrightarrow> snd e \<le> now_floor w"
    by (auto simp: lru_inv_def)
  show "lru_inv w l \<Longrightarrow> now_floor w \<le> now_floor w' \<Longrightarrow> lru_inv w' l"
    by (fastforce simp: lru_inv_def)
  show "\<exists>l'. lru_new_key k l w = Some (l', w') \<and> lru_entries l' = (k, t) # lru_entries l \<and> lru_inv w' l'"
    if "lru_inv w l" "k \<notin> fst ` set (lru_entries l)" "get_current_time w = (t, w')"
  proof -
    have "lru_mp l k = None" using lru_mp_some[OF that(1), of k] that(2) by (cases "lru_mp l k") auto
    then show ?thesis
      using lru_push_front_ok[OF _ _ _ _ _ _ that(2,3)] that(1)
      by (simp add: lru_new_key_def lru_inv_def)
  qed
  show "lru_peek_back l = Some (snd (last (lru_entries l)), fst (last (lru_entries l)))"
    if "lru_inv w l" "lru_entries l \<noteq> []"
    using that by (auto simp: lru_peek_back_def lru_entries_def last_map split: prod.splits)
  show "\<exists>l'. lru_update k l w = Some (l', w') \<and>
      lru_entries l' = (k, t) # filter (\<lambda>e. fst e \<noteq> k) (lru_entries l) \<and> lru_inv w' l'"
    if "lru_inv w l" "k \<in> fst ` set (lru_entries l)" "get_current_time w = (t, w')"
    using that by (rule lru_update_ok)
  show "\<exists>l'. lru_erase k l = Some l' \<and> lru_entries l' = filter (\<lambda>e. fst e \<noteq> k) (lru_entries l) \<and> lru_inv w l'"
    if "lru_inv w l" "k \<in> fst ` set (lru_entries l)"
    using that by (rule lru_erase_ok)
qed

end
