(* ===== verification/FdManager.thy ===== *)
theory FdManager
  imports World
begin

text \<open>
  fd_manager.cpp: file descriptors are handed around as 64 bit handles that are
  never reused, so that an event queued for a closed descriptor cannot be taken
  for one of a new descriptor with the same number. The locale
  \<open>handle_table\<close> states that contract; the event loops rely on it.
\<close>

section \<open>The code\<close>

text \<open>\<open>fd_info\<close> holds the pointer to the connection; a pointer is the index of
  an object, the null pointer 0.\<close>

record fd_manager =
  counter :: u64
  fd_to_fd64_mp :: "int \<rightharpoonup> u64"
  fd64_to_fd_mp :: "u64 \<rightharpoonup> int"
  fd_info_mp :: "u64 \<rightharpoonup> nat"

definition fd_manager_init :: fd_manager where
  "fd_manager_init = \<lparr> counter = 0xFFFFFFFF + 100, fd_to_fd64_mp = Map.empty,
     fd64_to_fd_mp = Map.empty, fd_info_mp = Map.empty \<rparr>"

definition fd_exist :: "fd_manager \<Rightarrow> int \<Rightarrow> bool" where
  "fd_exist fm fd = (fd_to_fd64_mp fm fd \<noteq> None)"

definition fd64_exist :: "fd_manager \<Rightarrow> u64 \<Rightarrow> bool" where
  "fd64_exist fm fd64 = (fd64_to_fd_mp fm fd64 \<noteq> None)"

definition to_fd :: "fd_manager \<Rightarrow> u64 \<Rightarrow> int option" where
  "to_fd fm fd64 = fd64_to_fd_mp fm fd64"

definition exist_info :: "fd_manager \<Rightarrow> u64 \<Rightarrow> bool" where
  "exist_info fm fd64 = (fd_info_mp fm fd64 \<noteq> None)"

definition fd64_close :: "u64 \<Rightarrow> fd_manager \<times> world \<Rightarrow> (fd_manager \<times> world) option" where
  "fd64_close fd64 = (\<lambda>(fm, w).
     case fd64_to_fd_mp fm fd64 of
       None \<Rightarrow> None
     | Some fd \<Rightarrow>
         let fm = fm \<lparr> fd64_to_fd_mp := (fd64_to_fd_mp fm)(fd64 := None),
                       fd_to_fd64_mp := (fd_to_fd64_mp fm)(fd := None) \<rparr>;
             fm = (if exist_info fm fd64 then fm \<lparr> fd_info_mp := (fd_info_mp fm)(fd64 := None) \<rparr> else fm)
         in Some (fm, snd (syscall (SysClose fd) w)))"

definition fd_create :: "int \<Rightarrow> fd_manager \<Rightarrow> (u64 \<times> fd_manager) option" where
  "fd_create fd fm =
     do {
       assert_c (\<not> fd_exist fm fd);
       let fd64 = counter fm;
       Some (fd64, fm \<lparr> counter := counter fm + 1,
                        fd_to_fd64_mp := (fd_to_fd64_mp fm)(fd \<mapsto> fd64),
                        fd64_to_fd_mp := (fd64_to_fd_mp fm)(fd64 \<mapsto> fd) \<rparr>)
     }"

text \<open>\<open>get_info(fd64).p_conn_info\<close> read (the entry appears when missing) and
  assigned.\<close>

definition get_info :: "u64 \<Rightarrow> fd_manager \<Rightarrow> (nat \<times> fd_manager) option" where
  "get_info fd64 fm =
     do {
       assert_c (fd64_exist fm fd64);
       Some (case fd_info_mp fm fd64 of
               Some p \<Rightarrow> (p, fm)
             | None \<Rightarrow> (0, fm \<lparr> fd_info_mp := (fd_info_mp fm)(fd64 \<mapsto> 0) \<rparr>))
     }"

definition set_info :: "u64 \<Rightarrow> nat \<Rightarrow> fd_manager \<Rightarrow> fd_manager option" where
  "set_info fd64 p fm =
     do {
       assert_c (fd64_exist fm fd64);
       Some (fm \<lparr> fd_info_mp := (fd_info_mp fm)(fd64 \<mapsto> p) \<rparr>)
     }"

section \<open>The interface\<close>

datatype ('f, 'h) handle_op = HOpen 'f | HClose 'h

locale handle_table =
  fixes create :: "'f \<Rightarrow> 's \<Rightarrow> ('h \<times> 's) option"
    and close :: "'h \<Rightarrow> 's \<Rightarrow> 's option"
    and valid retired :: "'s \<Rightarrow> 'h \<Rightarrow> bool"
    and room :: "'s \<Rightarrow> bool"
  assumes retired_invalid: "retired s h \<Longrightarrow> \<not> valid s h"
    and create_fresh: "create f s = Some (h, s') \<Longrightarrow> room s \<Longrightarrow>
          \<not> valid s h \<and> \<not> retired s h \<and> valid s' h"
    and create_valid: "create f s = Some (h, s') \<Longrightarrow> room s \<Longrightarrow> valid s j \<Longrightarrow> valid s' j"
    and close_valid: "close h s = Some s' \<Longrightarrow> valid s j \<Longrightarrow> j \<noteq> h \<Longrightarrow> valid s' j"
    and create_retired: "create f s = Some (h, s') \<Longrightarrow> room s \<Longrightarrow> retired s j \<Longrightarrow> retired s' j"
    and close_retires: "close h s = Some s' \<Longrightarrow> room s \<Longrightarrow> retired s' h"
    and close_retired: "close h s = Some s' \<Longrightarrow> retired s j \<Longrightarrow> retired s' j"
begin

text \<open>A run of the table: every operation succeeds and the counter does not
  overflow.\<close>

fun run :: "'s \<Rightarrow> ('f, 'h) handle_op list \<Rightarrow> ('h list \<times> 's) option" where
  "run s [] = Some ([], s)"
| "run s (HOpen f # ops) =
     (if room s then
        (case create f s of None \<Rightarrow> None
         | Some (h, s') \<Rightarrow> map_option (\<lambda>(hs, t). (h # hs, t)) (run s' ops))
      else None)"
| "run s (HClose h # ops) =
     (if room s then
        (case close h s of None \<Rightarrow> None | Some s' \<Rightarrow> run s' ops)
      else None)"

lemma retired_forever: "run s ops = Some (hs, t) \<Longrightarrow> retired s h \<Longrightarrow> retired t h \<and> h \<notin> set hs"
proof (induction s ops arbitrary: hs rule: run.induct)
  case (2 s f ops)
  then obtain h' s' hs' where "room s" "create f s = Some (h', s')"
    "run s' ops = Some (hs', t)" "hs = h' # hs'"
    by (auto split: if_splits option.splits)
  with 2 create_fresh[of f s h' s'] create_retired[of f s h' s' h] show ?case by auto
next
  case (3 s h' ops)
  then obtain s' where "close h' s = Some s'" "room s" "run s' ops = Some (hs, t)"
    by (auto split: if_splits option.splits)
  with 3 close_retired show ?case by auto
qed simp

text \<open>A handle once issued is never issued again.\<close>

definition used :: "'s \<Rightarrow> 'h \<Rightarrow> bool" where
  "used s h = (valid s h \<or> retired s h)"

lemma used_not_issued: "run s ops = Some (hs, t) \<Longrightarrow> used s h \<Longrightarrow> h \<notin> set hs"
proof (induction s ops arbitrary: hs rule: run.induct)
  case (2 s f ops)
  then obtain h' s' hs' where "room s" "create f s = Some (h', s')"
    "run s' ops = Some (hs', t)" "hs = h' # hs'"
    by (auto split: if_splits option.splits)
  with 2 create_fresh[of f s h' s'] create_retired[of f s h' s' h] create_valid[of f s h' s' h]
  show ?case by (auto simp: used_def)
next
  case (3 s h' ops)
  then obtain s' where "close h' s = Some s'" "room s" "run s' ops = Some (hs, t)"
    by (auto split: if_splits option.splits)
  with 3 close_retired[of h' s s' h] close_valid[of h' s s' h] close_retires[of h' s s']
  show ?case by (cases "h = h'") (auto simp: used_def)
qed simp

lemma issued_distinct: "run s ops = Some (hs, t) \<Longrightarrow> distinct hs"
proof (induction s ops arbitrary: hs rule: run.induct)
  case (2 s f ops)
  then obtain h' s' hs' where h: "room s" "create f s = Some (h', s')"
    "run s' ops = Some (hs', t)" "hs = h' # hs'"
    by (auto split: if_splits option.splits)
  then have "h' \<notin> set hs'"
    using create_fresh[of f s h' s'] by (intro used_not_issued) (auto simp: used_def)
  with 2 h show ?case by auto
next
  case (3 s h' ops)
  then show ?case by (auto split: if_splits option.splits)
qed simp

lemma closed_retired_at_end:
  "run s (ops @ HClose h # ops') = Some (hs, t) \<Longrightarrow> retired t h"
proof (induction s ops arbitrary: hs rule: run.induct)
  case (1 s)
  then show ?case
    using close_retires retired_forever by (auto split: if_splits option.splits)
qed (auto split: if_splits option.splits)

lemma closed_never_valid_again:
  assumes "room s" "close h s = Some s'" "run s' ops = Some (hs, t)"
  shows "\<not> valid t h \<and> h \<notin> set hs"
  using retired_forever[OF assms(3) close_retires[OF assms(2,1)]] retired_invalid by blast

end

section \<open>The code meets the interface\<close>

definition fd_create_w :: "int \<Rightarrow> fd_manager \<times> world \<Rightarrow> (u64 \<times> fd_manager \<times> world) option" where
  "fd_create_w fd = (\<lambda>(fm, w). map_option (\<lambda>(h, fm). (h, fm, w)) (fd_create fd fm))"

definition fd_valid :: "fd_manager \<times> world \<Rightarrow> u64 \<Rightarrow> bool" where
  "fd_valid s h = (fd64_exist (fst s) h \<and> h < counter (fst s))"

definition fd_retired :: "fd_manager \<times> world \<Rightarrow> u64 \<Rightarrow> bool" where
  "fd_retired s h = (\<not> fd64_exist (fst s) h \<and> h < counter (fst s))"

text \<open>The counter can be advanced without wrapping and no handle lies above it.\<close>

definition fd_room :: "fd_manager \<times> world \<Rightarrow> bool" where
  "fd_room s = (counter (fst s) + 1 \<noteq> 0 \<and> (\<forall>h. fd64_exist (fst s) h \<longrightarrow> h < counter (fst s)))"

lemma counter_step: "(c :: u64) + 1 \<noteq> 0 \<Longrightarrow> c < c + 1"
  using measure_unat[of "c + 1"] by (simp add: word_less_nat_alt)

lemma fd_create_wD:
  "fd_create_w f s = Some (h, s') \<Longrightarrow>
     h = counter (fst s) \<and> counter (fst s') = counter (fst s) + 1 \<and>
     (\<forall>k. fd64_exist (fst s') k = (k = h \<or> fd64_exist (fst s) k))"
  by (auto simp: fd_create_w_def fd_create_def guard_simps Let_def fd64_exist_def split: prod.splits)

lemma fd64_closeD:
  "fd64_close h s = Some s' \<Longrightarrow>
     fd64_exist (fst s) h \<and> counter (fst s') = counter (fst s) \<and>
     (\<forall>k. fd64_exist (fst s') k = (k \<noteq> h \<and> fd64_exist (fst s) k))"
  by (auto simp: fd64_close_def fd64_exist_def Let_def split: prod.splits option.splits if_splits)

interpretation fdm: handle_table fd_create_w fd64_close fd_valid fd_retired fd_room
proof unfold_locales
  fix s s' :: "fd_manager \<times> world" and h j :: u64 and f :: int
  show "fd_retired s h \<Longrightarrow> \<not> fd_valid s h" by (simp add: fd_retired_def fd_valid_def)
  {
    assume c: "fd_create_w f s = Some (h, s')" and r: "fd_room s"
    have lt: "counter (fst s) < counter (fst s) + 1" using r counter_step by (simp add: fd_room_def)
    show "\<not> fd_valid s h \<and> \<not> fd_retired s h \<and> fd_valid s' h"
      using fd_create_wD[OF c] lt by (simp add: fd_valid_def fd_retired_def)
    show "fd_retired s' j" if "fd_retired s j"
      using fd_create_wD[OF c] that order.strict_trans[OF _ lt, of j] by (auto simp: fd_retired_def)
    show "fd_valid s' j" if "fd_valid s j"
      using fd_create_wD[OF c] that order.strict_trans[OF _ lt, of j] by (auto simp: fd_valid_def)
  }
  {
    assume c: "fd64_close h s = Some s'"
    show "fd_retired s' h" if "fd_room s"
      using fd64_closeD[OF c] that by (auto simp: fd_retired_def fd_room_def)
    show "fd_retired s' j" if "fd_retired s j"
      using fd64_closeD[OF c] that by (auto simp: fd_retired_def)
    show "fd_valid s' j" if "fd_valid s j" "j \<noteq> h"
      using fd64_closeD[OF c] that by (auto simp: fd_valid_def)
  }
qed

section \<open>Runs from the start of the program\<close>

fun fd_run :: "fd_manager \<times> world \<Rightarrow> (int, u64) handle_op list
    \<Rightarrow> (u64 list \<times> fd_manager \<times> world) option" where
  "fd_run s [] = Some ([], s)"
| "fd_run s (HOpen f # ops) =
     (case fd_create_w f s of None \<Rightarrow> None
      | Some (h, s') \<Rightarrow> map_option (\<lambda>(hs, t). (h # hs, t)) (fd_run s' ops))"
| "fd_run s (HClose h # ops) =
     (case fd64_close h s of None \<Rightarrow> None | Some s' \<Rightarrow> fd_run s' ops)"

definition fd_below :: "fd_manager \<times> world \<Rightarrow> bool" where
  "fd_below s = (\<forall>h. fd64_exist (fst s) h \<longrightarrow> h < counter (fst s))"

lemma fd_run_step:
  assumes "fd_below s" "unat (counter (fst s)) + n < 2 ^ 64 - 1"
  shows "fd_room s"
    and "fd_create_w f s = Some (h, s') \<Longrightarrow>
      h = counter (fst s) \<and> fd_below s' \<and> unat (counter (fst s')) = unat (counter (fst s)) + 1"
    and "fd64_close h s = Some s' \<Longrightarrow> fd_below s' \<and> counter (fst s') = counter (fst s)"
proof -
  have c: "counter (fst s) < - 1"
    using assms(2) by (simp add: word_less_nat_alt unsigned_minus_1_eq_mask mask_eq_exp_minus_1)
  from unat_inc[OF c] have u: "unat (counter (fst s) + 1) = unat (counter (fst s)) + 1" .
  then have nz: "counter (fst s) + 1 \<noteq> 0" by (metis Suc_eq_plus1 nat.simps(3) unat_0)
  then show "fd_room s" using assms(1) by (simp add: fd_room_def fd_below_def)
  show "h = counter (fst s) \<and> fd_below s' \<and> unat (counter (fst s')) = unat (counter (fst s)) + 1"
    if "fd_create_w f s = Some (h, s')"
    using fd_create_wD[OF that] assms(1) counter_step[OF nz] u
    by (auto simp: fd_below_def intro: order.strict_trans)
  show "fd_below s' \<and> counter (fst s') = counter (fst s)" if "fd64_close h s = Some s'"
    using fd64_closeD[OF that] assms(1) by (auto simp: fd_below_def)
qed

lemma fd_run_is_run:
  "fd_below s \<Longrightarrow> unat (counter (fst s)) + length ops < 2 ^ 64 - 1 \<Longrightarrow> fd_run s ops = fdm.run s ops"
proof (induction ops arbitrary: s)
  case (Cons op ops)
  note step = fd_run_step[OF Cons.prems]
  have smaller: "unat (counter (fst s)) + length ops < 2 ^ 64 - 1" using Cons.prems(2) by simp
  show ?case
  proof (cases op)
    case (HOpen f)
    show ?thesis
    proof (cases "fd_create_w f s")
      case (Some r)
      obtain h s' where r: "r = (h, s')" by (cases r)
      have "fd_run s' ops = fdm.run s' ops"
        using step(2)[of f h s'] Some r Cons.prems(2) by (intro Cons.IH) simp_all
      then show ?thesis using HOpen Some r step(1) by simp
    qed (use HOpen step(1) in simp)
  next
    case (HClose h)
    show ?thesis
    proof (cases "fd64_close h s")
      case (Some s')
      have "fd_run s' ops = fdm.run s' ops"
        using step(3)[of h s'] Some smaller by (intro Cons.IH) simp_all
      then show ?thesis using HClose Some step(1) by simp
    qed (use HClose step(1) in simp)
  qed
qed simp

lemma fd_run_issued_ge:
  "fd_below s \<Longrightarrow> unat (counter (fst s)) + length ops < 2 ^ 64 - 1 \<Longrightarrow> fd_run s ops = Some (hs, t) \<Longrightarrow>
   k \<in> set hs \<Longrightarrow> unat (counter (fst s)) \<le> unat k"
proof (induction ops arbitrary: s hs)
  case (Cons op ops)
  note step = fd_run_step[OF Cons.prems(1,2)]
  have smaller: "unat (counter (fst s)) + length ops < 2 ^ 64 - 1" using Cons.prems(2) by simp
  show ?case
  proof (cases op)
    case (HOpen f)
    with Cons.prems(3) obtain h s' hs' where
      c: "fd_create_w f s = Some (h, s')" and r: "fd_run s' ops = Some (hs', t)" and hs: "hs = h # hs'"
      by (auto split: option.splits)
    have st: "h = counter (fst s)" "fd_below s'" "unat (counter (fst s')) = unat (counter (fst s)) + 1"
      using step(2)[OF c] by auto
    have "unat (counter (fst s')) \<le> unat k" if "k \<in> set hs'"
      using Cons.prems(2) st that by (intro Cons.IH[OF st(2) _ r]) simp_all
    then show ?thesis using Cons.prems(4) hs st by auto
  next
    case (HClose h)
    with Cons.prems(3) obtain s' where c: "fd64_close h s = Some s'" and r: "fd_run s' ops = Some (hs, t)"
      by (auto split: option.splits)
    have st: "fd_below s'" "counter (fst s') = counter (fst s)" using step(3)[OF c] by auto
    show ?thesis using Cons.IH[OF st(1) _ r Cons.prems(4)] smaller st(2) by simp
  qed
qed simp

section \<open>Properties\<close>

text \<open>C10. In any run of opens and closes from the start of the program, shorter
  than \<open>2^63\<close> operations: the handles issued are pairwise distinct, none of
  them looks like a plain descriptor (all are above \<open>2^32 - 1\<close>), and a handle
  that was closed stays invalid, whatever descriptors are reused later, so a
  late event for it is recognised.\<close>

theorem handles_never_reused:
  assumes "fd_run (fd_manager_init, w) (before @ HClose h # after) = Some (hs, fm, w')"
    and "length (before @ HClose h # after) < 2 ^ 63"
  shows "distinct hs \<and> (\<forall>k\<in>set hs. 0xFFFFFFFF < k) \<and> \<not> fd64_exist fm h"
proof -
  let ?s = "(fd_manager_init, w)"
  have b: "fd_below ?s" by (simp add: fd_below_def fd_manager_init_def fd64_exist_def)
  have n: "unat (counter (fst ?s)) + length (before @ HClose h # after) < 2 ^ 64 - 1"
    using assms(2) by (simp add: fd_manager_init_def)
  have run: "fdm.run ?s (before @ HClose h # after) = Some (hs, fm, w')"
    using fd_run_is_run[OF b n] assms(1) by simp
  have "0xFFFFFFFF < k" if "k \<in> set hs" for k
    using fd_run_issued_ge[OF b n assms(1) that] by (simp add: fd_manager_init_def word_less_nat_alt)
  moreover have "\<not> fd64_exist fm h"
    using fdm.closed_retired_at_end[OF run] by (simp add: fd_retired_def)
  ultimately show ?thesis using fdm.issued_distinct[OF run] by blast
qed

lemma handles_never_reused_witness:
  "let r = the (fd_run (fd_manager_init, example_world) ([HOpen 7] @ HClose 4294967395 # [HOpen 7]))
   in distinct (fst r) \<and> (\<forall>k\<in>set (fst r). 0xFFFFFFFF < k) \<and> \<not> fd64_exist (fst (snd r)) 4294967395"
proof -
  have "\<exists>hs fm w'. fd_run (fd_manager_init, example_world) ([HOpen 7] @ HClose 4294967395 # [HOpen 7])
      = Some (hs, fm, w')"
    by (simp add: fd_create_w_def fd_create_def fd_manager_init_def fd_exist_def fd64_close_def
        exist_info_def Let_def syscall_def)
  then obtain hs fm w' where
    r: "fd_run (fd_manager_init, example_world) ([HOpen 7] @ HClose 4294967395 # [HOpen 7]) = Some (hs, fm, w')"
    by blast
  show ?thesis
    using handles_never_reused[OF r] r by (simp add: Let_def)
qed

end
