(* ===== verification/ConvManager.thy ===== *)
theory ConvManager
  imports Lru FdManager
begin

text \<open>
  The conversations multiplexed over one connection (\<open>conv_manager_t\<close>,
  connection.h): a bijection between conversation numbers and their data (the
  peer address on the client, a socket handle on the server), an LRU list of
  the numbers, and a cleaner that expires a bounded number of idle
  conversations per second. The callback run on every erased datum works on
  the rest of the program state \<open>'x\<close> and the environment.
\<close>

section \<open>The code\<close>

definition conv_clear_ratio :: nat where "conv_clear_ratio = 30"
definition conv_clear_min :: nat where "conv_clear_min = 1"
definition conv_clear_interval :: u64 where "conv_clear_interval = 1000"
definition conv_timeout :: u64 where "conv_timeout = 180000"

type_synonym ('d, 'x) clear_fn = "('d \<Rightarrow> 'x \<times> world \<Rightarrow> ('x \<times> world) option) option"

record 'd conv_manager =
  data_to_conv :: "'d \<rightharpoonup> u32"
  conv_to_data :: "u32 \<rightharpoonup> 'd"
  conv_lru :: "u32 lru"
  cv_last_clear_time :: u64

text \<open>The constructor's \<open>long long last_clear_time = 0\<close> declares a local variable
  and leaves the member as it was in memory: \<open>junk\<close>.\<close>

definition conv_manager_init :: "u64 \<Rightarrow> 'd conv_manager" where
  "conv_manager_init junk = \<lparr> data_to_conv = Map.empty, conv_to_data = Map.empty,
     conv_lru = lru_empty_state, cv_last_clear_time = junk \<rparr>"

definition conv_get_size :: "'d conv_manager \<Rightarrow> nat" where
  "conv_get_size cm = card (dom (conv_to_data cm))"

text \<open>The optional callback of an erased datum.\<close>

definition run_clear_fn :: "('d, 'x) clear_fn \<Rightarrow> 'd \<Rightarrow> 'x \<times> world \<Rightarrow> ('x \<times> world) option" where
  "run_clear_fn additional_clear_function data xw =
     (case additional_clear_function of None \<Rightarrow> Some xw | Some f \<Rightarrow> f data xw)"

text \<open>\<open>clear\<close>: \<open>order\<close> is the order in which the hash map is traversed.\<close>

fun conv_clear_each :: "('d, 'x) clear_fn \<Rightarrow> 'd list \<Rightarrow> 'x \<times> world \<Rightarrow> ('x \<times> world) option" where
  "conv_clear_each f [] xw = Some xw"
| "conv_clear_each f (d # ds) xw = Option.bind (run_clear_fn f d xw) (conv_clear_each f ds)"

definition conv_clear :: "('d, 'x) clear_fn \<Rightarrow> 'd list \<Rightarrow> 'd conv_manager \<times> 'x \<times> world
    \<Rightarrow> ('d conv_manager \<times> 'x \<times> world) option" where
  "conv_clear additional_clear_function order = (\<lambda>(cm, xw).
     do {
       xw \<leftarrow> conv_clear_each additional_clear_function order xw;
       Some (cm \<lparr> data_to_conv := Map.empty, conv_to_data := Map.empty,
                   conv_lru := lru_clear (conv_lru cm) \<rparr>, xw)
     })"

definition is_conv_used :: "'d conv_manager \<Rightarrow> u32 \<Rightarrow> bool" where
  "is_conv_used cm conv = (conv_to_data cm conv \<noteq> None)"

definition is_data_used :: "'d conv_manager \<Rightarrow> 'd \<Rightarrow> bool" where
  "is_data_used cm data = (data_to_conv cm data \<noteq> None)"

partial_function (option) get_new_conv :: "'d conv_manager \<Rightarrow> world \<Rightarrow> (u32 \<times> world) option" where
  [code]: "get_new_conv cm w =
     Option.bind (get_true_random_number_nz w)
       (\<lambda>cw. if is_conv_used cm (fst cw) then get_new_conv cm (snd cw) else Some cw)"

text \<open>\<open>mp[key]\<close> inserts a default entry when the key is missing.\<close>

definition find_conv_by_data :: "'d \<Rightarrow> 'd conv_manager \<Rightarrow> u32 \<times> 'd conv_manager" where
  "find_conv_by_data data cm =
     (case data_to_conv cm data of
        Some c \<Rightarrow> (c, cm)
      | None \<Rightarrow> (0, cm \<lparr> data_to_conv := (data_to_conv cm)(data \<mapsto> 0) \<rparr>))"

definition find_data_by_conv :: "'d \<Rightarrow> u32 \<Rightarrow> 'd conv_manager \<Rightarrow> 'd \<times> 'd conv_manager" where
  "find_data_by_conv dflt conv cm =
     (case conv_to_data cm conv of
        Some d \<Rightarrow> (d, cm)
      | None \<Rightarrow> (dflt, cm \<lparr> conv_to_data := (conv_to_data cm)(conv \<mapsto> dflt) \<rparr>))"

definition conv_update_active_time :: "u32 \<Rightarrow> 'd conv_manager \<Rightarrow> world \<Rightarrow> ('d conv_manager \<times> world) option" where
  "conv_update_active_time conv cm w =
     do { (l, w) \<leftarrow> lru_update conv (conv_lru cm) w; Some (cm \<lparr> conv_lru := l \<rparr>, w) }"

definition insert_conv :: "u32 \<Rightarrow> 'd \<Rightarrow> 'd conv_manager \<Rightarrow> world \<Rightarrow> ('d conv_manager \<times> world) option" where
  "insert_conv conv data cm w =
     do {
       let cm = cm \<lparr> data_to_conv := (data_to_conv cm)(data \<mapsto> conv),
                     conv_to_data := (conv_to_data cm)(conv \<mapsto> data) \<rparr>;
       (l, w) \<leftarrow> lru_new_key conv (conv_lru cm) w;
       Some (cm \<lparr> conv_lru := l \<rparr>, w)
     }"

definition erase_conv :: "('d, 'x) clear_fn \<Rightarrow> 'd \<Rightarrow> u32 \<Rightarrow> 'd conv_manager \<times> 'x \<times> world
    \<Rightarrow> ('d conv_manager \<times> 'x \<times> world) option" where
  "erase_conv additional_clear_function dflt conv = (\<lambda>(cm, xw).
     do {
       let (data, cm) = find_data_by_conv dflt conv cm;
       xw \<leftarrow> run_clear_fn additional_clear_function data xw;
       let cm = cm \<lparr> conv_to_data := (conv_to_data cm)(conv := None),
                     data_to_conv := (data_to_conv cm)(data := None) \<rparr>;
       l \<leftarrow> lru_erase conv (conv_lru cm);
       Some (cm \<lparr> conv_lru := l \<rparr>, xw)
     })"

text \<open>The cleaning loop, \<open>n\<close> being \<open>num_to_clean - cnt\<close>.\<close>

fun conv_clear_loop :: "('d, 'x) clear_fn \<Rightarrow> 'd \<Rightarrow> u64 \<Rightarrow> nat \<Rightarrow> 'd conv_manager \<times> 'x \<times> world
    \<Rightarrow> ('d conv_manager \<times> 'x \<times> world) option" where
  "conv_clear_loop f dflt current_time 0 st = Some st"
| "conv_clear_loop f dflt current_time (Suc n) st =
     (if lru_empty (conv_lru (fst st)) then Some st
      else case lru_peek_back (conv_lru (fst st)) of
        None \<Rightarrow> None
      | Some (ts, conv) \<Rightarrow>
          if current_time - ts < conv_timeout then Some st
          else Option.bind (erase_conv f dflt conv st) (conv_clear_loop f dflt current_time n))"

definition conv_clear_inactive0 :: "('d, 'x) clear_fn \<Rightarrow> 'd \<Rightarrow> 'd conv_manager \<times> 'x \<times> world
    \<Rightarrow> ('d conv_manager \<times> 'x \<times> world) option" where
  "conv_clear_inactive0 f dflt = (\<lambda>(cm, x, w).
     let size = lru_size (conv_lru cm);
         num_to_clean = size div conv_clear_ratio + conv_clear_min;
         num_to_clean = min num_to_clean size;
         (current_time, w) = get_current_time w
     in conv_clear_loop f dflt current_time num_to_clean (cm, x, w))"

definition conv_clear_inactive :: "('d, 'x) clear_fn \<Rightarrow> 'd \<Rightarrow> 'd conv_manager \<times> 'x \<times> world
    \<Rightarrow> ('d conv_manager \<times> 'x \<times> world) option" where
  "conv_clear_inactive f dflt = (\<lambda>(cm, x, w).
     let (t, w) = get_current_time w in
     if t - cv_last_clear_time cm > conv_clear_interval
     then let (t, w) = get_current_time w
          in conv_clear_inactive0 f dflt (cm \<lparr> cv_last_clear_time := t \<rparr>, x, w)
     else Some (cm, x, w))"

text \<open>\<open>server_clear_function\<close> of connection.cpp: the datum is a socket handle.\<close>

definition server_clear_function :: "u64 \<Rightarrow> fd_manager \<times> world \<Rightarrow> (fd_manager \<times> world) option" where
  "server_clear_function fd64 = (\<lambda>(fm, w).
     do { assert_c (fd64_exist fm fd64); fd64_close fd64 (fm, w) })"

section \<open>The invariant\<close>

definition conv_inv :: "world \<Rightarrow> 'd conv_manager \<Rightarrow> bool" where
  "conv_inv w cm \<longleftrightarrow> lru_inv w (conv_lru cm) \<and>
     (\<forall>c d. conv_to_data cm c = Some d \<longleftrightarrow> data_to_conv cm d = Some c) \<and>
     dom (conv_to_data cm) = fst ` set (lru_entries (conv_lru cm))"

lemma conv_inv_init [simp]: "conv_inv w (conv_manager_init j)"
  by (simp add: conv_inv_def conv_manager_init_def lru_entries_def lru_empty_state_def lru_inv_def)

lemma conv_inv_later: "conv_inv w cm \<Longrightarrow> now_floor w \<le> now_floor w' \<Longrightarrow> conv_inv w' cm"
  using lru.inv_later by (auto simp: conv_inv_def)

lemma conv_size_entries: "conv_inv w cm \<Longrightarrow> conv_get_size cm = length (lru_entries (conv_lru cm))"
  using lru.keys_distinct[of w "conv_lru cm"] distinct_card[of "map fst (lru_entries (conv_lru cm))"]
  by (simp add: conv_inv_def conv_get_size_def)

lemma conv_used_iff: "conv_inv w cm \<Longrightarrow> is_conv_used cm c \<longleftrightarrow> c \<in> fst ` set (lru_entries (conv_lru cm))"
proof -
  assume "conv_inv w cm"
  then have "dom (conv_to_data cm) = fst ` set (lru_entries (conv_lru cm))" by (simp add: conv_inv_def)
  moreover have "is_conv_used cm c \<longleftrightarrow> c \<in> dom (conv_to_data cm)" by (simp add: is_conv_used_def dom_def)
  ultimately show ?thesis by simp
qed

lemma conv_restrict_same:
  "conv_inv w cm \<Longrightarrow> conv_to_data cm |` (fst ` set (lru_entries (conv_lru cm))) = conv_to_data cm"
proof -
  assume "conv_inv w cm"
  then have "dom (conv_to_data cm) = fst ` set (lru_entries (conv_lru cm))" by (simp add: conv_inv_def)
  moreover have "conv_to_data cm |` dom (conv_to_data cm) = conv_to_data cm"
    by (rule ext) (auto simp: restrict_map_def dom_def)
  ultimately show ?thesis by simp
qed

lemma insert_conv_ok:
  assumes inv: "conv_inv w cm" and new: "\<not> is_conv_used cm c" "\<not> is_data_used cm d"
    and t: "get_current_time w = (t, w')"
  shows "\<exists>cm'. insert_conv c d cm w = Some (cm', w') \<and> conv_inv w' cm' \<and>
    conv_to_data cm' = (conv_to_data cm)(c \<mapsto> d) \<and> data_to_conv cm' = (data_to_conv cm)(d \<mapsto> c) \<and>
    lru_entries (conv_lru cm') = (c, t) # lru_entries (conv_lru cm) \<and>
    cv_last_clear_time cm' = cv_last_clear_time cm"
proof -
  have "c \<notin> fst ` set (lru_entries (conv_lru cm))"
    using conv_used_iff[OF inv] new by simp
  moreover have "lru_inv w (conv_lru cm)" using inv by (simp add: conv_inv_def)
  ultimately obtain l where l: "lru_new_key c (conv_lru cm) w = Some (l, w')"
    "lru_entries l = (c, t) # lru_entries (conv_lru cm)" "lru_inv w' l"
    using lru.new_key_ok[OF _ _ t] by metis
  let ?cm = "cm \<lparr> data_to_conv := (data_to_conv cm)(d \<mapsto> c),
                  conv_to_data := (conv_to_data cm)(c \<mapsto> d), conv_lru := l \<rparr>"
  have bij: "conv_to_data cm c' = Some d' \<longleftrightarrow> data_to_conv cm d' = Some c'" for c' d'
    using inv by (simp add: conv_inv_def)
  have "conv_inv w' ?cm"
    unfolding conv_inv_def
  proof (intro conjI allI)
    show "lru_inv w' (conv_lru ?cm)" using l by simp
    show "(conv_to_data ?cm c' = Some d') = (data_to_conv ?cm d' = Some c')" for c' d'
    proof -
      have "conv_to_data cm c = None" "data_to_conv cm d = None"
        using new by (simp_all add: is_conv_used_def is_data_used_def)
      then have "data_to_conv cm d' \<noteq> Some c" "conv_to_data cm c' \<noteq> Some d"
        using bij[of c d'] bij[of c' d] by simp_all
      then show ?thesis using bij[of c' d'] by (cases "c' = c"; cases "d' = d") simp_all
    qed
    have "dom (conv_to_data cm) = fst ` set (lru_entries (conv_lru cm))" using inv by (simp add: conv_inv_def)
    then show "dom (conv_to_data ?cm) = fst ` set (lru_entries (conv_lru ?cm))" using l(2) by simp
  qed
  moreover have "insert_conv c d cm w = Some (?cm, w')" using l by (simp add: insert_conv_def)
  ultimately show ?thesis using l by auto
qed

lemma update_active_ok:
  assumes inv: "conv_inv w cm" and used: "is_conv_used cm c" and t: "get_current_time w = (t, w')"
  shows "\<exists>cm'. conv_update_active_time c cm w = Some (cm', w') \<and> conv_inv w' cm' \<and>
    conv_to_data cm' = conv_to_data cm \<and> data_to_conv cm' = data_to_conv cm \<and>
    lru_entries (conv_lru cm') = (c, t) # filter (\<lambda>e. fst e \<noteq> c) (lru_entries (conv_lru cm)) \<and>
    cv_last_clear_time cm' = cv_last_clear_time cm"
proof -
  have k: "c \<in> fst ` set (lru_entries (conv_lru cm))" and li: "lru_inv w (conv_lru cm)"
    using conv_used_iff[OF inv] used inv by (simp_all add: conv_inv_def)
  obtain l where l: "lru_update c (conv_lru cm) w = Some (l, w')"
    "lru_entries l = (c, t) # filter (\<lambda>e. fst e \<noteq> c) (lru_entries (conv_lru cm))" "lru_inv w' l"
    using lru.update_ok[OF li k t] by blast
  have "fst ` set (lru_entries l) = fst ` set (lru_entries (conv_lru cm))"
    using l(2) k by auto
  then show ?thesis
    using inv l by (intro exI[of _ "cm \<lparr> conv_lru := l \<rparr>"])
      (simp add: conv_update_active_time_def conv_inv_def)
qed

text \<open>How many of the last \<open>n\<close> entries, the longest idle first, have timed out before
  the first that has not.\<close>

definition idle_count :: "u64 \<Rightarrow> nat \<Rightarrow> ('k \<times> u64) list \<Rightarrow> nat" where
  "idle_count now n es = length (takeWhile (\<lambda>e. conv_timeout \<le> now - snd e) (take n (rev es)))"

lemma idle_count_simps [simp]: "idle_count now 0 es = 0" "idle_count now n [] = 0"
  by (simp_all add: idle_count_def)

lemma idle_count_Suc:
  "es \<noteq> [] \<Longrightarrow> idle_count now (Suc n) es =
     (if now - snd (last es) < conv_timeout then 0 else Suc (idle_count now n (butlast es)))"
  by (cases es rule: rev_cases) (auto simp: idle_count_def)

lemma idle_count_min: "idle_count now (min n (length es)) es = idle_count now n es"
  by (simp add: idle_count_def min_def)

section \<open>Erasing and expiring, for any callback\<close>

locale conv_cleaner =
  fixes acf :: "('d, 'x) clear_fn"
    and live :: "'d set \<Rightarrow> 'x \<times> world \<Rightarrow> bool"   \<comment> \<open>the callback can run on each of these\<close>
  assumes callback_ok: "live D xw \<Longrightarrow> d \<in> D \<Longrightarrow>
      \<exists>xw'. run_clear_fn acf d xw = Some xw' \<and> live (D - {d}) xw' \<and> now_floor (snd xw') = now_floor (snd xw)"
    and live_clock: "live D (x, w) \<Longrightarrow> live D (x, w')"   \<comment> \<open>whatever the environment\<close>
begin

lemma erase_conv_ok:
  assumes inv: "conv_inv w cm" and live: "live (ran (conv_to_data cm)) (x, w)"
    and used: "is_conv_used cm c"
  shows "\<exists>cm' x' w'. erase_conv acf dflt c (cm, x, w) = Some (cm', x', w') \<and> conv_inv w' cm' \<and>
    live (ran (conv_to_data cm')) (x', w') \<and> now_floor w' = now_floor w \<and>
    conv_to_data cm' = (conv_to_data cm)(c := None) \<and>
    lru_entries (conv_lru cm') = filter (\<lambda>e. fst e \<noteq> c) (lru_entries (conv_lru cm)) \<and>
    cv_last_clear_time cm' = cv_last_clear_time cm"
proof -
  obtain d where d: "conv_to_data cm c = Some d" using used by (auto simp: is_conv_used_def)
  then have "d \<in> ran (conv_to_data cm)" by (rule ranI)
  from callback_ok[OF live this] obtain x' w' where
    cb: "run_clear_fn acf d (x, w) = Some (x', w')" "live (ran (conv_to_data cm) - {d}) (x', w')"
      "now_floor w' = now_floor w" by (metis prod.collapse snd_conv)
  have li: "lru_inv w (conv_lru cm)" and bij: "\<And>c d. conv_to_data cm c = Some d \<longleftrightarrow> data_to_conv cm d = Some c"
    using inv by (simp_all add: conv_inv_def)
  have li': "lru_inv w' (conv_lru cm)" using lru.inv_later[OF li] cb(3) by simp
  have k: "c \<in> fst ` set (lru_entries (conv_lru cm))" using conv_used_iff[OF inv] used by simp
  obtain l where l: "lru_erase c (conv_lru cm) = Some l"
    "lru_entries l = filter (\<lambda>e. fst e \<noteq> c) (lru_entries (conv_lru cm))" "lru_inv w' l"
    using lru.erase_ok[OF li' k] by blast
  let ?cm = "cm \<lparr> conv_to_data := (conv_to_data cm)(c := None),
                  data_to_conv := (data_to_conv cm)(d := None), conv_lru := l \<rparr>"
  have "ran (conv_to_data ?cm) = ran (conv_to_data cm) - {d}"
    using d by (auto simp: ran_def) (metis bij option.inject)+
  moreover have "conv_inv w' ?cm"
    unfolding conv_inv_def
  proof (intro conjI allI)
    show "lru_inv w' (conv_lru ?cm)" using l by simp
    show "(conv_to_data ?cm c' = Some d') = (data_to_conv ?cm d' = Some c')" for c' d'
      using bij[of c' d'] bij[of c d] bij[of c d'] bij[of c' d] d by auto
    have "dom (conv_to_data cm) = fst ` set (lru_entries (conv_lru cm))" using inv by (simp add: conv_inv_def)
    then show "dom (conv_to_data ?cm) = fst ` set (lru_entries (conv_lru ?cm))" using l(2) by auto
  qed
  moreover have "erase_conv acf dflt c (cm, x, w) = Some (?cm, x', w')"
    using d cb(1) l(1) by (simp add: erase_conv_def find_data_by_conv_def)
  ultimately show ?thesis using cb l by auto
qed

lemma conv_clear_loop_ok:
  assumes "conv_inv w cm" and "live (ran (conv_to_data cm)) (x, w)"
  shows "\<exists>cm' x' w' k. conv_clear_loop acf dflt now n (cm, x, w) = Some (cm', x', w') \<and>
    conv_inv w' cm' \<and> live (ran (conv_to_data cm')) (x', w') \<and>
    k = idle_count now n (lru_entries (conv_lru cm)) \<and> k \<le> n \<and> k \<le> length (lru_entries (conv_lru cm)) \<and>
    lru_entries (conv_lru cm') = take (length (lru_entries (conv_lru cm)) - k) (lru_entries (conv_lru cm)) \<and>
    (\<forall>e\<in>set (drop (length (lru_entries (conv_lru cm)) - k) (lru_entries (conv_lru cm))). now - snd e \<ge> conv_timeout) \<and>
    conv_to_data cm' = conv_to_data cm |` (fst ` set (lru_entries (conv_lru cm'))) \<and>
    cv_last_clear_time cm' = cv_last_clear_time cm"
  using assms
proof (induction n arbitrary: cm x w)
  case 0
  then show ?case using conv_restrict_same[OF 0(1)]
    by (intro exI[of _ cm] exI[of _ x] exI[of _ w] exI[of _ 0]) simp
next
  case (Suc n)
  let ?es = "lru_entries (conv_lru cm)"
  have same: "conv_to_data cm |` (fst ` set ?es) = conv_to_data cm"
    using Suc.prems(1) by (rule conv_restrict_same)
  show ?case
  proof (cases "?es = [] \<or> now - snd (last ?es) < conv_timeout")
    case True
    have "conv_clear_loop acf dflt now (Suc n) (cm, x, w) = Some (cm, x, w)"
    proof (cases "?es = []")
      case False
      then show ?thesis
        using True lru.peek_back_ok[of w "conv_lru cm"] Suc.prems(1)
        by (simp add: conv_inv_def lru_empty_def lru_entries_def)
    qed (simp add: lru_empty_def lru_entries_def)
    moreover have "idle_count now (Suc n) ?es = 0" using True by (cases "?es = []") (simp_all add: idle_count_Suc)
    ultimately show ?thesis using Suc.prems same
      by (intro exI[of _ cm] exI[of _ x] exI[of _ w] exI[of _ 0]) simp
  next
    case False
    let ?c = "fst (last ?es)"
    have ne: "?es \<noteq> []" and old: "\<not> now - snd (last ?es) < conv_timeout" using False by auto
    have pk: "lru_peek_back (conv_lru cm) = Some (snd (last ?es), ?c)"
      using lru.peek_back_ok[of w "conv_lru cm"] Suc.prems(1) ne by (simp add: conv_inv_def)
    have "is_conv_used cm ?c" using conv_used_iff[OF Suc.prems(1)] ne by simp
    from erase_conv_ok[OF Suc.prems this, of dflt] obtain cm1 x1 w1 where
      e: "erase_conv acf dflt ?c (cm, x, w) = Some (cm1, x1, w1)" "conv_inv w1 cm1"
      "live (ran (conv_to_data cm1)) (x1, w1)" "conv_to_data cm1 = (conv_to_data cm)(?c := None)"
      "lru_entries (conv_lru cm1) = filter (\<lambda>e. fst e \<noteq> ?c) ?es" "cv_last_clear_time cm1 = cv_last_clear_time cm"
      by blast
    have bl: "lru_entries (conv_lru cm1) = butlast ?es"
      using lru.erase_back[of w "conv_lru cm"] lru.erase_ok[of w "conv_lru cm" ?c] Suc.prems(1) ne e(5)
      by (auto simp: conv_inv_def)
    from Suc.IH[OF e(2,3)] obtain cm2 x2 w2 k where
      r: "conv_clear_loop acf dflt now n (cm1, x1, w1) = Some (cm2, x2, w2)" "conv_inv w2 cm2"
      "live (ran (conv_to_data cm2)) (x2, w2)" "k = idle_count now n (butlast ?es)" "k \<le> n" "k \<le> length (butlast ?es)"
      "lru_entries (conv_lru cm2) = take (length (butlast ?es) - k) (butlast ?es)"
      "\<forall>e\<in>set (drop (length (butlast ?es) - k) (butlast ?es)). now - snd e \<ge> conv_timeout"
      "conv_to_data cm2 = conv_to_data cm1 |` (fst ` set (lru_entries (conv_lru cm2)))"
      "cv_last_clear_time cm2 = cv_last_clear_time cm1"
      unfolding bl by blast
    have split: "?es = butlast ?es @ [last ?es]" using ne by simp
    have t: "take (length ?es - Suc k) ?es = take (length (butlast ?es) - k) (butlast ?es)"
      using ne by (simp add: take_butlast)
    have "drop (length ?es - Suc k) ?es = drop (length (butlast ?es) - k) (butlast ?es) @ [last ?es]"
      using r(6) ne by (subst split, subst drop_append) simp
    then have d: "\<forall>e\<in>set (drop (length ?es - Suc k) ?es). now - snd e \<ge> conv_timeout"
      using r(8) old by auto
    have "?c \<notin> fst ` set (lru_entries (conv_lru cm2))"
      using r(7) e(5) bl by (metis (mono_tags, lifting) imageE in_set_takeD mem_Collect_eq set_filter)
    then have "conv_to_data cm2 = conv_to_data cm |` (fst ` set (lru_entries (conv_lru cm2)))"
      using r(9) e(4) by (auto simp: restrict_map_def fun_eq_iff)
    moreover have "conv_clear_loop acf dflt now (Suc n) (cm, x, w) = Some (cm2, x2, w2)"
      using pk ne old e(1) r(1) by (simp add: lru_empty_def lru_entries_def)
    moreover have "Suc k \<le> Suc n" "Suc k \<le> length ?es" using r(5) apply simp
      using r(6) ne by (simp only: length_butlast) (cases ?es, simp_all)
    moreover have "lru_entries (conv_lru cm2) = take (length ?es - Suc k) ?es" using r(7) t by simp
    moreover have "cv_last_clear_time cm2 = cv_last_clear_time cm" using r(10) e(6) by simp
    moreover have "Suc k = idle_count now (Suc n) ?es" using idle_count_Suc[OF ne] old r(4) by simp
    ultimately show ?thesis using r(2,3) d by (intro exI conjI)
  qed
qed

lemma conv_clear_inactive_ok:
  assumes inv: "conv_inv w cm" and live: "live (ran (conv_to_data cm)) (x, w)"
  shows "\<exists>cm' x' w' k now. conv_clear_inactive acf dflt (cm, x, w) = Some (cm', x', w') \<and>
    conv_inv w' cm' \<and> live (ran (conv_to_data cm')) (x', w') \<and>
    now = time_readings 3 w ! 2 \<and>
    k = (if time_readings 3 w ! 0 - cv_last_clear_time cm > conv_clear_interval
         then idle_count now (conv_get_size cm div 30 + 1) (lru_entries (conv_lru cm)) else 0) \<and>
    now_floor w \<le> now \<and> k \<le> conv_get_size cm div 30 + 1 \<and> k \<le> conv_get_size cm \<and>
    lru_entries (conv_lru cm') = take (conv_get_size cm - k) (lru_entries (conv_lru cm)) \<and>
    (\<forall>e\<in>set (drop (conv_get_size cm - k) (lru_entries (conv_lru cm))). now - snd e \<ge> conv_timeout) \<and>
    conv_to_data cm' = conv_to_data cm |` (fst ` set (lru_entries (conv_lru cm')))"
proof -
  obtain t1 w1 t2 w2 t3 w3 where t: "get_current_time w = (t1, w1)" "get_current_time w1 = (t2, w2)"
    "get_current_time w2 = (t3, w3)" by (metis prod.collapse)
  have t3: "time_readings 3 w = [t1, t2, t3]" by (rule time_readings_3[OF t])
  have f: "now_floor w \<le> now_floor w1" "now_floor w1 \<le> now_floor w2" "now_floor w2 \<le> now_floor w3"
    "now_floor w3 = t3"
    using get_current_time_floor[OF t(1)] get_current_time_floor[OF t(2)] get_current_time_floor[OF t(3)]
    by auto
  have size: "conv_get_size cm = length (lru_entries (conv_lru cm))" using conv_size_entries[OF inv] .
  show ?thesis
  proof (cases "t1 - cv_last_clear_time cm > conv_clear_interval")
    case False
    have "live (ran (conv_to_data cm)) (x, w1)" using live_clock[OF live] by blast
    then show ?thesis
      using False t inv conv_inv_later[OF inv f(1)] conv_restrict_same[OF inv] size
        order.trans[OF f(1) order.trans[OF f(2,3)]] f(4)
      by (intro exI[of _ cm] exI[of _ x] exI[of _ w1] exI[of _ 0] exI[of _ t3])
        (simp add: conv_clear_inactive_def t3)
  next
    case True
    let ?cm = "cm \<lparr> cv_last_clear_time := t2 \<rparr>"
    let ?n = "min (lru_size (conv_lru cm) div conv_clear_ratio + conv_clear_min) (lru_size (conv_lru cm))"
    have "conv_inv w3 cm" using inv f by (meson conv_inv_later order.trans)
    then have "conv_inv w3 ?cm" by (simp add: conv_inv_def)
    moreover have "live (ran (conv_to_data ?cm)) (x, w3)"
      using live_clock[OF live] by simp
    ultimately obtain cm' x' w' k where
      r: "conv_clear_loop acf dflt t3 ?n (?cm, x, w3) = Some (cm', x', w')" "conv_inv w' cm'"
      "live (ran (conv_to_data cm')) (x', w')" "k = idle_count t3 ?n (lru_entries (conv_lru cm))" "k \<le> ?n" "k \<le> length (lru_entries (conv_lru cm))"
      "lru_entries (conv_lru cm') = take (length (lru_entries (conv_lru cm)) - k) (lru_entries (conv_lru cm))"
      "\<forall>e\<in>set (drop (length (lru_entries (conv_lru cm)) - k) (lru_entries (conv_lru cm))). t3 - snd e \<ge> conv_timeout"
      "conv_to_data cm' = conv_to_data cm |` (fst ` set (lru_entries (conv_lru cm')))"
      using conv_clear_loop_ok[of w3 ?cm x dflt t3 ?n] by auto
    have ls: "lru_size (conv_lru cm) = length (lru_entries (conv_lru cm))"
      by (simp add: lru_size_def lru_entries_def)
    then have "k \<le> conv_get_size cm div 30 + 1" "k \<le> conv_get_size cm"
      using r(5,6) size by (simp_all add: conv_clear_ratio_def conv_clear_min_def)
    moreover have "k = idle_count t3 (conv_get_size cm div 30 + 1) (lru_entries (conv_lru cm))"
      using r(4) unfolding ls idle_count_min by (simp add: size conv_clear_ratio_def conv_clear_min_def)
    moreover have "conv_clear_inactive acf dflt (cm, x, w) = Some (cm', x', w')"
      using True t r(1) by (simp add: conv_clear_inactive_def conv_clear_inactive0_def Let_def)
    moreover have "now_floor w \<le> t3" using f by auto
    ultimately show ?thesis using True r(2,3,7-9) size
      by (intro exI[of _ cm'] exI[of _ x'] exI[of _ w'] exI[of _ k] exI[of _ t3]) (simp add: t3)
  qed
qed

end

lemma clear_none_ok: "conv_cleaner None (\<lambda>D xw. True)"
  by unfold_locales (simp_all add: run_clear_fn_def)

interpretation client_convs: conv_cleaner "None :: ('d, 'x) clear_fn" "\<lambda>D xw. True"
  by (rule clear_none_ok)

definition handles_live :: "u64 set \<Rightarrow> fd_manager \<times> world \<Rightarrow> bool" where
  "handles_live D s = (\<forall>d\<in>D. fd64_exist (fst s) d)"

interpretation server_convs: conv_cleaner "Some server_clear_function" handles_live
proof unfold_locales
  fix D :: "u64 set" and s :: "fd_manager \<times> world" and d and x :: fd_manager and w w' :: world
  show "\<exists>s'. run_clear_fn (Some server_clear_function) d s = Some s' \<and> handles_live (D - {d}) s' \<and>
      now_floor (snd s') = now_floor (snd s)" if "handles_live D s" "d \<in> D"
  proof -
    have "fd64_exist (fst s) d" using that by (simp add: handles_live_def)
    then obtain s' where s': "fd64_close d s = Some s'" "now_floor (snd s') = now_floor (snd s)"
      by (cases s) (auto simp: fd64_close_def fd64_exist_def Let_def now_floor_def split: if_splits)
    then show ?thesis
      using that fd64_closeD[OF s'(1)] \<open>fd64_exist (fst s) d\<close>
      by (cases s) (auto simp: run_clear_fn_def server_clear_function_def handles_live_def)
  qed
  show "handles_live D (x, w) \<Longrightarrow> handles_live D (x, w')" by (simp add: handles_live_def)
qed

section \<open>Properties\<close>

text \<open>C9. The cleaner of the conversations, as the server runs it on every timer:
  in a consistent state whose socket handles are all open it never fails an
  assertion and never closes a handle twice, and it keeps the state consistent.
  Nothing expires when no more than a second has passed since the last round; else
  exactly those among the \<open>size div 30 + 1\<close> longest idle conversations expire that come, from
  the longest idle on, before the first one used in the last 180 seconds, where the
  time is the third reading of the clock in the round; all others are kept with
  their sockets open.\<close>

theorem conv_cleaner_correct:
  assumes "conv_inv w cm" and "\<forall>d\<in>ran (conv_to_data cm). fd64_exist fm d"
  shows "let es = lru_entries (conv_lru cm); t = time_readings 3 w;
      n = (if t ! 0 - cv_last_clear_time cm > 1000 then length es div 30 + 1 else 0);
      k = length (takeWhile (\<lambda>e. t ! 2 - snd e \<ge> 180000) (take n (rev es)))
    in \<exists>cm' fm' w'. conv_clear_inactive (Some server_clear_function) 0 (cm, fm, w) = Some (cm', fm', w')
      \<and> conv_inv w' cm' \<and> (\<forall>d\<in>ran (conv_to_data cm'). fd64_exist fm' d)
      \<and> lru_entries (conv_lru cm') = take (length es - k) es
      \<and> conv_to_data cm' = conv_to_data cm |` (fst ` set (take (length es - k) es))"
proof -
  obtain cm' fm' w' k where r: "conv_clear_inactive (Some server_clear_function) 0 (cm, fm, w) = Some (cm', fm', w')"
    "conv_inv w' cm'" "handles_live (ran (conv_to_data cm')) (fm', w')"
    "k = (if time_readings 3 w ! 0 - cv_last_clear_time cm > conv_clear_interval
       then idle_count (time_readings 3 w ! 2) (conv_get_size cm div 30 + 1) (lru_entries (conv_lru cm)) else 0)"
    "lru_entries (conv_lru cm') = take (conv_get_size cm - k) (lru_entries (conv_lru cm))"
    "conv_to_data cm' = conv_to_data cm |` (fst ` set (lru_entries (conv_lru cm')))"
    using server_convs.conv_clear_inactive_ok[OF assms(1), of fm 0] assms(2) by (auto simp: handles_live_def)
  have "k = length (takeWhile (\<lambda>e. time_readings 3 w ! 2 - snd e \<ge> 180000)
      (take (if time_readings 3 w ! 0 - cv_last_clear_time cm > 1000 then length (lru_entries (conv_lru cm)) div 30 + 1 else 0)
        (rev (lru_entries (conv_lru cm)))))"
    unfolding r(4) conv_size_entries[OF assms(1)] idle_count_def conv_timeout_def conv_clear_interval_def by simp
  then show ?thesis
    using r(1-3) r(6)[unfolded r(5)] r(5) unfolding Let_def conv_size_entries[OF assms(1)] by (auto simp: handles_live_def)
qed

definition example_convs :: "u64 conv_manager" where
  "example_convs = \<lparr> data_to_conv = [77 \<mapsto> 5], conv_to_data = [5 \<mapsto> 77],
     conv_lru = \<lparr> lru_mp = [5 \<mapsto> 0], lru_q = [(0, 5, 0)], lru_fresh = 1 \<rparr>, cv_last_clear_time = 0 \<rparr>"

definition example_fds :: fd_manager where
  "example_fds = \<lparr> counter = 78, fd_to_fd64_mp = [3 \<mapsto> 77], fd64_to_fd_mp = [77 \<mapsto> 3], fd_info_mp = Map.empty \<rparr>"

lemma example_convs_inv: "conv_inv example_world example_convs"
  by (auto simp: conv_inv_def example_convs_def lru_inv_def lru_entries_def now_floor_def example_world_def)

text \<open>200 seconds after its only use, the conversation of the example expires.\<close>

definition convs_later :: world where
  "convs_later = example_world \<lparr> raw_time := (\<lambda>_. 200000000) \<rparr>"

lemma conv_cleaner_correct_witness:
  "\<exists>cm' fm' w'. conv_clear_inactive (Some server_clear_function) 0 (example_convs, example_fds, convs_later) = Some (cm', fm', w')
    \<and> conv_inv w' cm' \<and> conv_to_data cm' = Map.empty"
proof -
  have t: "time_readings 3 convs_later = [200000, 200000, 200000]" by code_simp
  have e: "lru_entries (conv_lru example_convs) = [(5, 0)]" "cv_last_clear_time example_convs = 0"
    by (simp_all add: example_convs_def lru_entries_def)
  have "conv_inv convs_later example_convs"
    using conv_inv_later[OF example_convs_inv, of convs_later] by (simp add: now_floor_def convs_later_def)
  moreover have "\<forall>d\<in>ran (conv_to_data example_convs). fd64_exist example_fds d"
    by (simp add: example_convs_def example_fds_def fd64_exist_def ran_def)
  ultimately show ?thesis
    using conv_cleaner_correct[of convs_later example_convs example_fds] unfolding Let_def e t by simp blast
qed

end
