(* ===== verification/Address.thy ===== *)
theory Address
  imports World Wire Checksum
begin

text \<open>
  Socket addresses of common.h and common.cpp. An \<open>address_t\<close> is its 28 byte
  memory image (the union of \<open>sockaddr_in\<close> and \<open>sockaddr_in6\<close>), which is what
  equality and the hash look at; a \<open>my_ip_t\<close> is the 16 byte image of the union
  of an IPv4 and an IPv6 address. The text conversions of the C library enter
  as parameters.
\<close>

type_synonym address_t = bytes
type_synonym my_ip_t = bytes

definition AF_INET :: int where "AF_INET = 2"
definition AF_INET6 :: int where "AF_INET6 = 10"

definition addr_clear :: address_t where "addr_clear = replicate 28 0"

text \<open>\<open>sa_family\<close>, stored in host order; \<open>sin_port\<close> in network order.\<close>

definition sa_family :: "address_t \<Rightarrow> int" where
  "sa_family a = uint (of_be16 [a ! 1, a ! 0])"

definition sockaddr_in :: "int \<Rightarrow> bytes \<Rightarrow> address_t" where
  "sockaddr_in port ip = le16 (word_of_int AF_INET) @ be16 (word_of_int port) @ take 4 ip @ replicate 20 0"

definition sockaddr_in6 :: "int \<Rightarrow> bytes \<Rightarrow> address_t" where
  "sockaddr_in6 port ip =
     le16 (word_of_int AF_INET6) @ be16 (word_of_int port) @ replicate 4 0 @ take 16 ip @ replicate 4 0"

definition from_ip_port :: "bytes \<Rightarrow> int \<Rightarrow> address_t" where
  "from_ip_port ip port = sockaddr_in port ip"

definition from_ip_port_new :: "int \<Rightarrow> my_ip_t \<Rightarrow> int \<Rightarrow> address_t" where
  "from_ip_port_new type ip port =
     (if type = AF_INET then sockaddr_in port ip
      else if type = AF_INET6 then sockaddr_in6 port ip
      else addr_clear)"

definition addr_get_type :: "address_t \<Rightarrow> int option" where
  "addr_get_type a =
     do { assert_c (sa_family a = AF_INET \<or> sa_family a = AF_INET6); Some (sa_family a) }"

definition addr_get_len :: "address_t \<Rightarrow> nat option" where
  "addr_get_len a =
     do {
       type \<leftarrow> addr_get_type a;
       (if type = AF_INET then Some 16 else if type = AF_INET6 then Some 28 else None)
     }"

definition addr_get_port :: "address_t \<Rightarrow> u16 option" where
  "addr_get_port a = do { _ \<leftarrow> addr_get_type a; Some (of_be16 (drop 2 a)) }"

definition addr_set_port :: "address_t \<Rightarrow> int \<Rightarrow> address_t option" where
  "addr_set_port a port =
     do { _ \<leftarrow> addr_get_type a; Some (take 2 a @ be16 (word_of_int port) @ drop 4 a) }"

definition addr_eq :: "address_t \<Rightarrow> address_t \<Rightarrow> bool" where
  "addr_eq a b = (take 28 a = take 28 b)"

definition addr_hash :: "address_t \<Rightarrow> u32" where
  "addr_hash a = sdbm (take 28 a)"

text \<open>\<open>from_sockaddr(addr, slen)\<close>, \<open>addr\<close> the memory at the pointer.\<close>

definition from_sockaddr :: "bytes \<Rightarrow> nat \<Rightarrow> address_t option" where
  "from_sockaddr addr slen =
     (if sa_family addr = AF_INET6 then
        do { assert_c (slen = 28); Some (take 28 addr) }
      else if sa_family addr = AF_INET then
        do { assert_c (slen = 16); Some (take 16 addr @ replicate 12 0) }
      else None)"

definition my_ip_equal :: "int \<Rightarrow> my_ip_t \<Rightarrow> my_ip_t \<Rightarrow> bool option" where
  "my_ip_equal raw_ip_version a b =
     (if raw_ip_version = AF_INET then Some (take 4 a = take 4 b)
      else if raw_ip_version = AF_INET6 then Some (take 16 a = take 16 b)
      else None)"

definition my_ip_from_address_t :: "int \<Rightarrow> my_ip_t \<Rightarrow> address_t \<Rightarrow> my_ip_t option" where
  "my_ip_from_address_t raw_ip_version old a =
     do {
       type \<leftarrow> addr_get_type a;
       (if type = raw_ip_version \<and> raw_ip_version = AF_INET
        then Some (take 4 (drop 4 a) @ drop 4 old)
        else if type = raw_ip_version \<and> raw_ip_version = AF_INET6
        then Some (take 16 (drop 8 a))
        else None)
     }"

section \<open>Text\<close>

text \<open>Decimal numbers as \<open>%u\<close> reads and writes them (a value above the 64 bit
  range is not reached by the ports parsed here).\<close>

fun dec_digits :: "nat \<Rightarrow> string" where
  "dec_digits n = (if n < 10 then [char_of (48 + n)] else dec_digits (n div 10) @ [char_of (48 + n mod 10)])"

declare dec_digits.simps [simp del]

definition is_digit :: "char \<Rightarrow> bool" where
  "is_digit c = (48 \<le> (of_char c :: nat) \<and> (of_char c :: nat) \<le> 57)"

definition dec_value :: "string \<Rightarrow> nat" where
  "dec_value s = fold (\<lambda>c n. 10 * n + (of_char c - 48)) s 0"

text \<open>\<open>sscanf("%u")\<close>: blanks, an optional sign, digits; converted to 32 bits.\<close>

definition is_space :: "char \<Rightarrow> bool" where
  "is_space c = (c = CHR 0x20 \<or> (9 \<le> (of_char c :: nat) \<and> (of_char c :: nat) \<le> 13))"

definition scan_u :: "string \<Rightarrow> u32 option" where
  "scan_u s =
     (let s = dropWhile is_space s;
          neg = (s \<noteq> [] \<and> hd s = CHR ''-'');
          s = (if s \<noteq> [] \<and> (hd s = CHR ''-'' \<or> hd s = CHR ''+'') then tl s else s);
          ds = takeWhile is_digit s
      in if ds = [] then None
         else Some (if neg then - word_of_nat (dec_value ds) else word_of_nat (dec_value ds)))"

text \<open>\<open>sscanf(str, "[%[^]]]:%u", ip, &port) == 2\<close> and \<open>sscanf(str, "%[^:]:%u", ip, &port) == 2\<close>.\<close>

definition scan_bracketed :: "string \<Rightarrow> (string \<times> u32) option" where
  "scan_bracketed s =
     (if s = [] \<or> hd s \<noteq> CHR ''['' then None
      else let ip = takeWhile (\<lambda>c. c \<noteq> CHR '']'') (tl s);
               rest = dropWhile (\<lambda>c. c \<noteq> CHR '']'') (tl s)
           in if ip = [] \<or> take 2 rest \<noteq> '']:'' then None
              else map_option (\<lambda>p. (ip, p)) (scan_u (drop 2 rest)))"

definition scan_plain :: "string \<Rightarrow> (string \<times> u32) option" where
  "scan_plain s =
     (let ip = takeWhile (\<lambda>c. c \<noteq> CHR '':'') s;
          rest = dropWhile (\<lambda>c. c \<noteq> CHR '':'') s
      in if ip = [] \<or> rest = [] then None
         else map_option (\<lambda>p. (ip, p)) (scan_u (tl rest)))"

text \<open>\<open>inet_pton\<close> gives its code and the address bytes. The text before the port
  must fit the 100 byte buffer it is scanned into; the code does not check
  that, and the model stops where the program would write past the buffer.\<close>

definition addr_from_str :: "(int \<Rightarrow> string \<Rightarrow> int \<times> bytes) \<Rightarrow> string \<Rightarrow> address_t option" where
  "addr_from_str inet_pton str =
     (case scan_bracketed str of
        Some (ip, port) \<Rightarrow>
          do {
            assert_c (length ip < 100);
            assert_c (port \<le> 65535);
            let (ret, bs) = inet_pton AF_INET6 ip;
            assert_c (ret = 1);
            Some (sockaddr_in6 (uint port) bs)
          }
      | None \<Rightarrow>
          (case scan_plain str of
             Some (ip, port) \<Rightarrow>
               do {
                 assert_c (length ip < 100);
                 assert_c (port \<le> 65535);
                 let (ret, bs) = inet_pton AF_INET ip;
                 assert_c (ret = 1);
                 Some (sockaddr_in (uint port) bs)
               }
           | None \<Rightarrow> None))"

definition addr_from_str_ip_only :: "(int \<Rightarrow> string \<Rightarrow> int \<times> bytes) \<Rightarrow> string \<Rightarrow> address_t option" where
  "addr_from_str_ip_only inet_pton str =
     (let type = (if CHR '':'' \<notin> set str then AF_INET else AF_INET6);
          (ret, bs) = inet_pton type str
      in if ret = 1 then Some (if type = AF_INET then sockaddr_in 0 bs else sockaddr_in6 0 bs)
         else None)"

definition addr_to_str :: "(int \<Rightarrow> bytes \<Rightarrow> string option) \<Rightarrow> address_t \<Rightarrow> string option" where
  "addr_to_str inet_ntop a =
     do {
       type \<leftarrow> addr_get_type a;
       port \<leftarrow> addr_get_port a;
       (if type = AF_INET6 then
          do { ip \<leftarrow> inet_ntop AF_INET6 (take 16 (drop 8 a));
               Some (''['' @ ip @ '']:'' @ dec_digits (unat port)) }
        else
          do { ip \<leftarrow> inet_ntop AF_INET (take 4 (drop 4 a));
               Some (ip @ '':'' @ dec_digits (unat port)) })
     }"

definition addr_get_ip :: "(int \<Rightarrow> bytes \<Rightarrow> string option) \<Rightarrow> address_t \<Rightarrow> string option" where
  "addr_get_ip inet_ntop a =
     do {
       type \<leftarrow> addr_get_type a;
       (if type = AF_INET6 then inet_ntop AF_INET6 (take 16 (drop 8 a))
        else inet_ntop AF_INET (take 4 (drop 4 a)))
     }"

section \<open>A connected socket\<close>

definition O_NONBLOCK :: int where "O_NONBLOCK = 2048"

definition setnonblocking :: "int \<Rightarrow> world \<Rightarrow> world option" where
  "setnonblocking sock w =
     do {
       let (opts, w) = syscall (SysFcntlGetfl sock) w;
       assert_c (opts \<ge> 0);
       let (r, w) = syscall (SysFcntlSetfl sock (opts OR O_NONBLOCK)) w;
       assert_c (r \<ge> 0);
       Some w
     }"

definition set_buf_size :: "int \<Rightarrow> int \<Rightarrow> int \<Rightarrow> world \<Rightarrow> world option" where
  "set_buf_size force_socket_buf fd socket_buf_size w =
     do {
       let (snd_opt, rcv_opt) =
         (if force_socket_buf \<noteq> 0 then (''SO_SNDBUFFORCE'', ''SO_RCVBUFFORCE'')
          else (''SO_SNDBUF'', ''SO_RCVBUF''));
       let (r, w) = syscall (SysSetsockopt fd snd_opt socket_buf_size) w;
       assert_c (r \<ge> 0);
       let (r, w) = syscall (SysSetsockopt fd rcv_opt socket_buf_size) w;
       assert_c (r \<ge> 0);
       Some w
     }"

definition new_connected_udp_fd ::
  "int \<Rightarrow> int \<Rightarrow> address_t \<Rightarrow> world \<Rightarrow> (int \<times> world) option" where
  "new_connected_udp_fd force_socket_buf socket_buf_size a w =
     do {
       type \<leftarrow> addr_get_type a;
       let (fd, w) = syscall (SysSocket type) w;
       (if fd < 0 then Some (-1, w)
        else do {
          w \<leftarrow> setnonblocking fd w;
          w \<leftarrow> set_buf_size force_socket_buf fd socket_buf_size w;
          len \<leftarrow> addr_get_len a;
          let (ret, w) = syscall (SysConnect fd (take len a)) w;
          (if ret \<noteq> 0 then let (_, w) = syscall (SysClose fd) w in Some (-1, w)
           else Some (fd, w))
        })
     }"

section \<open>Fields\<close>

lemma le16_family [simp]:
  "take 2 (le16 w @ xs) = le16 w" "of_be16 [le16 w ! 1, le16 w ! 0] = w"
  "(le16 w @ xs) ! 0 = le16 w ! 0" "(le16 w @ xs) ! 1 = le16 w ! 1"
proof -
  obtain x y where b: "be16 w = [x, y]" by (auto simp: be16_def)
  have "of_be16 [x, y] = w" using of_be_be(1)[of w] b by simp
  then show "of_be16 [le16 w ! 1, le16 w ! 0] = w" by (simp add: le16_def b)
  show "take 2 (le16 w @ xs) = le16 w" "(le16 w @ xs) ! 0 = le16 w ! 0" "(le16 w @ xs) ! 1 = le16 w ! 1"
    by (simp_all add: nth_append)
qed

lemma family_sockaddr [simp]:
  "sa_family (sockaddr_in p ip) = AF_INET" "sa_family (sockaddr_in6 p ip) = AF_INET6"
  unfolding sa_family_def sockaddr_in_def sockaddr_in6_def le16_family
  by (simp_all add: AF_INET_def AF_INET6_def)

lemma sockaddr_fields:
  "drop 2 (sockaddr_in p ip) = be16 (word_of_int p) @ take 4 ip @ replicate 20 0"
  "drop 2 (sockaddr_in6 p ip6) = be16 (word_of_int p) @ replicate 4 0 @ take 16 ip6 @ replicate 4 0"
  "length ip = 4 \<Longrightarrow> take 4 (drop 4 (sockaddr_in p ip)) = ip"
  "length ip6 = 16 \<Longrightarrow> take 16 (drop 8 (sockaddr_in6 p ip6)) = ip6"
  by (simp_all add: sockaddr_in_def sockaddr_in6_def)

lemma port_sockaddr [simp]:
  "addr_get_port (sockaddr_in p ip) = Some (word_of_int p)"
  "addr_get_port (sockaddr_in6 p ip) = Some (word_of_int p)"
  by (simp_all add: addr_get_port_def addr_get_type_def sockaddr_fields)

section \<open>Decimal numbers\<close>

lemma digit_char: "(d :: nat) < 10 \<Longrightarrow> is_digit (char_of (48 + d)) \<and> of_char (char_of (48 + d) :: char) = 48 + d"
  by (simp add: is_digit_def)

lemma dec_digits_ok:
  "dec_digits n \<noteq> [] \<and> (\<forall>c\<in>set (dec_digits n). is_digit c) \<and> dec_value (dec_digits n) = n"
proof (induction n rule: dec_digits.induct)
  case (1 n)
  show ?case
  proof (cases "n < 10")
    case True
    then show ?thesis
      using digit_char[of n] by (subst (1 2 3) dec_digits.simps) (simp add: dec_value_def)
  next
    case False
    have "dec_digits n = dec_digits (n div 10) @ [char_of (48 + n mod 10)]"
      using False by (subst dec_digits.simps) simp
    then show ?thesis
      using 1[OF False] digit_char[of "n mod 10"] by (auto simp: dec_value_def)
  qed
qed

lemma takeWhile_until: "x \<notin> set s \<Longrightarrow> takeWhile (\<lambda>c. c \<noteq> x) (s @ x # t) = s"
  by (induction s) auto

lemma dropWhile_until: "x \<notin> set s \<Longrightarrow> dropWhile (\<lambda>c. c \<noteq> x) (s @ x # t) = x # t"
  by (induction s) auto

lemma scan_u_dec: "scan_u (dec_digits n) = Some (word_of_nat n)"
proof -
  obtain c cs where s: "dec_digits n = c # cs" using dec_digits_ok[of n] by (cases "dec_digits n") auto
  have d: "\<forall>x\<in>set (c # cs). is_digit x" "dec_value (c # cs) = n"
    using dec_digits_ok[of n] s by auto
  then have "\<not> is_space c" "c \<noteq> CHR ''-''" "c \<noteq> CHR ''+''"
    by (auto simp: is_digit_def is_space_def)
  moreover have tw: "takeWhile is_digit cs = cs" using d by (simp add: takeWhile_eq_all_conv)
  ultimately show ?thesis
    using d by (simp add: scan_u_def Let_def s tw)
qed

section \<open>Properties\<close>

text \<open>C15. Printing an address and parsing the text gives the address back, for
  IPv4 and IPv6, every address and port, given what the C library documents of
  \<open>inet_ntop\<close> and \<open>inet_pton\<close>: they invert each other, and the text is short,
  without a colon for IPv4 and without a bracket for either.\<close>

theorem address_print_parse:
  assumes fam: "type = AF_INET \<and> length ip = 4 \<or> type = AF_INET6 \<and> length ip = 16"
    and lib: "\<And>f b. f = AF_INET \<and> length b = 4 \<or> f = AF_INET6 \<and> length b = 16 \<Longrightarrow>
       \<exists>s. ntop f b = Some s \<and> pton f s = (1, b) \<and> s \<noteq> [] \<and> length s < 100 \<and>
           CHR ''['' \<notin> set s \<and> CHR '']'' \<notin> set s \<and> (f = AF_INET \<longrightarrow> CHR '':'' \<notin> set s)"
    and port: "0 \<le> port" "port < 65536"
  shows "Option.bind (addr_to_str ntop (from_ip_port_new type ip port)) (addr_from_str pton)
         = Some (from_ip_port_new type ip port)"
proof -
  obtain s where s: "ntop type ip = Some s" "pton type s = (1, ip)" "s \<noteq> []" "length s < 100"
      "CHR ''['' \<notin> set s" "CHR '']'' \<notin> set s" "type = AF_INET \<longrightarrow> CHR '':'' \<notin> set s"
    using lib[OF fam] by blast
  have p16: "unat (word_of_int port :: u16) = nat port"
    using port by (simp add: unat_eq_nat_uint uint_word_of_int_eq take_bit_int_eq_self)
  have p32: "uint (word_of_nat (nat port) :: u32) = port"
    using port by (simp add: uint_word_of_int_eq take_bit_int_eq_self of_nat_nat)
  then have le: "(word_of_nat (nat port) :: u32) \<le> 65535"
    using port by (simp add: word_le_def)
  show ?thesis
  proof (cases "type = AF_INET")
    case True
    then have ip: "length ip = 4" using fam by (auto simp: AF_INET_def AF_INET6_def)
    let ?t = "s @ '':'' @ dec_digits (nat port)"
    have "addr_to_str ntop (sockaddr_in port ip) = Some ?t"
      using s(1) ip p16 True
      by (simp add: addr_to_str_def addr_get_type_def sockaddr_fields) (simp add: AF_INET_def AF_INET6_def)
    moreover have "scan_bracketed ?t = None" using s(3,5) by (cases s) (auto simp: scan_bracketed_def)
    moreover have "scan_plain ?t = Some (s, word_of_nat (nat port))"
    proof -
      have "takeWhile (\<lambda>c. c \<noteq> CHR '':'') ?t = s" "dropWhile (\<lambda>c. c \<noteq> CHR '':'') ?t = '':'' @ dec_digits (nat port)"
        using s(7) True by (simp_all add: takeWhile_until dropWhile_until)
      then show ?thesis using s(3) by (simp add: scan_plain_def Let_def scan_u_dec)
    qed
    ultimately show ?thesis
      using s(2,4) True le p32 by (simp add: from_ip_port_new_def addr_from_str_def)
  next
    case False
    then have ip: "length ip = 16" "type = AF_INET6" "AF_INET6 \<noteq> AF_INET"
      using fam by (auto simp: AF_INET_def AF_INET6_def)
    let ?t = "''['' @ s @ '']:'' @ dec_digits (nat port)"
    have "addr_to_str ntop (sockaddr_in6 port ip) = Some ?t"
      using s(1) ip p16 by (simp add: addr_to_str_def addr_get_type_def sockaddr_fields)
    moreover have "scan_bracketed ?t = Some (s, word_of_nat (nat port))"
    proof -
      have "takeWhile (\<lambda>c. c \<noteq> CHR '']'') (s @ '']:'' @ dec_digits (nat port)) = s"
        "dropWhile (\<lambda>c. c \<noteq> CHR '']'') (s @ '']:'' @ dec_digits (nat port)) = '']:'' @ dec_digits (nat port)"
        using s(6) by (simp_all add: takeWhile_until dropWhile_until)
      then show ?thesis using s(3) by (simp add: scan_bracketed_def Let_def scan_u_dec)
    qed
    ultimately show ?thesis
      using s(2,4) ip le p32 by (simp add: from_ip_port_new_def addr_from_str_def)
  qed
qed

text \<open>A pair of conversions with the documented behaviour: two letters a byte.\<close>

fun toy_print :: "bytes \<Rightarrow> string" where
  "toy_print [] = []"
| "toy_print (b # bs) = char_of (97 + unat b div 16) # char_of (97 + unat b mod 16) # toy_print bs"

fun toy_read :: "string \<Rightarrow> bytes" where
  "toy_read (c # d # s) = word_of_nat ((of_char c - 97) * 16 + (of_char d - 97)) # toy_read s"
| "toy_read _ = []"

lemma toy_print_ok:
  "toy_read (toy_print bs) = bs \<and> length (toy_print bs) = 2 * length bs \<and>
   (\<forall>c\<in>set (toy_print bs). 97 \<le> (of_char c :: nat) \<and> (of_char c :: nat) < 113)"
proof (induction bs)
  case (Cons b bs)
  have "unat b < 256" using unsigned_less[of b, where ?'a = nat] by simp
  then have "unat b div 16 < 16" by simp
  then have c: "of_char (char_of (97 + unat b div 16) :: char) = 97 + unat b div 16"
    "of_char (char_of (97 + unat b mod 16) :: char) = 97 + unat b mod 16" by simp_all
  then have "word_of_nat ((of_char (char_of (97 + unat b div 16) :: char) - 97) * 16
      + (of_char (char_of (97 + unat b mod 16) :: char) - 97)) = b"
    by (simp only: c) (simp add: div_mult_mod_eq)
  then show ?case using Cons c \<open>unat b div 16 < 16\<close> by simp
qed simp

lemma address_print_parse_witness:
  "Option.bind (addr_to_str (\<lambda>f b. Some (toy_print b)) (from_ip_port_new 2 [127, 0, 0, 1] 4096))
     (addr_from_str (\<lambda>f s. (1, toy_read s))) = Some (from_ip_port_new 2 [127, 0, 0, 1] 4096)"
proof (rule address_print_parse)
  show "2 = AF_INET \<and> length [127, 0, 0, 1 :: u8] = 4 \<or> 2 = AF_INET6 \<and> length [127, 0, 0, 1 :: u8] = 16"
    by (simp add: AF_INET_def)
  fix f :: int and b :: bytes
  assume fb: "f = AF_INET \<and> length b = 4 \<or> f = AF_INET6 \<and> length b = 16"
  have no: "c \<notin> set (toy_print b)" if "(of_char c :: nat) < 97" for c
    using toy_print_ok[of b] that by (auto simp: not_le)
  have "length (toy_print b) \<noteq> 0" using fb toy_print_ok[of b] by auto
  then show "\<exists>s. Some (toy_print b) = Some s \<and> (1 :: int, toy_read s) = (1, b) \<and> s \<noteq> [] \<and> length s < 100 \<and>
           CHR ''['' \<notin> set s \<and> CHR '']'' \<notin> set s \<and> (f = AF_INET \<longrightarrow> CHR '':'' \<notin> set s)"
    using fb toy_print_ok[of b] no[of "CHR ''[''"] no[of "CHR '']''"] no[of "CHR '':''"]
    by (intro exI[of _ "toy_print b"]) auto
qed simp_all

end
