(* ===== verification/RawIp.thy ===== *)
theory RawIp
  imports Address
begin

text \<open>
  The packet structures of network.h and the IP layer of network.cpp (Linux
  build): building and sending an IPv4 or IPv6 packet around a transport
  segment, receiving a frame into the global packet buffer and checking its IP
  header. Headers are byte strings in network order; the global buffer keeps
  the bytes of earlier, longer packets, so a read past the packet is visible.
\<close>

section \<open>Configuration and state\<close>

datatype raw_mode_t = mode_faketcp | mode_udp | mode_icmp | mode_end
datatype program_mode_t = unset_mode | client_mode | server_mode

record net_conf =
  raw_mode :: raw_mode_t
  raw_ip_version :: int
  program_mode :: program_mode_t
  lower_level :: int
  ttl_value :: int
  filter_port :: int
  bind_addr_used :: int
  bind_addr :: my_ip_t
  link_level_header_len :: nat
  g_fix_gro :: int
  random_drop :: int
  seq_mode :: int
  max_rst_allowed :: int
  raw_send_fd :: int

record packet_info =
  protocol :: u8
  new_src_ip :: my_ip_t
  new_dst_ip :: my_ip_t
  src_port :: u16
  dst_port :: u16
  syn :: bool
  ack :: bool
  psh :: bool
  rst :: bool
  seq :: u32
  ack_seq :: u32
  ack_seq_counter :: u32
  ts :: u32
  ts_ack :: u32
  my_icmp_seq :: u16
  has_ts :: bool
  data_len :: int
  addr_ll :: bytes

record raw_info =
  send_info :: packet_info
  recv_info :: packet_info
  peek :: bool
  reserved_send_seq :: u32
  rst_received :: int
  disabled :: bool

text \<open>The globals of network.cpp that change: the packet buffer, how many bytes
  it holds, whether a packet is waiting in it, the link address it came from,
  and the counter for the IP identification field.\<close>

record net =
  g_packet_buf :: buffer
  g_packet_buf_len :: int
  g_packet_buf_cnt :: int
  g_sockaddr_ll :: bytes
  g_ip_id_counter :: u16


definition IPPROTO_ICMP :: u8 where "IPPROTO_ICMP = 1"
definition IPPROTO_TCP :: u8 where "IPPROTO_TCP = 6"
definition IPPROTO_UDP :: u8 where "IPPROTO_UDP = 17"
definition IPPROTO_ICMPV6 :: u8 where "IPPROTO_ICMPV6 = 58"

text \<open>The constructor: members it does not set keep what the memory held
  (\<open>junk\<close>).\<close>

definition packet_info_init :: "net_conf \<Rightarrow> packet_info \<Rightarrow> world \<Rightarrow> (packet_info \<times> world) option" where
  "packet_info_init cf junk w =
     (let p = junk \<lparr> src_port := 0, dst_port := 0 \<rparr> in
      case raw_mode cf of
        mode_faketcp \<Rightarrow> do {
          (a, w) \<leftarrow> get_true_random_number w;
          (s, w) \<leftarrow> get_true_random_number w;
          Some (p \<lparr> protocol := IPPROTO_TCP, ack_seq := a, seq := s, has_ts := False, ts_ack := 0,
                    syn := False, ack := True, ack_seq_counter := 0 \<rparr>, w)
        }
      | mode_udp \<Rightarrow> Some (p \<lparr> protocol := IPPROTO_UDP \<rparr>, w)
      | mode_icmp \<Rightarrow>
          if raw_ip_version cf = AF_INET then Some (p \<lparr> protocol := IPPROTO_ICMP, my_icmp_seq := 0 \<rparr>, w)
          else do {
            assert_c (raw_ip_version cf = AF_INET6);
            Some (p \<lparr> protocol := IPPROTO_ICMPV6, my_icmp_seq := 0 \<rparr>, w)
          }
      | mode_end \<Rightarrow> Some (p, w))"

section \<open>Sending\<close>

definition send_raw_packet :: "net_conf \<Rightarrow> raw_info \<Rightarrow> bytes \<Rightarrow> world \<Rightarrow> (int \<times> world) option" where
  "send_raw_packet cf raw_info packet w =
     do {
       let si = send_info raw_info;
       dest \<leftarrow> (if lower_level cf = 0 then
                  (if raw_ip_version cf = AF_INET then Some (take 16 (sockaddr_in 0 (new_dst_ip si)))
                   else if raw_ip_version cf = AF_INET6 then Some (sockaddr_in6 0 (new_dst_ip si))
                   else None)
                else Some (addr_ll si));
       let (ret, w) = syscall (SysSendto (raw_send_fd cf) packet dest) w;
       Some (if ret = -1 then -1 else 0, w)
     }"

text \<open>The IPv4 header with a given checksum field. \<open>tot_len\<close> and the checksum are
  left zero for the kernel to fill unless packets go out below the IP layer.\<close>

definition ipv4_header :: "net_conf \<Rightarrow> packet_info \<Rightarrow> u16 \<Rightarrow> u16 \<Rightarrow> bytes \<Rightarrow> bytes" where
  "ipv4_header cf si ident tot_len check =
     [0x45, 0] @ be16 tot_len @ be16 ident @ be16 0x4000 @ [word_of_int (ttl_value cf), protocol si] @ check
     @ take 4 (new_src_ip si) @ take 4 (new_dst_ip si)"

definition ipv6_header :: "net_conf \<Rightarrow> packet_info \<Rightarrow> u16 \<Rightarrow> bytes" where
  "ipv6_header cf si payload_len =
     [0x60, 0, 0, 0] @ be16 payload_len @ [protocol si, word_of_int (ttl_value cf)]
     @ take 16 (new_src_ip si) @ take 16 (new_dst_ip si)"

definition send_raw_ip ::
  "net_conf \<Rightarrow> raw_info \<Rightarrow> bytes \<Rightarrow> net \<times> world \<Rightarrow> (int \<times> net \<times> world) option" where
  "send_raw_ip cf raw_info payload = (\<lambda>(nt, w).
     if disabled raw_info then do { assert_c (max_rst_allowed cf \<ge> 0); Some (0, nt, w) }
     else if raw_ip_version cf = AF_INET then
       do {
         let si = send_info raw_info;
         let ident = g_ip_id_counter nt;
         let nt = nt \<lparr> g_ip_id_counter := g_ip_id_counter nt + 1 \<rparr>;
         let ip_tot_len = (word_of_nat (20 + length payload) :: u16);
         let tot_len = (if lower_level cf \<noteq> 0 then ip_tot_len else 0);
         let check = (if lower_level cf \<noteq> 0 then le16 (csum (ipv4_header cf si ident tot_len [0, 0])) else [0, 0]);
         (rc, w) \<leftarrow> send_raw_packet cf raw_info
            (take (unat ip_tot_len) (ipv4_header cf si ident tot_len check @ payload)) w;
         Some (rc, nt, w)
       }
     else
       do {
         assert_c (raw_ip_version cf = AF_INET6);
         let ip_tot_len = (word_of_nat (40 + length payload) :: u16);
         (rc, w) \<leftarrow> send_raw_packet cf raw_info
            (take (unat ip_tot_len)
              (ipv6_header cf (send_info raw_info) (word_of_nat (length payload)) @ payload)) w;
         Some (rc, nt, w)
       })"

section \<open>Receiving\<close>

text \<open>What \<open>recvfrom\<close> delivers: its return value, the bytes it stored and the link
  address.\<close>

type_synonym frame = "int \<times> bytes \<times> bytes"

definition pre_recv_raw_packet :: "net_conf \<Rightarrow> frame \<Rightarrow> net \<Rightarrow> (int \<times> net) option" where
  "pre_recv_raw_packet cf = (\<lambda>(ret, bs, ll) nt.
     do {
       assert_c (g_packet_buf_cnt nt = 0);
       let nt = nt \<lparr> g_packet_buf := buf_write (g_packet_buf nt) 0 bs, g_packet_buf_len := ret,
                     g_sockaddr_ll := ll \<rparr>;
       (if g_packet_buf_len nt = huge_data_len + 1 \<and> g_fix_gro cf = 0 then Some (-1, nt)
        else do {
          let nt = (if g_packet_buf_len nt = huge_data_len + 1
                    then nt \<lparr> g_packet_buf_len := huge_data_len \<rparr> else nt);
          (if g_packet_buf_len nt \<ge> max_data_len + 1 \<and> g_fix_gro cf = 0 then Some (-1, nt)
           else if g_packet_buf_len nt < 0 then Some (-1, nt)
           else Some (0, nt \<lparr> g_packet_buf_cnt := g_packet_buf_cnt nt + 1 \<rparr>))
        })
     })"

definition discard_raw_packet :: "net \<Rightarrow> (int \<times> net) option" where
  "discard_raw_packet nt =
     do { assert_c (g_packet_buf_cnt nt = 1);
          Some (0, nt \<lparr> g_packet_buf_cnt := g_packet_buf_cnt nt - 1 \<rparr>) }"

text \<open>A pointer into the packet buffer is its offset; the two output parameters
  are \<open>None\<close> when the function returns without setting them.\<close>

definition recv_raw_packet :: "net_conf \<Rightarrow> bool \<Rightarrow> net \<Rightarrow> (int \<times> (nat \<times> int) option \<times> net) option" where
  "recv_raw_packet cf pk nt =
     do {
       assert_c (g_packet_buf_cnt nt = 1);
       let nt = (if pk then nt else nt \<lparr> g_packet_buf_cnt := g_packet_buf_cnt nt - 1 \<rparr>);
       let hl = link_level_header_len cf;
       let a = g_packet_buf nt 12;
       let b = g_packet_buf nt 13;
       (if g_packet_buf_len nt < int hl then Some (-1, None, nt)
        else if hl = 14 \<and> \<not> (a = 0x08 \<and> b = 0x00 \<or> a = 0x86 \<and> b = 0xdd) then Some (-1, None, nt)
        else Some (0, Some (hl, g_packet_buf_len nt - int hl), nt))
     }"

definition rd8 :: "net \<Rightarrow> nat \<Rightarrow> u8" where "rd8 nt off = g_packet_buf nt off"
definition rd16 :: "net \<Rightarrow> nat \<Rightarrow> u16" where "rd16 nt off = of_be16 (buf_read (g_packet_buf nt) off 2)"
definition rd32 :: "net \<Rightarrow> nat \<Rightarrow> u32" where "rd32 nt off = of_be32 (buf_read (g_packet_buf nt) off 4)"

definition hi4 :: "u8 \<Rightarrow> nat" where "hi4 b = unat (drop_bit 4 b)"
definition lo4 :: "u8 \<Rightarrow> nat" where "lo4 b = unat (b AND 0xf)"

definition recv_raw_ip ::
  "net_conf \<Rightarrow> raw_info \<Rightarrow> net \<Rightarrow> (int \<times> (nat \<times> int) option \<times> raw_info \<times> net) option" where
  "recv_raw_ip cf ri nt =
     do {
       (rc, out, nt) \<leftarrow> recv_raw_packet cf (peek ri) nt;
       (case out of
          None \<Rightarrow> Some (-1, None, ri, nt)
        | Some (b, raw_packet_len) \<Rightarrow>
          if raw_packet_len < 1 then Some (-1, None, ri, nt)
          else do {
            let v4 = (raw_ip_version cf = AF_INET);
            assert_c (v4 \<or> raw_ip_version cf = AF_INET6);
            (if hi4 (rd8 nt b) \<noteq> (if v4 then 4 else 6) then Some (-1, None, ri, nt)
             else if raw_packet_len < (if v4 then 20 else 40) then Some (-1, None, ri, nt)
             else do {
               let info = recv_info ri;
               let info = (if lower_level cf \<noteq> 0 then info \<lparr> addr_ll := g_sockaddr_ll nt \<rparr> else info);
               let info = (if v4
                  then info \<lparr> new_src_ip := buf_read (g_packet_buf nt) (b + 12) 4 @ drop 4 (new_src_ip info),
                              new_dst_ip := buf_read (g_packet_buf nt) (b + 16) 4 @ drop 4 (new_dst_ip info),
                              protocol := rd8 nt (b + 9) \<rparr>
                  else info \<lparr> new_src_ip := buf_read (g_packet_buf nt) (b + 8) 16,
                              new_dst_ip := buf_read (g_packet_buf nt) (b + 24) 16,
                              protocol := rd8 nt (b + 6) \<rparr>);
               let ri = ri \<lparr> recv_info := info \<rparr>;
               let iphdrlen = (if v4 then lo4 (rd8 nt b) * 4 else 40);
               let ip_len = (if v4 then uint (rd16 nt (b + 2)) else uint (rd16 nt (b + 4)) + int iphdrlen);
               bound_ok \<leftarrow> (if bind_addr_used cf \<noteq> 0
                             then my_ip_equal (raw_ip_version cf) (new_dst_ip info) (bind_addr cf) else Some True);
               (if \<not> bound_ok then Some (-1, None, ri, nt)
                else if raw_packet_len < ip_len then Some (-1, None, ri, nt)
                else if v4 \<and> \<not> peek ri \<and> csum (buf_read (g_packet_buf nt) b iphdrlen) \<noteq> 0
                then Some (-1, None, ri, nt)
                else if ip_len - int iphdrlen < 0 then Some (-1, Some (b + iphdrlen, ip_len - int iphdrlen), ri, nt)
                else Some (0, Some (b + iphdrlen, ip_len - int iphdrlen), ri, nt))
             })
          })
     }"

section \<open>What is sent is received\<close>

text \<open>A packet \<open>pk\<close> waits in the buffer, behind a link header the code accepts.\<close>

definition holds_frame :: "net_conf \<Rightarrow> net \<Rightarrow> bytes \<Rightarrow> bool" where
  "holds_frame cf nt pk \<longleftrightarrow> g_packet_buf_cnt nt = 1 \<and> pk \<noteq> [] \<and>
     g_packet_buf_len nt = int (link_level_header_len cf + length pk) \<and>
     buf_read (g_packet_buf nt) (link_level_header_len cf) (length pk) = pk \<and>
     (link_level_header_len cf = 14 \<longrightarrow>
        (g_packet_buf nt 12 = 0x08 \<and> g_packet_buf nt 13 = 0x00) \<or>
        (g_packet_buf nt 12 = 0x86 \<and> g_packet_buf nt 13 = 0xdd))"

lemma recv_raw_packet_holds:
  "holds_frame cf nt pk \<Longrightarrow> recv_raw_packet cf pk' nt =
     Some (0, Some (link_level_header_len cf, int (length pk)),
           if pk' then nt else nt \<lparr> g_packet_buf_cnt := 0 \<rparr>)"
  by (auto simp: recv_raw_packet_def holds_frame_def Let_def)

text \<open>The addresses and protocol noted by the receiver of a packet sent with
  \<open>si\<close>.\<close>

definition ip_noted :: "net_conf \<Rightarrow> packet_info \<Rightarrow> net \<Rightarrow> packet_info \<Rightarrow> packet_info" where
  "ip_noted cf si nt info =
     (let info = (if lower_level cf \<noteq> 0 then info \<lparr> addr_ll := g_sockaddr_ll nt \<rparr> else info)
      in if raw_ip_version cf = AF_INET
         then info \<lparr> new_src_ip := take 4 (new_src_ip si) @ drop 4 (new_src_ip info),
                     new_dst_ip := take 4 (new_dst_ip si) @ drop 4 (new_dst_ip info), protocol := protocol si \<rparr>
         else info \<lparr> new_src_ip := take 16 (new_src_ip si), new_dst_ip := take 16 (new_dst_ip si),
                     protocol := protocol si \<rparr>)"

definition ip_hdr_len :: "net_conf \<Rightarrow> nat" where
  "ip_hdr_len cf = (if raw_ip_version cf = AF_INET then 20 else 40)"

lemma hi4_lo4: "hi4 0x45 = 4" "lo4 0x45 = 5" "hi4 0x60 = 6"
  by (simp_all add: hi4_def lo4_def)

lemma csum_ipv4_header:
  assumes "length (new_src_ip si) = 16" "length (new_dst_ip si) = 16"
  shows "csum (ipv4_header cf si ident tlen (le16 (csum (ipv4_header cf si ident tlen [0, 0])))) = 0"
proof -
  define pre where "pre = [0x45, 0] @ be16 tlen @ be16 ident @ be16 0x4000 @ [word_of_int (ttl_value cf), protocol si]"
  define post where "post = take 4 (new_src_ip si) @ take 4 (new_dst_ip si)"
  have h: "ipv4_header cf si ident tlen c = pre @ c @ post" for c
    by (simp add: ipv4_header_def pre_def post_def)
  have "csum (pre @ le16 (csum (pre @ [0, 0] @ post)) @ post) = 0"
    by (rule csum_insert_zero) (simp_all add: pre_def post_def assms)
  then show ?thesis by (simp add: h)
qed

lemma recv_sent_ipv4:
  assumes cf: "raw_ip_version cr = AF_INET" "bind_addr_used cr = 0"
    and fr: "holds_frame cr rn (ipv4_header cs si ident tlen check @ seg)"
    and ck: "length check = 2" "csum (ipv4_header cs si ident tlen check) = 0"
    and ips: "length (new_src_ip si) = 16" "length (new_dst_ip si) = 16"
    and len: "uint tlen = 20 + int (length seg)"
  shows "recv_raw_ip cr rr rn = Some (0, Some (link_level_header_len cr + 20, int (length seg)),
     rr \<lparr> recv_info := ip_noted cr si rn (recv_info rr) \<rparr>,
     if peek rr then rn else rn \<lparr> g_packet_buf_cnt := 0 \<rparr>)"
proof -
  let ?h = "ipv4_header cs si ident tlen check"
  let ?b = "link_level_header_len cr"
  let ?buf = "g_packet_buf rn"
  have lh: "length ?h = 20" using ck ips by (simp add: ipv4_header_def)
  have rd: "buf_read ?buf ?b (length (?h @ seg)) = ?h @ seg" using fr by (simp add: holds_frame_def)
  have sub: "buf_read ?buf (?b + i) m = take m (drop i ?h)" if "i + m \<le> 20" for i m
    using buf_read_sub[OF rd, of i m] that lh by simp
  have at: "?buf (?b + i) = ?h ! i" if "i < 20" for i
    using buf_read_nth[OF rd, of i] that lh by (simp add: nth_append)
  have f0: "?buf ?b = 0x45" using at[of 0] by (simp add: ipv4_header_def)
  have f9: "?buf (?b + 9) = protocol si" using at[of 9] by (simp add: ipv4_header_def nth_append)
  have tl: "buf_read ?buf (?b + 2) 2 = be16 tlen"
    using sub[of 2 2] by (simp add: ipv4_header_def)
  have src: "buf_read ?buf (?b + 12) 4 = take 4 (new_src_ip si)"
    using sub[of 12 4] ck ips by (simp add: ipv4_header_def)
  have dst: "buf_read ?buf (?b + 16) 4 = take 4 (new_dst_ip si)"
    using sub[of 16 4] ck ips by (simp add: ipv4_header_def)
  have whole: "buf_read ?buf ?b 20 = ?h" using sub[of 0 20] lh by simp
  show ?thesis
    unfolding recv_raw_ip_def recv_raw_packet_holds[OF fr]
    using lh cf ck(2)
    by (simp add: rd8_def rd16_def f0 f9 tl src dst whole hi4_lo4 len ip_noted_def Let_def AF_INET_def
        del: add_2_eq_Suc add_2_eq_Suc')
qed

lemma recv_sent_ipv6:
  assumes cf: "raw_ip_version cr = AF_INET6" "bind_addr_used cr = 0"
    and fr: "holds_frame cr rn (ipv6_header cs si plen @ seg)"
    and ips: "length (new_src_ip si) = 16" "length (new_dst_ip si) = 16"
    and len: "uint plen = int (length seg)"
  shows "recv_raw_ip cr rr rn = Some (0, Some (link_level_header_len cr + 40, int (length seg)),
     rr \<lparr> recv_info := ip_noted cr si rn (recv_info rr) \<rparr>,
     if peek rr then rn else rn \<lparr> g_packet_buf_cnt := 0 \<rparr>)"
proof -
  let ?h = "ipv6_header cs si plen"
  let ?b = "link_level_header_len cr"
  let ?buf = "g_packet_buf rn"
  have lh: "length ?h = 40" using ips by (simp add: ipv6_header_def)
  have rd: "buf_read ?buf ?b (length (?h @ seg)) = ?h @ seg" using fr by (simp add: holds_frame_def)
  have sub: "buf_read ?buf (?b + i) m = take m (drop i ?h)" if "i + m \<le> 40" for i m
    using buf_read_sub[OF rd, of i m] that lh by simp
  have at: "?buf (?b + i) = ?h ! i" if "i < 40" for i
    using buf_read_nth[OF rd, of i] that lh by (simp add: nth_append)
  have f0: "?buf ?b = 0x60" using at[of 0] by (simp add: ipv6_header_def)
  have f6: "?buf (?b + 6) = protocol si" using at[of 6] by (simp add: ipv6_header_def nth_append)
  have pl: "buf_read ?buf (?b + 4) 2 = be16 plen"
    using sub[of 4 2] by (simp add: ipv6_header_def)
  have src: "buf_read ?buf (?b + 8) 16 = take 16 (new_src_ip si)"
    using sub[of 8 16] ips by (simp add: ipv6_header_def)
  have dst: "buf_read ?buf (?b + 24) 16 = take 16 (new_dst_ip si)"
    using sub[of 24 16] ips by (simp add: ipv6_header_def)
  show ?thesis
    unfolding recv_raw_ip_def recv_raw_packet_holds[OF fr]
    using lh cf
    by (simp add: rd8_def rd16_def f0 f6 pl src dst hi4_lo4 len ip_noted_def Let_def AF_INET_def AF_INET6_def)
qed

text \<open>The packet \<open>send_raw_ip\<close> hands to the raw socket.\<close>

lemma send_raw_ip_recv:
  assumes send: "send_raw_ip cs rs seg (nt, w) = Some (rc, nt', w')" "\<not> disabled rs"
    and v: "raw_ip_version cs = AF_INET \<and> lower_level cs \<noteq> 0 \<or> raw_ip_version cs = AF_INET6"
    and ips: "length (new_src_ip (send_info rs)) = 16" "length (new_dst_ip (send_info rs)) = 16"
    and len: "length seg + 40 < 65536"
    and cr: "raw_ip_version cr = raw_ip_version cs" "bind_addr_used cr = 0"
  obtains pk dest where "sys_log w' = sys_log w @ [SysSendto (raw_send_fd cs) pk dest]"
    "length pk = ip_hdr_len cr + length seg"
    "drop (ip_hdr_len cr) pk = seg"
    "\<forall>rr rn. holds_frame cr rn pk \<longrightarrow> recv_raw_ip cr rr rn =
       Some (0, Some (link_level_header_len cr + ip_hdr_len cr, int (length seg)),
         rr \<lparr> recv_info := ip_noted cr (send_info rs) rn (recv_info rr) \<rparr>,
         if peek rr then rn else rn \<lparr> g_packet_buf_cnt := 0 \<rparr>)"
proof (cases "raw_ip_version cs = AF_INET")
  case True
  let ?si = "send_info rs"
  let ?tl = "word_of_nat (20 + length seg) :: u16"
  define check where "check = le16 (csum (ipv4_header cs ?si (g_ip_id_counter nt) ?tl [0, 0]))"
  let ?h = "ipv4_header cs ?si (g_ip_id_counter nt) ?tl check"
  have lh: "length ?h = 20" using ips by (simp add: ipv4_header_def check_def)
  have u: "unat ?tl = 20 + length seg" by (subst unat_of_nat) (use len in simp)
  then have uu: "uint ?tl = 20 + int (length seg)" by (simp only: uint_nat)
  have t: "take (unat ?tl) (?h @ seg) = ?h @ seg" unfolding u using lh by simp
  obtain dest where "send_raw_packet cs rs (take (unat ?tl) (?h @ seg)) w = Some (rc, w')"
    using send v True by (auto simp: send_raw_ip_def check_def Let_def AF_INET_def AF_INET6_def split: bind_splits if_splits)
  then obtain dest where "sys_log w' = sys_log w @ [SysSendto (raw_send_fd cs) (?h @ seg) dest]"
    unfolding t by (auto simp: send_raw_packet_def syscall_def Let_def split: bind_splits if_splits)
  then show thesis
    using lh ips len cr True csum_ipv4_header[OF ips] recv_sent_ipv4[of cr _ cs ?si "g_ip_id_counter nt" ?tl check seg] uu
    by (intro that[of "?h @ seg" dest]) (simp_all add: ip_hdr_len_def check_def)
next
  case False
  then have v6: "raw_ip_version cs = AF_INET6" "raw_ip_version cr = AF_INET6" "AF_INET6 \<noteq> AF_INET" using v cr by auto
  let ?si = "send_info rs"
  let ?h = "ipv6_header cs ?si (word_of_nat (length seg))"
  let ?tl = "word_of_nat (40 + length seg) :: u16"
  have lh: "length ?h = 40" using ips by (simp add: ipv6_header_def)
  have u: "unat ?tl = 40 + length seg" by (subst unat_of_nat) (use len in simp)
  have up: "uint (word_of_nat (length seg) :: u16) = int (length seg)"
    using len by (simp add: uint_nat unat_of_nat)
  have t: "take (unat ?tl) (?h @ seg) = ?h @ seg" unfolding u using lh by simp
  have "send_raw_packet cs rs (take (unat ?tl) (?h @ seg)) w = Some (rc, w')"
    using send False v6 by (auto simp: send_raw_ip_def Let_def split: bind_splits if_splits)
  then obtain dest where "sys_log w' = sys_log w @ [SysSendto (raw_send_fd cs) (?h @ seg) dest]"
    unfolding t by (auto simp: send_raw_packet_def syscall_def Let_def split: bind_splits if_splits)
  then show thesis
    using lh ips len cr v6 recv_sent_ipv6[of cr _ cs ?si "word_of_nat (length seg)" seg] up
    by (intro that[of "?h @ seg" dest]) (simp_all add: ip_hdr_len_def)
qed

end
