(* ===== verification/Transport.thy ===== *)
theory Transport
  imports RawIp
begin

text \<open>
  The transport layer of network.cpp: a payload travels as an ICMP echo, a UDP
  datagram or a segment of a simulated TCP connection, each with a checksum
  over a pseudo header. \<open>send_raw0\<close> and \<open>recv_raw0\<close> dispatch on the configured
  mode; \<open>after_send_raw0\<close> and \<open>after_recv_raw0\<close> move the simulated sequence
  numbers.
\<close>

section \<open>Sending\<close>

text \<open>The IPv6 pseudo header stores the 16 bit length with \<open>htons\<close> in a 32 bit
  field, which puts its bytes first; the ones' complement sum does not care.\<close>

definition pseudo_header :: "net_conf \<Rightarrow> packet_info \<Rightarrow> u8 \<Rightarrow> u16 \<Rightarrow> bytes" where
  "pseudo_header cf info proto len =
     (if raw_ip_version cf = AF_INET
      then take 4 (new_src_ip info) @ take 4 (new_dst_ip info) @ [0, proto] @ be16 len
      else take 16 (new_src_ip info) @ take 16 (new_dst_ip info) @ be16 len @ [0, 0] @ [0, 0, 0, proto])"

definition icmp_header :: "u8 \<Rightarrow> bytes \<Rightarrow> packet_info \<Rightarrow> bytes" where
  "icmp_header type check si = [type, 0] @ check @ be16 (src_port si) @ be16 (my_icmp_seq si)"

definition icmp_send_type :: "net_conf \<Rightarrow> u8" where
  "icmp_send_type cf =
     (if raw_ip_version cf = AF_INET then (if program_mode cf = client_mode then 8 else 0)
      else (if program_mode cf = client_mode then 128 else 129))"

definition send_raw_icmp ::
  "net_conf \<Rightarrow> raw_info \<Rightarrow> bytes \<Rightarrow> net \<times> world \<Rightarrow> (int \<times> net \<times> world) option" where
  "send_raw_icmp cf ri payload st =
     do {
       assert_c (raw_ip_version cf = AF_INET \<or> raw_ip_version cf = AF_INET6);
       let si = send_info ri;
       let type = icmp_send_type cf;
       let zeroed = icmp_header type [0, 0] si @ payload;
       check \<leftarrow> (if raw_ip_version cf = AF_INET then Some (csum zeroed)
                 else csum_with_header (pseudo_header cf si IPPROTO_ICMPV6 (word_of_nat (length zeroed))) zeroed);
       (rc, st) \<leftarrow> send_raw_ip cf ri (icmp_header type (le16 check) si @ payload) st;
       Some (if rc \<noteq> 0 then -1 else 0, st)
     }"

definition udp_header :: "packet_info \<Rightarrow> u16 \<Rightarrow> bytes \<Rightarrow> bytes" where
  "udp_header si len check = be16 (src_port si) @ be16 (dst_port si) @ be16 len @ check"

definition send_raw_udp ::
  "net_conf \<Rightarrow> raw_info \<Rightarrow> bytes \<Rightarrow> net \<times> world \<Rightarrow> (int \<times> net \<times> world) option" where
  "send_raw_udp cf ri payload st =
     (let si = send_info ri; udp_tot_len = length payload + 8 in
      if udp_tot_len > 65535 then Some (-1, st)
      else do {
        let len = word_of_nat udp_tot_len;
        let zeroed = udp_header si len [0, 0] @ payload;
        assert_c (raw_ip_version cf = AF_INET \<or> raw_ip_version cf = AF_INET6);
        check \<leftarrow> csum_with_header (pseudo_header cf si IPPROTO_UDP len) zeroed;
        (rc, st) \<leftarrow> send_raw_ip cf ri (udp_header si len (le16 check) @ payload) st;
        Some (if rc \<noteq> 0 then -1 else 0, st)
      })"

definition bit_flag :: "bool \<Rightarrow> nat \<Rightarrow> u8" where
  "bit_flag b n = (if b then push_bit n 1 else 0)"

definition tcp_flags :: "packet_info \<Rightarrow> u8" where
  "tcp_flags si = bit_flag (syn si) 1 OR bit_flag (psh si) 3 OR bit_flag (ack si) 4"

definition tcp_header :: "packet_info \<Rightarrow> u8 \<Rightarrow> u16 \<Rightarrow> bytes \<Rightarrow> bytes" where
  "tcp_header si doff win check =
     be16 (src_port si) @ be16 (dst_port si) @ be32 (seq si) @ be32 (ack_seq si)
     @ [push_bit 4 doff, tcp_flags si] @ be16 win @ check @ [0, 0]"

definition tcp_options :: "packet_info \<Rightarrow> u32 \<Rightarrow> bytes" where
  "tcp_options si now =
     (if syn si
      then [0x02, 0x04, 0x05, 0xb4, 0x04, 0x02, 0x08, 0x0a] @ be32 now @ be32 (ts_ack si) @ [0x01, 0x03, 0x03, 0x05]
      else [0x01, 0x01, 0x08, 0x0a] @ be32 now @ be32 (ts_ack si))"

definition send_raw_tcp ::
  "net_conf \<Rightarrow> raw_info \<Rightarrow> bytes \<Rightarrow> net \<times> world \<Rightarrow> (int \<times> raw_info \<times> net \<times> world) option" where
  "send_raw_tcp cf ri payload = (\<lambda>(nt, w).
     do {
       let si = send_info ri;
       let doff = (if syn si then 10 else 8);
       let (now, w) = get_current_time w;
       let opts = tcp_options si (ucast now);
       (r, w) \<leftarrow> get_true_random_number w;
       let win = (ucast (40960 + r mod 512) :: u16);
       let zeroed = tcp_header si doff win [0, 0] @ opts @ payload;
       assert_c (raw_ip_version cf = AF_INET \<or> raw_ip_version cf = AF_INET6);
       check \<leftarrow> csum_with_header (pseudo_header cf si IPPROTO_TCP (word_of_nat (length zeroed))) zeroed;
       (rc, st) \<leftarrow> send_raw_ip cf ri (tcp_header si doff win (le16 check) @ opts @ payload) (nt, w);
       (if rc \<noteq> 0 then Some (-1, ri, st)
        else Some (0, ri \<lparr> send_info := si \<lparr> data_len := int (length payload) \<rparr> \<rparr>, st))
     })"

definition send_raw0 ::
  "net_conf \<Rightarrow> raw_info \<Rightarrow> bytes \<Rightarrow> net \<times> world \<Rightarrow> (int \<times> raw_info \<times> net \<times> world) option" where
  "send_raw0 cf ri payload = (\<lambda>(nt, w).
     do {
       (drop_it, w) \<leftarrow> (if random_drop cf \<noteq> 0 then do {
                           (r, w) \<leftarrow> get_true_random_number w;
                           Some (r mod 10000 < word_of_int (random_drop cf), w)
                         } else Some (False, w));
       (if drop_it then Some (0, ri, nt, w)
        else case raw_mode cf of
          mode_faketcp \<Rightarrow> send_raw_tcp cf ri payload (nt, w)
        | mode_udp \<Rightarrow> map_option (\<lambda>(rc, st). (rc, ri, st)) (send_raw_udp cf ri payload (nt, w))
        | mode_icmp \<Rightarrow> map_option (\<lambda>(rc, st). (rc, ri, st)) (send_raw_icmp cf ri payload (nt, w))
        | mode_end \<Rightarrow> Some (-1, ri, nt, w))
     })"

section \<open>Receiving\<close>

type_synonym recv_res = "(int \<times> (nat \<times> int) option \<times> raw_info \<times> net) option"

definition recv_raw_icmp :: "net_conf \<Rightarrow> raw_info \<Rightarrow> net \<Rightarrow> recv_res" where
  "recv_raw_icmp cf ri nt =
     do {
       (rc, out, ri, nt) \<leftarrow> recv_raw_ip cf ri nt;
       (case out of None \<Rightarrow> Some (-1, None, ri, nt) | Some (p, ip_payloadlen) \<Rightarrow>
        if rc \<noteq> 0 then Some (-1, None, ri, nt)
        else do {
          let v4 = (raw_ip_version cf = AF_INET);
          assert_c (v4 \<or> raw_ip_version cf = AF_INET6);
          (if protocol (recv_info ri) \<noteq> (if v4 then IPPROTO_ICMP else IPPROTO_ICMPV6) then Some (-1, None, ri, nt)
           else if ip_payloadlen < 8 then Some (-1, None, ri, nt)
           else if rd16 nt (p + 4) \<noteq> src_port (send_info ri) then Some (-1, None, ri, nt)
           else do {
             let ri = ri \<lparr> recv_info := recv_info ri \<lparr> src_port := rd16 nt (p + 4), dst_port := rd16 nt (p + 4),
                                                    my_icmp_seq := rd16 nt (p + 6) \<rparr> \<rparr>;
             let want = (if v4 then (if program_mode cf = client_mode then 0 else 8)
                         else (if program_mode cf = client_mode then 129 else 128));
             (if rd8 nt (p + 1) \<noteq> 0 then Some (-1, None, ri, nt)
              else if rd8 nt p \<noteq> want then Some (-1, None, ri, nt)
              else do {
                let seg = buf_read (g_packet_buf nt) p (nat ip_payloadlen);
                check \<leftarrow> (if v4 then Some (csum seg)
                          else csum_with_header
                            (pseudo_header cf (recv_info ri) IPPROTO_ICMPV6 (word_of_int ip_payloadlen)) seg);
                (if check \<noteq> 0 then Some (-1, None, ri, nt)
                 else Some (0, Some (p + 8, ip_payloadlen - 8), ri, nt))
              })
           })
        })
     }"

definition recv_raw_udp :: "net_conf \<Rightarrow> raw_info \<Rightarrow> net \<Rightarrow> recv_res" where
  "recv_raw_udp cf ri nt =
     do {
       (rc, out, ri, nt) \<leftarrow> recv_raw_ip cf ri nt;
       (case out of None \<Rightarrow> Some (-1, None, ri, nt) | Some (p, ip_payloadlen) \<Rightarrow>
        if rc \<noteq> 0 then Some (-1, None, ri, nt)
        else if protocol (recv_info ri) \<noteq> IPPROTO_UDP then Some (-1, None, ri, nt)
        else if ip_payloadlen < 8 then Some (-1, None, ri, nt)
        else if uint (rd16 nt (p + 4)) \<noteq> ip_payloadlen then Some (-1, None, ri, nt)
        else if rd16 nt (p + 2) \<noteq> word_of_int (filter_port cf) then Some (-1, None, ri, nt)
        else do {
          assert_c (raw_ip_version cf = AF_INET \<or> raw_ip_version cf = AF_INET6);
          udp_chk \<leftarrow> csum_with_header (pseudo_header cf (recv_info ri) IPPROTO_UDP (word_of_int ip_payloadlen))
                       (buf_read (g_packet_buf nt) p (nat ip_payloadlen));
          (if udp_chk \<noteq> 0 then Some (-1, None, ri, nt)
           else Some (0, Some (p + 8, ip_payloadlen - 8),
                      ri \<lparr> recv_info := recv_info ri \<lparr> src_port := rd16 nt p, dst_port := rd16 nt (p + 2) \<rparr> \<rparr>, nt))
        })
     }"

text \<open>\<open>parse_tcp_option(ptr, option_end, recv_info)\<close> over the packet buffer.\<close>

function tcp_option_loop :: "buffer \<Rightarrow> nat \<Rightarrow> nat \<Rightarrow> packet_info \<Rightarrow> int \<times> packet_info" where
  "tcp_option_loop buf ptr option_end info =
     (if ptr \<ge> option_end then (0, info)
      else if buf ptr = 0 then (0, info)
      else if buf ptr = 1 then tcp_option_loop buf (ptr + 1) option_end info
      else if buf ptr = 8 then
        (if ptr + 1 \<ge> option_end then (-1, info)
         else if buf (ptr + 1) \<noteq> 10 then (-1, info)
         else if ptr + 10 > option_end then (-1, info)
         else tcp_option_loop buf (ptr + 10) option_end
                (info \<lparr> has_ts := True, ts := read_u32 (buf_read buf (ptr + 2) 4),
                        ts_ack := read_u32 (buf_read buf (ptr + 6) 4) \<rparr>))
      else if ptr + 1 \<ge> option_end then (-1, info)
      else if unat (buf (ptr + 1)) \<le> 1 then (-1, info)
      else tcp_option_loop buf (ptr + unat (buf (ptr + 1))) option_end info)"
  by auto
termination by (relation "measure (\<lambda>(buf, ptr, e, info). e - ptr)") auto

declare tcp_option_loop.simps [simp del]

definition parse_tcp_option :: "buffer \<Rightarrow> nat \<Rightarrow> nat \<Rightarrow> packet_info \<Rightarrow> int \<times> packet_info" where
  "parse_tcp_option buf option_begin option_end info =
     tcp_option_loop buf option_begin option_end (info \<lparr> has_ts := False, ts := 0 \<rparr>)"

text \<open>A failed TCP checksum is only logged. A header length the code rejects makes
  it return 0, success, with both output parameters unset.\<close>

definition recv_raw_tcp :: "net_conf \<Rightarrow> raw_info \<Rightarrow> net \<Rightarrow> recv_res" where
  "recv_raw_tcp cf ri nt =
     do {
       (rc, out, ri, nt) \<leftarrow> recv_raw_ip cf ri nt;
       (case out of None \<Rightarrow> Some (-1, None, ri, nt) | Some (p, ip_payloadlen) \<Rightarrow>
        if rc \<noteq> 0 then Some (-1, None, ri, nt)
        else if protocol (recv_info ri) \<noteq> IPPROTO_TCP then Some (-1, None, ri, nt)
        else let tcphdrlen = hi4 (rd8 nt (p + 12)) * 4 in
        if \<not> (tcphdrlen > 0 \<and> tcphdrlen \<le> 60) then Some (0, None, ri, nt)
        else if int tcphdrlen > ip_payloadlen then Some (0, None, ri, nt)
        else if rd16 nt (p + 2) \<noteq> word_of_int (filter_port cf) then Some (-1, None, ri, nt)
        else do {
          assert_c (raw_ip_version cf = AF_INET \<or> raw_ip_version cf = AF_INET6);
          _ \<leftarrow> csum_with_header (pseudo_header cf (recv_info ri) IPPROTO_TCP (word_of_int ip_payloadlen))
                 (buf_read (g_packet_buf nt) p (nat ip_payloadlen));
          let (_, info) = parse_tcp_option (g_packet_buf nt) (p + 20) (p + tcphdrlen) (recv_info ri);
          let flags = rd8 nt (p + 13);
          let last_ack_seq = ack_seq info;
          let info = info \<lparr> ack := bit flags 4, syn := bit flags 1, rst := bit flags 2,
                            src_port := rd16 nt p, dst_port := rd16 nt (p + 2),
                            seq := rd32 nt (p + 4), ack_seq := rd32 nt (p + 8) \<rparr>;
          let info = info \<lparr> ack_seq_counter :=
                             (if ack_seq info = last_ack_seq then ack_seq_counter info + 1 else 0),
                            psh := bit flags 3, data_len := ip_payloadlen - int tcphdrlen \<rparr>;
          let ri = ri \<lparr> recv_info := info \<rparr>;
          let ri = (if bit flags 2 then ri \<lparr> rst_received := rst_received ri + 1 \<rparr> else ri);
          let ri = (if bit flags 2 \<and> max_rst_allowed cf \<ge> 0 \<and> rst_received ri = max_rst_allowed cf + 1
                    then ri \<lparr> disabled := True \<rparr> else ri);
          Some (0, Some (p + tcphdrlen, ip_payloadlen - int tcphdrlen), ri, nt)
        })
     }"

definition recv_raw0 :: "net_conf \<Rightarrow> raw_info \<Rightarrow> net \<Rightarrow> recv_res" where
  "recv_raw0 cf ri nt =
     (case raw_mode cf of
        mode_faketcp \<Rightarrow> recv_raw_tcp cf ri nt
      | mode_udp \<Rightarrow> recv_raw_udp cf ri nt
      | mode_icmp \<Rightarrow> recv_raw_icmp cf ri nt
      | mode_end \<Rightarrow> Some (-1, None, ri, nt))"

definition peek_raw :: "net_conf \<Rightarrow> raw_info \<Rightarrow> net \<Rightarrow> (int \<times> raw_info \<times> net) option" where
  "peek_raw cf ri nt =
     do {
       (rc, out, ri, nt) \<leftarrow> recv_raw_ip cf ri nt;
       (case out of None \<Rightarrow> Some (-1, ri, nt) | Some (p, payload_len) \<Rightarrow>
        if rc \<noteq> 0 then Some (-1, ri, nt)
        else case raw_mode cf of
          mode_faketcp \<Rightarrow>
            if protocol (recv_info ri) \<noteq> IPPROTO_TCP then Some (-1, ri, nt)
            else if payload_len < 20 then Some (-1, ri, nt)
            else Some (0, ri \<lparr> recv_info := recv_info ri \<lparr> src_port := rd16 nt p, syn := bit (rd8 nt (p + 13)) 1 \<rparr> \<rparr>, nt)
        | mode_udp \<Rightarrow>
            if protocol (recv_info ri) \<noteq> IPPROTO_UDP then Some (-1, ri, nt)
            else if payload_len < 8 then Some (-1, ri, nt)
            else Some (0, ri \<lparr> recv_info := recv_info ri \<lparr> src_port := rd16 nt p \<rparr> \<rparr>, nt)
        | mode_icmp \<Rightarrow> do {
            assert_c (raw_ip_version cf = AF_INET \<or> raw_ip_version cf = AF_INET6);
            (if protocol (recv_info ri) \<noteq>
                 (if raw_ip_version cf = AF_INET then IPPROTO_ICMP else IPPROTO_ICMPV6) then Some (-1, ri, nt)
             else if payload_len < 8 then Some (-1, ri, nt)
             else Some (0, ri \<lparr> recv_info := recv_info ri \<lparr> src_port := rd16 nt (p + 4) \<rparr> \<rparr>, nt))
          }
        | mode_end \<Rightarrow> Some (-1, ri, nt))
     }"

section \<open>The simulated sequence numbers\<close>

definition receive_window_lower_bound :: u32 where "receive_window_lower_bound = 40960"

definition after_send_raw0 :: "net_conf \<Rightarrow> raw_info \<Rightarrow> world \<Rightarrow> (int \<times> raw_info \<times> world) option" where
  "after_send_raw0 cf ri w =
     do {
       let si = send_info ri;
       (ri, w) \<leftarrow>
         (if raw_mode cf = mode_faketcp \<and> \<not> syn si \<and> ack si \<and> data_len si \<noteq> 0 then
            (if seq_mode cf = 1 then
               Some (ri \<lparr> send_info := si \<lparr> seq := seq si + word_of_int (data_len si) \<rparr> \<rparr>, w)
             else if seq_mode cf = 2 then do {
               (r, w) \<leftarrow> get_true_random_number w;
               Some (if r mod 5 = 3 then ri \<lparr> send_info := si \<lparr> seq := seq si + word_of_int (data_len si) \<rparr> \<rparr> else ri, w)
             }
             else if seq_mode cf = 3 \<or> seq_mode cf = 4 then do {
               let si = si \<lparr> seq := seq si + word_of_int (data_len si) \<rparr>;
               let window_size = (if seq_mode cf = 3 then push_bit 5 receive_window_lower_bound
                                  else receive_window_lower_bound);
               let info = recv_info ri;
               let si = (if larger_than_u32 (seq si + word_of_int max_data_len) (ack_seq info + window_size)
                         then si \<lparr> seq := ack_seq info \<rparr> else si);
               let (info, si) = (if ack_seq_counter info \<ge> 3
                                 then (info \<lparr> ack_seq_counter := 0 \<rparr>, si \<lparr> seq := ack_seq info \<rparr>) else (info, si));
               let si = (if larger_than_u32 (ack_seq info) (seq si) then si \<lparr> seq := ack_seq info \<rparr> else si);
               Some (ri \<lparr> send_info := si, recv_info := info \<rparr>, w)
             }
             else Some (ri, w))
          else Some (ri, w));
       let ri = (if raw_mode cf = mode_icmp \<and> program_mode cf = client_mode
                 then ri \<lparr> send_info := send_info ri \<lparr> my_icmp_seq := my_icmp_seq (send_info ri) + 1 \<rparr> \<rparr> else ri);
       Some (0, ri, w)
     }"

definition after_recv_raw0 :: "net_conf \<Rightarrow> raw_info \<Rightarrow> int \<times> raw_info" where
  "after_recv_raw0 cf ri =
     (let info = recv_info ri; si = send_info ri;
          si = (if raw_mode cf = mode_faketcp \<and> has_ts info then si \<lparr> ts_ack := ts info \<rparr> else si);
          next_seq = seq info + word_of_int (data_len info);
          si = (if raw_mode cf = mode_faketcp \<and> \<not> syn info \<and> ack info \<and> data_len info \<noteq> 0 then
                  (if seq_mode cf = 0 \<or> seq_mode cf = 1 \<or> seq_mode cf = 2 then
                     (if larger_than_u32 next_seq (ack_seq si) then si \<lparr> ack_seq := next_seq \<rparr> else si)
                   else if seq_mode cf = 3 \<or> seq_mode cf = 4 then
                     (if seq info = ack_seq si then si \<lparr> ack_seq := next_seq \<rparr> else si)
                   else si)
                else si);
          si = (if raw_mode cf = mode_icmp \<and> program_mode cf = server_mode
                   \<and> larger_than_u16 (my_icmp_seq info) (my_icmp_seq si)
                then si \<lparr> my_icmp_seq := my_icmp_seq info \<rparr> else si)
      in (0, ri \<lparr> send_info := si \<rparr>))"

section \<open>What is sent is received\<close>

text \<open>The packets this section is about: IPv6, or IPv4 built completely by the
  program; addresses are 16 byte images; the receiver runs the same IP version
  and is not bound to one address.\<close>

definition wire_pair :: "net_conf \<Rightarrow> raw_info \<Rightarrow> net_conf \<Rightarrow> bytes \<Rightarrow> bool" where
  "wire_pair cs rs cr m \<longleftrightarrow> \<not> disabled rs \<and>
     (raw_ip_version cs = AF_INET \<and> lower_level cs \<noteq> 0 \<or> raw_ip_version cs = AF_INET6) \<and>
     length (new_src_ip (send_info rs)) = 16 \<and> length (new_dst_ip (send_info rs)) = 16 \<and>
     raw_ip_version cr = raw_ip_version cs \<and> bind_addr_used cr = 0 \<and> length m \<le> 60000"

lemma pseudo_noted:
  "wire_pair cs rs cr m \<Longrightarrow>
     pseudo_header cr (ip_noted cr (send_info rs) rn info) p l = pseudo_header cs (send_info rs) p l"
  by (auto simp: wire_pair_def pseudo_header_def ip_noted_def Let_def AF_INET_def AF_INET6_def)

lemma even_pseudo: "wire_pair cs rs cr m \<Longrightarrow> even (length (pseudo_header cs (send_info rs) p l)) \<and>
    length (pseudo_header cs (send_info rs) p l) \<le> 40"
  by (auto simp: wire_pair_def pseudo_header_def)

lemma ip_noted_fields [simp]:
  "protocol (ip_noted cr si rn info) = protocol si"
  "ack_seq (ip_noted cr si rn info) = ack_seq info"
  by (simp_all add: ip_noted_def Let_def)

text \<open>The segment as the receiver finds it in its buffer.\<close>

lemma wire_segment:
  assumes wp: "wire_pair cs rs cr m"
    and send: "send_raw_ip cs rs seg (nt, w) = Some (rc, nt', w')" and len: "length seg \<le> length m + 60"
  obtains pk dest where "sys_log w' = sys_log w @ [SysSendto (raw_send_fd cs) pk dest]"
    "\<forall>rr rn. holds_frame cr rn pk \<longrightarrow> (\<exists>p. recv_raw_ip cr rr rn =
       Some (0, Some (p, int (length seg)),
         rr \<lparr> recv_info := ip_noted cr (send_info rs) rn (recv_info rr) \<rparr>,
         if peek rr then rn else rn \<lparr> g_packet_buf_cnt := 0 \<rparr>)
       \<and> buf_read (g_packet_buf rn) p (length seg) = seg)"
proof -
  have a: "\<not> disabled rs"
    "raw_ip_version cs = AF_INET \<and> lower_level cs \<noteq> 0 \<or> raw_ip_version cs = AF_INET6"
    "length (new_src_ip (send_info rs)) = 16" "length (new_dst_ip (send_info rs)) = 16"
    "length seg + 40 < 65536" "raw_ip_version cr = raw_ip_version cs" "bind_addr_used cr = 0"
    using wp len by (auto simp: wire_pair_def)
  obtain pk dest where pk: "sys_log w' = sys_log w @ [SysSendto (raw_send_fd cs) pk dest]"
    "length pk = ip_hdr_len cr + length seg" "drop (ip_hdr_len cr) pk = seg"
    and rcv: "\<forall>rr rn. holds_frame cr rn pk \<longrightarrow> recv_raw_ip cr rr rn =
       Some (0, Some (link_level_header_len cr + ip_hdr_len cr, int (length seg)),
         rr \<lparr> recv_info := ip_noted cr (send_info rs) rn (recv_info rr) \<rparr>,
         if peek rr then rn else rn \<lparr> g_packet_buf_cnt := 0 \<rparr>)"
    by (rule send_raw_ip_recv[OF send a])
  have "buf_read (g_packet_buf rn) (link_level_header_len cr + ip_hdr_len cr) (length seg) = seg"
    if "holds_frame cr rn pk" for rn
    using buf_read_sub[of "g_packet_buf rn" "link_level_header_len cr" "length pk" pk "ip_hdr_len cr" "length seg"]
      that pk by (simp add: holds_frame_def)
  then show thesis using that[OF pk(1)] rcv by metis
qed

lemma segment_reads:
  assumes "buf_read buf p (length seg) = seg"
  shows "i + n \<le> length seg \<Longrightarrow> buf_read buf (p + i) n = take n (drop i seg)"
    and "i < length seg \<Longrightarrow> buf (p + i) = seg ! i"
  using buf_read_sub[OF assms, of i n] buf_read_nth[OF assms, of i] by auto

lemma udp_wire:
  assumes wp: "wire_pair cs rs cr m"
    and send: "send_raw_udp cs rs m (nt, w) = Some (0, nt', w')"
    and proto: "protocol (send_info rs) = IPPROTO_UDP"
    and port: "word_of_int (filter_port cr) = dst_port (send_info rs)"
  obtains pk dest where "sys_log w' = sys_log w @ [SysSendto (raw_send_fd cs) pk dest]"
    "\<forall>rr rn. holds_frame cr rn pk \<longrightarrow> (\<exists>off rr' rn'. recv_raw_udp cr rr rn = Some (0, Some (off, int (length m)), rr', rn')
       \<and> buf_read (g_packet_buf rn') off (length m) = m \<and> g_packet_buf_cnt rn' = (if peek rr then 1 else 0)
       \<and> src_port (recv_info rr') = src_port (send_info rs) \<and> dst_port (recv_info rr') = dst_port (send_info rs))"
proof -
  define len where "len = (word_of_nat (length m + 8) :: u16)"
  let ?si = "send_info rs"
  have lm: "length m \<le> 60000" using wp by (simp add: wire_pair_def)
  have ul: "unat len = length m + 8" unfolding len_def by (subst unat_of_nat) (use lm in simp)
  then have il: "uint len = int (length m) + 8" by (simp only: uint_nat)
  obtain check where ck: "csum_with_header (pseudo_header cs ?si IPPROTO_UDP len) (udp_header ?si len [0, 0] @ m) = Some check"
    and out: "send_raw_ip cs rs (udp_header ?si len (le16 check) @ m) (nt, w) = Some (0, nt', w')"
    using send lm by (auto simp: send_raw_udp_def Let_def guard_simps len_def split: bind_splits if_splits)
  define seg where "seg = udp_header ?si len (le16 check) @ m"
  have ls: "length seg = length m + 8" by (simp add: seg_def udp_header_def)
  have sum: "csum_with_header (pseudo_header cs ?si IPPROTO_UDP len) seg = Some 0"
    using csum_with_header_insert[of "pseudo_header cs ?si IPPROTO_UDP len"
        "be16 (src_port ?si) @ be16 (dst_port ?si) @ be16 len" m check] even_pseudo[OF wp, of IPPROTO_UDP len] ck lm
    by (simp add: seg_def udp_header_def)
  obtain pk dest where pk: "sys_log w' = sys_log w @ [SysSendto (raw_send_fd cs) pk dest]"
    and rcv: "\<forall>rr rn. holds_frame cr rn pk \<longrightarrow> (\<exists>p. recv_raw_ip cr rr rn =
       Some (0, Some (p, int (length seg)), rr \<lparr> recv_info := ip_noted cr ?si rn (recv_info rr) \<rparr>,
         if peek rr then rn else rn \<lparr> g_packet_buf_cnt := 0 \<rparr>) \<and> buf_read (g_packet_buf rn) p (length seg) = seg)"
    using wire_segment[OF wp out] ls by (auto simp: seg_def)
  show thesis
  proof (rule that[OF pk], intro allI impI)
    fix rr rn assume fr: "holds_frame cr rn pk"
    obtain p where r: "recv_raw_ip cr rr rn =
       Some (0, Some (p, int (length seg)), rr \<lparr> recv_info := ip_noted cr ?si rn (recv_info rr) \<rparr>,
         if peek rr then rn else rn \<lparr> g_packet_buf_cnt := 0 \<rparr>)" and b: "buf_read (g_packet_buf rn) p (length seg) = seg"
      using rcv fr by blast
    have f: "buf_read (g_packet_buf rn) p 2 = be16 (src_port ?si)" "buf_read (g_packet_buf rn) (p + 2) 2 = be16 (dst_port ?si)"
      "buf_read (g_packet_buf rn) (p + 4) 2 = be16 len" "buf_read (g_packet_buf rn) (p + 8) (length m) = m"
      using segment_reads(1)[OF b, of 0 2] segment_reads(1)[OF b, of 2 2] segment_reads(1)[OF b, of 4 2]
        segment_reads(1)[OF b, of 8 "length m"] ls by (simp_all add: seg_def udp_header_def)
    define n where "n = length seg"
    have n: "length seg = n" "\<not> n < 8" "int n - 8 = int (length m)" "word_of_nat n = len" "uint len = int n"
      using ls il by (simp_all only: n_def len_def)
    have v: "assert_c (raw_ip_version cr = AF_INET \<or> raw_ip_version cr = AF_INET6) = Some ()"
      using wp by (auto simp: wire_pair_def)
    have "recv_raw_udp cr rr rn = Some (0, Some (p + 8, int (length m)),
        rr \<lparr> recv_info := ip_noted cr ?si rn (recv_info rr) \<lparr> src_port := src_port ?si, dst_port := dst_port ?si \<rparr> \<rparr>,
        if peek rr then rn else rn \<lparr> g_packet_buf_cnt := 0 \<rparr>)"
      using proto port n(2-) sum v b[unfolded n(1)]
      by (simp add: recv_raw_udp_def r rd16_def f pseudo_noted[OF wp] n(1) del: add_2_eq_Suc add_2_eq_Suc')
    then show "\<exists>off rr' rn'. recv_raw_udp cr rr rn = Some (0, Some (off, int (length m)), rr', rn')
       \<and> buf_read (g_packet_buf rn') off (length m) = m \<and> g_packet_buf_cnt rn' = (if peek rr then 1 else 0)
       \<and> src_port (recv_info rr') = src_port ?si \<and> dst_port (recv_info rr') = dst_port ?si"
      using f fr by (auto simp: holds_frame_def)
  qed
qed

lemma tcp_option_end: "e \<le> q \<Longrightarrow> tcp_option_loop buf q e info = (0, info)"
  by (subst tcp_option_loop.simps) simp

lemma tcp_option_nop:
  "buf q = 1 \<Longrightarrow> q < e \<Longrightarrow> q' = q + 1 \<Longrightarrow> tcp_option_loop buf q e info = tcp_option_loop buf q' e info"
  by (subst tcp_option_loop.simps) simp

lemma tcp_option_ts:
  "buf q = 8 \<Longrightarrow> buf (q + 1) = 10 \<Longrightarrow> q + 10 \<le> e \<Longrightarrow> q' = q + 10 \<Longrightarrow>
   buf_read buf (q + 2) 4 = be32 a \<Longrightarrow> buf_read buf (q + 6) 4 = be32 b \<Longrightarrow>
   tcp_option_loop buf q e info = tcp_option_loop buf q' e (info \<lparr> has_ts := True, ts := a, ts_ack := b \<rparr>)"
  by (subst tcp_option_loop.simps) (simp add: read_u32_be del: add_2_eq_Suc add_2_eq_Suc')

lemma tcp_option_other:
  "buf q = k \<Longrightarrow> k \<notin> {0, 1, 8} \<Longrightarrow> buf (q + 1) = l \<Longrightarrow> 2 \<le> unat l \<Longrightarrow> q + 1 < e \<Longrightarrow> q' = q + unat l \<Longrightarrow>
   tcp_option_loop buf q e info = tcp_option_loop buf q' e info"
  by (subst tcp_option_loop.simps) simp

lemma parse_sent_options:
  assumes b: "buf_read buf p (length (tcp_options si now)) = tcp_options si now"
  shows "parse_tcp_option buf p (p + length (tcp_options si now)) info =
    (0, info \<lparr> has_ts := True, ts := now, ts_ack := ts_ack si \<rparr>)"
proof -
  let ?i = "info \<lparr> has_ts := False, ts := 0 \<rparr>"
  let ?j = "info \<lparr> has_ts := True, ts := now, ts_ack := ts_ack si \<rparr>"
  note at = buf_read_nth[OF b] and sub = buf_read_sub[OF b]
  have e: "p + 4 + 1 = p + 5" "p + 6 + 1 = p + 7" "p + 17 + 1 = p + 18" "p + 6 + 2 = p + 8" "p + 6 + 6 = p + 12"
    "p + 2 + 1 = p + 3" "p + 2 + 2 = p + 4" "p + 2 + 6 = p + 8"
    by simp_all
  show ?thesis
  proof (cases "syn si")
    case True
    have len: "length (tcp_options si now) = 20" using True by (simp add: tcp_options_def)
    have f: "buf p = 2" "buf (p + 1) = 4" "buf (p + 4) = 4" "buf (p + 4 + 1) = 2" "buf (p + 6) = 8" "buf (p + 6 + 1) = 10"
      "buf (p + 16) = 1" "buf (p + 17) = 3" "buf (p + 17 + 1) = 3"
      unfolding e using at[of 0] at[of 1] at[of 4] at[of 5] at[of 6] at[of 7] at[of 16] at[of 17] at[of 18] True
      by (simp_all add: tcp_options_def nth_append)
    have g: "buf_read buf (p + 6 + 2) 4 = be32 now" "buf_read buf (p + 6 + 6) 4 = be32 (ts_ack si)"
      unfolding e using sub[of 8 4] sub[of 12 4] True by (simp_all add: tcp_options_def)
    have "tcp_option_loop buf p (p + 20) ?i = tcp_option_loop buf (p + 4) (p + 20) ?i"
      by (rule tcp_option_other[OF f(1) _ f(2)]) simp_all
    also have "\<dots> = tcp_option_loop buf (p + 6) (p + 20) ?i"
      by (rule tcp_option_other[OF f(3) _ f(4)]) simp_all
    also have "\<dots> = tcp_option_loop buf (p + 16) (p + 20) (?i \<lparr> has_ts := True, ts := now, ts_ack := ts_ack si \<rparr>)"
      by (rule tcp_option_ts[OF f(5,6) _ _ g]) simp_all
    also have "\<dots> = tcp_option_loop buf (p + 17) (p + 20) ?j"
      using f(7) tcp_option_nop[of buf "p + 16" "p + 20" "p + 17" ?j] by simp
    also have "\<dots> = tcp_option_loop buf (p + 20) (p + 20) ?j"
      by (rule tcp_option_other[OF f(8) _ f(9)]) simp_all
    also have "\<dots> = (0, ?j)" by (rule tcp_option_end) simp
    finally show ?thesis by (simp add: parse_tcp_option_def len)
  next
    case False
    have len: "length (tcp_options si now) = 12" using False by (simp add: tcp_options_def)
    have f: "buf p = 1" "buf (p + 1) = 1" "buf (p + 2) = 8" "buf (p + 2 + 1) = 10"
      unfolding e using at[of 0] at[of 1] at[of 2] at[of 3] False
      by (simp_all add: tcp_options_def nth_append)
    have g: "buf_read buf (p + 2 + 2) 4 = be32 now" "buf_read buf (p + 2 + 6) 4 = be32 (ts_ack si)"
      unfolding e using sub[of 4 4] sub[of 8 4] False by (simp_all add: tcp_options_def)
    have "tcp_option_loop buf p (p + 12) ?i = tcp_option_loop buf (p + 1) (p + 12) ?i"
      using f(1) tcp_option_nop[of buf p "p + 12" "p + 1" ?i] by simp
    also have "\<dots> = tcp_option_loop buf (p + 2) (p + 12) ?i"
      using f(2) tcp_option_nop[of buf "p + 1" "p + 12" "p + 2" ?i] by simp
    also have "\<dots> = tcp_option_loop buf (p + 12) (p + 12) (?i \<lparr> has_ts := True, ts := now, ts_ack := ts_ack si \<rparr>)"
      by (rule tcp_option_ts[OF f(3,4) _ _ g]) simp_all
    also have "\<dots> = (0, ?i \<lparr> has_ts := True, ts := now, ts_ack := ts_ack si \<rparr>)" by (rule tcp_option_end) simp
    finally show ?thesis by (simp add: parse_tcp_option_def len)
  qed
qed

lemma bit_flag_bits:
  "bit (tcp_flags si) 1 = syn si" "bit (tcp_flags si) 2 = False"
  "bit (tcp_flags si) 3 = psh si" "bit (tcp_flags si) 4 = ack si"
  by (auto simp: tcp_flags_def bit_flag_def bit_simps)

lemma tcp_wire:
  assumes wp: "wire_pair cs rs cr m"
    and send: "send_raw_tcp cs rs m (nt, w) = Some (0, rs', nt', w')"
    and proto: "protocol (send_info rs) = IPPROTO_TCP"
    and port: "word_of_int (filter_port cr) = dst_port (send_info rs)"
  obtains pk dest where "sys_log w' = sys_log w @ [SysSendto (raw_send_fd cs) pk dest]"
    "rs' = rs \<lparr> send_info := send_info rs \<lparr> data_len := int (length m) \<rparr> \<rparr>"
    "\<forall>rr rn. holds_frame cr rn pk \<longrightarrow> (\<exists>off rr' rn'. recv_raw_tcp cr rr rn = Some (0, Some (off, int (length m)), rr', rn')
       \<and> buf_read (g_packet_buf rn') off (length m) = m \<and> g_packet_buf_cnt rn' = (if peek rr then 1 else 0)
       \<and> src_port (recv_info rr') = src_port (send_info rs) \<and> dst_port (recv_info rr') = dst_port (send_info rs)
       \<and> seq (recv_info rr') = seq (send_info rs) \<and> ack_seq (recv_info rr') = ack_seq (send_info rs)
       \<and> syn (recv_info rr') = syn (send_info rs) \<and> ack (recv_info rr') = ack (send_info rs)
       \<and> has_ts (recv_info rr') \<and> ts_ack (recv_info rr') = ts_ack (send_info rs)
       \<and> data_len (recv_info rr') = int (length m))"
proof -
  let ?si = "send_info rs"
  have lm: "length m \<le> 60000" using wp by (simp add: wire_pair_def)
  define doff where "doff = (if syn ?si then 10 else 8 :: u8)"
  define hl where "hl = (if syn ?si then 40 else 32 :: nat)"
  obtain now w1 where t: "get_current_time w = (now, w1)" by (cases "get_current_time w")
  define opts where "opts = tcp_options ?si (ucast now)"
  have lo: "length opts = hl - 20" by (simp add: opts_def tcp_options_def hl_def)
  obtain r w2 where rd: "get_true_random_number w1 = Some (r, w2)"
    using send t by (cases "get_true_random_number w1") (auto simp: send_raw_tcp_def Let_def)
  define win where "win = (ucast (40960 + r mod 512) :: u16)"
  define plen where "plen = (word_of_nat (length (tcp_header ?si doff win [0, 0] @ opts @ m)) :: u16)"
  have v: "raw_ip_version cs = AF_INET \<or> raw_ip_version cs = AF_INET6" using wp by (auto simp: wire_pair_def)
  have st: "send_raw_tcp cs rs m (nt, w) =
      Option.bind (csum_with_header (pseudo_header cs ?si IPPROTO_TCP plen) (tcp_header ?si doff win [0, 0] @ opts @ m))
       (\<lambda>check. Option.bind (send_raw_ip cs rs (tcp_header ?si doff win (le16 check) @ opts @ m) (nt, w2))
         (\<lambda>(rc, st). if rc \<noteq> 0 then Some (-1, rs, st)
            else Some (0, rs \<lparr> send_info := ?si \<lparr> data_len := int (length m) \<rparr> \<rparr>, st)))"
    using v by (simp add: send_raw_tcp_def Let_def t rd doff_def win_def opts_def plen_def)
  obtain check where ck: "csum_with_header (pseudo_header cs ?si IPPROTO_TCP plen) (tcp_header ?si doff win [0, 0] @ opts @ m) = Some check"
    and out: "send_raw_ip cs rs (tcp_header ?si doff win (le16 check) @ opts @ m) (nt, w2) = Some (0, nt', w')"
    and rs': "rs' = rs \<lparr> send_info := ?si \<lparr> data_len := int (length m) \<rparr> \<rparr>"
    using send unfolding st by (auto elim!: bind_eq_SomeE split: if_splits prod.splits)
  define seg where "seg = tcp_header ?si doff win (le16 check) @ opts @ m"
  have lh: "length (tcp_header ?si doff win c) = 18 + length c" for c by (simp add: tcp_header_def)
  have hl: "20 \<le> hl" "hl \<le> 40" by (auto simp: hl_def)
  have ls: "length seg = hl + length m" using hl by (simp add: seg_def lh lo)
  have log: "sys_log w2 = sys_log w"
    using get_current_time_other(1)[of w] rand_other[OF rd] t by simp
  have "\<exists>x. csum_with_header (pseudo_header cs ?si IPPROTO_TCP l) seg = Some x" for l
    using even_pseudo[OF wp, of IPPROTO_TCP l] by (simp add: csum_with_header_append)
  then have sum: "\<exists>x. csum_with_header (pseudo_header cs ?si IPPROTO_TCP l) seg = Some x" for l .
  obtain pk dest where pk: "sys_log w' = sys_log w2 @ [SysSendto (raw_send_fd cs) pk dest]"
    and rcv: "\<forall>rr rn. holds_frame cr rn pk \<longrightarrow> (\<exists>p. recv_raw_ip cr rr rn =
       Some (0, Some (p, int (length seg)), rr \<lparr> recv_info := ip_noted cr ?si rn (recv_info rr) \<rparr>,
         if peek rr then rn else rn \<lparr> g_packet_buf_cnt := 0 \<rparr>) \<and> buf_read (g_packet_buf rn) p (length seg) = seg)"
    using wire_segment[OF wp out] ls hl by (auto simp: seg_def)
  show thesis
  proof (rule that[OF pk[unfolded log] rs'], intro allI impI)
    fix rr rn assume fr: "holds_frame cr rn pk"
    obtain p where r: "recv_raw_ip cr rr rn =
       Some (0, Some (p, int (length seg)), rr \<lparr> recv_info := ip_noted cr ?si rn (recv_info rr) \<rparr>,
         if peek rr then rn else rn \<lparr> g_packet_buf_cnt := 0 \<rparr>)" and b: "buf_read (g_packet_buf rn) p (length seg) = seg"
      using rcv fr by blast
    let ?buf = "g_packet_buf rn"
    note rd = segment_reads(1)[OF b] and at = segment_reads(2)[OF b]
    have f: "buf_read ?buf p 2 = be16 (src_port ?si)" "buf_read ?buf (p + 2) 2 = be16 (dst_port ?si)"
      "buf_read ?buf (p + 4) 4 = be32 (seq ?si)" "buf_read ?buf (p + 8) 4 = be32 (ack_seq ?si)"
      using rd[of 0 2] rd[of 2 2] rd[of 4 4] rd[of 8 4] ls hl
      by (simp_all add: seg_def tcp_header_def)
    have "drop hl seg = m" using hl by (simp add: seg_def lh lo)
    then have f5: "buf_read ?buf (p + hl) (length m) = m" using rd[of hl "length m"] ls by simp
    have o: "buf_read ?buf (p + 20) (length opts) = opts"
      using rd[of 20 "length opts"] ls hl lo by (simp add: seg_def tcp_header_def)
    have b12: "?buf (p + 12) = push_bit 4 doff" and b13: "?buf (p + 13) = tcp_flags ?si"
      using at[of 12] at[of 13] ls hl by (simp_all add: seg_def tcp_header_def nth_append)
    have h: "hi4 (push_bit 4 doff) * 4 = hl" "0 < hi4 (push_bit 4 doff)" "hi4 (push_bit 4 doff) \<le> 15"
      "int (hi4 (push_bit 4 doff)) * 4 = int hl"
      by (simp_all add: doff_def hl_def hi4_def)
    have e: "p + 20 + length opts = p + hl" using lo hl by simp
    note po = parse_sent_options[of ?buf "p + 20" ?si "ucast now", folded opts_def, OF o, unfolded e]
    define n where "n = length seg"
    have n: "length seg = n" "int n - int hl = int (length m)" "\<not> int hl > int n" using ls by (simp_all add: n_def)
    obtain x where x: "csum_with_header (pseudo_header cs ?si IPPROTO_TCP (word_of_int (int n))) seg = Some x" using sum by blast
    have v: "assert_c (raw_ip_version cr = AF_INET \<or> raw_ip_version cr = AF_INET6) = Some ()"
      using wp by (auto simp: wire_pair_def)
    have cr: "protocol (recv_info (rr \<lparr> recv_info := ip_noted cr ?si rn (recv_info rr) \<rparr>)) = IPPROTO_TCP"
      using proto by simp
    show "\<exists>off rr' rn'. recv_raw_tcp cr rr rn = Some (0, Some (off, int (length m)), rr', rn')
       \<and> buf_read (g_packet_buf rn') off (length m) = m \<and> g_packet_buf_cnt rn' = (if peek rr then 1 else 0)
       \<and> src_port (recv_info rr') = src_port ?si \<and> dst_port (recv_info rr') = dst_port ?si
       \<and> seq (recv_info rr') = seq ?si \<and> ack_seq (recv_info rr') = ack_seq ?si
       \<and> syn (recv_info rr') = syn ?si \<and> ack (recv_info rr') = ack ?si
       \<and> has_ts (recv_info rr') \<and> ts_ack (recv_info rr') = ts_ack ?si
       \<and> data_len (recv_info rr') = int (length m)"
      using proto port n(2,3) x v hl b[unfolded n(1)] fr f5 po
      by (simp add: recv_raw_tcp_def r rd8_def rd16_def rd32_def f b12 b13 h pseudo_noted[OF wp] n(1) bit_flag_bits
          bit_flag_bits(1)[unfolded One_nat_def] holds_frame_def Let_def del: add_2_eq_Suc add_2_eq_Suc')
  qed
qed

lemma icmp_wire:
  assumes wp: "wire_pair cs rs cr m"
    and send: "send_raw_icmp cs rs m (nt, w) = Some (0, nt', w')"
    and proto: "protocol (send_info rs) = (if raw_ip_version cs = AF_INET then IPPROTO_ICMP else IPPROTO_ICMPV6)"
    and ends: "program_mode cs = client_mode \<longleftrightarrow> program_mode cr \<noteq> client_mode"
  obtains pk dest where "sys_log w' = sys_log w @ [SysSendto (raw_send_fd cs) pk dest]"
    "\<forall>rr rn. holds_frame cr rn pk \<and> src_port (send_info rr) = src_port (send_info rs) \<longrightarrow>
       (\<exists>off rr' rn'. recv_raw_icmp cr rr rn = Some (0, Some (off, int (length m)), rr', rn')
       \<and> buf_read (g_packet_buf rn') off (length m) = m \<and> g_packet_buf_cnt rn' = (if peek rr then 1 else 0)
       \<and> my_icmp_seq (recv_info rr') = my_icmp_seq (send_info rs))"
proof -
  let ?si = "send_info rs"
  have lm: "length m \<le> 60000" using wp by (simp add: wire_pair_def)
  have v: "raw_ip_version cs = AF_INET \<or> raw_ip_version cs = AF_INET6" "AF_INET6 \<noteq> AF_INET"
    "raw_ip_version cr = raw_ip_version cs"
    using wp by (auto simp: wire_pair_def AF_INET_def AF_INET6_def)
  define type where "type = icmp_send_type cs"
  define plen where "plen = (word_of_nat (length (icmp_header type [0, 0] ?si @ m)) :: u16)"
  define summed where "summed = (\<lambda>seg. if raw_ip_version cs = AF_INET then Some (csum seg)
     else csum_with_header (pseudo_header cs ?si IPPROTO_ICMPV6 plen) seg)"
  have st: "send_raw_icmp cs rs m (nt, w) = Option.bind (summed (icmp_header type [0, 0] ?si @ m))
     (\<lambda>check. Option.bind (send_raw_ip cs rs (icmp_header type (le16 check) ?si @ m) (nt, w))
       (\<lambda>(rc, st). Some (if rc \<noteq> 0 then -1 else 0, st)))"
    using v by (simp add: send_raw_icmp_def Let_def summed_def type_def plen_def)
  obtain check where ck: "summed (icmp_header type [0, 0] ?si @ m) = Some check"
    and out: "send_raw_ip cs rs (icmp_header type (le16 check) ?si @ m) (nt, w) = Some (0, nt', w')"
    using send unfolding st by (auto elim!: bind_eq_SomeE split: if_splits prod.splits)
  define seg where "seg = icmp_header type (le16 check) ?si @ m"
  have ls: "length seg = length m + 8" by (simp add: seg_def icmp_header_def)
  have sum: "summed seg = Some 0"
  proof (cases "raw_ip_version cs = AF_INET")
    case True
    have "csum ([type, 0] @ le16 check @ (be16 (src_port ?si) @ be16 (my_icmp_seq ?si) @ m)) = 0"
      using ck True csum_insert_zero[of "[type, 0]" "be16 (src_port ?si) @ be16 (my_icmp_seq ?si) @ m"] lm
      by (simp add: summed_def icmp_header_def)
    then show ?thesis using True by (simp add: summed_def seg_def icmp_header_def)
  next
    case False
    then show ?thesis
      using csum_with_header_insert[of "pseudo_header cs ?si IPPROTO_ICMPV6 plen" "[type, 0]"
          "be16 (src_port ?si) @ be16 (my_icmp_seq ?si) @ m" check] even_pseudo[OF wp, of IPPROTO_ICMPV6 plen] ck lm
      by (simp add: summed_def seg_def icmp_header_def)
  qed
  obtain pk dest where pk: "sys_log w' = sys_log w @ [SysSendto (raw_send_fd cs) pk dest]"
    and rcv: "\<forall>rr rn. holds_frame cr rn pk \<longrightarrow> (\<exists>p. recv_raw_ip cr rr rn =
       Some (0, Some (p, int (length seg)), rr \<lparr> recv_info := ip_noted cr ?si rn (recv_info rr) \<rparr>,
         if peek rr then rn else rn \<lparr> g_packet_buf_cnt := 0 \<rparr>) \<and> buf_read (g_packet_buf rn) p (length seg) = seg)"
    using wire_segment[OF wp out] ls by (auto simp: seg_def)
  show thesis
  proof (rule that[OF pk], intro allI impI, elim conjE)
    fix rr :: raw_info and rn :: net
    assume fr: "holds_frame cr rn pk" and id: "src_port (send_info rr) = src_port ?si"
    obtain p where r: "recv_raw_ip cr rr rn =
       Some (0, Some (p, int (length seg)), rr \<lparr> recv_info := ip_noted cr ?si rn (recv_info rr) \<rparr>,
         if peek rr then rn else rn \<lparr> g_packet_buf_cnt := 0 \<rparr>)" and b: "buf_read (g_packet_buf rn) p (length seg) = seg"
      using rcv fr by blast
    let ?buf = "g_packet_buf rn"
    have f: "buf_read ?buf (p + 4) 2 = be16 (src_port ?si)" "buf_read ?buf (p + 6) 2 = be16 (my_icmp_seq ?si)"
      "buf_read ?buf (p + 8) (length m) = m" "?buf p = type" "?buf (p + 1) = 0"
      using segment_reads(1)[OF b, of 4 2] segment_reads(1)[OF b, of 6 2] segment_reads(1)[OF b, of 8 "length m"]
        segment_reads(2)[OF b, of 0] segment_reads(2)[OF b, of 1] ls
      by (simp_all add: seg_def icmp_header_def)
    have ty: "type = (if raw_ip_version cs = AF_INET then (if program_mode cr = client_mode then 0 else 8)
                         else (if program_mode cr = client_mode then 129 else 128))"
      using ends by (simp add: type_def icmp_send_type_def)
    define n where "n = length seg"
    have n: "length seg = n" "\<not> n < 8" "int n - 8 = int (length m)" "word_of_nat n = plen"
      using ls by (simp_all add: n_def plen_def icmp_header_def)
    have va: "assert_c (raw_ip_version cs = AF_INET \<or> raw_ip_version cs = AF_INET6) = Some ()" using v by simp
    have pn: "pseudo_header cr (ip_noted cr ?si rn (recv_info rr) \<lparr> src_port := x, dst_port := y, my_icmp_seq := z \<rparr>) pr l
        = pseudo_header cs ?si pr l" for x y z pr l
      unfolding pseudo_noted[OF wp, of rn "recv_info rr" pr l, symmetric] by (simp add: pseudo_header_def)
    show "\<exists>off rr' rn'. recv_raw_icmp cr rr rn = Some (0, Some (off, int (length m)), rr', rn')
       \<and> buf_read (g_packet_buf rn') off (length m) = m \<and> g_packet_buf_cnt rn' = (if peek rr then 1 else 0)
       \<and> my_icmp_seq (recv_info rr') = my_icmp_seq ?si"
      using proto v n(2-) va b[unfolded n(1)] fr f(3) id sum
      by (cases "raw_ip_version cs = AF_INET")
        (simp_all add: recv_raw_icmp_def r rd8_def rd16_def f f(5)[unfolded One_nat_def add_Suc_right add_0_right]
          ty n(1) pn summed_def holds_frame_def Let_def)
  qed
qed

section \<open>Properties\<close>

text \<open>The configurations of the two ends of a connection agree.\<close>

definition ends_agree :: "net_conf \<Rightarrow> raw_info \<Rightarrow> net_conf \<Rightarrow> bool" where
  "ends_agree cs rs cr \<longleftrightarrow> raw_mode cr = raw_mode cs \<and> raw_mode cs \<noteq> mode_end \<and> random_drop cs = 0 \<and>
     word_of_int (filter_port cr) = dst_port (send_info rs) \<and>
     (program_mode cs = client_mode \<longleftrightarrow> program_mode cr \<noteq> client_mode) \<and>
     protocol (send_info rs) = (case raw_mode cs of mode_faketcp \<Rightarrow> IPPROTO_TCP | mode_udp \<Rightarrow> IPPROTO_UDP
        | _ \<Rightarrow> if raw_ip_version cs = AF_INET then IPPROTO_ICMP else IPPROTO_ICMPV6)"

lemma raw0_wire:
  assumes wp: "wire_pair cs rs cr m" and ea: "ends_agree cs rs cr"
    and send: "send_raw0 cs rs m (nt, w) = Some (0, rs', nt', w')"
  shows "\<exists>pk dest. sys_log w' = sys_log w @ [SysSendto (raw_send_fd cs) pk dest] \<and>
    (\<forall>rr rn. holds_frame cr rn pk \<and> src_port (send_info rr) = src_port (send_info rs) \<longrightarrow>
      (\<exists>off rr' rn'. recv_raw0 cr rr rn = Some (0, Some (off, int (length m)), rr', rn')
         \<and> buf_read (g_packet_buf rn') off (length m) = m \<and>
         (raw_mode cs = mode_faketcp \<longrightarrow>
            seq (recv_info rr') = seq (send_info rs) \<and> ack_seq (recv_info rr') = ack_seq (send_info rs) \<and>
            syn (recv_info rr') = syn (send_info rs) \<and> ack (recv_info rr') = ack (send_info rs))))"
proof (cases "raw_mode cs")
  case mode_faketcp
  then have s: "send_raw_tcp cs rs m (nt, w) = Some (0, rs', nt', w')"
    and p: "protocol (send_info rs) = IPPROTO_TCP" "word_of_int (filter_port cr) = dst_port (send_info rs)"
    using send ea by (auto simp: send_raw0_def ends_agree_def)
  have "recv_raw0 cr rr rn = recv_raw_tcp cr rr rn" for rr rn
    using mode_faketcp ea by (simp add: recv_raw0_def ends_agree_def)
  then have eq: "recv_raw0 cr rr rn = recv_raw_tcp cr rr rn" for rr rn .
  obtain pk dest where pk: "sys_log w' = sys_log w @ [SysSendto (raw_send_fd cs) pk dest]"
    and rcv: "\<And>rr rn. holds_frame cr rn pk \<Longrightarrow> src_port (send_info rr) = src_port (send_info rs) \<Longrightarrow>
      \<exists>off rr' rn'. recv_raw_tcp cr rr rn = Some (0, Some (off, int (length m)), rr', rn')
         \<and> buf_read (g_packet_buf rn') off (length m) = m \<and>
            seq (recv_info rr') = seq (send_info rs) \<and> ack_seq (recv_info rr') = ack_seq (send_info rs) \<and>
            syn (recv_info rr') = syn (send_info rs) \<and> ack (recv_info rr') = ack (send_info rs)"
    by (rule tcp_wire[OF wp s p]) blast
  show ?thesis using pk rcv eq by fastforce
next
  case mode_udp
  then have s: "send_raw_udp cs rs m (nt, w) = Some (0, nt', w')"
    and p: "protocol (send_info rs) = IPPROTO_UDP" "word_of_int (filter_port cr) = dst_port (send_info rs)"
    using send ea by (auto simp: send_raw0_def ends_agree_def)
  have "recv_raw0 cr rr rn = recv_raw_udp cr rr rn" for rr rn
    using mode_udp ea by (simp add: recv_raw0_def ends_agree_def)
  then have eq: "recv_raw0 cr rr rn = recv_raw_udp cr rr rn" for rr rn .
  obtain pk dest where pk: "sys_log w' = sys_log w @ [SysSendto (raw_send_fd cs) pk dest]"
    and rcv: "\<And>rr rn. holds_frame cr rn pk \<Longrightarrow> src_port (send_info rr) = src_port (send_info rs) \<Longrightarrow>
      \<exists>off rr' rn'. recv_raw_udp cr rr rn = Some (0, Some (off, int (length m)), rr', rn')
         \<and> buf_read (g_packet_buf rn') off (length m) = m"
    by (rule udp_wire[OF wp s p]) blast
  show ?thesis using pk rcv eq mode_udp by fastforce
next
  case mode_icmp
  then have s: "send_raw_icmp cs rs m (nt, w) = Some (0, nt', w')"
    and p: "protocol (send_info rs) = (if raw_ip_version cs = AF_INET then IPPROTO_ICMP else IPPROTO_ICMPV6)"
      "program_mode cs = client_mode \<longleftrightarrow> program_mode cr \<noteq> client_mode"
    using send ea by (auto simp: send_raw0_def ends_agree_def)
  have "recv_raw0 cr rr rn = recv_raw_icmp cr rr rn" for rr rn
    using mode_icmp ea by (simp add: recv_raw0_def ends_agree_def)
  then have eq: "recv_raw0 cr rr rn = recv_raw_icmp cr rr rn" for rr rn .
  obtain pk dest where pk: "sys_log w' = sys_log w @ [SysSendto (raw_send_fd cs) pk dest]"
    and rcv: "\<And>rr rn. holds_frame cr rn pk \<Longrightarrow> src_port (send_info rr) = src_port (send_info rs) \<Longrightarrow>
      \<exists>off rr' rn'. recv_raw_icmp cr rr rn = Some (0, Some (off, int (length m)), rr', rn')
         \<and> buf_read (g_packet_buf rn') off (length m) = m"
    by (rule icmp_wire[OF wp s p]) blast
  show ?thesis using pk rcv eq mode_icmp by fastforce
qed (use ea in \<open>simp add: ends_agree_def\<close>)

text \<open>C5. The wire format round trip, in the three raw modes and for both IP
  versions: a successful \<open>send_raw0\<close> hands exactly one packet to the raw socket,
  and when that packet waits in the buffer of an end with an agreeing
  configuration (behind any link header, with any old bytes around it), every
  checksum and length check of \<open>recv_raw0\<close> passes and the pointer and length it
  returns delimit exactly the payload that was sent; with the simulated TCP the receiver
  notes the sender's sequence numbers and flags.\<close>

theorem send_recv_raw0:
  assumes wp: "wire_pair cs rs cr m" and ea: "ends_agree cs rs cr"
    and send: "send_raw0 cs rs m (nt, w) = Some (0, rs', nt', w')"
  shows "\<exists>pk dest. sys_log w' = sys_log w @ [SysSendto (raw_send_fd cs) pk dest] \<and>
    (\<forall>rr rn. holds_frame cr rn pk \<and> src_port (send_info rr) = src_port (send_info rs) \<longrightarrow>
      (\<exists>off rr' rn'. recv_raw0 cr rr rn = Some (0, Some (off, int (length m)), rr', rn')
         \<and> buf_read (g_packet_buf rn') off (length m) = m \<and>
         (raw_mode cs = mode_faketcp \<longrightarrow>
            seq (recv_info rr') = seq (send_info rs) \<and> ack_seq (recv_info rr') = ack_seq (send_info rs) \<and>
            syn (recv_info rr') = syn (send_info rs) \<and> ack (recv_info rr') = ack (send_info rs))))"
  by (rule raw0_wire[OF assms])

definition example_info :: packet_info where
  "example_info = \<lparr> protocol = 17, new_src_ip = replicate 16 1, new_dst_ip = replicate 16 2, src_port = 1000,
     dst_port = 2000, syn = False, ack = True, psh = False, rst = False, seq = 5, ack_seq = 6, ack_seq_counter = 0,
     ts = 0, ts_ack = 0, my_icmp_seq = 0, has_ts = False, data_len = 0, addr_ll = [] \<rparr>"

definition example_raw :: raw_info where
  "example_raw = \<lparr> send_info = example_info, recv_info = example_info, peek = False, reserved_send_seq = 0,
     rst_received = 0, disabled = False \<rparr>"

definition example_net_conf :: net_conf where
  "example_net_conf = \<lparr> raw_mode = mode_udp, raw_ip_version = 2, program_mode = client_mode, lower_level = 1,
     ttl_value = 64, filter_port = 1000, bind_addr_used = 0, bind_addr = [], link_level_header_len = 0, g_fix_gro = 0,
     random_drop = 0, seq_mode = 3, max_rst_allowed = -1, raw_send_fd = 4 \<rparr>"

definition example_net :: net where
  "example_net = \<lparr> g_packet_buf = (\<lambda>_. 0), g_packet_buf_len = 0, g_packet_buf_cnt = 0, g_sockaddr_ll = [],
     g_ip_id_counter = 0 \<rparr>"

lemma example_send:
  assumes "length m \<le> 2000"
  shows "\<exists>nt' w'. send_raw0 example_net_conf example_raw m (example_net, example_world \<lparr> rand_i := i \<rparr>)
     = Some (0, example_raw, nt', w')"
proof -
  have e: "even (length (pseudo_header example_net_conf (send_info example_raw) p l))" for p l
    by (simp add: pseudo_header_def example_net_conf_def AF_INET_def example_raw_def example_info_def)
  have c: "raw_mode example_net_conf = mode_udp" "random_drop example_net_conf = 0" "\<not> disabled example_raw"
    "raw_ip_version example_net_conf = AF_INET" "lower_level example_net_conf = 1"
    by (simp_all add: example_net_conf_def example_raw_def AF_INET_def)
  show ?thesis
    using assms
    by (simp add: send_raw0_def c send_raw_udp_def csum_with_header_append[OF e] udp_header_def Let_def guard_simps)
      (simp add: send_raw_ip_def send_raw_packet_def c Let_def syscall_def example_world_def)
qed

lemma send_recv_raw0_witness:
  "\<exists>nt' w' pk dest.
    send_raw0 example_net_conf example_raw [1, 2, 3] (example_net, example_world) = Some (0, example_raw, nt', w') \<and>
    sys_log w' = sys_log example_world @ [SysSendto (raw_send_fd example_net_conf) pk dest] \<and>
    (\<forall>rr rn. holds_frame (example_net_conf \<lparr> filter_port := 2000, program_mode := server_mode \<rparr>) rn pk
        \<and> src_port (send_info rr) = src_port (send_info example_raw) \<longrightarrow>
      (\<exists>off rr' rn'. recv_raw0 (example_net_conf \<lparr> filter_port := 2000, program_mode := server_mode \<rparr>) rr rn
           = Some (0, Some (off, int (length [1, 2, 3 :: u8])), rr', rn')
         \<and> buf_read (g_packet_buf rn') off (length [1, 2, 3 :: u8]) = [1, 2, 3]))"
proof -
  let ?cr = "example_net_conf \<lparr> filter_port := 2000, program_mode := server_mode \<rparr>"
  obtain nt' w' where
    s: "send_raw0 example_net_conf example_raw [1, 2, 3] (example_net, example_world) = Some (0, example_raw, nt', w')"
    using example_send[of "[1, 2, 3]" 0] by (auto simp: example_world_def)
  have wp: "wire_pair example_net_conf example_raw ?cr [1, 2, 3]"
    by (simp add: wire_pair_def example_net_conf_def example_raw_def example_info_def AF_INET_def)
  have ea: "ends_agree example_net_conf example_raw ?cr"
    by (simp add: ends_agree_def example_net_conf_def example_raw_def example_info_def AF_INET_def IPPROTO_UDP_def)
  show ?thesis using send_recv_raw0[OF wp ea s] s by fastforce
qed

lemma recv_raw_ip_bounds:
  assumes "recv_raw_ip cf ri nt = Some (0, Some (off, len), ri', nt')"
  shows "0 \<le> len \<and> int off + len \<le> g_packet_buf_len nt \<and> g_packet_buf nt' = g_packet_buf nt"
proof -
  obtain rc out n1 where p: "recv_raw_packet cf (peek ri) nt = Some (rc, out, n1)"
    using assms by (cases "recv_raw_packet cf (peek ri) nt") (auto simp: recv_raw_ip_def)
  have n1: "g_packet_buf n1 = g_packet_buf nt" "g_packet_buf_len n1 = g_packet_buf_len nt"
    "out = Some (b, n) \<Longrightarrow> int b + n = g_packet_buf_len nt" for b n
    using p by (auto simp: recv_raw_packet_def Let_def guard_simps split: if_splits)
  obtain b n where out: "out = Some (b, n)"
    using assms p by (cases out) (auto simp: recv_raw_ip_def)
  show ?thesis
    using assms n1(1,2) n1(3)[OF out]
    by (auto simp: recv_raw_ip_def p out Let_def guard_simps split: if_splits elim!: bind_eq_SomeE)
qed

lemma raw0_bounds:
  assumes "recv_raw0 cf ri nt = Some (0, Some (off, len), ri', nt')"
  shows "0 \<le> len \<and> int off + len \<le> g_packet_buf_len nt \<and> g_packet_buf nt' = g_packet_buf nt"
proof (cases "recv_raw_ip cf ri nt")
  case None
  then show ?thesis using assms
    by (simp add: recv_raw0_def recv_raw_tcp_def recv_raw_udp_def recv_raw_icmp_def split: raw_mode_t.splits)
next
  case (Some r)
  obtain rc out ri1 nt1 where r: "r = (rc, out, ri1, nt1)" by (cases r)
  obtain p n where out: "out = Some (p, n)" and rc: "rc = 0"
    using assms unfolding recv_raw0_def recv_raw_tcp_def recv_raw_udp_def recv_raw_icmp_def Some r
    by (cases out) (auto split: raw_mode_t.splits if_splits)
  note ip = recv_raw_ip_bounds[OF Some[unfolded r out rc]]
  show ?thesis
  proof (cases "raw_mode cf")
    case mode_faketcp
    then show ?thesis using assms ip
      by (auto simp: recv_raw0_def recv_raw_tcp_def Some r out Let_def guard_simps
          split: if_splits prod.splits elim!: bind_eq_SomeE)
  next
    case mode_udp
    then show ?thesis using assms ip
      by (auto simp: recv_raw0_def recv_raw_udp_def Some r out Let_def guard_simps
          split: if_splits elim!: bind_eq_SomeE)
  next
    case mode_icmp
    then show ?thesis using assms ip
      by (auto simp: recv_raw0_def recv_raw_icmp_def Some r out Let_def guard_simps
          split: if_splits elim!: bind_eq_SomeE)
  qed (use assms in \<open>simp add: recv_raw0_def\<close>)
qed

text \<open>C7. A payload that \<open>recv_raw0\<close> delivers lies inside the packet that was
  received: its length is not negative and its end is not past the bytes
  \<open>recvfrom\<close> stored, whatever the IP, UDP, ICMP and TCP length fields of a
  hostile packet say; and the packet buffer is not changed.\<close>

theorem recv_raw0_in_bounds:
  assumes "recv_raw0 cf ri nt = Some (0, Some (off, len), ri', nt')"
  shows "0 \<le> len \<and> int off + len \<le> g_packet_buf_len nt \<and> g_packet_buf nt' = g_packet_buf nt"
  by (rule raw0_bounds[OF assms])

definition example_frame :: net where
  "example_frame = example_net \<lparr> g_packet_buf := buf_write (\<lambda>_. 0) 0
     ([0x45, 0, 0, 41, 0, 1, 0x40, 0, 64, 6, 0, 0] @ [10, 0, 0, 1] @ [10, 0, 0, 2]
      @ [0x03, 0xe8, 0x07, 0xd0] @ [0, 0, 0, 5] @ [0, 0, 0, 6] @ [0x50, 0x18, 0x20, 0, 0, 0, 0, 0] @ [7]),
     g_packet_buf_len := 41, g_packet_buf_cnt := 1 \<rparr>"

lemma example_frame_reads:
  "rd8 example_frame 0 = 0x45" "rd8 example_frame 9 = 6" "rd8 example_frame 32 = 0x50" "rd16 example_frame 2 = 41"
  "rd16 example_frame 22 = 2000" "g_packet_buf_len example_frame = 41" "g_packet_buf_cnt example_frame = 1"
  by (simp_all add: rd8_def rd16_def example_frame_def buf_write_def buf_read_def of_be16_def)

lemma recv_raw0_in_bounds_witness:
  "\<exists>ri' nt'. recv_raw0 (example_net_conf \<lparr> raw_mode := mode_faketcp, filter_port := 2000 \<rparr>)
       (example_raw \<lparr> peek := True \<rparr>) example_frame = Some (0, Some (40, 1), ri', nt') \<and>
     0 \<le> (1::int) \<and> int 40 + 1 \<le> g_packet_buf_len example_frame \<and> g_packet_buf nt' = g_packet_buf example_frame"
proof -
  let ?cf = "example_net_conf \<lparr> raw_mode := mode_faketcp, filter_port := 2000 \<rparr>"
  let ?ri = "example_raw \<lparr> peek := True \<rparr>"
  have c: "raw_ip_version ?cf = AF_INET" "link_level_header_len ?cf = 0" "lower_level ?cf = 1" "bind_addr_used ?cf = 0"
    "peek ?ri" "filter_port ?cf = 2000" "raw_mode ?cf = mode_faketcp" "max_rst_allowed ?cf = -1"
    by (simp_all add: example_net_conf_def example_raw_def AF_INET_def)
  have "recv_raw_packet ?cf True example_frame = Some (0, Some (0, 41), example_frame)"
    by (simp add: recv_raw_packet_def c example_frame_reads Let_def)
  then have "\<exists>ri. recv_raw_ip ?cf ?ri example_frame = Some (0, Some (20, 21), ri, example_frame) \<and>
       protocol (recv_info ri) = IPPROTO_TCP \<and> (\<forall>p l. even (length (pseudo_header ?cf (recv_info ri) p l)))"
    by (simp add: recv_raw_ip_def c example_frame_reads hi4_lo4 Let_def pseudo_header_def IPPROTO_TCP_def
        del: add_2_eq_Suc add_2_eq_Suc')
  then obtain ri where ip: "recv_raw_ip ?cf ?ri example_frame = Some (0, Some (20, 21), ri, example_frame)"
    and pr: "protocol (recv_info ri) = IPPROTO_TCP" and ev: "\<And>p l. even (length (pseudo_header ?cf (recv_info ri) p l))"
    by blast
  obtain rc info where po: "parse_tcp_option (g_packet_buf example_frame) 40 40 (recv_info ri) = (rc, info)" by fastforce
  have "\<exists>ri'. recv_raw0 ?cf ?ri example_frame = Some (0, Some (40, 1), ri', example_frame)"
    by (simp add: recv_raw0_def recv_raw_tcp_def ip pr c example_frame_reads hi4_def
        csum_with_header_append[OF ev] po Let_def)
  then obtain ri' where r: "recv_raw0 ?cf ?ri example_frame = Some (0, Some (40, 1), ri', example_frame)" by blast
  show ?thesis using recv_raw0_in_bounds[OF r] r by blast
qed

lemma tcp_option_loop_local:
  assumes "\<And>i. ptr \<le> i \<Longrightarrow> i < option_end \<Longrightarrow> b1 i = b2 i"
  shows "tcp_option_loop b1 ptr option_end info = tcp_option_loop b2 ptr option_end info"
  using assms
proof (induction b1 ptr option_end info rule: tcp_option_loop.induct)
  case (1 b1 ptr e info)
  show ?case
  proof (cases "ptr < e")
    case False
    then show ?thesis by (simp add: tcp_option_loop.simps[of b1 ptr e info] tcp_option_loop.simps[of b2 ptr e info])
  next
    case True
    have eq: "\<And>i. ptr \<le> i \<Longrightarrow> i < e \<Longrightarrow> b1 i = b2 i" using 1 by blast
    have r: "buf_read b1 j 4 = buf_read b2 j 4" if "ptr \<le> j" "j + 4 \<le> e" for j
      using eq that by (auto simp: buf_read_def)
    show ?thesis
      using True eq[of ptr] eq[of "ptr + 1"] r[of "ptr + 2"] r[of "ptr + 6"] 1
      by (cases "b2 (ptr + 1) = 10")
        (simp_all add: tcp_option_loop.simps[of b1 ptr e info] tcp_option_loop.simps[of b2 ptr e info])
  qed
qed

text \<open>C11. The option parser reads nothing outside \<open>[option_begin, option_end)\<close>: two
  buffers that agree there give the same result, whatever lengths the options
  claim; and it changes only the timestamp fields.\<close>

theorem parse_tcp_option_in_bounds:
  assumes "\<And>i. option_begin \<le> i \<Longrightarrow> i < option_end \<Longrightarrow> b1 i = b2 i"
  shows "parse_tcp_option b1 option_begin option_end info = parse_tcp_option b2 option_begin option_end info"
  unfolding parse_tcp_option_def by (rule tcp_option_loop_local) (use assms in blast)

lemma parse_tcp_option_in_bounds_witness:
  "parse_tcp_option (\<lambda>i. if i = 0 then 8 else if i = 1 then 10 else 0) 0 1 example_info
     = parse_tcp_option (\<lambda>i. if i = 0 then 8 else 255) 0 1 example_info
   \<and> fst (parse_tcp_option (\<lambda>i. if i = 0 then 8 else 255) 0 1 example_info) = -1"
  using parse_tcp_option_in_bounds[of 0 1 "\<lambda>i. if i = 0 then 8 else if i = 1 then 10 else 0"
      "\<lambda>i. if i = 0 then 8 else 255" example_info]
  by (simp add: parse_tcp_option_def tcp_option_loop.simps)

text \<open>Packets with data sent one after the other, no packet being received in between:
  the sequence number each is sent with.\<close>

fun data_sends :: "net_conf \<Rightarrow> int list \<Rightarrow> raw_info \<times> world \<Rightarrow> (u32 list \<times> raw_info \<times> world) option" where
  "data_sends cf [] st = Some ([], st)"
| "data_sends cf (n # ns) (ri, w) =
     do {
       let ri = ri \<lparr> send_info := (send_info ri) \<lparr> syn := False, ack := True, data_len := n \<rparr> \<rparr>;
       (_, ri', w) \<leftarrow> after_send_raw0 cf ri w;
       (qs, st) \<leftarrow> data_sends cf ns (ri', w);
       Some (seq (send_info ri) # qs, st)
     }"

text \<open>The window field \<open>send_raw_tcp\<close> writes for the random number \<open>r\<close>, scaled by the
  option \<open>wscale\<close> of 5, which \<open>seq_mode\<close> 4 does not count on.\<close>

definition advertised_window :: "net_conf \<Rightarrow> u32 \<Rightarrow> nat" where
  "advertised_window cf r = unat (ucast (40960 + r mod 512) :: u16) * (if seq_mode cf = 3 then 32 else 1)"

lemma advertised_at_least: "(if seq_mode cf = 3 then 1310720 else 40960) \<le> advertised_window cf r"
proof -
  have m: "unat (r mod 512) < 512" by (simp add: unat_mod)
  then have "unat (40960 + r mod 512) = 40960 + unat (r mod 512)" by (simp add: unat_word_ariths(1))
  then have "unat (ucast (40960 + r mod 512) :: u16) = 40960 + unat (r mod 512)"
    using m by (simp add: unsigned_ucast_eq take_bit_nat_eq_self)
  then show ?thesis by (simp add: advertised_window_def)
qed

lemma not_larger: "\<not> larger_than_u32 a b \<longleftrightarrow> a = b \<or> 2 ^ 31 \<le> unat (a - b)"
proof -
  have "larger_than_u32 (b + (a - b)) b \<longleftrightarrow> 0 < unat (a - b) \<and> unat (a - b) < 2 ^ 31" by (rule larger_than_u32_iff)
  then show ?thesis by (auto simp: unat_gt_0)
qed

text \<open>Not behind the acknowledgement and not past the right edge, as distances.\<close>

lemma in_window:
  assumes "\<not> larger_than_u32 a q" "\<not> larger_than_u32 (q + 1800) (a + word_of_nat W)" "1800 < W" "W < 2 ^ 30"
  shows "unat (q - a) + 1800 \<le> W"
proof (cases "q = a")
  case False
  define d where "d = q - a"
  have q: "q = a + d" by (simp add: d_def)
  have "a - q = - d" by (simp add: d_def)
  then have m: "2 ^ 31 \<le> unat (- d)" using assms(1) False by (simp add: not_larger)
  have d0: "d \<noteq> 0" using False by (simp add: d_def)
  have "0 \<le> uint d" "uint d \<noteq> 0" "uint d < 2 ^ 32"
    using d0 unsigned_less[of d, where ?'a = int] by (simp_all add: uint_0_iff)
  then have "uint d mod 2 ^ 32 = uint d" "uint d \<noteq> 0" by simp_all
  then have "uint (- d) = 2 ^ 32 - uint d" by (simp add: uint_word_ariths(4) zmod_zminus1_eq_if)
  moreover have "(2 :: int) ^ 31 \<le> int (unat (- d))" using m by (metis of_nat_le_iff of_nat_numeral of_nat_power)
  ultimately have "int (unat d) \<le> 2 ^ 31" by (simp add: uint_nat[symmetric])
  then have d: "unat d \<le> 2 ^ 31" by (metis of_nat_le_iff of_nat_numeral of_nat_power)
  have e: "q + 1800 - (a + word_of_nat W) = d + 1800 - word_of_nat W" by (simp add: q)
  have s: "unat (d + 1800) = unat d + 1800" using d by (simp add: unat_word_ariths(1))
  have w: "unat (word_of_nat W :: u32) = W" using assms(4) by (simp add: unat_of_nat take_bit_nat_eq_self)
  show ?thesis
  proof (rule ccontr)
    assume "\<not> unat (q - a) + 1800 \<le> W"
    then have g: "W < unat d + 1800" by (simp add: d_def)
    then have "unat (d + 1800 - word_of_nat W) = unat d + 1800 - W"
      using s w by (simp add: unat_diff word_le_nat_alt)
    then have "0 < unat (q + 1800 - (a + word_of_nat W))" "unat (q + 1800 - (a + word_of_nat W)) < 2 ^ 31"
      unfolding e using g d assms(3) by linarith+
    then show False using assms(2) by (auto simp: not_larger)
  qed
qed (use assms(3) in simp)

lemma after_send_window:
  assumes "raw_mode cf = mode_faketcp" "seq_mode cf = 3 \<or> seq_mode cf = 4"
    and "\<not> syn (send_info ri)" "ack (send_info ri)" "data_len (send_info ri) \<noteq> 0"
  obtains ri' where "after_send_raw0 cf ri w = Some (0, ri', w)" "ack_seq (recv_info ri') = ack_seq (recv_info ri)"
    "\<not> larger_than_u32 (seq (send_info ri') + 1800) (ack_seq (recv_info ri) + (if seq_mode cf = 3 then 1310720 else 40960))"
    "\<not> larger_than_u32 (ack_seq (recv_info ri)) (seq (send_info ri'))"
proof -
  have at_ack: "\<not> larger_than_u32 (a + 1800) (a + (if seq_mode cf = 3 then 1310720 else 40960))"
    "\<not> larger_than_u32 a a" for a
    by (simp_all add: larger_than_u32_def)
  have win: "(if seq_mode cf = 3 then push_bit 5 receive_window_lower_bound else receive_window_lower_bound)
      = (if seq_mode cf = 3 then 1310720 else 40960)" "word_of_int max_data_len = (1800 :: u32)"
    by (simp_all add: receive_window_lower_bound_def max_data_len_def)
  have "\<exists>ri'. after_send_raw0 cf ri w = Some (0, ri', w)"
    using assms by (elim disjE) (simp_all add: after_send_raw0_def Let_def case_prod_beta)
  then obtain ri' where r: "after_send_raw0 cf ri w = Some (0, ri', w)" by blast
  let ?W = "(if seq_mode cf = 3 then 1310720 else 40960) :: u32"
  have "ack_seq (recv_info ri') = ack_seq (recv_info ri) \<and>
      \<not> larger_than_u32 (seq (send_info ri') + 1800) (ack_seq (recv_info ri') + ?W) \<and>
      \<not> larger_than_u32 (ack_seq (recv_info ri')) (seq (send_info ri'))"
    using assms r at_ack by (auto simp: after_send_raw0_def win Let_def split: if_splits)
  with r show thesis by (metis that)
qed

lemma data_sent_in_window:
  assumes "raw_mode cf = mode_faketcp" "seq_mode cf = 3 \<or> seq_mode cf = 4"
    and "\<not> syn (send_info ri)" "ack (send_info ri)" "data_len (send_info ri) \<noteq> 0"
  obtains ri' where "after_send_raw0 cf ri w = Some (0, ri', w)" "ack_seq (recv_info ri') = ack_seq (recv_info ri)"
    "unat (seq (send_info ri') - ack_seq (recv_info ri)) + 1800 \<le> (if seq_mode cf = 3 then 1310720 else 40960)"
proof (rule after_send_window[OF assms, of w])
  fix ri' assume r: "after_send_raw0 cf ri w = Some (0, ri', w)" "ack_seq (recv_info ri') = ack_seq (recv_info ri)"
    and e: "\<not> larger_than_u32 (seq (send_info ri') + 1800) (ack_seq (recv_info ri) + (if seq_mode cf = 3 then 1310720 else 40960))"
    and b: "\<not> larger_than_u32 (ack_seq (recv_info ri)) (seq (send_info ri'))"
  have "unat (seq (send_info ri') - ack_seq (recv_info ri)) + 1800 \<le> (if seq_mode cf = 3 then 1310720 else 40960)"
    using in_window[OF b, of 1310720] in_window[OF b, of 40960] e by (simp split: if_splits)
  with r show thesis by (rule that)
qed

lemma data_sends_in_window:
  assumes "raw_mode cf = mode_faketcp" "seq_mode cf = 3 \<or> seq_mode cf = 4" "\<forall>n \<in> set ns. n \<noteq> 0"
  shows "\<exists>qs ri'. data_sends cf ns (ri, w) = Some (qs, ri', w) \<and> length qs = length ns \<and>
    ack_seq (recv_info ri') = ack_seq (recv_info ri) \<and> (ns \<noteq> [] \<longrightarrow> hd qs = seq (send_info ri)) \<and>
    (\<forall>q \<in> set (tl qs). unat (q - ack_seq (recv_info ri)) + 1800 \<le> (if seq_mode cf = 3 then 1310720 else 40960))"
  using assms(3)
proof (induction ns arbitrary: ri)
  case (Cons n ns)
  let ?ri = "ri \<lparr> send_info := (send_info ri) \<lparr> syn := False, ack := True, data_len := n \<rparr> \<rparr>"
  let ?W = "(if seq_mode cf = 3 then 1310720 else 40960) :: nat"
  obtain ri1 where 1: "after_send_raw0 cf ?ri w = Some (0, ri1, w)" "ack_seq (recv_info ri1) = ack_seq (recv_info ri)"
    "unat (seq (send_info ri1) - ack_seq (recv_info ri)) + 1800 \<le> ?W"
    by (rule data_sent_in_window[OF assms(1,2), of ?ri w]) (use Cons.prems in auto)
  obtain qs ri' where 2: "data_sends cf ns (ri1, w) = Some (qs, ri', w)" "length qs = length ns"
    "ack_seq (recv_info ri') = ack_seq (recv_info ri)" "ns \<noteq> [] \<longrightarrow> hd qs = seq (send_info ri1)"
    "\<forall>q \<in> set (tl qs). unat (q - ack_seq (recv_info ri)) + 1800 \<le> ?W"
    using Cons.IH[of ri1] Cons.prems 1(2) by auto
  have "\<forall>q \<in> set qs. unat (q - ack_seq (recv_info ri)) + 1800 \<le> ?W"
    using 1(3) 2(2,4,5) by (cases qs) auto
  then show ?case using 1(1) 2(1-3) by (simp add: Let_def)
qed simp

text \<open>C12. With \<open>seq_mode\<close> 3 or 4 the simulated sequence number wraps back before it leaves
  the window of the other end: of any number of data packets sent while no new
  acknowledgement arrives, each after the first begins at or after the last
  acknowledgement, and ends, even with the largest payload, before the right edge of
  whatever window the other end may have advertised, also across the wrap-around of
  the 32 bit numbers. The first is sent with the number left by what happened
  before the acknowledgement.\<close>

theorem send_seq_in_window:
  assumes "raw_mode cf = mode_faketcp" "seq_mode cf = 3 \<or> seq_mode cf = 4" "\<forall>n \<in> set ns. 0 < n \<and> n \<le> 1800"
  shows "\<exists>qs ri'. data_sends cf ns (ri, w) = Some (qs, ri', w) \<and> length qs = length ns \<and>
    ack_seq (recv_info ri') = ack_seq (recv_info ri) \<and>
    (\<forall>i r. 0 < i \<and> i < length ns \<longrightarrow> unat (qs ! i - ack_seq (recv_info ri)) + nat (ns ! i) \<le> advertised_window cf r)"
proof -
  let ?W = "(if seq_mode cf = 3 then 1310720 else 40960) :: nat"
  obtain qs ri' where q: "data_sends cf ns (ri, w) = Some (qs, ri', w)" "length qs = length ns"
    "ack_seq (recv_info ri') = ack_seq (recv_info ri)"
    "\<forall>q \<in> set (tl qs). unat (q - ack_seq (recv_info ri)) + 1800 \<le> ?W"
    using data_sends_in_window[OF assms(1,2), of ns ri w] assms(3) by auto
  have "unat (qs ! i - ack_seq (recv_info ri)) + nat (ns ! i) \<le> advertised_window cf r" if i: "0 < i" "i < length ns" for i r
  proof -
    have "tl qs ! (i - 1) \<in> set (tl qs)" using i q(2) by (intro nth_mem) simp
    then have "qs ! i \<in> set (tl qs)" using i q(2) by (simp add: nth_tl)
    moreover have "ns ! i \<le> 1800" using assms(3) i by simp
    then have "nat (ns ! i) \<le> 1800" by simp
    ultimately show ?thesis using q(4) advertised_at_least[of cf r] by fastforce
  qed
  then show ?thesis using q(1-3) by blast
qed

lemma send_seq_in_window_witness:
  "\<exists>qs ri'. data_sends (example_net_conf \<lparr> raw_mode := mode_faketcp \<rparr>) [100, 1800, 7] (example_raw, example_world) =
       Some (qs, ri', example_world) \<and>
     (\<forall>r. unat (qs ! 2 - ack_seq (recv_info example_raw)) + 7 \<le> advertised_window (example_net_conf \<lparr> raw_mode := mode_faketcp \<rparr>) r)"
proof -
  let ?cf = "example_net_conf \<lparr> raw_mode := mode_faketcp \<rparr>"
  have "raw_mode ?cf = mode_faketcp" "seq_mode ?cf = 3 \<or> seq_mode ?cf = 4" by (simp_all add: example_net_conf_def)
  from send_seq_in_window[OF this, of "[100, 1800, 7]" example_raw example_world]
  obtain qs ri' where "data_sends ?cf [100, 1800, 7] (example_raw, example_world) = Some (qs, ri', example_world)"
    "\<forall>i r. 0 < i \<and> i < 3 \<longrightarrow> unat (qs ! i - ack_seq (recv_info example_raw)) + nat ([100, 1800, 7] ! i) \<le> advertised_window ?cf r"
    by auto
  from this(1) this(2)[rule_format, of 2] show ?thesis by auto
qed

end
