(* ===== verification/ConnInfo.thy ===== *)
theory ConnInfo
  imports Transport Encrypt AntiReplay ConvManager
begin

text \<open>
  The state of one raw connection (\<open>conn_info_t\<close>, connection.h) with its heap
  part \<open>blob_t\<close>: the conversations and the anti-replay window. On the client
  the data of a conversation is an address, on the server a socket handle, so
  the types are polymorphic in it, as the union of the code is two-way. Also
  the configuration record of the upper layers and the record of the globals
  of the channel.
\<close>

section \<open>Configuration and globals\<close>

text \<open>Options of the command line and descriptors opened before the event loop
  runs. \<open>hash_place\<close> stands for the traversal order of the connection hash map,
  which the language does not fix; \<open>conv_order\<close> for that of the conversation
  map.\<close>

record vpn_conf =
  net_cf :: net_conf
  crypt_cf :: crypt_conf
  lib :: crypto_lib
  hb_mode :: int
  hb_data :: bytes
  gro_xor :: bytes
  disable_anti_replay :: int
  const_id :: u32
  remote_addr :: address_t
  source_addr :: address_t
  local_addr :: address_t
  force_source_ip :: int
  force_source_port :: int
  source_port :: int
  use_tcp_dummy_socket :: int
  lower_level_manual :: int
  ifindex :: int
  dest_hw_addr :: bytes
  disable_bpf_filter :: int
  raw_recv_fd :: int
  force_socket_buf :: int
  socket_buf_size :: int
  epollfd :: int
  udp_fd :: int
  hash_place :: "address_t \<Rightarrow> (address_t \<times> nat) list \<Rightarrow> nat"
  conv_order :: "(u32 \<rightharpoonup> u64) \<Rightarrow> u64 list"

text \<open>The globals under the channel: the packet buffer, the key caches of the
  ciphers, the static buffers of the two parse functions and what fresh stack
  memory holds.\<close>

record chan =
  ch_net :: net
  ch_keys :: key_cache
  bare_buf :: buffer
  safer_buf :: buffer
  stack_mem :: buffer

section \<open>The connection\<close>

datatype conn_state =
    server_idle | server_handshake1 | server_ready
  | client_idle | client_tcp_handshake | client_handshake1 | client_handshake2 | client_ready
  | client_tcp_handshake_dummy

record 'd blob =
  conv_mgr :: "'d conv_manager"
  anti_rep :: anti_replay

record 'd conn_info =
  state :: conn_state
  raw_info :: raw_info
  last_state_time :: u64
  last_hb_sent_time :: u64
  last_hb_recv_time :: u64
  my_id :: u32
  oppsite_id :: u32
  timer_fd64 :: u64
  udp_fd64 :: u64
  oppsite_const_id :: u32
  blob :: "'d blob option"
  my_roller :: u8
  oppsite_roller :: u8
  last_oppsite_roller_time :: u64

definition conn_re_init :: "program_mode_t \<Rightarrow> 'd conn_info \<Rightarrow> 'd conn_info" where
  "conn_re_init mode ci =
     ci \<lparr> state := (if mode = server_mode then server_idle else client_idle),
          last_state_time := 0, oppsite_const_id := 0, timer_fd64 := 0,
          my_roller := 0, oppsite_roller := 0, last_oppsite_roller_time := 0 \<rparr>"

text \<open>\<open>raw_info_t\<close>: both packet records are constructed, then the members with
  initialisers are set; \<open>junk\<close> is what the memory held.\<close>

definition raw_info_init :: "net_conf \<Rightarrow> raw_info \<Rightarrow> world \<Rightarrow> (raw_info \<times> world) option" where
  "raw_info_init cf junk w =
     do {
       (si, w) \<leftarrow> packet_info_init cf (send_info junk) w;
       (ri, w) \<leftarrow> packet_info_init cf (recv_info junk) w;
       Some (junk \<lparr> send_info := si, recv_info := ri, peek := False, rst_received := 0,
                    disabled := False \<rparr>, w)
     }"

definition conn_info_new :: "net_conf \<Rightarrow> 'd conn_info \<Rightarrow> world \<Rightarrow> ('d conn_info \<times> world) option" where
  "conn_info_new cf junk w =
     do {
       (ri, w) \<leftarrow> raw_info_init cf (raw_info junk) w;
       Some (conn_re_init (program_mode cf) (junk \<lparr> raw_info := ri, blob := None \<rparr>), w)
     }"

text \<open>\<open>new blob_t\<close>; the callback the server stores in the conversation manager is
  the argument of the operations of ConvManager.\<close>

definition blob_new :: "'d blob \<Rightarrow> world \<Rightarrow> ('d blob \<times> world) option" where
  "blob_new junk w =
     do {
       (rnd, w) \<leftarrow> get_true_random_number_64 w;
       Some (\<lparr> conv_mgr = conv_manager_init (cv_last_clear_time (conv_mgr junk)),
               anti_rep = anti_replay_init (window (anti_rep junk)) rnd \<rparr>, w)
     }"

definition conn_prepare ::
  "program_mode_t \<Rightarrow> 'd blob \<Rightarrow> 'd conn_info \<Rightarrow> world \<Rightarrow> ('d conn_info \<times> world) option" where
  "conn_prepare mode junk ci w =
     do {
       assert_c (blob ci = None);
       (b, w) \<leftarrow> blob_new junk w;
       assert_c (mode = server_mode \<or> mode = client_mode);
       Some (ci \<lparr> blob := Some b \<rparr>, w)
     }"

definition conn_recover :: "'d conn_info \<Rightarrow> 'd conn_info \<Rightarrow> 'd conn_info option" where
  "conn_recover ci other =
     (case blob ci of
        None \<Rightarrow> None
      | Some b \<Rightarrow> Some (ci \<lparr>
          raw_info := raw_info other \<lparr> rst_received := 0, disabled := False \<rparr>,
          last_state_time := last_state_time other,
          last_hb_recv_time := last_hb_recv_time other,
          last_hb_sent_time := last_hb_sent_time other,
          my_id := my_id other, oppsite_id := oppsite_id other,
          blob := Some (b \<lparr> anti_rep := ar_re_init (anti_rep b) \<rparr>),
          my_roller := 0, oppsite_roller := 0, last_oppsite_roller_time := 0 \<rparr>))"

text \<open>The destructor on the server: the assertions, then \<open>delete blob\<close>, which
  clears the conversations.\<close>

definition conn_info_delete ::
  "u64 list \<Rightarrow> u64 conn_info \<Rightarrow> fd_manager \<times> world \<Rightarrow> (fd_manager \<times> world) option" where
  "conn_info_delete order ci fw =
     do {
       assert_c (if state ci = server_ready then blob ci \<noteq> None \<and> oppsite_const_id ci \<noteq> 0
                 else blob ci = None \<and> oppsite_const_id ci = 0);
       assert_c (timer_fd64 ci = 0);
       (case blob ci of
          None \<Rightarrow> Some fw
        | Some b \<Rightarrow> map_option snd (conv_clear (Some server_clear_function) order (conv_mgr b, fw)))
     }"

definition upd_anti_replay :: "(anti_replay \<Rightarrow> anti_replay) \<Rightarrow> 'd conn_info \<Rightarrow> 'd conn_info" where
  "upd_anti_replay f ci = ci \<lparr> blob := map_option (\<lambda>b. b \<lparr> anti_rep := f (anti_rep b) \<rparr>) (blob ci) \<rparr>"

lemma upd_anti_replay_simps [simp]:
  "blob ci = Some b \<Longrightarrow> blob (upd_anti_replay f ci) = Some (b \<lparr> anti_rep := f (anti_rep b) \<rparr>)"
  "state (upd_anti_replay f ci) = state ci" "raw_info (upd_anti_replay f ci) = raw_info ci"
  "my_id (upd_anti_replay f ci) = my_id ci" "oppsite_id (upd_anti_replay f ci) = oppsite_id ci"
  "timer_fd64 (upd_anti_replay f ci) = timer_fd64 ci"
  "oppsite_const_id (upd_anti_replay f ci) = oppsite_const_id ci"
  by (simp_all add: upd_anti_replay_def)

section \<open>Deleting an idle connection\<close>

text \<open>A connection without conversations is deleted without a side effect.\<close>

lemma conn_delete_idle:
  assumes "state ci \<noteq> server_ready" "blob ci = None" "oppsite_const_id ci = 0" "timer_fd64 ci = 0"
  shows "conn_info_delete order ci fw = Some fw"
  using assms by (simp add: conn_info_delete_def)

lemma conn_delete_ready:
  assumes "state ci = server_ready" "blob ci = Some b" "oppsite_const_id ci \<noteq> 0" "timer_fd64 ci = 0"
  shows "conn_info_delete [] ci fw = Some fw"
  using assms by (cases fw) (simp add: conn_info_delete_def conv_clear_def)

end
