(* ===== verification/Safer.thy ===== *)
theory Safer
  imports ConnInfo
begin

text \<open>
  The encrypted channel of connection.cpp: \<open>send_bare\<close>/\<open>recv_bare\<close> carry the
  handshake (encrypted, no replay protection), \<open>send_safer\<close>/\<open>recv_safer_multi\<close>
  carry heartbeats and data with identifiers, a sequence number and a roller.
  The static receive buffers keep the bytes of earlier packets; a pointer into
  one that is handed to the caller is modelled by the bytes it delimits.
\<close>

section \<open>Plain messages\<close>

definition le64 :: "u64 \<Rightarrow> bytes" where "le64 v = rev (be64 v)"

text \<open>The marker bytes 'b', 'h' and 'd'.\<close>

definition ch_b :: u8 where "ch_b = 98"
definition ch_h :: u8 where "ch_h = 104"
definition ch_d :: u8 where "ch_d = 100"

definition send_bare ::
  "vpn_conf \<Rightarrow> raw_info \<Rightarrow> bytes \<Rightarrow> chan \<times> world \<Rightarrow> (int \<times> raw_info \<times> chan \<times> world) option" where
  "send_bare cf ri data = (\<lambda>(ch, w).
     do {
       (iv, w) \<leftarrow> get_true_random_number_64 w;
       (pad, w) \<leftarrow> get_true_random_number_64 w;
       let send_data_buf = le64 iv @ le64 pad @ [ch_b] @ data;
       ((rc, out, new_len), kc) \<leftarrow> my_encrypt (lib cf) (crypt_cf cf) (stack_mem ch) (ch_keys ch) send_data_buf;
       let ch = ch \<lparr> ch_keys := kc \<rparr>;
       (if rc \<noteq> 0 then Some (-1, ri, ch, w)
        else do {
          (_, ri, nt, w) \<leftarrow> send_raw0 (net_cf cf) ri (take (nat new_len) out) (ch_net ch, w);
          Some (0, ri, ch \<lparr> ch_net := nt \<rparr>, w)
        })
     })"

definition reserved_parse_bare ::
  "vpn_conf \<Rightarrow> bytes \<Rightarrow> chan \<Rightarrow> (int \<times> bytes \<times> chan) option" where
  "reserved_parse_bare cf input ch =
     do {
       ((rc, out, input_len), kc) \<leftarrow> my_decrypt (lib cf) (crypt_cf cf) (ch_keys ch) input;
       let ch = ch \<lparr> ch_keys := kc, bare_buf := buf_write (bare_buf ch) 0 out \<rparr>;
       let len = input_len - 17;
       Some (if rc \<noteq> 0 then (-1, [], ch)
             else if bare_buf ch 16 \<noteq> ch_b then (-1, [], ch)
             else if len < 0 then (-1, [], ch)
             else (0, buf_read (bare_buf ch) 17 (nat len), ch))
     }"

text \<open>Where the TCP path of \<open>recv_raw0\<close> returns success without setting its
  output parameters, the code goes on with uninitialised variables: undefined,
  \<open>None\<close>.\<close>

definition recv_bare ::
  "vpn_conf \<Rightarrow> raw_info \<Rightarrow> chan \<Rightarrow> (int \<times> bytes \<times> raw_info \<times> chan) option" where
  "recv_bare cf ri ch =
     do {
       (rc, out, ri, nt) \<leftarrow> recv_raw0 (net_cf cf) ri (ch_net ch);
       let ch = ch \<lparr> ch_net := nt \<rparr>;
       let info = recv_info ri;
       (if rc < 0 then Some (-1, [], ri, ch)
        else case out of
          None \<Rightarrow> None
        | Some (p, len) \<Rightarrow>
            if len \<ge> max_data_len + 1 then Some (-1, [], ri, ch)
            else if raw_mode (net_cf cf) = mode_faketcp \<and> (syn info \<or> \<not> ack info) then Some (-1, [], ri, ch)
            else map_option (\<lambda>(rc, data, ch). (rc, data, ri, ch))
                   (reserved_parse_bare cf (buf_read (g_packet_buf nt) p (nat len)) ch))
     }"

definition send_handshake ::
  "vpn_conf \<Rightarrow> raw_info \<Rightarrow> u32 \<Rightarrow> u32 \<Rightarrow> u32 \<Rightarrow> chan \<times> world \<Rightarrow> (int \<times> raw_info \<times> chan \<times> world) option" where
  "send_handshake cf ri id1 id2 id3 st =
     do {
       (rc, ri, st) \<leftarrow> send_bare cf ri (numbers_to_char id1 id2 id3) st;
       Some (if rc \<noteq> 0 then -1 else 0, ri, st)
     }"

section \<open>Messages with replay protection\<close>

text \<open>The header in front of the data of a message.\<close>

definition safer_plain :: "'d conn_info \<Rightarrow> u64 \<Rightarrow> u8 \<Rightarrow> bytes \<Rightarrow> bytes" where
  "safer_plain ci sq type data =
     be32 (my_id ci) @ be32 (oppsite_id ci) @ be64 sq @ [type, my_roller ci] @ data"

text \<open>With \<open>--fix-gro\<close> the ciphertext is preceded by its length, which is
  scrambled with the cipher in use.\<close>

definition gro_frame :: "vpn_conf \<Rightarrow> key_cache \<Rightarrow> int \<Rightarrow> bytes \<Rightarrow> bytes \<times> key_cache" where
  "gro_frame cf kc new_len out =
     (let buf = write_u16 [0, 0] (word_of_int new_len) @ out in
      if cipher_mode (crypt_cf cf) = cipher_xor
      then ([buf ! 0 XOR gro_xor cf ! 0, buf ! 1 XOR gro_xor cf ! 1] @ drop 2 buf, kc)
      else if cipher_mode (crypt_cf cf) = cipher_aes128cbc \<or> cipher_mode (crypt_cf cf) = cipher_aes128cfb
      then aes_ecb_encrypt1 (lib cf) (crypt_cf cf) kc buf
      else (buf, kc))"

definition send_safer ::
  "vpn_conf \<Rightarrow> 'd conn_info \<Rightarrow> u8 \<Rightarrow> bytes \<Rightarrow> chan \<times> world \<Rightarrow> (int \<times> 'd conn_info \<times> chan \<times> world) option" where
  "send_safer cf ci type data = (\<lambda>(ch, w).
     if type \<noteq> ch_h \<and> type \<noteq> ch_d then Some (-1, ci, ch, w)
     else do {
       b \<leftarrow> blob ci;
       let (sq, ar) = get_new_seq_for_send (anti_rep b);
       let ci = ci \<lparr> blob := Some (b \<lparr> anti_rep := ar \<rparr>) \<rparr>;
       ((rc, out, new_len), kc) \<leftarrow>
          my_encrypt (lib cf) (crypt_cf cf) (stack_mem ch) (ch_keys ch) (safer_plain ci sq type data);
       let ch = ch \<lparr> ch_keys := kc \<rparr>;
       (if rc \<noteq> 0 then Some (-1, ci, ch, w)
        else do {
          let out = take (nat new_len) out;
          let (packet, kc) = (if g_fix_gro (net_cf cf) = 0 then (out, kc) else gro_frame cf kc new_len out);
          let ch = ch \<lparr> ch_keys := kc \<rparr>;
          (rc, ri, nt, w) \<leftarrow> send_raw0 (net_cf cf) (raw_info ci) packet (ch_net ch, w);
          let ci = ci \<lparr> raw_info := ri \<rparr>;
          let ch = ch \<lparr> ch_net := nt \<rparr>;
          (if rc \<noteq> 0 then Some (-1, ci, ch, w)
           else do {
             (rc, ri, w) \<leftarrow> after_send_raw0 (net_cf cf) ri w;
             Some (if rc \<noteq> 0 then -1 else 0, ci \<lparr> raw_info := ri \<rparr>, ch, w)
           })
        })
     })"

definition send_data_safer ::
  "vpn_conf \<Rightarrow> 'd conn_info \<Rightarrow> bytes \<Rightarrow> u32 \<Rightarrow> chan \<times> world \<Rightarrow> (int \<times> 'd conn_info \<times> chan \<times> world) option" where
  "send_data_safer cf ci data conv_num st =
     do {
       (_, ci, st) \<leftarrow> send_safer cf ci ch_d (be32 conv_num @ data) st;
       Some (0, ci, st)
     }"

definition reserved_parse_safer ::
  "vpn_conf \<Rightarrow> 'd conn_info \<Rightarrow> bytes \<Rightarrow> chan \<times> world \<Rightarrow>
     (int \<times> u8 \<times> bytes \<times> 'd conn_info \<times> chan \<times> world) option" where
  "reserved_parse_safer cf ci input = (\<lambda>(ch, w).
     do {
       ((rc, out, input_len), kc) \<leftarrow> my_decrypt (lib cf) (crypt_cf cf) (ch_keys ch) input;
       let ch = ch \<lparr> ch_keys := kc, safer_buf := buf_write (safer_buf ch) 0 out \<rparr>;
       let buf = safer_buf ch;
       let h_oppsite_id = of_be32 (buf_read buf 0 4);
       let h_my_id = of_be32 (buf_read buf 4 4);
       let h_seq = of_be64 (buf_read buf 8 8);
       (if rc \<noteq> 0 then Some (-1, 0, [], ci, ch, w)
        else if h_oppsite_id \<noteq> oppsite_id ci \<or> h_my_id \<noteq> my_id ci then Some (-1, 0, [], ci, ch, w)
        else do {
          b \<leftarrow> blob ci;
          let (ok, ar) = is_vaild (disable_anti_replay cf) (anti_rep b) h_seq;
          let ci = ci \<lparr> blob := Some (b \<lparr> anti_rep := ar \<rparr>) \<rparr>;
          let type = buf 16;
          let roller = buf 17;
          let len = input_len - 16 - 2;
          (if ok \<noteq> 1 then Some (-1, 0, [], ci, ch, w)
           else if type \<noteq> ch_h \<and> type \<noteq> ch_d then Some (-1, 0, [], ci, ch, w)
           else if len < 0 then Some (-1, 0, [], ci, ch, w)
           else do {
             let (ci, w) = (if roller \<noteq> oppsite_roller ci
                then let (t, w) = get_current_time w
                     in (ci \<lparr> oppsite_roller := roller, last_oppsite_roller_time := t \<rparr>, w)
                else (ci, w));
             assert_c (hb_mode cf = 0 \<or> hb_mode cf = 1);
             let ci = (if hb_mode cf = 0 \<or> type = ch_h then ci \<lparr> my_roller := my_roller ci + 1 \<rparr> else ci);
             let (rc, ri) = after_recv_raw0 (net_cf cf) (raw_info ci);
             let ci = ci \<lparr> raw_info := ri \<rparr>;
             Some (if rc \<noteq> 0 then -1 else 0, type, buf_read buf 18 (nat len), ci, ch, w)
           })
        })
     })"

text \<open>One step of the loop that takes a received aggregate apart: unscramble the
  length field at \<open>p\<close>, in place.\<close>

definition gro_unframe :: "vpn_conf \<Rightarrow> nat \<Rightarrow> chan \<Rightarrow> nat \<times> chan" where
  "gro_unframe cf p ch =
     (let nt = ch_net ch; buf = g_packet_buf nt;
          (buf, kc) =
            (if cipher_mode (crypt_cf cf) = cipher_xor
             then (buf_write buf p [buf p XOR gro_xor cf ! 0, buf (p + 1) XOR gro_xor cf ! 1], ch_keys ch)
             else if cipher_mode (crypt_cf cf) = cipher_aes128cbc \<or> cipher_mode (crypt_cf cf) = cipher_aes128cfb
             then let (b, kc) = aes_ecb_decrypt1 (lib cf) (crypt_cf cf) (ch_keys ch) (buf_read buf p 16)
                  in (buf_write buf p b, kc)
             else (buf, ch_keys ch))
      in (unat (read_u16 (buf_read buf p 2)), ch \<lparr> ch_net := nt \<lparr> g_packet_buf := buf \<rparr>, ch_keys := kc \<rparr>))"

function gro_loop ::
  "vpn_conf \<Rightarrow> 'd conn_info \<Rightarrow> nat \<Rightarrow> nat \<Rightarrow> chan \<times> world \<Rightarrow>
     ((u8 \<times> bytes) list \<times> 'd conn_info \<times> chan \<times> world) option" where
  "gro_loop cf ci p recv_len (ch, w) =
     (if recv_len < 16 then Some ([], ci, ch, w)
      else let (single_len, ch) = gro_unframe cf p ch in
        if single_len > recv_len - 2 then Some ([], ci, ch, w)
        else if int single_len > max_data_len then Some ([], ci, ch, w)
        else case reserved_parse_safer cf ci (buf_read (g_packet_buf (ch_net ch)) (p + 2) single_len) (ch, w) of
          None \<Rightarrow> None
        | Some (ret, type, data, ci, ch, w) \<Rightarrow>
            (case gro_loop cf ci (p + 2 + single_len) (recv_len - 2 - single_len) (ch, w) of
               None \<Rightarrow> None
             | Some (arr, st) \<Rightarrow> Some (if ret \<noteq> 0 then arr else (type, data) # arr, st)))"
  by auto
termination by (relation "measure (\<lambda>(cf, ci, p, recv_len, st). recv_len)") auto

declare gro_loop.simps [simp del]

text \<open>The two vectors, which the caller passes empty, are one list of pairs.\<close>

definition recv_safer_multi ::
  "vpn_conf \<Rightarrow> 'd conn_info \<Rightarrow> chan \<times> world \<Rightarrow>
     (int \<times> (u8 \<times> bytes) list \<times> 'd conn_info \<times> chan \<times> world) option" where
  "recv_safer_multi cf ci = (\<lambda>(ch, w).
     do {
       (rc, out, ri, nt) \<leftarrow> recv_raw0 (net_cf cf) (raw_info ci) (ch_net ch);
       let ci = ci \<lparr> raw_info := ri \<rparr>;
       let ch = ch \<lparr> ch_net := nt \<rparr>;
       (if rc \<noteq> 0 then Some (-1, [], ci, ch, w)
        else case out of
          None \<Rightarrow> None
        | Some (p, recv_len) \<Rightarrow>
            if g_fix_gro (net_cf cf) = 0 then do {
              (ret, type, data, ci, ch, w) \<leftarrow>
                 reserved_parse_safer cf ci (buf_read (g_packet_buf nt) p (nat recv_len)) (ch, w);
              Some (0, if ret = 0 then [(type, data)] else [], ci, ch, w)
            }
            else do {
              (arr, ci, ch, w) \<leftarrow> gro_loop cf ci p (nat recv_len) (ch, w);
              Some (0, arr, ci, ch, w)
            })
     })"

section \<open>What is sent is delivered\<close>

lemma safer_plain_reads:
  assumes "take (length (safer_plain ci sq type data)) out = safer_plain ci sq type data"
    and "buf = buf_write old 0 out"
  shows "of_be32 (buf_read buf 0 4) = my_id ci" "of_be32 (buf_read buf 4 4) = oppsite_id ci"
    "of_be64 (buf_read buf 8 8) = sq" "buf 16 = type" "buf 17 = my_roller ci"
    "buf_read buf 18 (length data) = data"
proof -
  have "length (safer_plain ci sq type data) \<le> length out"
    using arg_cong[OF assms(1), of length] by simp
  then have b: "buf_read buf 0 (length (safer_plain ci sq type data)) = safer_plain ci sq type data"
    unfolding assms(2) using assms(1) by (subst buf_read_write_prefix) simp_all
  have l: "length (safer_plain ci sq type data) = 18 + length data" by (simp add: safer_plain_def)
  note r = segment_reads(1)[OF b] and n = segment_reads(2)[OF b]
  show "of_be32 (buf_read buf 0 4) = my_id ci" "of_be32 (buf_read buf 4 4) = oppsite_id ci"
    "of_be64 (buf_read buf 8 8) = sq" "buf_read buf 18 (length data) = data"
    using r[of 0 4] r[of 4 4] r[of 8 8] r[of 18 "length data"] l by (simp_all add: safer_plain_def)
  show "buf 16 = type" "buf 17 = my_roller ci"
    using n[of 16] n[of 17] l by (simp_all add: safer_plain_def nth_append)
qed

lemma parse_sent:
  assumes dec: "my_decrypt (lib cf) (crypt_cf cf) (ch_keys ch) c =
      Some ((0, wr, int (length (safer_plain cs sq type data))), kr)"
    and pl: "take (length (safer_plain cs sq type data)) wr = safer_plain cs sq type data"
    and type: "type = ch_h \<or> type = ch_d"
    and ids: "oppsite_id ci = my_id cs" "my_id ci = oppsite_id cs"
    and b: "blob ci = Some b" and ok: "is_vaild (disable_anti_replay cf) (anti_rep b) sq = (1, ar)"
    and hb: "hb_mode cf = 0 \<or> hb_mode cf = 1"
  shows "\<exists>ci' w'. reserved_parse_safer cf ci c (ch, w) = Some (0, type, data, ci',
       ch \<lparr> ch_keys := kr, safer_buf := buf_write (safer_buf ch) 0 wr \<rparr>, w') \<and>
     blob ci' = Some (b \<lparr> anti_rep := ar \<rparr>) \<and> oppsite_roller ci' = my_roller cs \<and> state ci' = state ci \<and>
     my_id ci' = my_id ci \<and> oppsite_id ci' = oppsite_id ci"
proof -
  define buf where "buf = buf_write (safer_buf ch) 0 wr"
  note f = safer_plain_reads[OF pl buf_def]
  have l: "length (safer_plain cs sq type data) = 18 + length data" for type by (simp add: safer_plain_def)
  have ty: "\<not> (type \<noteq> ch_h \<and> type \<noteq> ch_d)" using type by blast
  obtain t w1 where t: "get_current_time w = (t, w1)" by fastforce
  have h: "assert_c (hb_mode cf = 0 \<or> hb_mode cf = 1) = Some ()" using hb by simp
  have rc: "fst (after_recv_raw0 c r) = 0" for c r by (simp add: after_recv_raw0_def Let_def)
  show ?thesis
    using ids ty hb
    by (cases "my_roller cs = oppsite_roller ci"; cases "hb_mode cf = 0 \<or> type = ch_h")
      (simp_all add: reserved_parse_safer_def dec flip: buf_def,
       simp_all add: f l b ok h t Let_def rc prod.case_eq_if)
qed

lemma unat_word_of_len: "n < 65536 \<Longrightarrow> unat (word_of_int (int n) :: u16) = n"
  by (simp only: of_int_of_nat_eq, subst unat_of_nat) simp

text \<open>The two ends of a connection: same library, keys in opposite directions,
  same framing, agreeing raw modes.\<close>

definition channel_pair :: "vpn_conf \<Rightarrow> raw_info \<Rightarrow> vpn_conf \<Rightarrow> bool" where
  "channel_pair cs rs cr \<longleftrightarrow> lib cr = lib cs \<and> aes_inverts (lib cs) \<and>
     crypt_cf cr = peer_conf (crypt_cf cs) \<and>
     cipher_mode (crypt_cf cs) \<noteq> cipher_end \<and> auth_mode (crypt_cf cs) \<noteq> auth_end \<and>
     g_fix_gro (net_cf cr) = g_fix_gro (net_cf cs) \<and> gro_xor cr = gro_xor cs \<and>
     ends_agree (net_cf cs) rs (net_cf cr) \<and> wire_pair (net_cf cs) rs (net_cf cr) [] \<and>
     (hb_mode cr = 0 \<or> hb_mode cr = 1)"

lemma gro_frame_result:
  assumes agree: "lib cr = lib cs" "aes_inverts (lib cs)" "crypt_cf cr = peer_conf (crypt_cf cs)"
    "gro_xor cr = gro_xor cs"
    and len: "14 \<le> length c" "length c < 65536"
    and kc: "cache_ok (crypt_cf cs) kc" and kr: "cache_ok (crypt_cf cr) (ch_keys ch)"
    and fr: "gro_frame cs kc (int (length c)) c = (packet, kc')"
    and b: "buf_read (g_packet_buf (ch_net ch)) p (length packet) = packet"
  shows "cache_ok (crypt_cf cs) kc' \<and> length packet = length c + 2 \<and>
    (\<exists>ch'. gro_unframe cr p ch = (length c, ch') \<and>
      buf_read (g_packet_buf (ch_net ch')) (p + 2) (length c) = c \<and> cache_ok (crypt_cf cr) (ch_keys ch') \<and>
      safer_buf ch' = safer_buf ch)"
proof -
  define n where "n = (word_of_int (int (length c)) :: u16)"
  let ?buf = "g_packet_buf (ch_net ch)"
  have un: "unat n = length c" unfolding n_def by (rule unat_word_of_len[OF len(2)])
  have w2: "write_u16 [0, 0] (word_of_int (int (length c))) = be16 n"
    unfolding n_def by (subst write_u16_be) simp_all
  have bl: "be16 n @ c = [be16 n ! 0, be16 n ! 1] @ c" by (simp add: be16_def)
  have r16: "unat (read_u16 (be16 n)) = length c" by (simp only: read_u16_be of_be_be un)
  consider (x) "cipher_mode (crypt_cf cs) = cipher_xor"
    | (aes) "cipher_mode (crypt_cf cs) = cipher_aes128cbc \<or> cipher_mode (crypt_cf cs) = cipher_aes128cfb"
    | (plain) "cipher_mode (crypt_cf cs) = cipher_none \<or> cipher_mode (crypt_cf cs) = cipher_end"
    by (cases "cipher_mode (crypt_cf cs)") auto
  then show ?thesis
  proof cases
    case x
    let ?g = "gro_xor cs"
    have pk: "packet = [be16 n ! 0 XOR ?g ! 0, be16 n ! 1 XOR ?g ! 1] @ c" and kc': "kc' = kc"
      using fr x by (simp_all add: gro_frame_def w2[simplified] Let_def nth_append be16_def)
    have h: "?buf p = be16 n ! 0 XOR ?g ! 0" "?buf (p + 1) = be16 n ! 1 XOR ?g ! 1"
      using segment_reads(2)[OF b, of 0] segment_reads(2)[OF b, of 1] pk by simp_all
    have c: "buf_read ?buf (p + 2) (length c) = c"
      using segment_reads(1)[OF b, of 2 "length c"] pk by simp
    have hd: "[?buf p XOR ?g ! 0, ?buf (p + 1) XOR ?g ! 1] = be16 n"
      unfolding h by (simp add: xor.assoc be16_def)
    have tl: "buf_read (buf_write ?buf p (be16 n)) (p + 2) (length c) = c"
      by (rule trans[OF _ c], rule nth_equalityI) (auto simp: buf_write_def)
    show ?thesis
      using x agree kc kr kc' pk tl
      by (simp add: gro_unframe_def hd[unfolded One_nat_def add_Suc_right add_0_right] Let_def r16)
  next
    case aes
    let ?f = "be16 n @ c"
    have pk: "packet = aes_block_enc (lib cs) (cipher_key_encrypt (crypt_cf cs)) (take 16 ?f) @ drop 16 ?f"
      and kc': "kc' = kc \<lparr> k_ecb_enc := Some (cipher_key_encrypt (crypt_cf cs)) \<rparr>"
      using fr aes kc
      by (auto simp: gro_frame_def w2[simplified] Let_def aes_ecb_encrypt1_def aes_ecb_encrypt_def cache_ok_def)
    have lp: "length packet = length c + 2" using len by (simp add: pk)
    have h: "buf_read ?buf p 16 = aes_block_enc (lib cs) (cipher_key_encrypt (crypt_cf cs)) (take 16 ?f)"
      using segment_reads(1)[OF b, of 0 16] lp len by (simp add: pk)
    have dec: "aes_block_dec (lib cs) (cipher_key_encrypt (crypt_cf cs)) (buf_read ?buf p 16) = take 16 ?f"
      unfolding h using agree(2) len by (simp add: aes_inverts_def)
    define nb where "nb = buf_write ?buf p (take 16 ?f)"
    have "buf_read nb p (length ?f) = ?f"
    proof (rule nth_equalityI, simp, goal_cases)
      case (1 i)
      then show ?case
        using segment_reads(2)[OF b, of i] lp len
        by (auto simp: nb_def buf_write_def pk nth_append)
    qed
    note nbr = segment_reads(1)[OF this]
    have r2: "buf_read nb p 2 = be16 n" and rc: "buf_read nb (p + 2) (length c) = c"
      using nbr[of 0 2] nbr[of 2 "length c"] by simp_all
    have k: "first_key (k_ecb_dec (ch_keys ch)) (cipher_key_encrypt (crypt_cf cs)) = cipher_key_encrypt (crypt_cf cs)"
      using kr agree(3) by (simp add: cache_ok_def)
    have ed: "aes_ecb_decrypt1 (lib cs) (peer_conf (crypt_cf cs)) (ch_keys ch) (buf_read ?buf p 16) =
        (take 16 ?f, (ch_keys ch) \<lparr> k_ecb_dec := Some (cipher_key_encrypt (crypt_cf cs)) \<rparr>)"
      by (simp add: aes_ecb_decrypt1_def aes_ecb_decrypt_def k dec[simplified] Let_def)
    have nb: "buf_write ?buf p (be16 n @ take 14 c) = nb" by (simp add: nb_def)
    have "gro_unframe cr p ch = (length c, ch \<lparr> ch_net := ch_net ch \<lparr> g_packet_buf := nb \<rparr>,
        ch_keys := ch_keys ch \<lparr> k_ecb_dec := Some (cipher_key_encrypt (crypt_cf cs)) \<rparr> \<rparr>)"
      using aes agree by (auto simp: gro_unframe_def Let_def ed nb r2 r16)
    then show ?thesis
      using lp rc kc kr kc' agree(3) by (simp add: cache_ok_def)
  next
    case plain
    have pk: "packet = be16 n @ c" and kc': "kc' = kc"
      using fr plain by (auto simp: gro_frame_def w2[simplified] Let_def)
    have r: "buf_read ?buf p 2 = be16 n" "buf_read ?buf (p + 2) (length c) = c"
      using segment_reads(1)[OF b, of 0 2] segment_reads(1)[OF b, of 2 "length c"] pk by simp_all
    show ?thesis
      using plain agree kc kr kc' pk r by (auto simp: gro_unframe_def Let_def r16)
  qed
qed

lemma after_send_log:
  "after_send_raw0 cf ri w = Some (rc, ri', w') \<Longrightarrow> sys_log w' = sys_log w \<and> rc = 0"
  by (auto simp: after_send_raw0_def Let_def dest!: rand_other split: if_splits elim!: bind_eq_SomeE)

lemma safer_plain_length: "length (safer_plain ci sq type data) = 18 + length data"
  by (simp add: safer_plain_def)

lemma safer_plain_blob [simp]: "safer_plain (ci \<lparr> blob := x \<rparr>) sq type data = safer_plain ci sq type data"
  by (simp add: safer_plain_def)

text \<open>What a successful \<open>send_safer\<close> did.\<close>

lemma send_safer_steps:
  assumes "send_safer cf ci type data (ch, w) = Some (0, ci', ch', w')"
  obtains b c len kc1 packet kc2 ri nt w1 where "type = ch_h \<or> type = ch_d" "blob ci = Some b"
    "my_encrypt (lib cf) (crypt_cf cf) (stack_mem ch) (ch_keys ch)
       (safer_plain ci (anti_replay_seq (anti_rep b)) type data) = Some ((0, c, len), kc1)"
    "(if g_fix_gro (net_cf cf) = 0 then (take (nat len) c, kc1)
      else gro_frame cf kc1 len (take (nat len) c)) = (packet, kc2)"
    "send_raw0 (net_cf cf) (raw_info ci) packet (ch_net ch, w) = Some (0, ri, nt, w1)"
    "sys_log w' = sys_log w1"
proof -
  obtain b where b: "blob ci = Some b" and t: "type = ch_h \<or> type = ch_d"
    using assms by (cases "blob ci") (auto simp: send_safer_def split: if_splits)
  let ?ci = "ci \<lparr> blob := Some (b \<lparr> anti_rep := anti_rep b \<lparr> anti_replay_seq := anti_replay_seq (anti_rep b) + 1 \<rparr> \<rparr>) \<rparr>"
  let ?m = "safer_plain ci (anti_replay_seq (anti_rep b)) type data"
  have ty: "\<not> (type \<noteq> ch_h \<and> type \<noteq> ch_d)" using t by blast
  obtain rc c len kc1 where e: "my_encrypt (lib cf) (crypt_cf cf) (stack_mem ch) (ch_keys ch) ?m = Some ((rc, c, len), kc1)"
    using assms ty b
    by (cases "my_encrypt (lib cf) (crypt_cf cf) (stack_mem ch) (ch_keys ch) ?m")
      (auto simp: send_safer_def get_new_seq_for_send_def)
  have rc: "rc = 0" using assms ty b e
    by (auto simp: send_safer_def get_new_seq_for_send_def Let_def split: if_splits)
  obtain packet kc2 where p: "(if g_fix_gro (net_cf cf) = 0 then (take (nat len) c, kc1)
      else gro_frame cf kc1 len (take (nat len) c)) = (packet, kc2)" by fastforce
  obtain r ri nt w1 where s: "send_raw0 (net_cf cf) (raw_info ci) packet (ch_net ch, w) = Some (r, ri, nt, w1)"
    using assms ty b e rc p
    by (cases "send_raw0 (net_cf cf) (raw_info ci) packet (ch_net ch, w)")
      (simp_all add: send_safer_def get_new_seq_for_send_def Let_def split: prod.splits)
  have "r = 0 \<and> sys_log w' = sys_log w1"
    using assms ty b e rc p s
    by (auto simp: send_safer_def get_new_seq_for_send_def Let_def elim!: bind_eq_SomeE split: if_splits
        dest!: after_send_log)
  show thesis using that[OF t b, of c len kc1 packet kc2 ri nt w1] e rc p s \<open>r = 0 \<and> _\<close> by simp
qed

lemma crypt_delivers:
  assumes "aes_inverts L" "cipher_mode cf \<noteq> cipher_end" "auth_mode cf \<noteq> auth_end"
    and m: "18 \<le> length m" "length m \<le> 1764" and kc: "cache_ok cf kc"
    and e: "my_encrypt L cf stack kc m = Some ((0, c, len), kc')"
  shows "len = int (length c) \<and> cache_ok cf kc' \<and> 18 \<le> length c \<and> length c \<le> 1800 \<and>
    (\<forall>kr. cache_ok (peer_conf cf) kr \<longrightarrow>
      (\<exists>w kr'. my_decrypt L (peer_conf cf) kr c = Some ((0, w, int (length m)), kr')
         \<and> take (length m) w = m \<and> cache_ok (peer_conf cf) kr'))"
proof -
  have "\<exists>c kc'. my_encrypt L cf stack kc m = Some ((0, c, int (length c)), kc')
     \<and> cache_ok cf kc' \<and> length c \<le> length m + 36 \<and> length m \<le> length c
     \<and> (length c \<le> 1800 \<longrightarrow> (\<exists>w kr'. my_decrypt L (peer_conf cf) kr c = Some ((0, w, int (length m)), kr')
          \<and> take (length m) w = m \<and> cache_ok (peer_conf cf) kr'))" if "cache_ok (peer_conf cf) kr" for kr
    by (rule crypt_roundtrip[OF assms(1-3) _ _ kc that]) (use m in auto)
  from this[of key_cache_init] this show ?thesis using e m by auto
qed

lemma wire_pair_len: "wire_pair cs rs cr [] \<Longrightarrow> length m \<le> 60000 \<Longrightarrow> wire_pair cs rs cr m"
  by (simp add: wire_pair_def)

section \<open>Properties\<close>

lemma safer_delivered:
  assumes pair: "channel_pair cs (raw_info cis) cr" and kc: "cache_ok (crypt_cf cs) (ch_keys ch)"
    and len: "length data \<le> 1700" and bs: "blob cis = Some bs"
    and send: "send_safer cs cis type data (ch, w) = Some (0, cis', ch', w')"
  shows "\<exists>pk dest. sys_log w' = sys_log w @ [SysSendto (raw_send_fd (net_cf cs)) pk dest] \<and>
    (\<forall>cir b ar chr wr. holds_frame (net_cf cr) (ch_net chr) pk \<and> cache_ok (crypt_cf cr) (ch_keys chr) \<and>
       oppsite_id cir = my_id cis \<and> my_id cir = oppsite_id cis \<and> blob cir = Some b \<and>
       src_port (send_info (raw_info cir)) = src_port (send_info (raw_info cis)) \<and>
       is_vaild (disable_anti_replay cr) (anti_rep b) (anti_replay_seq (anti_rep bs)) = (1, ar) \<longrightarrow>
      (\<exists>cir' chr' wr'. recv_safer_multi cr cir (chr, wr) = Some (0, [(type, data)], cir', chr', wr') \<and>
         blob cir' = Some (b \<lparr> anti_rep := ar \<rparr>)))"
proof -
  let ?sq = "anti_replay_seq (anti_rep bs)"
  let ?m = "safer_plain cis ?sq type data"
  have a: "lib cr = lib cs" "aes_inverts (lib cs)" "crypt_cf cr = peer_conf (crypt_cf cs)" "gro_xor cr = gro_xor cs"
    "cipher_mode (crypt_cf cs) \<noteq> cipher_end" "auth_mode (crypt_cf cs) \<noteq> auth_end"
    "g_fix_gro (net_cf cr) = g_fix_gro (net_cf cs)" "ends_agree (net_cf cs) (raw_info cis) (net_cf cr)"
    "wire_pair (net_cf cs) (raw_info cis) (net_cf cr) []" "hb_mode cr = 0 \<or> hb_mode cr = 1"
    using pair by (auto simp: channel_pair_def)
  obtain c n kc1 packet kc2 ri nt w1 where t: "type = ch_h \<or> type = ch_d"
    and e: "my_encrypt (lib cs) (crypt_cf cs) (stack_mem ch) (ch_keys ch) ?m = Some ((0, c, n), kc1)"
    and p: "(if g_fix_gro (net_cf cs) = 0 then (take (nat n) c, kc1)
      else gro_frame cs kc1 n (take (nat n) c)) = (packet, kc2)"
    and s: "send_raw0 (net_cf cs) (raw_info cis) packet (ch_net ch, w) = Some (0, ri, nt, w1)"
    and lg: "sys_log w' = sys_log w1"
    using send_safer_steps[OF send] bs by (metis option.inject)
  have m: "18 \<le> length ?m" "length ?m \<le> 1764" using len by (simp_all add: safer_plain_length)
  note cd = crypt_delivers[OF a(2,5,6) m kc e]
  have n: "n = int (length c)" and k1: "cache_ok (crypt_cf cs) kc1" and lc: "14 \<le> length c" "length c \<le> 1800"
    using cd by auto
  have c6: "length c < 65536" using lc by simp
  have tn: "take (nat n) c = c" using n by simp
  have gro: "cache_ok (crypt_cf cs) kc' \<and> length packet = length c + 2 \<and>
    (\<exists>ch'. gro_unframe cr off chr = (length c, ch') \<and>
      buf_read (g_packet_buf (ch_net ch')) (off + 2) (length c) = c \<and> cache_ok (crypt_cf cr) (ch_keys ch') \<and>
      safer_buf ch' = safer_buf chr)"
    if "gro_frame cs kc1 (int (length c)) c = (packet, kc')" "cache_ok (crypt_cf cr) (ch_keys chr)"
       "buf_read (g_packet_buf (ch_net chr)) off (length packet) = packet" for chr off packet kc'
    by (rule gro_frame_result[OF a(1-4) lc(1) c6 k1 that(2,1,3)])
  have lp: "length packet \<le> 60000"
  proof (cases "g_fix_gro (net_cf cs) = 0")
    case True
    then show ?thesis using p tn lc by auto
  next
    case False
    then have fr: "gro_frame cs kc1 (int (length c)) c = (packet, kc2)" using p tn n by simp
    show ?thesis
      using gro[OF fr, of "\<lparr> ch_net = example_net \<lparr> g_packet_buf := buf_write (\<lambda>_. 0) 0 packet \<rparr>,
         ch_keys = key_cache_init, bare_buf = (\<lambda>_. 0), safer_buf = (\<lambda>_. 0), stack_mem = (\<lambda>_. 0) \<rparr>" 0] lc by simp
  qed
  obtain pk dest where pk: "sys_log w1 = sys_log w @ [SysSendto (raw_send_fd (net_cf cs)) pk dest]"
    and rcv: "\<forall>rr rn. holds_frame (net_cf cr) rn pk \<and> src_port (send_info rr) = src_port (send_info (raw_info cis)) \<longrightarrow>
      (\<exists>off rr' rn'. recv_raw0 (net_cf cr) rr rn = Some (0, Some (off, int (length packet)), rr', rn')
         \<and> buf_read (g_packet_buf rn') off (length packet) = packet)"
    using raw0_wire[OF wire_pair_len[OF a(9) lp] a(8) s] by fastforce
  have deliver: "\<exists>cir' chr' wr'. recv_safer_multi cr cir (chr, wr) = Some (0, [(type, data)], cir', chr', wr') \<and>
         blob cir' = Some (b \<lparr> anti_rep := ar \<rparr>)"
    if fr: "holds_frame (net_cf cr) (ch_net chr) pk" and kr: "cache_ok (crypt_cf cr) (ch_keys chr)"
      and ids: "oppsite_id cir = my_id cis" "my_id cir = oppsite_id cis" and b: "blob cir = Some b"
      and sp: "src_port (send_info (raw_info cir)) = src_port (send_info (raw_info cis))"
      and ok: "is_vaild (disable_anti_replay cr) (anti_rep b) ?sq = (1, ar)"
    for cir :: "'b conn_info" and b ar chr wr
  proof -
    obtain off rr' rn' where r: "recv_raw0 (net_cf cr) (raw_info cir) (ch_net chr) =
        Some (0, Some (off, int (length packet)), rr', rn')"
      and rd: "buf_read (g_packet_buf rn') off (length packet) = packet" using rcv fr sp by blast
    let ?ch = "chr \<lparr> ch_net := rn' \<rparr>"
    let ?ci = "cir \<lparr> raw_info := rr' \<rparr>"
    have parse: "\<exists>ci' ch' w'. reserved_parse_safer cr ?ci c (ch1, wr) = Some (0, type, data, ci', ch', w') \<and>
        blob ci' = Some (b \<lparr> anti_rep := ar \<rparr>)" if k: "cache_ok (crypt_cf cr) (ch_keys ch1)" for ch1
    proof -
      obtain x kr' where "my_decrypt (lib cr) (crypt_cf cr) (ch_keys ch1) c = Some ((0, x, int (length ?m)), kr')"
        "take (length ?m) x = ?m" using cd k a(1,3) by auto
      then show ?thesis
        using parse_sent[of cr ch1 c x cis ?sq type data kr' ?ci b ar wr] t ids b ok a(10) by auto
    qed
    show ?thesis
    proof (cases "g_fix_gro (net_cf cs) = 0")
      case True
      then have "packet = c" using p tn by simp
      then show ?thesis
        using parse[of ?ch] kr rd True a(7) by (auto simp: recv_safer_multi_def r)
    next
      case False
      then have g: "gro_frame cs kc1 (int (length c)) c = (packet, kc2)" using p tn n by simp
      obtain ch2 where u: "length packet = length c + 2" "gro_unframe cr off ?ch = (length c, ch2)"
        "buf_read (g_packet_buf (ch_net ch2)) (off + 2) (length c) = c" "cache_ok (crypt_cf cr) (ch_keys ch2)"
        using gro[OF g, of ?ch off] kr rd by auto
      obtain ci' ch' w' where ps: "reserved_parse_safer cr ?ci c (ch2, wr) = Some (0, type, data, ci', ch', w')"
        "blob ci' = Some (b \<lparr> anti_rep := ar \<rparr>)" using parse[OF u(4)] by blast
      have stop: "gro_loop cr ci' q 0 st = Some ([], ci', st)" for q st
        by (cases st) (simp add: gro_loop.simps)
      have "gro_loop cr ?ci off (length packet) (?ch, wr) = Some ([(type, data)], ci', ch', w')"
        by (subst gro_loop.simps) (use u lc ps stop in \<open>simp add: max_data_len_def\<close>)
      then show ?thesis using False a(7) ps(2) by (simp add: recv_safer_multi_def r)
    qed
  qed
  show ?thesis using pk lg deliver by (intro exI[of _ pk] exI[of _ dest] conjI) (simp, blast)
qed

text \<open>C1. End to end through every layer: a message that \<open>send_safer\<close> accepted
  (up to 1700 bytes, either kind, every cipher, authentication, raw mode and IP
  version, with or without \<open>--fix-gro\<close>) leaves as one packet, and when that
  packet waits at the other end, whose window accepts its number,
  \<open>recv_safer_multi\<close> delivers exactly this message and marks the number as
  used.\<close>

theorem safer_delivery:
  assumes pair: "channel_pair cs (raw_info cis) cr" and kc: "cache_ok (crypt_cf cs) (ch_keys ch)"
    and len: "length data \<le> 1700" and bs: "blob cis = Some bs"
    and send: "send_safer cs cis type data (ch, w) = Some (0, cis', ch', w')"
  shows "\<exists>pk dest. sys_log w' = sys_log w @ [SysSendto (raw_send_fd (net_cf cs)) pk dest] \<and>
    (\<forall>cir b ar chr wr. holds_frame (net_cf cr) (ch_net chr) pk \<and> cache_ok (crypt_cf cr) (ch_keys chr) \<and>
       oppsite_id cir = my_id cis \<and> my_id cir = oppsite_id cis \<and> blob cir = Some b \<and>
       src_port (send_info (raw_info cir)) = src_port (send_info (raw_info cis)) \<and>
       is_vaild (disable_anti_replay cr) (anti_rep b) (anti_replay_seq (anti_rep bs)) = (1, ar) \<longrightarrow>
      (\<exists>cir' chr' wr'. recv_safer_multi cr cir (chr, wr) = Some (0, [(type, data)], cir', chr', wr') \<and>
         blob cir' = Some (b \<lparr> anti_rep := ar \<rparr>)))"
  by (rule safer_delivered[OF assms])

section \<open>No message twice\<close>

text \<open>The sequence numbers of the messages let through while a list of
  ciphertexts is parsed one after the other; a number is read from the parse
  buffer.\<close>

fun safer_run :: "vpn_conf \<Rightarrow> 'd conn_info \<Rightarrow> chan \<times> world \<Rightarrow> bytes list \<Rightarrow> u64 list" where
  "safer_run cf ci st [] = []"
| "safer_run cf ci st (x # xs) =
     (case reserved_parse_safer cf ci x st of
        None \<Rightarrow> []
      | Some (rc, type, data, ci', st') \<Rightarrow>
          if rc = 0 then of_be64 (buf_read (safer_buf (fst st')) 8 8) # safer_run cf ci' st' xs
          else safer_run cf ci' st' xs)"

lemma parse_window:
  assumes "reserved_parse_safer cf ci x (ch, w) = Some (rc, type, data, ci', ch', w')" "blob ci = Some b"
  shows "(rc \<noteq> 0 \<and> ci' = ci) \<or>
    (\<exists>ok ar. is_vaild (disable_anti_replay cf) (anti_rep b) (of_be64 (buf_read (safer_buf ch') 8 8)) = (ok, ar) \<and>
       blob ci' = Some (b \<lparr> anti_rep := ar \<rparr>) \<and> my_id ci' = my_id ci \<and> oppsite_id ci' = oppsite_id ci \<and>
       of_be32 (buf_read (safer_buf ch') 0 4) = oppsite_id ci \<and> of_be32 (buf_read (safer_buf ch') 4 4) = my_id ci \<and>
       (rc = 0 \<longrightarrow> ok = 1))"
proof -
  obtain drc out n kr where d: "my_decrypt (lib cf) (crypt_cf cf) (ch_keys ch) x = Some ((drc, out, n), kr)"
    using assms by (cases "my_decrypt (lib cf) (crypt_cf cf) (ch_keys ch) x") (auto simp: reserved_parse_safer_def)
  define buf where "buf = buf_write (safer_buf ch) 0 out"
  have sb: "safer_buf ch' = buf"
    using assms unfolding buf_def
    by (auto simp: reserved_parse_safer_def d Let_def guard_simps split: if_splits prod.splits)
  show ?thesis
  proof (cases "drc \<noteq> 0 \<or> of_be32 (buf_read buf 0 4) \<noteq> oppsite_id ci \<or> of_be32 (buf_read buf 4 4) \<noteq> my_id ci")
    case True
    then show ?thesis using assms by (auto simp: reserved_parse_safer_def d Let_def buf_def split: if_splits)
  next
    case False
    obtain ok ar where v: "is_vaild (disable_anti_replay cf) (anti_rep b) (of_be64 (buf_read buf 8 8)) = (ok, ar)"
      by fastforce
    have "blob ci' = Some (b \<lparr> anti_rep := ar \<rparr>) \<and> my_id ci' = my_id ci \<and> oppsite_id ci' = oppsite_id ci \<and>
        (rc = 0 \<longrightarrow> ok = 1)"
      using assms False v
      by (auto simp: reserved_parse_safer_def d Let_def guard_simps buf_def[symmetric] split: if_splits prod.splits)
    then show ?thesis using sb v False by auto
  qed
qed

lemma safer_run_fresh:
  assumes "disable_anti_replay cf = 0" "blob ci = Some b"
  shows "k \<in> set (safer_run cf ci st xs) \<Longrightarrow> \<not> ar_blocked (anti_rep b) k"
    and "distinct (safer_run cf ci st xs)"
proof -
  have "(k \<in> set (safer_run cf ci st xs) \<longrightarrow> \<not> ar_blocked (anti_rep b) k) \<and> distinct (safer_run cf ci st xs)" for k
    using assms(2)
  proof (induction xs arbitrary: ci b st k)
    case (Cons x xs)
    show ?case
    proof (cases "reserved_parse_safer cf ci x st")
      case (Some r)
      obtain ch w rc type data ci' ch' w' where st: "st = (ch, w)" and r: "r = (rc, type, data, ci', ch', w')"
        by (cases st; cases r)
      let ?k = "of_be64 (buf_read (safer_buf ch') 8 8)"
      note pw = parse_window[OF Some[unfolded st r] Cons.prems]
      show ?thesis
      proof (cases "rc \<noteq> 0 \<and> ci' = ci")
        case True
        then show ?thesis using Cons.IH[OF Cons.prems] Some r by simp
      next
        case False
        then obtain ok ar where v: "is_vaild 0 (anti_rep b) ?k = (ok, ar)" and b': "blob ci' = Some (b \<lparr> anti_rep := ar \<rparr>)"
          and ok: "rc = 0 \<longrightarrow> ok = 1" using pw assms(1) by auto
        have later: "\<not> ar_blocked ar j \<and> \<not> ar_blocked (anti_rep b) j" if "j \<in> set (safer_run cf ci' (ch', w') xs)" for j
          using Cons.IH[OF b', of j "(ch', w')"] that ar.blocked_stays[of "anti_rep b" j ?k] v by auto
        have now: "\<not> ar_blocked (anti_rep b) ?k \<and> ar_blocked ar ?k" if "rc = 0"
          using ok that v ar.blocked_refused[of "anti_rep b" ?k] ar.accept_blocks[of "anti_rep b" ?k ar] by auto
        have "distinct (safer_run cf ci' (ch', w') xs)" using Cons.IH[OF b'] by blast
        then show ?thesis using later now Some r by (cases "rc = 0") auto
      qed
    qed simp
  qed simp
  then show "k \<in> set (safer_run cf ci st xs) \<Longrightarrow> \<not> ar_blocked (anti_rep b) k" "distinct (safer_run cf ci st xs)"
    by blast+
qed

text \<open>C2. A sequence number is let through at most once over any run of
  ciphertexts, and one that is refused now is refused for the whole run. So a
  recorded packet, replayed at any time and any number of times, is delivered
  at most once.\<close>

theorem safer_no_replay:
  assumes "disable_anti_replay cf = 0" "blob ci = Some b"
  shows "distinct (safer_run cf ci st xs) \<and>
    (\<forall>k. ar_blocked (anti_rep b) k \<longrightarrow> k \<notin> set (safer_run cf ci st xs))"
  using safer_run_fresh[OF assms] by blast

section \<open>The handshake\<close>

lemma send_raw_ip_rc:
  "\<forall>i. sys_ret w i \<noteq> -1 \<Longrightarrow> send_raw_ip cf ri m (nt, w) = Some (rc, nt', w') \<Longrightarrow> rc = 0"
  by (auto simp: send_raw_ip_def send_raw_packet_def syscall_def guard_simps Let_def
      elim!: bind_eq_SomeE split: if_splits prod.splits)

text \<open>The raw layer reports success when no system call fails.\<close>

lemma send_raw0_rc:
  assumes ok: "\<forall>i. sys_ret w i \<noteq> -1" and m: "length m \<le> 60000" and mode: "raw_mode cf \<noteq> mode_end" "random_drop cf = 0"
    and s: "send_raw0 cf ri m (nt, w) = Some (rc, ri', nt', w')"
  shows "rc = 0"
proof (cases "raw_mode cf")
  case mode_faketcp
  obtain t w1 where t: "get_current_time w = (t, w1)" by fastforce
  have w1: "sys_ret w1 = sys_ret w" using get_current_time_other(3)[of w] t by simp
  show ?thesis
    using s mode mode_faketcp ok w1
    by (auto simp: send_raw0_def send_raw_tcp_def t guard_simps Let_def elim!: bind_eq_SomeE
        dest!: rand_other send_raw_ip_rc[rotated] split: if_splits prod.splits)
next
  case mode_udp
  then show ?thesis using s mode ok m
    by (auto simp: send_raw0_def send_raw_udp_def guard_simps Let_def elim!: bind_eq_SomeE
        dest!: send_raw_ip_rc[rotated] split: if_splits prod.splits)
next
  case mode_icmp
  then show ?thesis using s mode ok
    by (auto simp: send_raw0_def send_raw_icmp_def guard_simps Let_def elim!: bind_eq_SomeE
        dest!: send_raw_ip_rc[rotated] split: if_splits prod.splits)
qed (use mode in simp)

lemma rand64_other: "get_true_random_number_64 w = Some (r, w') \<Longrightarrow> w' = w \<lparr> rand_i := rand_i w + 1 \<rparr>"
  by (auto simp: get_true_random_number_64_def Let_def split: if_splits)

text \<open>What a successful \<open>send_bare\<close> did.\<close>

lemma send_bare_steps:
  assumes "send_bare cf ri data (ch, w) = Some (0, ri', ch', w')" "\<forall>i. sys_ret w i \<noteq> -1"
  obtains iv pad c len kc1 rc nt w1 where
    "my_encrypt (lib cf) (crypt_cf cf) (stack_mem ch) (ch_keys ch) (le64 iv @ le64 pad @ [ch_b] @ data) = Some ((0, c, len), kc1)"
    "send_raw0 (net_cf cf) ri (take (nat len) c) (ch_net ch, w1) = Some (rc, ri', nt, w')"
    "sys_log w1 = sys_log w" "\<forall>i. sys_ret w1 i \<noteq> -1"
proof -
  obtain iv wa pad w1 where r: "get_true_random_number_64 w = Some (iv, wa)" "get_true_random_number_64 wa = Some (pad, w1)"
    using assms(1) by (auto simp: send_bare_def elim!: bind_eq_SomeE)
  obtain rc c len kc1 where e: "my_encrypt (lib cf) (crypt_cf cf) (stack_mem ch) (ch_keys ch)
      (le64 iv @ le64 pad @ [ch_b] @ data) = Some ((rc, c, len), kc1)"
    using assms(1) r by (auto simp: send_bare_def elim!: bind_eq_SomeE)
  have rc: "rc = 0" using assms(1) r e by (auto simp: send_bare_def Let_def split: if_splits)
  obtain rc2 nt where s: "send_raw0 (net_cf cf) ri (take (nat len) c) (ch_net ch, w1) = Some (rc2, ri', nt, w')"
    using assms(1) r e rc
    by (cases "send_raw0 (net_cf cf) ri (take (nat len) c) (ch_net ch, w1)") (auto simp: send_bare_def Let_def)
  have "sys_log w1 = sys_log w" "\<forall>i. sys_ret w1 i \<noteq> -1"
    using r[THEN rand64_other] assms(2) by simp_all
  then show thesis using that[OF e[unfolded rc] s] by blast
qed

text \<open>C6. The handshake message travels: when no system call fails,
  \<open>send_handshake\<close> sends one packet, and \<open>recv_bare\<close> at the other end turns it
  into a message from which \<open>char_to_numbers\<close> reads the three identifiers. With
  the simulated TCP this needs a segment with ACK and without SYN.\<close>

theorem handshake_delivery:
  assumes pair: "channel_pair cs rs cr" and kc: "cache_ok (crypt_cf cs) (ch_keys ch)"
    and net_ok: "\<forall>i. sys_ret w i \<noteq> -1"
    and flags: "raw_mode (net_cf cs) = mode_faketcp \<longrightarrow> \<not> syn (send_info rs) \<and> ack (send_info rs)"
    and send: "send_handshake cs rs id1 id2 id3 (ch, w) = Some (0, rs', ch', w')"
  shows "\<exists>pk dest. sys_log w' = sys_log w @ [SysSendto (raw_send_fd (net_cf cs)) pk dest] \<and>
    (\<forall>rr chr. holds_frame (net_cf cr) (ch_net chr) pk \<and> cache_ok (crypt_cf cr) (ch_keys chr) \<and>
       src_port (send_info rr) = src_port (send_info rs) \<longrightarrow>
      (\<exists>data rr' chr'. recv_bare cr rr chr = Some (0, data, rr', chr') \<and> char_to_numbers data = (0, id1, id2, id3)))"
proof -
  let ?d = "numbers_to_char id1 id2 id3"
  have a: "lib cr = lib cs" "aes_inverts (lib cs)" "crypt_cf cr = peer_conf (crypt_cf cs)"
    "cipher_mode (crypt_cf cs) \<noteq> cipher_end" "auth_mode (crypt_cf cs) \<noteq> auth_end"
    "ends_agree (net_cf cs) rs (net_cf cr)" "wire_pair (net_cf cs) rs (net_cf cr) []"
    using pair by (auto simp: channel_pair_def)
  have sb: "send_bare cs rs ?d (ch, w) = Some (0, rs', ch', w')"
    using send by (auto simp: send_handshake_def elim!: bind_eq_SomeE split: if_splits)
  obtain iv pad c n kc1 rc nt w1 where
    e: "my_encrypt (lib cs) (crypt_cf cs) (stack_mem ch) (ch_keys ch) (le64 iv @ le64 pad @ [ch_b] @ ?d) = Some ((0, c, n), kc1)"
    and s: "send_raw0 (net_cf cs) rs (take (nat n) c) (ch_net ch, w1) = Some (rc, rs', nt, w')"
    and w1: "sys_log w1 = sys_log w" "\<forall>i. sys_ret w1 i \<noteq> -1"
    by (rule send_bare_steps[OF sb net_ok])
  define m where "m = le64 iv @ le64 pad @ [ch_b] @ ?d"
  have lm: "length m = 29" by (simp add: m_def le64_def numbers_to_char_def)
  note cd = crypt_delivers[OF a(2,4,5) _ _ kc e[folded m_def]]
  have n: "n = int (length c)" and lc: "length c \<le> 1800" using cd lm by simp_all
  then have tn: "take (nat n) c = c" by simp
  have mode: "raw_mode (net_cf cs) \<noteq> mode_end" "random_drop (net_cf cs) = 0" "raw_mode (net_cf cr) = raw_mode (net_cf cs)"
    using a(6) by (simp_all add: ends_agree_def)
  have lc6: "length c \<le> 60000" using lc by simp
  have "rc = 0" by (rule send_raw0_rc[OF w1(2) lc6 mode(1,2) s[unfolded tn]])
  then have s0: "send_raw0 (net_cf cs) rs c (ch_net ch, w1) = Some (0, rs', nt, w')" using s tn by simp
  obtain pk dest where pk: "sys_log w' = sys_log w1 @ [SysSendto (raw_send_fd (net_cf cs)) pk dest]"
    and rcv: "\<forall>rr rn. holds_frame (net_cf cr) rn pk \<and> src_port (send_info rr) = src_port (send_info rs) \<longrightarrow>
      (\<exists>off rr' rn'. recv_raw0 (net_cf cr) rr rn = Some (0, Some (off, int (length c)), rr', rn')
         \<and> buf_read (g_packet_buf rn') off (length c) = c \<and>
         (raw_mode (net_cf cs) = mode_faketcp \<longrightarrow> \<not> syn (recv_info rr') \<and> ack (recv_info rr')))"
    using raw0_wire[OF wire_pair_len[OF a(7) lc6] a(6) s0] flags by fastforce
  have deliver: "\<exists>data rr' chr'. recv_bare cr rr chr = Some (0, data, rr', chr') \<and> char_to_numbers data = (0, id1, id2, id3)"
    if fr: "holds_frame (net_cf cr) (ch_net chr) pk" and kr: "cache_ok (crypt_cf cr) (ch_keys chr)"
      and sp: "src_port (send_info rr) = src_port (send_info rs)" for rr chr
  proof -
    obtain off rr' rn' where r: "recv_raw0 (net_cf cr) rr (ch_net chr) = Some (0, Some (off, int (length c)), rr', rn')"
      and rd: "buf_read (g_packet_buf rn') off (length c) = c"
      and fl: "\<not> (raw_mode (net_cf cr) = mode_faketcp \<and> (syn (recv_info rr') \<or> \<not> ack (recv_info rr')))"
      using rcv fr sp mode(3) by metis
    obtain x kr' where d: "my_decrypt (lib cr) (crypt_cf cr) (ch_keys chr) c = Some ((0, x, int 29), kr')"
      and x: "take 29 x = m" using cd kr a(1,3) lm by auto
    define buf where "buf = buf_write (bare_buf chr) 0 x"
    have "29 \<le> length x" using arg_cong[OF x, of length] lm by simp
    then have "buf_read buf 0 (length m) = m" unfolding buf_def lm by (subst buf_read_write_prefix) (simp_all add: x)
    note rb = segment_reads[OF this]
    have b: "buf 16 = ch_b" "buf_read buf 17 12 = ?d"
      using rb(2)[of 16] rb(1)[of 17 12] lm by (simp_all add: m_def le64_def nth_append numbers_to_char_def)
    have "reserved_parse_bare cr c (chr \<lparr> ch_net := rn' \<rparr>) =
        Some (0, ?d, chr \<lparr> ch_net := rn', ch_keys := kr', bare_buf := buf \<rparr>)"
      using d b by (simp add: reserved_parse_bare_def Let_def buf_def)
    moreover have "\<not> int (length c) \<ge> max_data_len + 1" using lc by (simp add: max_data_len_def)
    ultimately have "recv_bare cr rr chr = Some (0, ?d, rr', chr \<lparr> ch_net := rn', ch_keys := kr', bare_buf := buf \<rparr>)"
      using fl rd by (simp add: recv_bare_def r Let_def)
    moreover have "char_to_numbers ?d = (0, id1, id2, id3)" by (simp add: char_to_numbers_def numbers_to_char_def)
    ultimately show ?thesis by blast
  qed
  show ?thesis using pk w1(1) deliver by (intro exI[of _ pk] exI[of _ dest] conjI) (simp, blast)
qed

section \<open>Examples\<close>

definition example_vpn :: vpn_conf where
  "example_vpn = \<lparr> net_cf = example_net_conf, crypt_cf = example_conf, lib = xor_lib, hb_mode = 1, hb_data = [],
     gro_xor = [1, 2], disable_anti_replay = 0, const_id = 9, remote_addr = sockaddr_in 4096 [10, 0, 0, 2],
     source_addr = sockaddr_in 0 [10, 0, 0, 1], local_addr = sockaddr_in 3333 [0, 0, 0, 0], force_source_ip = 0,
     force_source_port = 0, source_port = 0, use_tcp_dummy_socket = 0, lower_level_manual = 0, ifindex = 2,
     dest_hw_addr = [255, 255, 255, 255, 255, 255, 0, 0], disable_bpf_filter = 0, raw_recv_fd = 4,
     force_socket_buf = 0, socket_buf_size = 1000, epollfd = 5, udp_fd = 6, hash_place = (\<lambda>_ _. 0),
     conv_order = (\<lambda>_. []) \<rparr>"

definition example_peer :: vpn_conf where
  "example_peer = example_vpn \<lparr> net_cf := example_net_conf \<lparr> filter_port := 2000, program_mode := server_mode \<rparr>,
     crypt_cf := peer_conf example_conf \<rparr>"

definition example_chan :: chan where
  "example_chan = \<lparr> ch_net = example_net, ch_keys = key_cache_init, bare_buf = (\<lambda>_. 0), safer_buf = (\<lambda>_. 0),
     stack_mem = (\<lambda>_. 9) \<rparr>"

definition example_blob :: "u64 blob" where
  "example_blob = \<lparr> conv_mgr = conv_manager_init 0, anti_rep = anti_replay_init (\<lambda>_. 0) 50 \<rparr>"

definition example_conn :: "u64 conn_info" where
  "example_conn = \<lparr> state = client_ready, raw_info = example_raw, last_state_time = 0, last_hb_sent_time = 0,
     last_hb_recv_time = 0, my_id = 7, oppsite_id = 8, timer_fd64 = 0, udp_fd64 = 0, oppsite_const_id = 0,
     blob = Some example_blob, my_roller = 0, oppsite_roller = 0, last_oppsite_roller_time = 0 \<rparr>"

lemma example_pair: "channel_pair example_vpn example_raw example_peer"
  by (simp add: channel_pair_def example_vpn_def example_peer_def xor_lib_inverts example_conf_def ends_agree_def
      wire_pair_def example_net_conf_def example_raw_def example_info_def AF_INET_def IPPROTO_UDP_def)

lemma example_keys [simp]: "cache_ok cf (ch_keys example_chan)" "stack_mem example_chan = (\<lambda>_. 9)"
  "ch_net example_chan = example_net"
  by (simp_all add: example_chan_def)

lemma example_vpn_simps [simp]:
  "net_cf example_vpn = example_net_conf" "crypt_cf example_vpn = example_conf" "lib example_vpn = xor_lib"
  "g_fix_gro example_net_conf = 0" "raw_mode example_net_conf = mode_udp" "program_mode example_net_conf = client_mode"
  by (simp_all add: example_vpn_def example_net_conf_def)

lemma example_encrypt:
  assumes "length m \<le> 1764"
  shows "\<exists>c kc'. my_encrypt xor_lib example_conf (\<lambda>_. 9) (ch_keys example_chan) m = Some ((0, c, int (length c)), kc')
     \<and> length c \<le> 2000"
  using crypt_roundtrip[OF xor_lib_inverts, of example_conf m "ch_keys example_chan" key_cache_init "\<lambda>_. 9"] assms
  by (fastforce simp: example_conf_def)

lemma safer_delivery_witness:
  "\<exists>cis' ch' w' pk dest.
     send_safer example_vpn example_conn ch_d [1, 2, 3] (example_chan, example_world) = Some (0, cis', ch', w') \<and>
     sys_log w' = sys_log example_world @ [SysSendto (raw_send_fd example_net_conf) pk dest] \<and>
     (\<forall>cir :: u64 conn_info. \<forall>b ar chr wr.
       holds_frame (net_cf example_peer) (ch_net chr) pk \<and> cache_ok (crypt_cf example_peer) (ch_keys chr) \<and>
       oppsite_id cir = 7 \<and> my_id cir = 8 \<and> blob cir = Some b \<and>
       src_port (send_info (raw_info cir)) = src_port (send_info example_raw) \<and>
       is_vaild (disable_anti_replay example_peer) (anti_rep b) 5 = (1, ar) \<longrightarrow>
      (\<exists>cir' chr' wr'. recv_safer_multi example_peer cir (chr, wr) = Some (0, [(ch_d, [1, 2, 3])], cir', chr', wr') \<and>
         blob cir' = Some (b \<lparr> anti_rep := ar \<rparr>)))"
proof -
  let ?m = "safer_plain example_conn 5 ch_d [1, 2, 3]"
  obtain c kc' where c: "my_encrypt xor_lib example_conf (\<lambda>_. 9) (ch_keys example_chan) ?m = Some ((0, c, int (length c)), kc')"
    "length c \<le> 2000"
    using example_encrypt[of ?m] by (auto simp: safer_plain_length)
  obtain nt' w' where s: "send_raw0 example_net_conf example_raw c (example_net, example_world) = Some (0, example_raw, nt', w')"
    using example_send[OF c(2), of 0] by (auto simp: example_world_def)
  have f: "blob example_conn = Some example_blob" "raw_info example_conn = example_raw"
    "anti_replay_seq (anti_rep example_blob) = 5" "my_id example_conn = 7" "oppsite_id example_conn = 8"
    by (simp_all add: example_conn_def example_blob_def anti_replay_init_def)
  have "\<exists>cis' ch' w'. send_safer example_vpn example_conn ch_d [1, 2, 3] (example_chan, example_world) = Some (0, cis', ch', w')"
    using c by (simp add: send_safer_def get_new_seq_for_send_def f s after_send_raw0_def Let_def)
  then obtain cis' ch' w' where sent:
    "send_safer example_vpn example_conn ch_d [1, 2, 3] (example_chan, example_world) = Some (0, cis', ch', w')" by blast
  have p: "channel_pair example_vpn (raw_info example_conn) example_peer" by (simp add: f example_pair)
  show ?thesis
    using safer_delivery[OF p _ _ f(1) sent, where ?'b = u64] sent by (simp add: f)
qed

lemma handshake_delivery_witness:
  "\<exists>rs' ch' w' pk dest.
     send_handshake example_vpn example_raw 7 0 9 (example_chan, example_world) = Some (0, rs', ch', w') \<and>
     sys_log w' = sys_log example_world @ [SysSendto (raw_send_fd example_net_conf) pk dest] \<and>
     (\<forall>rr chr. holds_frame (net_cf example_peer) (ch_net chr) pk \<and> cache_ok (crypt_cf example_peer) (ch_keys chr) \<and>
        src_port (send_info rr) = src_port (send_info example_raw) \<longrightarrow>
       (\<exists>data rr' chr'. recv_bare example_peer rr chr = Some (0, data, rr', chr') \<and>
          char_to_numbers data = (0, 7, 0, 9)))"
proof -
  define iv where "iv = (of_be64 (rev [1, 2, 3, 4, 5, 6, 7, 8]) :: u64)"
  have r: "get_true_random_number_64 (example_world \<lparr> rand_i := i \<rparr>) = Some (iv, example_world \<lparr> rand_i := i + 1 \<rparr>)" for i
    by (simp add: get_true_random_number_64_def example_world_def iv_def)
  have w0: "example_world \<lparr> rand_i := 0 \<rparr> = example_world" by (simp add: example_world_def)
  let ?m = "le64 iv @ le64 iv @ [ch_b] @ numbers_to_char 7 0 9"
  obtain c kc' where c: "my_encrypt xor_lib example_conf (\<lambda>_. 9) (ch_keys example_chan) ?m = Some ((0, c, int (length c)), kc')"
    "length c \<le> 2000"
    using example_encrypt[of ?m] by (auto simp: le64_def numbers_to_char_def)
  obtain nt' w' where s: "send_raw0 example_net_conf example_raw c (example_net, example_world \<lparr> rand_i := 2 \<rparr>)
      = Some (0, example_raw, nt', w')"
    using example_send[OF c(2), of 2] by blast
  have "\<exists>rs' ch' w'. send_handshake example_vpn example_raw 7 0 9 (example_chan, example_world) = Some (0, rs', ch', w')"
    using c(1) r[of 0] r[of 1] s by (simp add: send_handshake_def send_bare_def w0 Let_def numeral_2_eq_2)
  then obtain rs' ch' w' where sent:
    "send_handshake example_vpn example_raw 7 0 9 (example_chan, example_world) = Some (0, rs', ch', w')" by blast
  have ok: "\<forall>i. sys_ret example_world i \<noteq> -1" by (simp add: example_world_def)
  show ?thesis using handshake_delivery[OF example_pair _ ok _ sent] sent by simp
qed

definition example_clear_vpn :: vpn_conf where
  "example_clear_vpn = example_vpn \<lparr> crypt_cf := example_conf \<lparr> auth_mode := auth_none, cipher_mode := cipher_none,
     is_hmac_used := 0 \<rparr> \<rparr>"

definition example_other :: "u64 conn_info" where
  "example_other = example_conn \<lparr> my_id := 8, oppsite_id := 7 \<rparr>"

lemma clear_decrypt:
  "length c \<le> 1800 \<Longrightarrow> my_decrypt (lib example_clear_vpn) (crypt_cf example_clear_vpn) kc c = Some ((0, c, int (length c)), kc)"
  by (simp add: my_decrypt_def example_clear_vpn_def cipher_decrypt_def cipher_none_decrypt_def auth_verify_def
      auth_none_verify_def max_data_len_def example_conf_def)

lemma clear_parse:
  assumes "oppsite_id ci = 8" "my_id ci = 7" "blob ci = Some b" "is_vaild 0 (anti_rep b) sq = (1, ar)"
  shows "\<exists>ci' st'. reserved_parse_safer example_clear_vpn ci (safer_plain example_other sq ch_h []) (ch, w)
     = Some (0, ch_h, [], ci', st') \<and> of_be64 (buf_read (safer_buf (fst st')) 8 8) = sq \<and>
     oppsite_id ci' = 8 \<and> my_id ci' = 7 \<and> blob ci' = Some (b \<lparr> anti_rep := ar \<rparr>)"
proof -
  let ?m = "safer_plain example_other sq ch_h []"
  have o: "oppsite_id ci = my_id example_other" "my_id ci = oppsite_id example_other"
    using assms by (simp_all add: example_other_def)
  have d: "disable_anti_replay example_clear_vpn = 0" "hb_mode example_clear_vpn = 1"
    by (simp_all add: example_clear_vpn_def example_vpn_def)
  have dd: "my_decrypt (lib example_clear_vpn) (crypt_cf example_clear_vpn) (ch_keys ch) ?m = Some ((0, ?m, int (length ?m)), ch_keys ch)"
    by (rule clear_decrypt) (simp add: safer_plain_length)
  have "is_vaild (disable_anti_replay example_clear_vpn) (anti_rep b) sq = (1, ar)" using assms(4) d by simp
  from parse_sent[OF dd _ _ o assms(3) this, of w] show ?thesis
    using assms d safer_plain_reads(3)[of example_other sq ch_h "[]" ?m _ "safer_buf ch"] by fastforce
qed

lemma safer_no_replay_witness:
  fixes p :: "u64 \<Rightarrow> bytes"
  defines "p n \<equiv> safer_plain example_other n ch_h []"
  shows "safer_run example_clear_vpn example_conn (example_chan, example_world) [p 77, p 78] = [77, 78] \<and>
    distinct (safer_run example_clear_vpn example_conn (example_chan, example_world) [p 77, p 78, p 77])"
proof -
  have c: "oppsite_id example_conn = 8" "my_id example_conn = 7" "blob example_conn = Some example_blob"
    by (simp_all add: example_conn_def)
  obtain ar where v: "is_vaild 0 (anti_rep example_blob) 77 = (1, ar)" "max_packet_received ar = 77"
    by (simp add: is_vaild_def example_blob_def anti_replay_init_def anti_replay_window_size_def)
  obtain ar2 where v2: "is_vaild 0 ar 78 = (1, ar2)"
    using v(2) by (simp add: is_vaild_def anti_replay_window_size_def)
  obtain c1 st1 where 1: "reserved_parse_safer example_clear_vpn example_conn (p 77) (example_chan, example_world) = Some (0, ch_h, [], c1, st1)"
    "of_be64 (buf_read (safer_buf (fst st1)) 8 8) = 77" "oppsite_id c1 = 8" "my_id c1 = 7" "blob c1 = Some (example_blob \<lparr> anti_rep := ar \<rparr>)"
    using clear_parse[OF c v(1), of example_chan example_world] by (auto simp: p_def)
  obtain c2 st2 where 2: "reserved_parse_safer example_clear_vpn c1 (p 78) st1 = Some (0, ch_h, [], c2, st2)"
    "of_be64 (buf_read (safer_buf (fst st2)) 8 8) = 78"
    using clear_parse[OF 1(3-5), of 78 ar2 "fst st1" "snd st1"] v2 by (auto simp: p_def)
  have "disable_anti_replay example_clear_vpn = 0" by (simp add: example_clear_vpn_def example_vpn_def)
  note dist = safer_no_replay[OF this c(3), THEN conjunct1]
  show ?thesis by (intro conjI dist) (simp add: 1 2)
qed
end
