(* ===== verification/ConnManager.thy ===== *)
theory ConnManager
  imports Safer
begin

text \<open>
  The connections of a server (\<open>conn_manager_t\<close>, connection.h and
  connection.cpp): a hash map from peer addresses to connection objects, a map
  from the constant identifiers of the clients to the objects that are ready,
  and the cleaner that a timer runs. Objects live in a heap indexed by
  addresses, 0 being the null pointer; the hash map is the list of its entries
  in traversal order, a new entry going where \<open>hash_place\<close> puts it; an
  iterator is the key it points at, or \<open>None\<close> for \<open>end()\<close>.
\<close>

section \<open>State\<close>

definition conn_clear_ratio :: nat where "conn_clear_ratio = 50"
definition conn_clear_min :: nat where "conn_clear_min = 1"
definition conn_clear_interval :: u64 where "conn_clear_interval = 1000"
definition server_conn_timeout :: u64 where "server_conn_timeout = conv_timeout + 60000"
definition server_handshake_timeout :: u64 where "server_handshake_timeout = 5000 + 5000"

record conn_mgr =
  ready_num :: u32
  const_id_mp :: "u32 \<rightharpoonup> nat"
  conn_mp :: "(address_t \<times> nat) list"
  clear_it :: "address_t option"
  cm_last_clear_time :: u64

definition conn_mgr_init :: conn_mgr where
  "conn_mgr_init = \<lparr> ready_num = 0, const_id_mp = Map.empty, conn_mp = [], clear_it = None,
     cm_last_clear_time = 0 \<rparr>"

text \<open>All the objects of a server; \<open>mem_conn\<close> and \<open>mem_blob\<close> are what fresh
  memory holds before a constructor runs.\<close>

record server =
  heap :: "nat \<rightharpoonup> u64 conn_info"
  next_ptr :: nat
  mgr :: conn_mgr
  fds :: fd_manager
  chn :: chan
  mem_conn :: "u64 conn_info"
  mem_blob :: "u64 blob"

type_synonym sworld = "server \<times> world"

section \<open>Operations\<close>

definition conn_exist :: "server \<Rightarrow> address_t \<Rightarrow> bool" where
  "conn_exist s addr = (map_of (conn_mp (mgr s)) addr \<noteq> None)"

definition mp_insert :: "vpn_conf \<Rightarrow> address_t \<Rightarrow> nat \<Rightarrow> (address_t \<times> nat) list \<Rightarrow> (address_t \<times> nat) list" where
  "mp_insert cf addr p mp =
     (let i = hash_place cf addr mp in take i mp @ (addr, p) # drop i mp)"

text \<open>\<open>find_insert\<close>; \<open>find_insert_p\<close> does the same and returns the slot.\<close>

definition find_insert :: "vpn_conf \<Rightarrow> address_t \<Rightarrow> sworld \<Rightarrow> (nat \<times> sworld) option" where
  "find_insert cf addr = (\<lambda>(s, w).
     case map_of (conn_mp (mgr s)) addr of
       Some p \<Rightarrow> Some (p, s, w)
     | None \<Rightarrow> do {
         (ci, w) \<leftarrow> conn_info_new (net_cf cf) (mem_conn s) w;
         let p = next_ptr s;
         Some (p, s \<lparr> heap := (heap s)(p \<mapsto> ci), next_ptr := next_ptr s + 1,
                      mgr := mgr s \<lparr> conn_mp := mp_insert cf addr p (conn_mp (mgr s)) \<rparr> \<rparr>, w)
       })"

text \<open>Assignment through the reference \<open>find_insert_p\<close> returns.\<close>

definition mp_assign :: "address_t \<Rightarrow> nat \<Rightarrow> (address_t \<times> nat) list \<Rightarrow> (address_t \<times> nat) list" where
  "mp_assign addr p mp = map (\<lambda>(a, q). (a, if a = addr then p else q)) mp"

definition mp_erase :: "address_t \<Rightarrow> (address_t \<times> nat) list \<Rightarrow> (address_t \<times> nat) list" where
  "mp_erase addr mp = filter (\<lambda>e. fst e \<noteq> addr) mp"

definition conn_erase :: "vpn_conf \<Rightarrow> address_t \<Rightarrow> sworld \<Rightarrow> sworld option" where
  "conn_erase cf addr = (\<lambda>(s, w).
     do {
       p \<leftarrow> map_of (conn_mp (mgr s)) addr;
       ci \<leftarrow> heap s p;
       let order = (case blob ci of None \<Rightarrow> [] | Some b \<Rightarrow> conv_order cf (conv_to_data (conv_mgr b)));
       (m, ci, fm, w) \<leftarrow>
         (if state ci = server_ready then do {
            let m = mgr s \<lparr> ready_num := ready_num (mgr s) - 1 \<rparr>;
            assert_c (ready_num m \<noteq> -1);
            assert_c (timer_fd64 ci \<noteq> 0);
            assert_c (fd64_exist (fds s) (timer_fd64 ci));
            assert_c (oppsite_const_id ci \<noteq> 0);
            assert_c (const_id_mp m (oppsite_const_id ci) \<noteq> None);
            let m = m \<lparr> const_id_mp := (const_id_mp m)(oppsite_const_id ci := None) \<rparr>;
            (fm, w) \<leftarrow> fd64_close (timer_fd64 ci) (fds s, w);
            Some (m, ci \<lparr> timer_fd64 := 0 \<rparr>, fm, w)
          }
          else do {
            assert_c (blob ci = None);
            assert_c (timer_fd64 ci = 0);
            assert_c (oppsite_const_id ci = 0);
            Some (mgr s, ci, fds s, w)
          });
       (fm, w) \<leftarrow> conn_info_delete order ci (fm, w);
       Some (s \<lparr> heap := (heap s)(p := None), mgr := m \<lparr> conn_mp := mp_erase addr (conn_mp m) \<rparr>, fds := fm \<rparr>, w)
     })"

text \<open>\<open>it++\<close>\<close>

definition next_key :: "address_t \<Rightarrow> (address_t \<times> nat) list \<Rightarrow> address_t option" where
  "next_key a mp = (case dropWhile (\<lambda>e. fst e \<noteq> a) mp of _ # e # _ \<Rightarrow> Some (fst e) | _ \<Rightarrow> None)"

text \<open>Whether the loop of \<open>clear_inactive0\<close> leaves a connection alone.\<close>

definition conn_kept :: "u64 \<Rightarrow> u64 conn_info \<Rightarrow> bool option" where
  "conn_kept current_time ci =
     (if state ci = server_ready \<and> current_time - last_hb_recv_time ci \<le> server_conn_timeout then Some True
      else if state ci \<noteq> server_ready \<and> current_time - last_state_time ci \<le> server_handshake_timeout then Some True
      else case blob ci of
        None \<Rightarrow> Some False
      | Some b \<Rightarrow>
          if conv_get_size (conv_mgr b) > 0
          then do { assert_c (state ci = server_ready); Some True }
          else Some False)"

fun conn_clear_loop :: "vpn_conf \<Rightarrow> u64 \<Rightarrow> nat \<Rightarrow> address_t option \<Rightarrow> sworld \<Rightarrow> (address_t option \<times> sworld) option" where
  "conn_clear_loop cf current_time 0 it st = Some (it, st)"
| "conn_clear_loop cf current_time (Suc n) it st =
     (let mp = conn_mp (mgr (fst st)) in
      if mp = [] then Some (it, st)
      else let a = (case it of None \<Rightarrow> fst (hd mp) | Some a \<Rightarrow> a) in
        do {
          p \<leftarrow> map_of mp a;
          ci \<leftarrow> heap (fst st) p;
          kept \<leftarrow> conn_kept current_time ci;
          st \<leftarrow> (if kept then Some st else conn_erase cf a st);
          conn_clear_loop cf current_time n (next_key a mp) st
        })"

definition conn_clear_inactive0 :: "vpn_conf \<Rightarrow> sworld \<Rightarrow> sworld option" where
  "conn_clear_inactive0 cf = (\<lambda>(s, w).
     do {
       let size = length (conn_mp (mgr s));
       let num_to_clean = min (size div conn_clear_ratio + conn_clear_min) size;
       let (current_time, w) = get_current_time w;
       (it, s, w) \<leftarrow> conn_clear_loop cf current_time num_to_clean (clear_it (mgr s)) (s, w);
       Some (s \<lparr> mgr := mgr s \<lparr> clear_it := it \<rparr> \<rparr>, w)
     })"

definition conn_clear_inactive :: "vpn_conf \<Rightarrow> sworld \<Rightarrow> sworld option" where
  "conn_clear_inactive cf = (\<lambda>(s, w).
     let (t, w) = get_current_time w in
     if t - cm_last_clear_time (mgr s) > conn_clear_interval
     then let (t, w) = get_current_time w
          in conn_clear_inactive0 cf (s \<lparr> mgr := mgr s \<lparr> cm_last_clear_time := t \<rparr> \<rparr>, w)
     else Some (s, w))"

section \<open>The invariant\<close>

definition conv_handles :: "u64 conn_info \<Rightarrow> u64 set" where
  "conv_handles ci = (case blob ci of None \<Rightarrow> {} | Some b \<Rightarrow> ran (conv_to_data (conv_mgr b)))"

text \<open>The handles a connection owns: its timer and the sockets of its
  conversations.\<close>

definition conn_handles :: "u64 conn_info \<Rightarrow> u64 set" where
  "conn_handles ci = (if state ci = server_ready then insert (timer_fd64 ci) (conv_handles ci) else {})"

definition conn_ok :: "world \<Rightarrow> (u32 \<rightharpoonup> nat) \<Rightarrow> nat \<Rightarrow> u64 conn_info \<Rightarrow> bool" where
  "conn_ok w cids p ci \<longleftrightarrow>
     (if state ci = server_ready
      then (\<exists>b. blob ci = Some b \<and> conv_inv w (conv_mgr b)) \<and> timer_fd64 ci \<noteq> 0 \<and>
        timer_fd64 ci \<notin> conv_handles ci \<and> oppsite_const_id ci \<noteq> 0 \<and> cids (oppsite_const_id ci) = Some p
      else blob ci = None \<and> timer_fd64 ci = 0 \<and> oppsite_const_id ci = 0)"

definition fds_ok :: "fd_manager \<Rightarrow> bool" where
  "fds_ok fm \<longleftrightarrow> (\<forall>h. fd64_exist fm h \<longrightarrow> h < counter fm) \<and> 0xFFFFFFFF < counter fm"

definition ptrs :: "server \<Rightarrow> nat set" where "ptrs s = snd ` set (conn_mp (mgr s))"

text \<open>The invariant, but for the iterator the cleaner keeps.\<close>

definition server_core :: "sworld \<Rightarrow> bool" where
  "server_core = (\<lambda>(s, w).
     distinct (map fst (conn_mp (mgr s))) \<and> distinct (map snd (conn_mp (mgr s))) \<and>
     (\<forall>p\<in>ptrs s. \<exists>ci. heap s p = Some ci \<and> conn_ok w (const_id_mp (mgr s)) p ci \<and>
        (\<forall>h\<in>conn_handles ci. fd64_exist (fds s) h \<and> fd_info_mp (fds s) h = Some p)) \<and>
     (\<forall>c p. const_id_mp (mgr s) c = Some p \<longrightarrow>
        p \<in> ptrs s \<and> (\<exists>ci. heap s p = Some ci \<and> state ci = server_ready \<and> oppsite_const_id ci = c)) \<and>
     unat (ready_num (mgr s)) = card (dom (const_id_mp (mgr s))) \<and>
     (\<forall>p. next_ptr s \<le> p \<longrightarrow> heap s p = None) \<and> 0 < next_ptr s \<and> 0 \<notin> ptrs s \<and> fds_ok (fds s))"

definition server_inv :: "sworld \<Rightarrow> bool" where
  "server_inv st \<longleftrightarrow> server_core st \<and>
     (clear_it (mgr (fst st)) = None \<or> the (clear_it (mgr (fst st))) \<in> fst ` set (conn_mp (mgr (fst st))))"

text \<open>The traversal of the conversation map visits exactly its data.\<close>

definition order_ok :: "vpn_conf \<Rightarrow> bool" where
  "order_ok cf \<longleftrightarrow> (\<forall>m. finite (dom m) \<longrightarrow> set (conv_order cf m) = ran m \<and> length (conv_order cf m) = card (dom m))"

lemma core_conn:
  assumes "server_core (s, w)" "p \<in> ptrs s"
  obtains ci where "heap s p = Some ci" "conn_ok w (const_id_mp (mgr s)) p ci"
    "\<forall>h\<in>conn_handles ci. fd64_exist (fds s) h \<and> fd_info_mp (fds s) h = Some p"
  using assms by (auto simp: server_core_def)

lemma mp_ptr: "map_of (conn_mp (mgr s)) a = Some p \<Longrightarrow> p \<in> ptrs s"
  by (auto simp: ptrs_def dest!: map_of_SomeD intro: rev_image_eqI)

lemma conn_ok_later:
  "conn_ok w cids p ci \<Longrightarrow> now_floor w \<le> now_floor w' \<Longrightarrow> conn_ok w' cids p ci"
  using conv_inv_later by (auto simp: conn_ok_def)

lemma core_later:
  "server_core (s, w) \<Longrightarrow> now_floor w \<le> now_floor w' \<Longrightarrow> server_core (s, w')"
  unfolding server_core_def using conn_ok_later by auto

lemma core_const:
  "server_core (s, w) \<Longrightarrow> const_id_mp (mgr s) c = Some p \<Longrightarrow>
     p \<in> ptrs s \<and> (\<exists>ci. heap s p = Some ci \<and> state ci = server_ready \<and> oppsite_const_id ci = c)"
  by (simp add: server_core_def)

lemma finite_const_ids: "server_core (s, w) \<Longrightarrow> finite (dom (const_id_mp (mgr s)))"
proof -
  assume c: "server_core (s, w)"
  have "inj_on (const_id_mp (mgr s)) (dom (const_id_mp (mgr s)))"
  proof (rule inj_onI)
    fix x y assume "x \<in> dom (const_id_mp (mgr s))" and eq: "const_id_mp (mgr s) x = const_id_mp (mgr s) y"
    then obtain p where p: "const_id_mp (mgr s) x = Some p" by blast
    show "x = y" using core_const[OF c p] core_const[OF c p[unfolded eq]] by auto
  qed
  moreover have "const_id_mp (mgr s) ` dom (const_id_mp (mgr s)) \<subseteq> Some ` ptrs s"
    using core_const[OF c] by auto
  moreover have "finite (ptrs s)" by (simp add: ptrs_def)
  ultimately show ?thesis by (metis finite_imageI finite_imageD finite_subset)
qed

lemma closed_info:
  "fd64_close h (fm, w) = Some (fm', w') \<Longrightarrow>
     (\<forall>k. k \<noteq> h \<longrightarrow> fd_info_mp fm' k = fd_info_mp fm k) \<and> now_floor w' = now_floor w"
  by (auto simp: fd64_close_def Let_def now_floor_def split: option.splits if_splits)

text \<open>Handles know their owner, so those of different connections differ.\<close>

lemma handles_apart:
  assumes "server_core (s, w)" "p \<in> ptrs s" "q \<in> ptrs s" "p \<noteq> q" "heap s p = Some ci" "heap s q = Some cj"
  shows "conn_handles ci \<inter> conn_handles cj = {}"
proof -
  have "\<forall>h\<in>conn_handles ci. fd_info_mp (fds s) h = Some p"
    using core_conn[OF assms(1,2)] assms(5) by (metis option.inject)
  moreover have "\<forall>h\<in>conn_handles cj. fd_info_mp (fds s) h = Some q"
    using core_conn[OF assms(1,3)] assms(6) by (metis option.inject)
  ultimately show ?thesis using assms(4) by auto
qed

lemma mp_erase_props:
  assumes "distinct (map fst mp)" "distinct (map snd mp)" "map_of mp a = Some p"
  shows "fst ` set (mp_erase a mp) = fst ` set mp - {a}" "snd ` set (mp_erase a mp) = snd ` set mp - {p}"
    "distinct (map fst (mp_erase a mp))" "distinct (map snd (mp_erase a mp))"
    "length (mp_erase a mp) = length mp - 1"
proof -
  have m: "(a, p) \<in> set mp" using assms(3) by (rule map_of_SomeD)
  show "fst ` set (mp_erase a mp) = fst ` set mp - {a}" by (auto simp: mp_erase_def)
  show "snd ` set (mp_erase a mp) = snd ` set mp - {p}"
  proof (intro set_eqI iffI)
    fix q assume "q \<in> snd ` set (mp_erase a mp)"
    then obtain b where b: "(b, q) \<in> set mp" "b \<noteq> a" by (auto simp: mp_erase_def)
    then have "q \<noteq> p" using assms(2) m by (fastforce simp: distinct_map inj_on_def)
    then show "q \<in> snd ` set mp - {p}" using b by (auto intro: rev_image_eqI)
  next
    fix q assume "q \<in> snd ` set mp - {p}"
    then obtain b where b: "(b, q) \<in> set mp" "q \<noteq> p" by auto
    then have "b \<noteq> a" using assms(1,3) by (auto simp: eq_key_imp_eq_value)
    then show "q \<in> snd ` set (mp_erase a mp)" using b by (auto simp: mp_erase_def intro: rev_image_eqI)
  qed
  show "distinct (map fst (mp_erase a mp))" "distinct (map snd (mp_erase a mp))"
    using assms(1,2) by (simp_all add: mp_erase_def distinct_map_filter)
  have "length (mp_erase a mp) = card (fst ` set mp - {a})"
    using distinct_card[of "map fst (mp_erase a mp)"] assms(1) \<open>fst ` set (mp_erase a mp) = _\<close>
    by (simp add: mp_erase_def distinct_map_filter)
  moreover have "card (fst ` set mp) = length mp" using distinct_card[OF assms(1)] by simp
  moreover have "a \<in> fst ` set mp" using m by (auto intro: rev_image_eqI)
  ultimately show "length (mp_erase a mp) = length mp - 1" by simp
qed

lemma core_remove:
  assumes core: "server_core (s, w)" and a: "map_of (conn_mp (mgr s)) a = Some p"
    and m: "conn_mp m' = mp_erase a (conn_mp (mgr s))"
      "\<forall>c q. const_id_mp m' c = Some q \<longleftrightarrow> const_id_mp (mgr s) c = Some q \<and> q \<noteq> p"
      "unat (ready_num m') = card (dom (const_id_mp m'))"
    and fm: "\<forall>q\<in>ptrs s - {p}. \<forall>ci. heap s q = Some ci \<longrightarrow>
        (\<forall>h\<in>conn_handles ci. fd64_exist fm' h \<and> fd_info_mp fm' h = Some q)" "fds_ok fm'"
    and w: "now_floor w \<le> now_floor w'"
  shows "server_core (s \<lparr> heap := (heap s)(p := None), mgr := m', fds := fm' \<rparr>, w')"
proof -
  let ?s = "s \<lparr> heap := (heap s)(p := None), mgr := m', fds := fm' \<rparr>"
  have d: "distinct (map fst (conn_mp (mgr s)))" "distinct (map snd (conn_mp (mgr s)))"
    using core by (simp_all add: server_core_def)
  note e = mp_erase_props[OF d a]
  have ps: "ptrs ?s = ptrs s - {p}" using e(2) m(1) by (simp add: ptrs_def)
  have conn: "\<exists>ci. heap ?s q = Some ci \<and> conn_ok w' (const_id_mp m') q ci \<and>
      (\<forall>h\<in>conn_handles ci. fd64_exist fm' h \<and> fd_info_mp fm' h = Some q)" if q: "q \<in> ptrs s - {p}" for q
  proof -
    obtain ci where ci: "heap s q = Some ci" "conn_ok w (const_id_mp (mgr s)) q ci"
      using core_conn[OF core] q by blast
    have "conn_ok w (const_id_mp m') q ci" using ci(2) m(2) q by (auto simp: conn_ok_def)
    then show ?thesis using ci(1) fm(1) q conn_ok_later[OF _ w] by auto
  qed
  have const: "q \<in> ptrs s - {p} \<and> (\<exists>ci. heap ?s q = Some ci \<and> state ci = server_ready \<and> oppsite_const_id ci = c)"
    if "const_id_mp m' c = Some q" for c q
    using that m(2) core_const[OF core, of c q] by auto
  have A: "\<forall>q\<in>ptrs s - {p}. \<exists>ci. heap ?s q = Some ci \<and> conn_ok w' (const_id_mp m') q ci \<and>
      (\<forall>h\<in>conn_handles ci. fd64_exist fm' h \<and> fd_info_mp fm' h = Some q)" using conn by blast
  have B: "\<forall>c q. const_id_mp m' c = Some q \<longrightarrow>
      q \<in> ptrs s - {p} \<and> (\<exists>ci. heap ?s q = Some ci \<and> state ci = server_ready \<and> oppsite_const_id ci = c)"
    using const by blast
  have "(\<forall>q\<ge>next_ptr s. heap s q = None) \<and> 0 < next_ptr s \<and> 0 \<notin> ptrs s" using core by (simp add: server_core_def)
  then show ?thesis
    unfolding server_core_def split_conv ps using m(1,3) e(3,4) A B fm(2) by (simp, metis option.distinct(1))
qed

lemma closed_others:
  assumes core: "server_core (s, w)" and p: "p \<in> ptrs s" "heap s p = Some ci" "h \<in> conn_handles ci"
    and c: "fd64_close h (fds s, w) = Some (fm', w')"
  shows "\<forall>q\<in>ptrs s - {p}. \<forall>cj. heap s q = Some cj \<longrightarrow>
      (\<forall>k\<in>conn_handles cj. fd64_exist fm' k \<and> fd_info_mp fm' k = Some q)"
    and "fds_ok fm'"
proof -
  note cd = fd64_closeD[OF c] and ci = closed_info[OF c]
  show "fds_ok fm'" using core cd by (simp add: server_core_def fds_ok_def)
  show "\<forall>q\<in>ptrs s - {p}. \<forall>cj. heap s q = Some cj \<longrightarrow>
      (\<forall>k\<in>conn_handles cj. fd64_exist fm' k \<and> fd_info_mp fm' k = Some q)"
  proof (intro ballI allI impI)
    fix q cj k assume q: "q \<in> ptrs s - {p}" and cj: "heap s q = Some cj" and k: "k \<in> conn_handles cj"
    have "k \<noteq> h" using handles_apart[OF core p(1) _ _ p(2) cj] q k p(3) by blast
    moreover obtain cj' where "heap s q = Some cj'"
      "\<forall>h\<in>conn_handles cj'. fd64_exist (fds s) h \<and> fd_info_mp (fds s) h = Some q"
      using core_conn[OF core] q by blast
    ultimately show "fd64_exist fm' k \<and> fd_info_mp fm' k = Some q" using cd ci cj k by simp
  qed
qed

lemma unat_dec: "(n :: u32) \<noteq> 0 \<Longrightarrow> unat (n - 1) = unat n - 1 \<and> n - 1 \<noteq> - 1"
proof -
  assume "n \<noteq> 0"
  then have "1 \<le> n" by (simp add: word_le_nat_alt unat_gt_0 Suc_le_eq)
  then have "unat (n - 1) = unat n - 1" using unat_diff[of 1 n] by simp
  moreover have "n - 1 \<noteq> - 1" using \<open>n \<noteq> 0\<close> by (metis add.left_neutral diff_add_cancel ab_left_minus)
  ultimately show ?thesis by blast
qed

lemma empty_convs:
  assumes "conv_inv w cm" "conv_get_size cm = 0" shows "conv_to_data cm = Map.empty"
proof -
  have "finite (dom (conv_to_data cm))" using assms(1) by (simp add: conv_inv_def)
  then show ?thesis using assms(2) by (simp add: conv_get_size_def)
qed

lemma conn_erase_ok:
  assumes core: "server_core (s, w)" and ord: "order_ok cf"
    and a: "map_of (conn_mp (mgr s)) a = Some p" and ci: "heap s p = Some ci"
    and idle: "\<forall>b. blob ci = Some b \<longrightarrow> conv_get_size (conv_mgr b) = 0"
  shows "\<exists>s' w'. conn_erase cf a (s, w) = Some (s', w') \<and> server_core (s', w') \<and>
    conn_mp (mgr s') = mp_erase a (conn_mp (mgr s)) \<and> clear_it (mgr s') = clear_it (mgr s) \<and>
    heap s' = (heap s)(p := None) \<and> now_floor w' = now_floor w \<and> counter (fds s') = counter (fds s)"
proof -
  have pp: "p \<in> ptrs s" by (rule mp_ptr[OF a])
  obtain ci' where ok: "conn_ok w (const_id_mp (mgr s)) p ci"
    and h: "\<forall>h\<in>conn_handles ci. fd64_exist (fds s) h \<and> fd_info_mp (fds s) h = Some p"
    using core_conn[OF core pp] ci by (metis option.inject)
  show ?thesis
  proof (cases "state ci = server_ready")
    case False
    then have f: "blob ci = None" "timer_fd64 ci = 0" "oppsite_const_id ci = 0" using ok by (simp_all add: conn_ok_def)
    let ?m = "mgr s \<lparr> conn_mp := mp_erase a (conn_mp (mgr s)) \<rparr>"
    have noid: "const_id_mp (mgr s) c \<noteq> Some p" for c
      using core_const[OF core, of c p] ci False by auto
    have e: "conn_erase cf a (s, w) = Some (s \<lparr> heap := (heap s)(p := None), mgr := ?m, fds := fds s \<rparr>, w)"
      using False a ci f by (simp add: conn_erase_def conn_delete_idle Let_def)
    have "server_core (s \<lparr> heap := (heap s)(p := None), mgr := ?m, fds := fds s \<rparr>, w)"
    proof (rule core_remove[OF core a])
      show "\<forall>c q. const_id_mp ?m c = Some q \<longleftrightarrow> const_id_mp (mgr s) c = Some q \<and> q \<noteq> p" using noid by auto
      show "\<forall>q\<in>ptrs s - {p}. \<forall>ci. heap s q = Some ci \<longrightarrow>
          (\<forall>h\<in>conn_handles ci. fd64_exist (fds s) h \<and> fd_info_mp (fds s) h = Some q)"
        using core_conn[OF core] by (metis DiffD1 option.inject)
    qed (use core in \<open>simp_all add: server_core_def\<close>)
    then show ?thesis using e by auto
  next
    case True
    then obtain b where b: "blob ci = Some b" "conv_inv w (conv_mgr b)" and t: "timer_fd64 ci \<noteq> 0"
      "oppsite_const_id ci \<noteq> 0" "const_id_mp (mgr s) (oppsite_const_id ci) = Some p"
      using ok by (auto simp: conn_ok_def)
    let ?c = "oppsite_const_id ci"
    have "conv_to_data (conv_mgr b) = Map.empty" using empty_convs b idle by blast
    then have ord0: "conv_order cf (conv_to_data (conv_mgr b)) = []"
      using ord by (auto simp: order_ok_def dest!: spec[of _ Map.empty])
    have th: "timer_fd64 ci \<in> conn_handles ci" using True by (simp add: conn_handles_def)
    obtain fm' w' where cl: "fd64_close (timer_fd64 ci) (fds s, w) = Some (fm', w')"
      using h th by (cases "fd64_close (timer_fd64 ci) (fds s, w)") (auto simp: fd64_close_def fd64_exist_def Let_def)
    have fin: "finite (dom (const_id_mp (mgr s)))" by (rule finite_const_ids[OF core])
    have rn: "unat (ready_num (mgr s)) = card (dom (const_id_mp (mgr s)))" using core by (simp add: server_core_def)
    have dc: "?c \<in> dom (const_id_mp (mgr s))" using t(3) by blast
    then have "ready_num (mgr s) \<noteq> 0" using rn fin by (metis card_gt_0_iff empty_iff unat_0 less_irrefl)
    note dec = unat_dec[OF this]
    let ?m = "mgr s \<lparr> ready_num := ready_num (mgr s) - 1, const_id_mp := (const_id_mp (mgr s))(?c := None),
        conn_mp := mp_erase a (conn_mp (mgr s)) \<rparr>"
    let ?s = "s \<lparr> heap := (heap s)(p := None), mgr := ?m, fds := fm' \<rparr>"
    have del: "conn_info_delete [] (ci \<lparr> timer_fd64 := 0 \<rparr>) (fm', w') = Some (fm', w')"
      by (rule conn_delete_ready) (simp_all add: True b t)
    have e: "conn_erase cf a (s, w) = Some (?s, w')"
      using True a ci b t h th dec cl ord0 del by (simp add: conn_erase_def Let_def)
    have "server_core (?s, w')"
    proof (rule core_remove[OF core a _ _ _ closed_others[OF core pp ci th cl]])
      show "\<forall>c q. const_id_mp ?m c = Some q \<longleftrightarrow> const_id_mp (mgr s) c = Some q \<and> q \<noteq> p"
      proof (intro allI)
        fix c q
        have "c = ?c" if "const_id_mp (mgr s) c = Some p" using core_const[OF core that] ci by auto
        then show "const_id_mp ?m c = Some q \<longleftrightarrow> const_id_mp (mgr s) c = Some q \<and> q \<noteq> p"
          using t(3) by (cases "c = ?c") auto
      qed
      show "unat (ready_num ?m) = card (dom (const_id_mp ?m))" using dec rn fin dc by simp
      show "now_floor w \<le> now_floor w'" using closed_info[OF cl] by simp
    qed simp
    then show ?thesis using e closed_info[OF cl] fd64_closeD[OF cl] by auto
  qed
qed

section \<open>The cleaner\<close>

lemma next_key_ok:
  assumes "distinct (map fst mp)" "a \<in> fst ` set mp"
  shows "next_key a mp = None \<or> (\<exists>b. next_key a mp = Some b \<and> b \<noteq> a \<and> b \<in> fst ` set mp)"
proof -
  let ?t = "dropWhile (\<lambda>e. fst e \<noteq> a) mp"
  have t: "set ?t \<subseteq> set mp" "distinct (map fst ?t)"
    using assms(1) set_dropWhileD[of _ "\<lambda>e. fst e \<noteq> a" mp] by (auto simp: distinct_map intro: inj_on_subset distinct_dropWhile)
  have "?t \<noteq> []" using assms(2) by (auto simp: dropWhile_eq_Nil_conv)
  moreover from this have "fst (hd ?t) = a" using hd_dropWhile[of "\<lambda>e. fst e \<noteq> a" mp] by simp
  ultimately obtain e r where er: "?t = e # r" "fst e = a" by (cases ?t) auto
  show ?thesis
  proof (cases r)
    case Nil
    then show ?thesis using er by (simp add: next_key_def)
  next
    case (Cons f r')
    then have "fst f \<noteq> a" "f \<in> set mp" using er t by auto
    then show ?thesis using er Cons by (auto simp: next_key_def)
  qed
qed

lemma conn_kept_total:
  assumes "conn_ok w cids p ci"
  obtains k where "conn_kept now ci = Some k"
    "k = False \<longrightarrow> (\<forall>b. blob ci = Some b \<longrightarrow> conv_get_size (conv_mgr b) = 0)"
proof (cases "state ci = server_ready")
  case True
  then obtain b where "blob ci = Some b" using assms by (auto simp: conn_ok_def)
  then show thesis using True that[of True] that[of False]
    by (cases "now - last_hb_recv_time ci \<le> server_conn_timeout"; cases "conv_get_size (conv_mgr b) > 0")
      (simp_all add: conn_kept_def)
next
  case False
  then have "blob ci = None" using assms by (simp add: conn_ok_def)
  then show thesis using False that[of True] that[of False]
    by (cases "now - last_state_time ci \<le> server_handshake_timeout") (simp_all add: conn_kept_def)
qed

definition iter_ok :: "address_t option \<Rightarrow> server \<Rightarrow> bool" where
  "iter_ok it s \<longleftrightarrow> it = None \<or> the it \<in> fst ` set (conn_mp (mgr s))"

lemma conn_clear_loop_ok:
  assumes "server_core (s, w)" "order_ok cf" "iter_ok it s"
  shows "\<exists>it' s' w'. conn_clear_loop cf now n it (s, w) = Some (it', s', w') \<and> server_core (s', w') \<and>
    iter_ok it' s' \<and> now_floor w' = now_floor w \<and> set (conn_mp (mgr s')) \<subseteq> set (conn_mp (mgr s)) \<and>
    length (conn_mp (mgr s)) \<le> length (conn_mp (mgr s')) + n \<and>
    (\<forall>p. heap s' p = heap s p \<or>
       heap s' p = None \<and> (\<exists>ci. heap s p = Some ci \<and> conn_kept now ci = Some False)) \<and>
    counter (fds s') = counter (fds s) \<and> (dom (heap s) \<subseteq> ptrs s \<longrightarrow> dom (heap s') \<subseteq> ptrs s')"
  using assms
proof (induction n arbitrary: s w it)
  case (Suc n)
  let ?mp = "conn_mp (mgr s)"
  show ?case
  proof (cases "?mp = []")
    case True
    then show ?thesis using Suc.prems by simp
  next
    case False
    define a where "a = (case it of None \<Rightarrow> fst (hd ?mp) | Some a \<Rightarrow> a)"
    have ain: "a \<in> fst ` set ?mp" using False Suc.prems(3) by (cases it) (auto simp: a_def iter_ok_def)
    then obtain p where p: "map_of ?mp a = Some p" by (metis map_of_eq_None_iff not_None_eq)
    have d: "distinct (map fst ?mp)" "distinct (map snd ?mp)" using Suc.prems(1) by (simp_all add: server_core_def)
    obtain ci where ci: "heap s p = Some ci" "conn_ok w (const_id_mp (mgr s)) p ci"
      by (rule core_conn[OF Suc.prems(1) mp_ptr[OF p]])
    obtain k where k: "conn_kept now ci = Some k"
      "k = False \<longrightarrow> (\<forall>b. blob ci = Some b \<longrightarrow> conv_get_size (conv_mgr b) = 0)"
      by (rule conn_kept_total[OF ci(2)])
    note nk = next_key_ok[OF d(1) ain]
    show ?thesis
    proof (cases k)
      case True
      have "iter_ok (next_key a ?mp) s" using nk by (elim disjE exE conjE) (simp_all add: iter_ok_def)
      from Suc.IH[OF Suc.prems(1,2) this]
      obtain it' s' w' where r: "conn_clear_loop cf now n (next_key a ?mp) (s, w) = Some (it', s', w')"
        "server_core (s', w')" "iter_ok it' s'" "now_floor w' = now_floor w" "set (conn_mp (mgr s')) \<subseteq> set ?mp"
        "length ?mp \<le> length (conn_mp (mgr s')) + n"
        "\<forall>p. heap s' p = heap s p \<or>
           heap s' p = None \<and> (\<exists>ci. heap s p = Some ci \<and> conn_kept now ci = Some False)"
        "counter (fds s') = counter (fds s)" "dom (heap s) \<subseteq> ptrs s \<longrightarrow> dom (heap s') \<subseteq> ptrs s'" by blast
      have "conn_clear_loop cf now (Suc n) it (s, w) = Some (it', s', w')"
        using False p ci k True r(1) by (simp add: Let_def a_def)
      then show ?thesis using r by auto
    next
      case ers: False
      have idle: "\<forall>b. blob ci = Some b \<longrightarrow> conv_get_size (conv_mgr b) = 0" using k(2) ers by blast
      obtain s1 w1 where e: "conn_erase cf a (s, w) = Some (s1, w1)" "server_core (s1, w1)"
        "conn_mp (mgr s1) = mp_erase a ?mp" "heap s1 = (heap s)(p := None)" "now_floor w1 = now_floor w" "counter (fds s1) = counter (fds s)"
        using conn_erase_ok[OF Suc.prems(1,2) p ci(1) idle] by blast
      note me = mp_erase_props[OF d p]
      have "iter_ok (next_key a ?mp) s1" using nk me(1) e(3) by (elim disjE exE conjE) (simp_all add: iter_ok_def)
      from Suc.IH[OF e(2) Suc.prems(2) this]
      obtain it' s' w' where r: "conn_clear_loop cf now n (next_key a ?mp) (s1, w1) = Some (it', s', w')"
        "server_core (s', w')" "iter_ok it' s'" "now_floor w' = now_floor w1"
        "set (conn_mp (mgr s')) \<subseteq> set (conn_mp (mgr s1))"
        "length (conn_mp (mgr s1)) \<le> length (conn_mp (mgr s')) + n"
        "\<forall>p. heap s' p = heap s1 p \<or>
           heap s' p = None \<and> (\<exists>ci. heap s1 p = Some ci \<and> conn_kept now ci = Some False)"
        "counter (fds s') = counter (fds s1)" "dom (heap s1) \<subseteq> ptrs s1 \<longrightarrow> dom (heap s') \<subseteq> ptrs s'" by blast
      have go: "conn_clear_loop cf now (Suc n) it (s, w) = Some (it', s', w')"
        using False p ci k ers r(1) e(1) by (simp add: Let_def a_def)
      have sub: "set (conn_mp (mgr s')) \<subseteq> set ?mp" using r(5) e(3) by (auto simp: mp_erase_def)
      have len: "length ?mp \<le> length (conn_mp (mgr s')) + Suc n" using r(6) e(3) me(5) by simp
      have hp: "heap s' q = heap s q \<or>
           heap s' q = None \<and> (\<exists>ci. heap s q = Some ci \<and> conn_kept now ci = Some False)" for q
        using r(7)[rule_format, of q] e(4) ci(1) k(1) ers by (cases "q = p") auto
      have "ptrs s1 = ptrs s - {p}" using me(2) e(3) by (simp add: ptrs_def)
      then have dh: "dom (heap s) \<subseteq> ptrs s \<longrightarrow> dom (heap s') \<subseteq> ptrs s'" using r(9) e(4) by auto
      show ?thesis using go r(2,3,4,8) e(5,6) sub len hp dh by auto
    qed
  qed
qed simp

lemma conn_clear_safe:
  assumes inv: "server_inv (s, w)" and ord: "order_ok cf"
  shows "\<exists>s' w' now. conn_clear_inactive cf (s, w) = Some (s', w') \<and> server_inv (s', w') \<and> now_floor w \<le> now \<and>
    now = time_readings 3 w ! 2 \<and> (time_readings 3 w ! 0 - cm_last_clear_time (mgr s) \<le> 1000 \<longrightarrow> s' = s) \<and>
    set (conn_mp (mgr s')) \<subseteq> set (conn_mp (mgr s)) \<and>
    length (conn_mp (mgr s)) \<le> length (conn_mp (mgr s')) + (length (conn_mp (mgr s)) div 50 + 1) \<and>
    (\<forall>p. heap s' p = heap s p \<or>
       heap s' p = None \<and> (\<exists>ci. heap s p = Some ci \<and>
         (if state ci = server_ready
          then now - last_hb_recv_time ci > 240000 \<and> (\<forall>b. blob ci = Some b \<longrightarrow> conv_get_size (conv_mgr b) = 0)
          else now - last_state_time ci > 10000))) \<and>
    counter (fds s') = counter (fds s) \<and> (dom (heap s) \<subseteq> ptrs s \<longrightarrow> dom (heap s') \<subseteq> ptrs s')"
proof -
  obtain t w1 where t: "get_current_time w = (t, w1)" by fastforce
  have tf: "now_floor w \<le> t" "now_floor w1 = t" using get_current_time_floor[OF t] by auto
  obtain t2 w2 where t2: "get_current_time w1 = (t2, w2)" by fastforce
  obtain now w3 where t3: "get_current_time w2 = (now, w3)" by fastforce
  have f: "t \<le> t2" "now_floor w2 = t2" "t2 \<le> now" "now_floor w3 = now"
    using get_current_time_floor[OF t2] get_current_time_floor[OF t3] tf by auto
  have tr: "time_readings 3 w = [t, t2, now]" by (rule time_readings_3[OF t t2 t3])
  have nw: "now_floor w \<le> now" using f tf by (meson order_trans)
  have core1: "server_core (s, w1)" using inv core_later[of s w w1] tf by (simp add: server_inv_def)
  show ?thesis
  proof (cases "t - cm_last_clear_time (mgr s) > conn_clear_interval")
    case False
    have "conn_clear_inactive cf (s, w) = Some (s, w1)" using False t by (simp add: conn_clear_inactive_def)
    then show ?thesis using core1 inv nw
      by (intro exI[of _ s] exI[of _ w1] exI[of _ now]) (simp add: server_inv_def tr)
  next
    case True
    let ?s = "s \<lparr> mgr := mgr s \<lparr> cm_last_clear_time := t2 \<rparr> \<rparr>"
    let ?mp = "conn_mp (mgr s)"
    have "server_core (s, w3)" using core_later[OF core1] f tf by (meson order_trans)
    then have core3: "server_core (?s, w3)" by (simp add: server_core_def ptrs_def)
    have it: "iter_ok (clear_it (mgr s)) ?s" using inv by (simp add: iter_ok_def server_inv_def)
    let ?n = "min (length ?mp div 50 + 1) (length ?mp)"
    have ps: "ptrs ?s = ptrs s" by (simp add: ptrs_def)
    obtain it' s' w' where r: "conn_clear_loop cf now ?n (clear_it (mgr s)) (?s, w3) = Some (it', s', w')"
      "server_core (s', w')" "iter_ok it' s'" "set (conn_mp (mgr s')) \<subseteq> set ?mp"
      "length ?mp \<le> length (conn_mp (mgr s')) + ?n"
      "\<forall>p. heap s' p = heap s p \<or>
           heap s' p = None \<and> (\<exists>ci. heap s p = Some ci \<and> conn_kept now ci = Some False)"
      "counter (fds s') = counter (fds s)" "dom (heap s) \<subseteq> ptrs s \<longrightarrow> dom (heap s') \<subseteq> ptrs s'"
      using conn_clear_loop_ok[OF core3 ord it, of now ?n] ps by (simp del: min_def) blast
    let ?e = "s' \<lparr> mgr := mgr s' \<lparr> clear_it := it' \<rparr> \<rparr>"
    have run: "conn_clear_inactive cf (s, w) = Some (?e, w')"
      using True t t2 t3 r(1)
      by (simp add: conn_clear_inactive_def conn_clear_inactive0_def conn_clear_ratio_def conn_clear_min_def Let_def)
    have inv': "server_inv (?e, w')" using r(2,3) by (simp add: server_inv_def server_core_def ptrs_def iter_ok_def)
    have why: "if state ci = server_ready
          then now - last_hb_recv_time ci > 240000 \<and> (\<forall>b. blob ci = Some b \<longrightarrow> conv_get_size (conv_mgr b) = 0)
          else now - last_state_time ci > 10000" if "conn_kept now ci = Some False" for ci
      using that by (auto simp: conn_kept_def server_conn_timeout_def conv_timeout_def server_handshake_timeout_def
          not_le guard_simps split: if_splits option.splits)
    show ?thesis
    proof (intro exI[of _ ?e] exI[of _ w'] exI[of _ now] conjI)
      show "now_floor w \<le> now" by (rule nw)
      show "now = time_readings 3 w ! 2" "time_readings 3 w ! 0 - cm_last_clear_time (mgr s) \<le> 1000 \<longrightarrow> ?e = s"
        using True by (simp_all add: tr conn_clear_interval_def not_le[symmetric])
      show "length ?mp \<le> length (conn_mp (mgr ?e)) + (length ?mp div 50 + 1)" using r(5) by simp
      show "\<forall>p. heap ?e p = heap s p \<or>
       heap ?e p = None \<and> (\<exists>ci. heap s p = Some ci \<and>
         (if state ci = server_ready
          then now - last_hb_recv_time ci > 240000 \<and> (\<forall>b. blob ci = Some b \<longrightarrow> conv_get_size (conv_mgr b) = 0)
          else now - last_state_time ci > 10000))"
      proof
        fix p show "heap ?e p = heap s p \<or>
         heap ?e p = None \<and> (\<exists>ci. heap s p = Some ci \<and>
         (if state ci = server_ready
          then now - last_hb_recv_time ci > 240000 \<and> (\<forall>b. blob ci = Some b \<longrightarrow> conv_get_size (conv_mgr b) = 0)
          else now - last_state_time ci > 10000))"
        proof (cases "heap ?e p = heap s p")
          case False
          then obtain ci where "heap s' p = None" "heap s p = Some ci" "conn_kept now ci = Some False"
            using r(6)[rule_format, of p] by auto
          then show ?thesis using why[of ci] by (intro disjI2 conjI exI[of _ ci]) simp_all
        qed blast
      qed
    qed (use run inv' r(4,7,8) in \<open>simp_all add: ptrs_def\<close>)
  qed
qed

text \<open>C3. The cleaner of the server's connections: in a consistent state it
  fails none of its assertions and nothing is closed twice; the state stays
  consistent (the same number of ready connections as constant identifiers,
  every handle open, owned by one connection and known under it, the kept
  iterator valid). Within a second of the last round it does nothing. A round removes at
  most a fiftieth of the connections plus one, and only connections that, at the third
  reading of the clock in the round, were idle too long: a ready one without
  conversations and without a heartbeat for more than 240 seconds, or one that did not
  finish its handshake in 10 seconds.\<close>

theorem conn_cleaner_safe:
  assumes inv: "server_inv (s, w)" and ord: "order_ok cf"
  shows "let t = time_readings 3 w; now = t ! 2 in \<exists>s' w'. conn_clear_inactive cf (s, w) = Some (s', w') \<and> server_inv (s', w') \<and>
    (t ! 0 - cm_last_clear_time (mgr s) \<le> 1000 \<longrightarrow> s' = s) \<and>
    set (conn_mp (mgr s')) \<subseteq> set (conn_mp (mgr s)) \<and>
    length (conn_mp (mgr s)) \<le> length (conn_mp (mgr s')) + (length (conn_mp (mgr s)) div 50 + 1) \<and>
    (\<forall>p. heap s' p = heap s p \<or>
       heap s' p = None \<and> (\<exists>ci. heap s p = Some ci \<and>
         (if state ci = server_ready
          then now - last_hb_recv_time ci > 240000 \<and> (\<forall>b. blob ci = Some b \<longrightarrow> conv_get_size (conv_mgr b) = 0)
          else now - last_state_time ci > 10000)))"
  unfolding Let_def using conn_clear_safe[OF assms] by blast

text \<open>An example: one handshake that was left unfinished.\<close>

definition all_u32 :: "u32 list" where "all_u32 = map word_of_nat [0..<2 ^ LENGTH(32)]"

lemma word_of_nat_inj32: "(word_of_nat x :: u32) = word_of_nat y \<Longrightarrow> x < 4294967296 \<Longrightarrow> y < 4294967296 \<Longrightarrow> x = y"
  by (drule arg_cong[of _ _ unat], subst (asm) (1 2) unat_of_nat) simp

lemma all_u32: "set all_u32 = UNIV" "distinct all_u32"
proof -
  have "x \<in> set all_u32" for x
    unfolding all_u32_def set_map set_upt
    using unsigned_less[of x, where ?'a = nat] by (intro image_eqI[of _ _ "unat x"]) simp_all
  then show "set all_u32 = UNIV" by blast
  show "distinct all_u32"
    unfolding all_u32_def distinct_map set_upt by (auto intro!: inj_onI dest: word_of_nat_inj32)
qed

definition example_order :: "(u32 \<rightharpoonup> u64) \<Rightarrow> u64 list" where
  "example_order m = map (\<lambda>c. the (m c)) (filter (\<lambda>c. m c \<noteq> None) all_u32)"

lemma example_order_ok: "set (example_order m) = ran m" "length (example_order m) = card (dom m)"
proof -
  have f: "set (filter (\<lambda>c. m c \<noteq> None) all_u32) = dom m" by (auto simp: all_u32)
  show "set (example_order m) = ran m" by (force simp: example_order_def all_u32 ran_def)
  show "length (example_order m) = card (dom m)"
    using distinct_card[of "filter (\<lambda>c. m c \<noteq> None) all_u32"] f all_u32(2) by (simp add: example_order_def)
qed

definition example_srv_conf :: vpn_conf where
  "example_srv_conf = example_peer \<lparr> conv_order := example_order \<rparr>"

definition example_peer_addr :: address_t where "example_peer_addr = sockaddr_in 1000 [10, 0, 0, 1]"

definition example_server :: server where
  "example_server = \<lparr> heap = [1 \<mapsto> example_conn \<lparr> state := server_handshake1, blob := None, last_state_time := -20000 \<rparr>],
     next_ptr = 2, mgr = conn_mgr_init \<lparr> conn_mp := [(example_peer_addr, 1)], cm_last_clear_time := -5000 \<rparr>,
     fds = fd_manager_init, chn = example_chan, mem_conn = example_conn, mem_blob = example_blob \<rparr>"

lemma example_order_conf: "order_ok example_srv_conf"
  by (simp add: order_ok_def example_srv_conf_def example_order_ok)

lemma example_server_inv: "server_inv (example_server, example_world)"
  by (auto simp: server_inv_def server_core_def example_server_def conn_mgr_init_def ptrs_def conn_ok_def
      conn_handles_def example_conn_def fds_ok_def fd_manager_init_def fd64_exist_def)

lemma conn_cleaner_safe_witness:
  "\<exists>s' w'. conn_clear_inactive example_srv_conf (example_server, example_world) = Some (s', w') \<and> server_inv (s', w') \<and>
    set (conn_mp (mgr s')) \<subseteq> {(example_peer_addr, 1)} \<and> 1 \<le> length (conn_mp (mgr s')) + (1 div 50 + 1)"
  using conn_cleaner_safe[OF example_server_inv example_order_conf]
  by (simp add: example_server_def conn_mgr_init_def Let_def) blast
end
