(* ===== verification/Sockets.thy ===== *)
theory Sockets
  imports ConnInfo
begin

text \<open>
  How the program sets up the sockets it works on (network.cpp and misc.cpp,
  Linux build): finding the source address of a route, binding a free port, the
  packet filters of the sniffing socket, the timers, the link layer addresses.
  Every system call is logged in the environment and its result read from it.
\<close>

section \<open>The source address and a free port\<close>

definition SOCK_STREAM :: int where "SOCK_STREAM = 1"
definition SOCK_DGRAM :: int where "SOCK_DGRAM = 2"

text \<open>\<open>getsockname\<close> writes over the address it is given.\<close>

definition get_src_adress2 :: "vpn_conf \<Rightarrow> address_t \<Rightarrow> address_t \<Rightarrow> world \<Rightarrow> (int \<times> address_t \<times> world) option" where
  "get_src_adress2 cf output_addr dest_addr w =
     do {
       (new_udp_fd, w) \<leftarrow> new_connected_udp_fd (force_socket_buf cf) (socket_buf_size cf) dest_addr w;
       (if new_udp_fd < 0 then Some (-1, output_addr, w)
        else do {
          let out = (case sys_out w (sys_i w) of [] \<Rightarrow> [] | b # _ \<Rightarrow> take 28 b);
          let (r, w) = syscall (SysGetsockname new_udp_fd) w;
          let output_addr = (if r = 0 then out @ drop (length out) output_addr else output_addr);
          (if r \<noteq> 0 then let (_, w) = syscall (SysClose new_udp_fd) w in Some (-1, output_addr, w)
           else do {
             t \<leftarrow> addr_get_type output_addr;
             t' \<leftarrow> addr_get_type dest_addr;
             assert_c (t = t');
             let (_, w) = syscall (SysClose new_udp_fd) w;
             Some (0, output_addr, w)
           })
        })
     }"

definition try_to_list_and_bind2 :: "vpn_conf \<Rightarrow> int \<Rightarrow> address_t \<Rightarrow> world \<Rightarrow> (int \<times> int \<times> world) option" where
  "try_to_list_and_bind2 cf fd address w =
     do {
       let w = (if fd \<noteq> -1 then snd (syscall (SysClose fd) w) else w);
       type \<leftarrow> addr_get_type address;
       let (fd, w) =
         (case raw_mode (net_cf cf) of
            mode_faketcp \<Rightarrow> syscall (SysSocketType type SOCK_STREAM) w
          | mode_udp \<Rightarrow> syscall (SysSocketType type SOCK_DGRAM) w
          | mode_icmp \<Rightarrow> syscall (SysSocketType type SOCK_DGRAM) w
          | mode_end \<Rightarrow> (fd, w));
       (if fd = -1 then Some (-1, fd, w)
        else do {
          len \<leftarrow> addr_get_len address;
          let (r, w) = syscall (SysBind fd (take len address)) w;
          (if r \<noteq> 0 then Some (-1, fd, w)
           else if raw_mode (net_cf cf) = mode_faketcp \<and> use_tcp_dummy_socket cf = 0 then
             let (r, w) = syscall (SysListen fd) w
             in Some (if r \<noteq> 0 then -1 else 0, fd, w)
           else Some (0, fd, w))
        })
     }"

text \<open>The loop of \<open>client_bind_to_a_new_port2\<close> with \<open>n\<close> attempts left; the process
  exits when none is.\<close>

fun bind_attempts :: "vpn_conf \<Rightarrow> nat \<Rightarrow> address_t \<Rightarrow> int \<Rightarrow> world \<Rightarrow> (int \<times> int \<times> world) option" where
  "bind_attempts cf 0 tmp fd w = None"
| "bind_attempts cf (Suc n) tmp fd w =
     do {
       (rnd, w) \<leftarrow> get_true_random_number w;
       let raw_send_port = 10000 + int (unat (rnd mod (65535 - 10000)));
       tmp \<leftarrow> addr_set_port tmp raw_send_port;
       (r, fd, w) \<leftarrow> try_to_list_and_bind2 cf fd tmp w;
       (if r = 0 then Some (raw_send_port, fd, w) else bind_attempts cf n tmp fd w)
     }"

definition client_bind_to_a_new_port2 :: "vpn_conf \<Rightarrow> int \<Rightarrow> address_t \<Rightarrow> world \<Rightarrow> (int \<times> int \<times> world) option" where
  "client_bind_to_a_new_port2 cf fd address w = bind_attempts cf 1000 address fd w"

section \<open>Packet filters\<close>

text \<open>Programs for the filter machine of the kernel: operation, jump offsets,
  constant. The entry that tests the port gets the port.\<close>

type_synonym sock_filter = "nat \<times> nat \<times> nat \<times> u32"

definition code_tcp :: "u32 \<Rightarrow> sock_filter list" where
  "code_tcp k = [(0x30, 0, 0, 0x00000009), (0x15, 0, 6, 0x00000006), (0x28, 0, 0, 0x00000006),
     (0x45, 4, 0, 0x00001fff), (0xb1, 0, 0, 0x00000000), (0x48, 0, 0, 0x00000002), (0x15, 0, 1, k),
     (0x6, 0, 0, 0x0000ffff), (0x6, 0, 0, 0x00000000)]"

definition code_tcp6 :: "u32 \<Rightarrow> sock_filter list" where
  "code_tcp6 k = [(0x30, 0, 0, 0x00000006), (0x15, 0, 3, 0x00000006), (0x28, 0, 0, 0x0000002a),
     (0x15, 0, 1, k), (0x6, 0, 0, 0x00040000), (0x6, 0, 0, 0x00000000)]"

definition code_udp :: "u32 \<Rightarrow> sock_filter list" where
  "code_udp k = [(0x30, 0, 0, 0x00000009), (0x15, 0, 6, 0x00000011), (0x28, 0, 0, 0x00000006),
     (0x45, 4, 0, 0x00001fff), (0xb1, 0, 0, 0x00000000), (0x48, 0, 0, 0x00000002), (0x15, 0, 1, k),
     (0x6, 0, 0, 0x0000ffff), (0x6, 0, 0, 0x00000000)]"

definition code_udp6 :: "u32 \<Rightarrow> sock_filter list" where
  "code_udp6 k = [(0x30, 0, 0, 0x00000006), (0x15, 0, 3, 0x00000011), (0x28, 0, 0, 0x0000002a),
     (0x15, 0, 1, k), (0x6, 0, 0, 0x00040000), (0x6, 0, 0, 0x00000000)]"

definition code_icmp :: "sock_filter list" where
  "code_icmp = [(0x30, 0, 0, 0x00000009), (0x15, 0, 1, 0x00000001), (0x6, 0, 0, 0x0000ffff),
     (0x6, 0, 0, 0x00000000)]"

definition code_icmp6 :: "sock_filter list" where
  "code_icmp6 = [(0x30, 0, 0, 0x00000006), (0x15, 3, 0, 0x0000003a), (0x15, 0, 3, 0x0000002c),
     (0x30, 0, 0, 0x00000028), (0x15, 0, 1, 0x0000003a), (0x6, 0, 0, 0x00040000), (0x6, 0, 0, 0x00000000)]"

text \<open>The result is the new value of the global \<open>filter_port\<close>.\<close>

definition init_filter :: "vpn_conf \<Rightarrow> int \<Rightarrow> int \<Rightarrow> world \<Rightarrow> (int \<times> world) option" where
  "init_filter cf port fport w =
     do {
       let v4 = (raw_ip_version (net_cf cf) = AF_INET);
       assert_c (v4 \<or> raw_ip_version (net_cf cf) = AF_INET6);
       let fport = (if raw_mode (net_cf cf) = mode_faketcp \<or> raw_mode (net_cf cf) = mode_udp
                          then port else fport);
       (if disable_bpf_filter cf \<noteq> 0 then Some (fport, w)
        else do {
          let k = (word_of_int port :: u32);
          bpf \<leftarrow> (case raw_mode (net_cf cf) of
                    mode_faketcp \<Rightarrow> Some (if v4 then code_tcp k else code_tcp6 k)
                  | mode_udp \<Rightarrow> Some (if v4 then code_udp k else code_udp6 k)
                  | mode_icmp \<Rightarrow> Some (if v4 then code_icmp else code_icmp6)
                  | mode_end \<Rightarrow> None);
          let (_, w) = syscall (SysSetsockopt (raw_recv_fd cf) ''SO_DETACH_FILTER'' 0) w;
          let (r, w) = syscall (SysAttachFilter (raw_recv_fd cf) bpf) w;
          assert_c (r = 0);
          Some (fport, w)
        })
     }"

definition remove_filter :: "vpn_conf \<Rightarrow> world \<Rightarrow> int \<times> world" where
  "remove_filter cf w = (0, snd (syscall (SysSetsockopt (raw_recv_fd cf) ''SO_DETACH_FILTER'' 0) w))"

section \<open>Interfaces and link addresses\<close>

text \<open>\<open>ioctl\<close> stores the index in the request structure; names longer than its
  field and a failing call end the process.\<close>

definition init_ifindex :: "string \<Rightarrow> int \<Rightarrow> world \<Rightarrow> (int \<times> world) option" where
  "init_ifindex if_name fd w =
     do {
       assert_c (length if_name < 16);
       let out = (case sys_out w (sys_i w) of [] \<Rightarrow> [] | b # _ \<Rightarrow> b);
       let (r, w) = syscall (SysIoctl fd ''SIOCGIFINDEX'' if_name) w;
       assert_c (r \<noteq> -1);
       Some (sint (of_be32 (rev (take 4 out))), w)
     }"

text \<open>The image of a \<open>sockaddr_ll\<close>: family, protocol, interface, hardware type,
  packet type, address length, address.\<close>

definition sockaddr_ll_manual :: "int \<Rightarrow> bytes \<Rightarrow> bytes" where
  "sockaddr_ll_manual index hw =
     rev (be16 17) @ be16 0x0800 @ rev (be32 (word_of_int index)) @ [0, 0, 0, 6] @ take 6 hw @ [0, 0]"

definition handle_lower_level :: "vpn_conf \<Rightarrow> raw_info \<Rightarrow> raw_info" where
  "handle_lower_level cf ri =
     (let ll = (if lower_level_manual cf \<noteq> 0 then sockaddr_ll_manual (ifindex cf) (dest_hw_addr cf)
                else let l = addr_ll (recv_info ri) in take 8 l @ [0, 0, 0] @ drop 11 l)
      in ri \<lparr> send_info := send_info ri \<lparr> addr_ll := ll \<rparr> \<rparr>)"

section \<open>Timers\<close>

definition timer_interval :: int where "timer_interval = 400"

definition set_timer :: "vpn_conf \<Rightarrow> world \<Rightarrow> (int \<times> world) option" where
  "set_timer cf w =
     do {
       let (timer_fd, w) = syscall SysTimerfdCreate w;
       assert_c (timer_fd \<ge> 0);
       let (_, w) = syscall (SysTimerfdSettime timer_fd timer_interval) w;
       let (ret, w) = syscall (SysEpollAdd (epollfd cf) timer_fd (word_of_int timer_fd)) w;
       assert_c (ret \<ge> 0);
       Some (timer_fd, w)
     }"

definition set_timer_server :: "vpn_conf \<Rightarrow> fd_manager \<times> world \<Rightarrow> (u64 \<times> fd_manager \<times> world) option" where
  "set_timer_server cf = (\<lambda>(fm, w).
     do {
       let (timer_fd, w) = syscall SysTimerfdCreate w;
       assert_c (timer_fd \<ge> 0);
       let (_, w) = syscall (SysTimerfdSettime timer_fd timer_interval) w;
       (fd64, fm) \<leftarrow> fd_create timer_fd fm;
       let (ret, w) = syscall (SysEpollAdd (epollfd cf) timer_fd fd64) w;
       assert_c (ret \<ge> 0);
       Some (fd64, fm, w)
     })"

end
