(* ===== verification/ChanFrame.thy ===== *)
theory ChanFrame
  imports Safer Sockets
begin

text \<open>
  What the operations of the channel leave alone. \<open>later\<close> relates two states of
  the environment when the program has run in between: the clock has not gone
  back, calls have been appended to the log and the outside world is the same.
  \<open>only_channel\<close> says that of a connection only the raw socket records, the
  replay window and the rollers may have changed.
\<close>

section \<open>The environment\<close>

definition later :: "world \<Rightarrow> world \<Rightarrow> bool" where
  "later w w' \<longleftrightarrow> now_floor w \<le> now_floor w' \<and> (\<exists>l. sys_log w' = sys_log w @ l) \<and>
     sys_i w \<le> sys_i w' \<and> rand_i w \<le> rand_i w' \<and>
     rand_read w' = rand_read w \<and> raw_time w' = raw_time w \<and> sys_ret w' = sys_ret w \<and> sys_out w' = sys_out w"

named_theorems later_steps \<open>each operation leads to a later environment\<close>

lemma later_refl [simp, later_steps]: "later w w"
  by (simp add: later_def)

lemma later_trans [trans]: "later w w' \<Longrightarrow> later w' w'' \<Longrightarrow> later w w''"
  by (auto simp: later_def)

lemma later_floor: "later w w' \<Longrightarrow> now_floor w \<le> now_floor w'"
  by (simp add: later_def)

lemma later_syscall [later_steps]: "syscall op w = (r, w') \<Longrightarrow> later w w'"
  by (auto simp: later_def syscall_def now_floor_def)

lemma later_syscall' [simp]: "later w (snd (syscall op w))"
  by (auto simp: later_def syscall_def now_floor_def)

lemma get_current_time_outside:
  "get_current_time w = (t, w') \<Longrightarrow> sys_log w' = sys_log w \<and> sys_i w' = sys_i w \<and> rand_i w' = rand_i w \<and>
     rand_read w' = rand_read w \<and> raw_time w' = raw_time w \<and> sys_ret w' = sys_ret w \<and> sys_out w' = sys_out w"
  by (auto simp: get_current_time_def get_current_time_us_def Let_def)

lemma later_time [later_steps]: "get_current_time w = (t, w') \<Longrightarrow> later w w'"
  using get_current_time_floor[of w t w'] get_current_time_outside[of w t w'] by (auto simp: later_def)

lemma later_rand [later_steps]: "get_true_random_number w = Some (r, w') \<Longrightarrow> later w w'"
  by (auto dest!: rand_other simp: later_def now_floor_def)

lemma later_rand64 [later_steps]: "get_true_random_number_64 w = Some (r, w') \<Longrightarrow> later w w'"
  by (auto simp: get_true_random_number_64_def Let_def later_def now_floor_def split: if_splits)

lemma later_rand_nz [later_steps]:
  assumes "get_true_random_number_nz w = Some (r, w')" shows "later w w'"
proof -
  have "later w (snd rw)" if "get_true_random_number_nz w = Some rw" for w rw
  proof (rule get_true_random_number_nz.raw_induct[OF _ that, where P = "\<lambda>w rw. later w (snd rw)"])
    fix f w y
    assume IH: "\<And>x z. f x = Some z \<Longrightarrow> later x (snd z)"
      and eq: "Option.bind (get_true_random_number w)
           (\<lambda>rw. if fst rw = 0 then f (snd rw) else Some rw) = Some y"
    obtain s v where s: "get_true_random_number w = Some (s, v)"
      and f: "(if s = 0 then f v else Some (s, v)) = Some y"
      using eq by (cases "get_true_random_number w") (auto split: if_splits)
    show "later w (snd y)"
      using later_rand[OF s] IH[of v y] f later_trans by (cases "s = 0") auto
  qed
  from this[OF assms] show ?thesis by simp
qed

section \<open>Sending\<close>

lemma later_packet [later_steps]: "send_raw_packet cf ri p w = Some (rc, w') \<Longrightarrow> later w w'"
  by (auto simp: send_raw_packet_def Let_def elim!: bind_eq_SomeE dest!: later_syscall split: prod.splits)

lemma later_ip [later_steps]: "send_raw_ip cf ri p (nt, w) = Some (rc, nt', w') \<Longrightarrow> later w w'"
  by (auto simp: send_raw_ip_def Let_def elim!: bind_eq_SomeE dest!: later_packet split: if_splits prod.splits)

lemma later_tcp [later_steps]:
  assumes "send_raw_tcp cf ri p (nt, w) = Some (rc, ri', nt', w')" shows "later w w'"
proof -
  obtain t w1 where t: "get_current_time w = (t, w1)" by fastforce
  then obtain r w2 q st where "get_true_random_number w1 = Some (r, w2)"
    and ip: "send_raw_ip cf ri q (nt, w2) = Some st" "w' = snd (snd st)"
    using assms by (auto simp: send_raw_tcp_def Let_def elim!: bind_eq_SomeE split: if_splits)
  moreover have "later w2 w'" using ip later_ip by (metis prod.collapse)
  ultimately show ?thesis using later_time[OF t] later_rand later_trans by blast
qed

lemma later_udp [later_steps]: "send_raw_udp cf ri p (nt, w) = Some (rc, nt', w') \<Longrightarrow> later w w'"
  by (auto simp: send_raw_udp_def Let_def elim!: bind_eq_SomeE dest!: later_ip split: if_splits)

lemma later_icmp [later_steps]: "send_raw_icmp cf ri p (nt, w) = Some (rc, nt', w') \<Longrightarrow> later w w'"
  by (auto simp: send_raw_icmp_def Let_def elim!: bind_eq_SomeE dest!: later_ip split: if_splits)

lemma later_send_raw0 [later_steps]:
  assumes "send_raw0 cf ri p (nt, w) = Some (rc, ri', nt', w')" shows "later w w'"
proof -
  obtain d w1 where d: "(if random_drop cf \<noteq> 0 then do {
      (r, w) \<leftarrow> get_true_random_number w; Some (r mod 10000 < word_of_int (random_drop cf), w)
    } else Some (False, w)) = Some (d, w1)"
    using assms by (auto simp: send_raw0_def elim!: bind_eq_SomeE)
  have "later w w1" using d by (auto split: if_splits elim!: bind_eq_SomeE dest!: later_rand)
  moreover have "later w1 w'"
    using assms unfolding send_raw0_def split d
    by (auto split: if_splits raw_mode_t.splits dest!: later_tcp later_udp later_icmp)
  ultimately show ?thesis by (rule later_trans)
qed

lemma later_after_send [later_steps]: "after_send_raw0 cf ri w = Some (rc, ri', w') \<Longrightarrow> later w w'"
  by (auto simp: after_send_raw0_def Let_def elim!: bind_eq_SomeE dest!: later_rand split: if_splits prod.splits)

lemma later_send_bare [later_steps]:
  assumes "send_bare cf ri d (ch, w) = Some (rc, ri', ch', w')" shows "later w w'"
proof -
  obtain iv w1 pad w2 where r: "get_true_random_number_64 w = Some (iv, w1)" "get_true_random_number_64 w1 = Some (pad, w2)"
    using assms by (auto simp: send_bare_def elim!: bind_eq_SomeE)
  have "later w2 w'"
    using assms r by (auto simp: send_bare_def Let_def elim!: bind_eq_SomeE split: if_splits dest!: later_send_raw0)
  then show ?thesis using r later_rand64 later_trans by blast
qed

lemma later_send_handshake [later_steps]:
  "send_handshake cf ri a b c (ch, w) = Some (rc, ri', ch', w') \<Longrightarrow> later w w'"
  by (auto simp: send_handshake_def elim!: bind_eq_SomeE dest!: later_send_bare)

section \<open>Addresses and ports\<close>

text \<open>Both packet records still name the same two ends.\<close>

definition ends_of :: "packet_info \<Rightarrow> my_ip_t \<times> my_ip_t \<times> u16 \<times> u16" where
  "ends_of i = (new_src_ip i, new_dst_ip i, src_port i, dst_port i)"

definition peer_same :: "raw_info \<Rightarrow> raw_info \<Rightarrow> bool" where
  "peer_same ri ri' \<longleftrightarrow> ends_of (send_info ri') = ends_of (send_info ri) \<and>
     ends_of (recv_info ri') = ends_of (recv_info ri) \<and> disabled ri' = disabled ri"

lemma peer_same_refl [simp]: "peer_same ri ri"
  by (simp add: peer_same_def)

lemma peer_same_trans [trans]: "peer_same a b \<Longrightarrow> peer_same b c \<Longrightarrow> peer_same a c"
  by (simp add: peer_same_def)

lemma ends_of_upd [simp]:
  "ends_of (i \<lparr> ts_ack := a \<rparr>) = ends_of i" "ends_of (i \<lparr> ack_seq := a \<rparr>) = ends_of i"
  "ends_of (i \<lparr> my_icmp_seq := s \<rparr>) = ends_of i" "ends_of (i \<lparr> seq := a \<rparr>) = ends_of i"
  "ends_of (i \<lparr> data_len := n \<rparr>) = ends_of i" "ends_of (i \<lparr> ack_seq_counter := a \<rparr>) = ends_of i"
  "ends_of (i \<lparr> syn := b \<rparr>) = ends_of i" "ends_of (i \<lparr> ack := b \<rparr>) = ends_of i" "ends_of (i \<lparr> psh := b \<rparr>) = ends_of i"
  "ends_of (if c then i else j) = (if c then ends_of i else ends_of j)"
  by (simp_all add: ends_of_def)

lemma peer_same_data_len [simp]:
  "peer_same ri (ri \<lparr> send_info := send_info ri \<lparr> data_len := n \<rparr> \<rparr>)"
  by (simp add: peer_same_def ends_of_def)

lemma peer_same_send_raw0:
  assumes "send_raw0 cf ri p (nt, w) = Some (rc, ri', nt', w')" shows "peer_same ri ri'"
proof -
  have tcp: "send_raw_tcp cf ri p st = Some (rc, ri', st') \<Longrightarrow> peer_same ri ri'" for st rc ri' st'
    by (cases st) (auto simp: send_raw_tcp_def Let_def elim!: bind_eq_SomeE split: if_splits prod.splits)
  show ?thesis
    using assms by (auto simp: send_raw0_def elim!: bind_eq_SomeE dest!: tcp split: if_splits raw_mode_t.splits)
qed

lemma peer_same_after_send: "after_send_raw0 cf ri w = Some (rc, ri', w') \<Longrightarrow> peer_same ri ri'"
  by (auto simp: after_send_raw0_def Let_def peer_same_def ends_of_def elim!: bind_eq_SomeE split: if_splits prod.splits)

lemma peer_same_after_recv:
  assumes "after_recv_raw0 cf ri = (rc, ri')" shows "peer_same ri ri' \<and> recv_info ri' = recv_info ri"
proof -
  have "peer_same ri (snd (after_recv_raw0 cf ri)) \<and> recv_info (snd (after_recv_raw0 cf ri)) = recv_info ri"
    by (simp add: after_recv_raw0_def Let_def peer_same_def split del: if_split cong: if_cong)
  then show ?thesis using assms by simp
qed

lemma peer_same_send_bare:
  assumes "send_bare cf ri d (ch, w) = Some (rc, ri', ch', w')" shows "peer_same ri ri'"
  using assms
  by (auto simp: send_bare_def Let_def elim!: bind_eq_SomeE split: if_splits dest!: peer_same_send_raw0)

lemma peer_same_send_handshake:
  "send_handshake cf ri a b c (ch, w) = Some (rc, ri', ch', w') \<Longrightarrow> peer_same ri ri'"
  by (auto simp: send_handshake_def elim!: bind_eq_SomeE dest!: peer_same_send_bare)

section \<open>The connection\<close>

definition only_channel :: "'d conn_info \<Rightarrow> 'd conn_info \<Rightarrow> bool" where
  "only_channel ci ci' \<longleftrightarrow> state ci' = state ci \<and> last_state_time ci' = last_state_time ci \<and>
     last_hb_sent_time ci' = last_hb_sent_time ci \<and> last_hb_recv_time ci' = last_hb_recv_time ci \<and>
     my_id ci' = my_id ci \<and> oppsite_id ci' = oppsite_id ci \<and> timer_fd64 ci' = timer_fd64 ci \<and>
     udp_fd64 ci' = udp_fd64 ci \<and> oppsite_const_id ci' = oppsite_const_id ci \<and>
     map_option conv_mgr (blob ci') = map_option conv_mgr (blob ci)"

lemma only_channel_refl [simp]: "only_channel ci ci"
  by (simp add: only_channel_def)

lemma only_channel_trans [trans]: "only_channel a b \<Longrightarrow> only_channel b c \<Longrightarrow> only_channel a c"
  by (simp add: only_channel_def)

lemma only_channel_raw [simp]: "only_channel ci (ci \<lparr> raw_info := ri \<rparr>)"
  by (simp add: only_channel_def)

lemma only_channel_sent:
  assumes "send_safer cf ci type data (ch, w) = Some (rc, ci', ch', w')"
  shows "only_channel ci ci' \<and> later w w' \<and> peer_same (raw_info ci) (raw_info ci')"
proof (cases "type \<noteq> ch_h \<and> type \<noteq> ch_d")
  case True
  then show ?thesis using assms by (simp add: send_safer_def)
next
  case False
  then obtain b where b: "blob ci = Some b"
    using assms by (cases "blob ci") (auto simp: send_safer_def)
  obtain sq ar where sq: "get_new_seq_for_send (anti_rep b) = (sq, ar)" by fastforce
  obtain r out n kc where e: "my_encrypt (lib cf) (crypt_cf cf) (stack_mem ch) (ch_keys ch)
      (safer_plain ci sq type data) = Some ((r, out, n), kc)"
    using assms False b sq
    by (cases "my_encrypt (lib cf) (crypt_cf cf) (stack_mem ch) (ch_keys ch) (safer_plain ci sq type data)")
      (auto simp: send_safer_def)
  let ?ci = "ci \<lparr> blob := Some (b \<lparr> anti_rep := ar \<rparr>) \<rparr>"
  have c0: "only_channel ci ?ci" using b by (simp add: only_channel_def)
  show ?thesis
  proof (cases "r = 0")
    case True
    obtain pk kc2 where pk: "(if g_fix_gro (net_cf cf) = 0 then (take (nat n) out, kc)
        else gro_frame cf kc n (take (nat n) out)) = (pk, kc2)" by fastforce
    obtain r1 ri nt w1 where s: "send_raw0 (net_cf cf) (raw_info ci) pk (ch_net ch, w) = Some (r1, ri, nt, w1)"
      using assms False b sq e True pk
      by (cases "send_raw0 (net_cf cf) (raw_info ci) pk (ch_net ch, w)") (auto simp: send_safer_def)
    show ?thesis
    proof (cases "r1 = 0")
      case True
      then obtain r2 ri2 where "after_send_raw0 (net_cf cf) ri w1 = Some (r2, ri2, w')" "ci' = ?ci \<lparr> raw_info := ri2 \<rparr>"
        using assms False b sq e \<open>r = 0\<close> pk s
        by (cases "after_send_raw0 (net_cf cf) ri w1") (auto simp: send_safer_def)
      then show ?thesis
        using c0 later_send_raw0[OF s] later_after_send later_trans peer_same_send_raw0[OF s] peer_same_after_send
          peer_same_trans by (fastforce simp: only_channel_def)
    next
      case r1: False
      then have "ci' = ?ci \<lparr> raw_info := ri \<rparr> \<and> w' = w1"
        using assms False b sq e \<open>r = 0\<close> pk s by (simp add: send_safer_def)
      then show ?thesis using c0 later_send_raw0[OF s] peer_same_send_raw0[OF s] by (simp add: only_channel_def)
    qed
  next
    case r: False
    then have "ci' = ?ci \<and> w' = w" using assms False b sq e by (simp add: send_safer_def)
    then show ?thesis using c0 by simp
  qed
qed

lemma only_channel_data_sent:
  assumes "send_data_safer cf ci data conv (ch, w) = Some (rc, ci', ch', w')"
  shows "only_channel ci ci' \<and> later w w' \<and> peer_same (raw_info ci) (raw_info ci')"
  using assms by (auto simp: send_data_safer_def elim!: bind_eq_SomeE dest!: only_channel_sent)

lemma only_channel_parsed:
  assumes "reserved_parse_safer cf ci input (ch, w) = Some (rc, type, data, ci', ch', w')"
  shows "only_channel ci ci' \<and> later w w' \<and> ch_net ch' = ch_net ch \<and> peer_same (raw_info ci) (raw_info ci')
    \<and> recv_info (raw_info ci') = recv_info (raw_info ci) \<and> (rc = 0 \<longrightarrow> type = ch_h \<or> type = ch_d)"
proof -
  obtain d kc r out n where d: "my_decrypt (lib cf) (crypt_cf cf) (ch_keys ch) input = Some ((r, out, n), kc)"
    using assms by (cases "my_decrypt (lib cf) (crypt_cf cf) (ch_keys ch) input")
      (auto simp: reserved_parse_safer_def)
  define buf where "buf = buf_write (safer_buf ch) 0 out"
  note p = assms[unfolded reserved_parse_safer_def, simplified, unfolded d, simplified, folded buf_def, simplified Let_def]
  obtain t w1 where t: "get_current_time w = (t, w1)" by fastforce
  show ?thesis
    using p later_time[OF t]
    by (auto simp: t only_channel_def split: if_splits prod.splits elim!: bind_eq_SomeE dest!: peer_same_after_recv)
qed

section \<open>Receiving\<close>

lemma recv_raw_ip_sends:
  "recv_raw_ip cf ri nt = Some (rc, out, ri', nt') \<Longrightarrow>
     send_info ri' = send_info ri \<and> disabled ri' = disabled ri \<and> peek ri' = peek ri \<and>
     src_port (recv_info ri') = src_port (recv_info ri)"
  by (auto simp: recv_raw_ip_def Let_def elim!: bind_eq_SomeE split: option.splits if_splits)

lemma gro_loop_frame:
  assumes "gro_loop cf ci p n (ch, w) = Some (ms, ci', ch', w')"
  shows "only_channel ci ci' \<and> later w w' \<and> peer_same (raw_info ci) (raw_info ci') \<and>
    recv_info (raw_info ci') = recv_info (raw_info ci) \<and> (\<forall>m\<in>set ms. fst m = ch_h \<or> fst m = ch_d) \<and> length ms \<le> n"
  using assms
proof (induction n arbitrary: p ci ch w ms rule: less_induct)
  case (less n)
  show ?case
  proof (cases "n < 16")
    case True
    then show ?thesis using less.prems by (subst (asm) gro_loop.simps) simp
  next
    case n: False
    obtain l ch1 where u: "gro_unframe cf p ch = (l, ch1)" by fastforce
    show ?thesis
    proof (cases "l > n - 2 \<or> int l > max_data_len")
      case True
      then show ?thesis using less.prems n u by (subst (asm) gro_loop.simps) (auto split: if_splits)
    next
      case l: False
      then obtain rc type data ci1 ch2 w1 where
        r: "reserved_parse_safer cf ci (buf_read (g_packet_buf (ch_net ch1)) (p + 2) l) (ch1, w) =
          Some (rc, type, data, ci1, ch2, w1)"
        using less.prems n u by (subst (asm) gro_loop.simps) (auto split: option.splits)
      then obtain ms1 where g: "gro_loop cf ci1 (p + 2 + l) (n - 2 - l) (ch2, w1) = Some (ms1, ci', ch', w')"
        and ms: "ms = (if rc \<noteq> 0 then ms1 else (type, data) # ms1)"
        using less.prems n u l by (subst (asm) gro_loop.simps) (auto split: option.splits)
      have "n - 2 - l < n" and "length ms1 \<le> n - 2 - l \<Longrightarrow> Suc (length ms1) \<le> n" using n by simp_all
      with less.IH[OF this(1) g] only_channel_parsed[OF r] show ?thesis
        using ms only_channel_trans later_trans peer_same_trans by (cases "rc = 0") auto
    qed
  qed
qed

lemma recv_safer_multi_frame:
  assumes "recv_safer_multi cf ci (ch, w) = Some (rc, ms, ci', ch', w')"
  shows "only_channel ci ci' \<and> later w w' \<and> (\<forall>m\<in>set ms. fst m = ch_h \<or> fst m = ch_d) \<and>
    (\<exists>rc0 out ri nt. recv_raw0 (net_cf cf) (raw_info ci) (ch_net ch) = Some (rc0, out, ri, nt) \<and>
       peer_same ri (raw_info ci') \<and> recv_info (raw_info ci') = recv_info ri \<and>
       (ms \<noteq> [] \<longrightarrow> rc0 = 0 \<and> (\<exists>p n. out = Some (p, n) \<and> length ms \<le> max 1 (nat n))))"
proof -
  obtain rc0 out ri nt where r: "recv_raw0 (net_cf cf) (raw_info ci) (ch_net ch) = Some (rc0, out, ri, nt)"
    using assms by (cases "recv_raw0 (net_cf cf) (raw_info ci) (ch_net ch)") (auto simp: recv_safer_multi_def)
  let ?ci = "ci \<lparr> raw_info := ri \<rparr>" and ?ch = "ch \<lparr> ch_net := nt \<rparr>"
  have "only_channel ?ci ci' \<and> later w w' \<and> (\<forall>m\<in>set ms. fst m = ch_h \<or> fst m = ch_d) \<and>
      peer_same ri (raw_info ci') \<and> recv_info (raw_info ci') = recv_info ri \<and>
      (ms \<noteq> [] \<longrightarrow> rc0 = 0 \<and> (\<exists>p n. out = Some (p, n) \<and> length ms \<le> max 1 (nat n)))"
  proof (cases "rc0 \<noteq> 0")
    case True
    then show ?thesis using assms r by (auto simp: recv_safer_multi_def)
  next
    case rc0: False
    then obtain p n where out: "out = Some (p, n)"
      using assms r by (cases out) (auto simp: recv_safer_multi_def)
    show ?thesis
    proof (cases "g_fix_gro (net_cf cf) = 0")
      case True
      obtain ret type data where
        "reserved_parse_safer cf ?ci (buf_read (g_packet_buf nt) p (nat n)) (?ch, w) = Some (ret, type, data, ci', ch', w')"
        "ms = (if ret = 0 then [(type, data)] else [])"
        using assms r rc0 out True by (auto simp: recv_safer_multi_def elim!: bind_eq_SomeE)
      then show ?thesis using only_channel_parsed[of cf ?ci] rc0 out by fastforce
    next
      case False
      then have "gro_loop cf ?ci p (nat n) (?ch, w) = Some (ms, ci', ch', w')"
        using assms r rc0 out by (auto simp: recv_safer_multi_def elim!: bind_eq_SomeE)
      then show ?thesis using gro_loop_frame[of cf ?ci] rc0 out by fastforce
    qed
  qed
  moreover have "only_channel ci ?ci" by simp
  ultimately show ?thesis using r only_channel_trans by blast
qed

lemma recv_raw0_sends:
  assumes "recv_raw0 cf ri nt = Some (rc, out, ri', nt')"
  shows "send_info ri' = send_info ri \<and> peek ri' = peek ri"
proof -
  have "recv_raw_tcp cf ri nt = Some (rc, out, ri', nt') \<Longrightarrow> ?thesis"
    by (auto simp: recv_raw_tcp_def Let_def split: option.splits if_splits prod.splits elim!: bind_eq_SomeE
        dest!: recv_raw_ip_sends)
  moreover have "recv_raw_udp cf ri nt = Some (rc, out, ri', nt') \<Longrightarrow> ?thesis"
    by (auto simp: recv_raw_udp_def Let_def split: option.splits if_splits prod.splits elim!: bind_eq_SomeE
        dest!: recv_raw_ip_sends)
  moreover have "recv_raw_icmp cf ri nt = Some (rc, out, ri', nt') \<Longrightarrow> ?thesis"
    by (auto simp: recv_raw_icmp_def Let_def split: option.splits if_splits prod.splits elim!: bind_eq_SomeE
        dest!: recv_raw_ip_sends)
  ultimately show ?thesis using assms by (auto simp: recv_raw0_def split: raw_mode_t.splits)
qed

lemma recv_bare_sends:
  assumes "recv_bare cf ri ch = Some (rc, data, ri', ch')"
  shows "send_info ri' = send_info ri \<and>
    (\<exists>rc0 out nt. recv_raw0 (net_cf cf) ri (ch_net ch) = Some (rc0, out, ri', nt))"
proof -
  obtain rc0 out ri1 nt where r: "recv_raw0 (net_cf cf) ri (ch_net ch) = Some (rc0, out, ri1, nt)"
    using assms by (cases "recv_raw0 (net_cf cf) ri (ch_net ch)") (auto simp: recv_bare_def)
  have "ri' = ri1"
    using assms r by (auto simp: recv_bare_def Let_def split: option.splits if_splits)
  then show ?thesis using r recv_raw0_sends[OF r] by blast
qed

section \<open>Conversations\<close>

lemma later_get_new_conv [later_steps]:
  assumes "get_new_conv cm w = Some (c, w')" shows "later w w' \<and> \<not> is_conv_used cm c"
proof -
  have "later w (snd cw) \<and> \<not> is_conv_used cm (fst cw)" if "get_new_conv cm w = Some cw" for w cw
  proof (rule get_new_conv.raw_induct[OF _ that, where P = "\<lambda>m w cw. later w (snd cw) \<and> \<not> is_conv_used m (fst cw)"])
    fix f m w y
    assume IH: "\<And>m x z. f m x = Some z \<Longrightarrow> later x (snd z) \<and> \<not> is_conv_used m (fst z)"
      and eq: "Option.bind (get_true_random_number_nz w)
           (\<lambda>cw. if is_conv_used m (fst cw) then f m (snd cw) else Some cw) = Some y"
    obtain sv where s: "get_true_random_number_nz w = Some sv"
      and f: "(if is_conv_used m (fst sv) then f m (snd sv) else Some sv) = Some y"
      using eq by (rule bind_eq_SomeE)
    have "later w (snd sv)" using later_rand_nz[of w "fst sv" "snd sv"] s by simp
    then show "later w (snd y) \<and> \<not> is_conv_used m (fst y)"
      using IH[of m "snd sv" y] f later_trans by (cases "is_conv_used m (fst sv)") auto
  qed
  from this[OF assms] show ?thesis by simp
qed

lemma update_active_inv:
  assumes "conv_update_active_time conv cm w = Some (cm', w')"
  shows "later w w'" "conv_inv w cm \<Longrightarrow> is_conv_used cm conv \<Longrightarrow> conv_inv w' cm' \<and> conv_to_data cm' = conv_to_data cm"
proof -
  obtain t v where t: "get_current_time w = (t, v)" by (metis prod.collapse)
  have "v = w'" using assms(1) t by (auto simp: conv_update_active_time_def lru_update_def lru_push_front_def elim!: bind_eq_SomeE split: option.splits if_splits)
  then show "later w w'" using later_time[OF t] by simp
  show "conv_inv w' cm' \<and> conv_to_data cm' = conv_to_data cm" if "conv_inv w cm" "is_conv_used cm conv"
    using update_active_ok[OF that t] assms(1) by auto
qed

lemma conv_clear_loop_later:
  assumes "\<And>d x w x' w'. run_clear_fn f d (x, w) = Some (x', w') \<Longrightarrow> later w w'"
    and "conv_clear_loop f dflt t n (cm, x, w) = Some (cm', x', w')"
  shows "later w w'"
  using assms(2)
proof (induction n arbitrary: cm x w)
  case (Suc n)
  show ?case
  proof (cases "lru_empty (conv_lru cm)")
    case False
    then obtain ts c where p: "lru_peek_back (conv_lru cm) = Some (ts, c)"
      using Suc.prems by (auto split: option.splits)
    show ?thesis
    proof (cases "t - ts < conv_timeout")
      case False
      obtain cm1 x1 w1 where e: "erase_conv f dflt c (cm, x, w) = Some (cm1, x1, w1)"
        and r: "conv_clear_loop f dflt t n (cm1, x1, w1) = Some (cm', x', w')"
        using Suc.prems \<open>\<not> lru_empty (conv_lru cm)\<close> p False by (auto elim!: bind_eq_SomeE)
      have "later w w1" using e by (auto simp: erase_conv_def Let_def elim!: bind_eq_SomeE dest!: assms(1) split: prod.splits)
      then show ?thesis using Suc.IH[OF r] later_trans by blast
    qed (use Suc.prems \<open>\<not> lru_empty (conv_lru cm)\<close> p in auto)
  qed (use Suc.prems in auto)
qed simp

lemma conv_clear_later:
  assumes "\<And>d x w x' w'. run_clear_fn f d (x, w) = Some (x', w') \<Longrightarrow> later w w'"
    and "conv_clear_inactive f dflt (cm, x, w) = Some (cm', x', w')"
  shows "later w w'"
proof -
  obtain t1 w1 t2 w2 t3 w3 where t: "get_current_time w = (t1, w1)" "get_current_time w1 = (t2, w2)"
    "get_current_time w2 = (t3, w3)" by (metis prod.collapse)
  note l = later_time[OF t(1)] later_time[OF t(2)] later_time[OF t(3)]
  have "w' = w1 \<or> later w3 w'"
  proof (cases "t1 - cv_last_clear_time cm > conv_clear_interval")
    case True
    have "conv_clear_loop f dflt t3
       (min (lru_size (conv_lru cm) div conv_clear_ratio + conv_clear_min) (lru_size (conv_lru cm)))
       (cm \<lparr> cv_last_clear_time := t2 \<rparr>, x, w3) = Some (cm', x', w')"
      using assms(2) t True by (simp add: conv_clear_inactive_def conv_clear_inactive0_def Let_def)
    from conv_clear_loop_later[OF assms(1) this] show ?thesis by simp
  qed (use assms(2) t in \<open>simp add: conv_clear_inactive_def\<close>)
  then show ?thesis using l later_trans by blast
qed

lemma later_fd64_close [later_steps]: "fd64_close h (fm, w) = Some (fm', w') \<Longrightarrow> later w w'"
  by (auto simp: fd64_close_def Let_def split: option.splits if_splits)

lemma client_callback_later: "run_clear_fn None d (x, w) = Some (x', w') \<Longrightarrow> later w w'"
  by (simp add: run_clear_fn_def)

lemma server_callback_later: "run_clear_fn (Some server_clear_function) d (x, w) = Some (x', w') \<Longrightarrow> later w w'"
  by (auto simp: run_clear_fn_def server_clear_function_def elim!: bind_eq_SomeE dest: later_fd64_close)

section \<open>Rules for the calculus of partial correctness\<close>

lemma post_rand: "(\<And>r w'. later w w' \<Longrightarrow> Q (r, w')) \<Longrightarrow> ensures (get_true_random_number w) Q"
  by (auto simp: ensures_def dest: later_rand)

lemma post_rand64: "(\<And>r w'. later w w' \<Longrightarrow> Q (r, w')) \<Longrightarrow> ensures (get_true_random_number_64 w) Q"
  by (auto simp: ensures_def dest: later_rand64)

lemma post_rand_nz: "(\<And>r w'. later w w' \<Longrightarrow> r \<noteq> 0 \<Longrightarrow> Q (r, w')) \<Longrightarrow> ensures (get_true_random_number_nz w) Q"
  using rand_nz_result by (fastforce simp: ensures_def dest: later_rand_nz)

lemma post_setnonblocking: "(\<And>w'. later w w' \<Longrightarrow> Q w') \<Longrightarrow> ensures (setnonblocking fd w) Q"
  by (auto simp: setnonblocking_def Let_def ensures_def elim!: bind_eq_SomeE dest!: later_syscall
      intro: later_trans split: prod.splits)

lemma post_set_buf_size: "(\<And>w'. later w w' \<Longrightarrow> Q w') \<Longrightarrow> ensures (set_buf_size f fd n w) Q"
  by (auto simp: set_buf_size_def Let_def ensures_def elim!: bind_eq_SomeE dest!: later_syscall
      intro: later_trans split: prod.splits)

lemmas post_env = post_rand post_rand64 post_rand_nz post_setnonblocking post_set_buf_size

text \<open>The same with one tracked fact, \<open>later a w\<close> for the current environment.\<close>

lemma track_case:
  "later a w \<Longrightarrow> (\<And>r w'. x = (r, w') \<Longrightarrow> later w w') \<Longrightarrow> (\<And>r w'. later a w' \<Longrightarrow> ensures (f r w') Q) \<Longrightarrow>
     ensures (case x of (r, w') \<Rightarrow> f r w') Q"
  by (rule post_prod) (blast dest: later_trans)

lemma track_syscall:
  "later a w \<Longrightarrow> (\<And>r w'. later a w' \<Longrightarrow> ensures (f r w') Q) \<Longrightarrow>
     ensures (case syscall op w of (r, w') \<Rightarrow> f r w') Q"
  by (rule post_prod) (blast dest: later_syscall later_trans)

lemma track_time:
  "later a w \<Longrightarrow> (\<And>r w'. later a w' \<Longrightarrow> ensures (f r w') Q) \<Longrightarrow>
     ensures (case get_current_time w of (r, w') \<Rightarrow> f r w') Q"
  by (rule post_prod) (blast dest: later_time later_trans)

lemma track_rand: "later a w \<Longrightarrow> (\<And>r w'. later a w' \<Longrightarrow> Q (r, w')) \<Longrightarrow> ensures (get_true_random_number w) Q"
  by (rule post_rand) (blast dest: later_trans)

lemma track_setnonblocking: "later a w \<Longrightarrow> (\<And>w'. later a w' \<Longrightarrow> Q w') \<Longrightarrow> ensures (setnonblocking fd w) Q"
  by (rule post_setnonblocking) (blast dest: later_trans)

lemma track_set_buf_size: "later a w \<Longrightarrow> (\<And>w'. later a w' \<Longrightarrow> Q w') \<Longrightarrow> ensures (set_buf_size f fd n w) Q"
  by (rule post_set_buf_size) (blast dest: later_trans)

lemmas tracks = track_syscall track_time track_rand track_setnonblocking track_set_buf_size

lemma track_connected_udp:
  assumes "later a w" "\<And>fd w'. later a w' \<Longrightarrow> Q (fd, w')" shows "ensures (new_connected_udp_fd f n x w) Q"
proof -
  have "ensures (new_connected_udp_fd f n x w) (\<lambda>(fd, w'). later a w')"
    using assms(1) unfolding new_connected_udp_fd_def
    by - (rule post_bind, rule postI, rule post_let, erule tracks, (erule tracks | rule post_rules | rule postI | simp)+)
  then show ?thesis by (rule post_weaken) (use assms(2) in auto)
qed

lemma track_get_src:
  assumes "later a w" "\<And>r ad w'. later a w' \<Longrightarrow> Q (r, ad, w')" shows "ensures (get_src_adress2 cf o1 d w) Q"
proof -
  have "ensures (get_src_adress2 cf o1 d w) (\<lambda>(r, ad, w'). later a w')"
    using assms(1) unfolding get_src_adress2_def
    by - (rule post_bind, erule track_connected_udp, (erule tracks | rule post_rules | rule postI | simp)+)
  then show ?thesis by (rule post_weaken) (use assms(2) in auto)
qed

lemma track_try_bind:
  assumes "later a w" "\<And>r fd w'. later a w' \<Longrightarrow> Q (r, fd, w')" shows "ensures (try_to_list_and_bind2 cf fd x w) Q"
proof -
  define w0 where "w0 = (if fd \<noteq> -1 then snd (syscall (SysClose fd) w) else w)"
  have w0: "later a w0" using assms(1) later_trans[OF assms(1) later_syscall'] by (simp add: w0_def)
  have "ensures (try_to_list_and_bind2 cf fd x w) (\<lambda>(r, fd, w'). later a w')"
    using w0 unfolding try_to_list_and_bind2_def w0_def[symmetric]
    by - (rule post_let, rule post_bind, rule postI, rule post_let, erule track_case,
        (auto dest: later_syscall split: raw_mode_t.splits)[1],
        (erule tracks | rule post_rules | rule postI | simp)+)
  then show ?thesis by (rule post_weaken) (use assms(2) in auto)
qed

lemma track_bind_attempts:
  "later a w \<Longrightarrow> ensures (bind_attempts cf n x fd w) (\<lambda>(p, fd, w'). later a w' \<and> 10000 \<le> p \<and> p \<le> 65534)"
proof (induction n arbitrary: x fd w)
  case (Suc n)
  have p: "10000 + int (unat (r mod (65535 - 10000))) \<le> 65534" for r :: u32
  proof -
    have "uint (r mod 55535) < 55535" by (simp add: uint_mod)
    then show ?thesis by simp
  qed
  show ?case
    using Suc.prems unfolding bind_attempts.simps
    by - (rule post_bind, erule track_rand, rule post_pair, rule post_let, rule post_bind, rule postI, rule post_bind,
        erule track_try_bind, rule post_pair, rule post_pair, rule post_if, rule post_some, use p in simp,
        erule Suc.IH)
qed (simp add: ensures_def)

lemma track_client_bind:
  assumes "later a w" "\<And>p fd w'. later a w' \<Longrightarrow> 10000 \<le> p \<Longrightarrow> p \<le> 65534 \<Longrightarrow> Q (p, fd, w')"
  shows "ensures (client_bind_to_a_new_port2 cf fd x w) Q"
  unfolding client_bind_to_a_new_port2_def
  by (rule post_weaken[OF track_bind_attempts[OF assms(1)]]) (use assms(2) in auto)

lemma track_init_filter:
  assumes "later a w" "\<And>p w'. later a w' \<Longrightarrow> Q (p, w')" shows "ensures (init_filter cf port fp w) Q"
proof -
  have "ensures (init_filter cf port fp w) (\<lambda>(p, w'). later a w')"
    using assms(1) unfolding init_filter_def
    by - (erule tracks | rule post_rules | rule postI | simp)+
  then show ?thesis by (rule post_weaken) (use assms(2) in auto)
qed

lemmas post_sockets = track_get_src[OF later_refl] track_client_bind[OF later_refl]
  track_init_filter[OF later_refl] track_connected_udp[OF later_refl]

end
