(* ===== verification/Client.thy ===== *)
theory Client
  imports ChanFrame
begin

text \<open>
  The client (client.cpp): one connection, driven by a timer, the raw socket,
  the UDP socket of the local application and a command fifo. The handshake is
  a state machine: idle, optionally the simulated or dummy TCP handshake, two
  handshake messages, ready. Calls of \<open>mylog\<close> are left out.
\<close>

section \<open>State\<close>

definition client_handshake_timeout :: u64 where "client_handshake_timeout = 5000"
definition client_retry_interval :: u64 where "client_retry_interval = 1000"
definition heartbeat_interval :: u64 where "heartbeat_interval = 600"
definition client_conn_timeout :: u64 where "client_conn_timeout = 10000"
definition client_conn_uplink_timeout :: u64 where "client_conn_uplink_timeout = client_conn_timeout + 2000"
definition max_conv_num :: nat where "max_conv_num = 10000"

record client =
  cl_conn :: "address_t conn_info"
  cl_chan :: chan
  cl_filter_port :: int
  cl_bind_fd :: int
  cl_fail_time_counter :: int

type_synonym cworld = "client \<times> world"
type_synonym cres = "(int \<times> client \<times> world) option"

text \<open>The configuration with the current value of the global \<open>filter_port\<close>.\<close>

definition cl_conf :: "vpn_conf \<Rightarrow> client \<Rightarrow> vpn_conf" where
  "cl_conf cf c = cf \<lparr> net_cf := net_cf cf \<lparr> filter_port := cl_filter_port c \<rparr> \<rparr>"

text \<open>Assignments to members of the connection and of its two packet records.\<close>

definition upd_conn :: "(address_t conn_info \<Rightarrow> address_t conn_info) \<Rightarrow> client \<Rightarrow> client" where
  "upd_conn f c = c \<lparr> cl_conn := f (cl_conn c) \<rparr>"

definition upd_send :: "(packet_info \<Rightarrow> packet_info) \<Rightarrow> 'd conn_info \<Rightarrow> 'd conn_info" where
  "upd_send f ci = ci \<lparr> raw_info := raw_info ci \<lparr> send_info := f (send_info (raw_info ci)) \<rparr> \<rparr>"

definition upd_conv :: "('d conv_manager \<Rightarrow> 'd conv_manager) \<Rightarrow> 'd conn_info \<Rightarrow> 'd conn_info" where
  "upd_conv f ci = ci \<lparr> blob := map_option (\<lambda>b. b \<lparr> conv_mgr := f (conv_mgr b) \<rparr>) (blob ci) \<rparr>"

definition c_state :: "client \<Rightarrow> conn_state" where "c_state c = state (cl_conn c)"
definition c_send :: "client \<Rightarrow> packet_info" where "c_send c = send_info (raw_info (cl_conn c))"
definition c_recv :: "client \<Rightarrow> packet_info" where "c_recv c = recv_info (raw_info (cl_conn c))"

text \<open>Calls of the lower layers on the client's connection.\<close>

definition client_send_raw0 :: "vpn_conf \<Rightarrow> bytes \<Rightarrow> cworld \<Rightarrow> cworld option" where
  "client_send_raw0 cf data = (\<lambda>(c, w).
     do {
       (_, ri, nt, w) \<leftarrow> send_raw0 (net_cf (cl_conf cf c)) (raw_info (cl_conn c)) data (ch_net (cl_chan c), w);
       Some (c \<lparr> cl_conn := cl_conn c \<lparr> raw_info := ri \<rparr>, cl_chan := cl_chan c \<lparr> ch_net := nt \<rparr> \<rparr>, w)
     })"

definition client_send_handshake :: "vpn_conf \<Rightarrow> u32 \<Rightarrow> u32 \<Rightarrow> cworld \<Rightarrow> cworld option" where
  "client_send_handshake cf id1 id2 = (\<lambda>(c, w).
     do {
       (_, ri, ch, w) \<leftarrow>
          send_handshake (cl_conf cf c) (raw_info (cl_conn c)) id1 id2 (const_id cf) (cl_chan c, w);
       Some (c \<lparr> cl_conn := cl_conn c \<lparr> raw_info := ri \<rparr>, cl_chan := ch \<rparr>, w)
     })"

text \<open>A heartbeat: \<open>hb_data\<close> is the first \<open>hb_len\<close> bytes of \<open>hb_buf\<close>.\<close>

definition hb_payload :: "vpn_conf \<Rightarrow> bytes" where
  "hb_payload cf = (if hb_mode cf = 0 then [] else hb_data cf)"

definition client_send_hb :: "vpn_conf \<Rightarrow> cworld \<Rightarrow> cworld option" where
  "client_send_hb cf = (\<lambda>(c, w).
     do {
       (_, ci, ch, w) \<leftarrow> send_safer (cl_conf cf c) (cl_conn c) ch_h (hb_payload cf) (cl_chan c, w);
       Some (c \<lparr> cl_conn := ci, cl_chan := ch \<rparr>, w)
     })"

section \<open>The timer\<close>

text \<open>\<open>now - since > limit\<close>, each evaluation with a reading of the clock.\<close>

definition elapsed :: "u64 \<Rightarrow> u64 \<Rightarrow> world \<Rightarrow> bool \<times> world" where
  "elapsed since limit w = (let (t, w) = get_current_time w in (t - since > limit, w))"

text \<open>The client is idle: pick the source address and a port and start over.
  \<open>-1\<close> when no source address is found.\<close>

definition client_start :: "vpn_conf \<Rightarrow> cworld \<Rightarrow> cres" where
  "client_start cf = (\<lambda>(c, w).
     do {
       let c = upd_conn (\<lambda>ci. ci \<lparr> raw_info := raw_info ci \<lparr> rst_received := 0, disabled := False \<rparr> \<rparr>) c;
       let c = c \<lparr> cl_fail_time_counter := cl_fail_time_counter c + 1 \<rparr>;
       let c = upd_conn (upd_anti_replay ar_re_init) c;
       (id, w) \<leftarrow> get_true_random_number_nz w;
       let c = upd_conn (\<lambda>ci. ci \<lparr> my_id := id \<rparr>) c;
       (rc, tmp_addr, w) \<leftarrow> (if force_source_ip cf = 0 then get_src_adress2 cf addr_clear (remote_addr cf) w
                            else Some (0, source_addr cf, w));
       (if rc \<noteq> 0 then Some (-1, c, w)
        else do {
          ip \<leftarrow> my_ip_from_address_t (raw_ip_version (net_cf cf)) (new_src_ip (c_send c)) tmp_addr;
          let c = upd_conn (upd_send (\<lambda>si. si \<lparr> new_src_ip := ip \<rparr>)) c;
          (port, fd, w) \<leftarrow> (if force_source_port cf = 0 then client_bind_to_a_new_port2 cf (cl_bind_fd c) tmp_addr w
                            else Some (source_port cf, cl_bind_fd c, w));
          let c = upd_conn (upd_send (\<lambda>si. si \<lparr> src_port := word_of_int port \<rparr>)) c \<lparr> cl_bind_fd := fd \<rparr>;
          let c = (if raw_mode (net_cf cf) = mode_icmp
                   then upd_conn (upd_send (\<lambda>si. si \<lparr> dst_port := src_port si \<rparr>)) c else c);
          (fp, w) \<leftarrow> init_filter cf (uint (src_port (c_send c))) (cl_filter_port c) w;
          let c = c \<lparr> cl_filter_port := fp \<rparr>;
          (c, w) \<leftarrow>
            (case raw_mode (net_cf cf) of
               mode_icmp \<Rightarrow> Some (upd_conn (\<lambda>ci. ci \<lparr> state := client_handshake1 \<rparr>) c, w)
             | mode_udp \<Rightarrow> Some (upd_conn (\<lambda>ci. ci \<lparr> state := client_handshake1 \<rparr>) c, w)
             | mode_faketcp \<Rightarrow>
                 if use_tcp_dummy_socket cf \<noteq> 0 then do {
                   w \<leftarrow> setnonblocking (cl_bind_fd c) w;
                   len \<leftarrow> addr_get_len (remote_addr cf);
                   let (_, w) = syscall (SysConnect (cl_bind_fd c) (take len (remote_addr cf))) w;
                   Some (upd_conn (\<lambda>ci. ci \<lparr> state := client_tcp_handshake_dummy \<rparr>) c, w)
                 }
                 else Some (upd_conn (\<lambda>ci. ci \<lparr> state := client_tcp_handshake \<rparr>) c, w)
             | mode_end \<Rightarrow> Some (c, w));
          let (t, w) = get_current_time w;
          Some (0, upd_conn (\<lambda>ci. ci \<lparr> last_state_time := t, last_hb_sent_time := 0 \<rparr>) c, w)
        })
     })"

definition client_timer_tcp_handshake :: "vpn_conf \<Rightarrow> cworld \<Rightarrow> cres" where
  "client_timer_tcp_handshake cf = (\<lambda>(c, w).
     do {
       assert_c (raw_mode (net_cf cf) = mode_faketcp);
       let (timeout, w) = elapsed (last_state_time (cl_conn c)) client_handshake_timeout w;
       (if timeout then Some (0, upd_conn (\<lambda>ci. ci \<lparr> state := client_idle \<rparr>) c, w)
        else do {
          let (retry, w) = elapsed (last_hb_sent_time (cl_conn c)) client_retry_interval w;
          (if retry then do {
             (c, w) \<leftarrow>
               (if last_hb_sent_time (cl_conn c) = 0 then do {
                  let c = upd_conn (upd_send (\<lambda>si. si \<lparr> psh := False, syn := True, ack := False, ts_ack := 0 \<rparr>)) c;
                  (s, w) \<leftarrow> get_true_random_number w;
                  (a, w) \<leftarrow> get_true_random_number w;
                  Some (upd_conn (upd_send (\<lambda>si. si \<lparr> seq := s, ack_seq := a \<rparr>)) c, w)
                } else Some (c, w));
             (c, w) \<leftarrow> client_send_raw0 cf [] (c, w);
             let (t, w) = get_current_time w;
             Some (0, upd_conn (\<lambda>ci. ci \<lparr> last_hb_sent_time := t \<rparr>) c, w)
           }
           else Some (0, c, w))
        })
     })"

definition client_timer_dummy :: "vpn_conf \<Rightarrow> cworld \<Rightarrow> cres" where
  "client_timer_dummy cf = (\<lambda>(c, w).
     do {
       assert_c (raw_mode (net_cf cf) = mode_faketcp);
       let (timeout, w) = elapsed (last_state_time (cl_conn c)) client_handshake_timeout w;
       Some (0, if timeout then upd_conn (\<lambda>ci. ci \<lparr> state := client_idle \<rparr>) c else c, w)
     })"

text \<open>\<open>seq += data_len\<close> after a handshake message, \<open>my_icmp_seq++\<close> with ICMP.\<close>

definition seq_advance :: "packet_info \<Rightarrow> packet_info" where
  "seq_advance si = si \<lparr> seq := seq si + word_of_int (data_len si) \<rparr>"

definition icmp_advance :: "vpn_conf \<Rightarrow> packet_info \<Rightarrow> packet_info" where
  "icmp_advance cf si =
     (if raw_mode (net_cf cf) = mode_icmp then si \<lparr> my_icmp_seq := my_icmp_seq si + 1 \<rparr> else si)"

definition client_timer_handshake1 :: "vpn_conf \<Rightarrow> cworld \<Rightarrow> cres" where
  "client_timer_handshake1 cf = (\<lambda>(c, w).
     do {
       let (timeout, w) = elapsed (last_state_time (cl_conn c)) client_handshake_timeout w;
       (if timeout then Some (0, upd_conn (\<lambda>ci. ci \<lparr> state := client_idle \<rparr>) c, w)
        else do {
          let (retry, w) = elapsed (last_hb_sent_time (cl_conn c)) client_retry_interval w;
          (if retry then do {
             (c, w) \<leftarrow>
               (if raw_mode (net_cf cf) = mode_faketcp then do {
                  let ri = raw_info (cl_conn c);
                  let ri = (if last_hb_sent_time (cl_conn c) = 0
                            then let si = send_info ri;
                                     si = si \<lparr> seq := seq si + 1, ack_seq := seq (recv_info ri) + 1,
                                               ts_ack := ts (recv_info ri) \<rparr>
                                 in ri \<lparr> send_info := si, reserved_send_seq := seq si \<rparr>
                            else ri);
                  let ri = ri \<lparr> send_info := send_info ri \<lparr> seq := reserved_send_seq ri, psh := False,
                                                            syn := False, ack := True \<rparr> \<rparr>;
                  let c = upd_conn (\<lambda>ci. ci \<lparr> raw_info := ri \<rparr>) c;
                  (c, w) \<leftarrow> (if use_tcp_dummy_socket cf = 0 then client_send_raw0 cf [] (c, w) else Some (c, w));
                  (c, w) \<leftarrow> client_send_handshake cf (my_id (cl_conn c)) 0 (c, w);
                  Some (upd_conn (upd_send seq_advance) c, w)
                }
                else do {
                  (c, w) \<leftarrow> client_send_handshake cf (my_id (cl_conn c)) 0 (c, w);
                  Some (upd_conn (upd_send (icmp_advance cf)) c, w)
                });
             let (t, w) = get_current_time w;
             Some (0, upd_conn (\<lambda>ci. ci \<lparr> last_hb_sent_time := t \<rparr>) c, w)
           }
           else Some (0, c, w))
        })
     })"

definition client_timer_handshake2 :: "vpn_conf \<Rightarrow> cworld \<Rightarrow> cres" where
  "client_timer_handshake2 cf = (\<lambda>(c, w).
     do {
       let (timeout, w) = elapsed (last_state_time (cl_conn c)) client_handshake_timeout w;
       (if timeout then Some (0, upd_conn (\<lambda>ci. ci \<lparr> state := client_idle \<rparr>) c, w)
        else do {
          let (retry, w) = elapsed (last_hb_sent_time (cl_conn c)) client_retry_interval w;
          (if retry then do {
             (c, w) \<leftarrow>
               (if raw_mode (net_cf cf) = mode_faketcp then do {
                  let ri = raw_info (cl_conn c);
                  let ri = (if last_hb_sent_time (cl_conn c) = 0
                            then let si = (send_info ri)
                                       \<lparr> ack_seq := seq (recv_info ri) + word_of_int (data_len (recv_info ri)),
                                         ts_ack := ts (recv_info ri) \<rparr>
                                 in ri \<lparr> send_info := si, reserved_send_seq := seq si \<rparr>
                            else ri);
                  let ri = ri \<lparr> send_info := send_info ri \<lparr> seq := reserved_send_seq ri \<rparr> \<rparr>;
                  let c = upd_conn (\<lambda>ci. ci \<lparr> raw_info := ri \<rparr>) c;
                  (c, w) \<leftarrow> client_send_handshake cf (my_id (cl_conn c)) (oppsite_id (cl_conn c)) (c, w);
                  Some (upd_conn (upd_send seq_advance) c, w)
                }
                else do {
                  (c, w) \<leftarrow> client_send_handshake cf (my_id (cl_conn c)) (oppsite_id (cl_conn c)) (c, w);
                  Some (upd_conn (upd_send (icmp_advance cf)) c, w)
                });
             let (t, w) = get_current_time w;
             Some (0, upd_conn (\<lambda>ci. ci \<lparr> last_hb_sent_time := t \<rparr>) c, w)
           }
           else Some (0, c, w))
        })
     })"

text \<open>The branch for an uplink timeout does not return.\<close>

definition client_timer_ready :: "vpn_conf \<Rightarrow> cworld \<Rightarrow> cres" where
  "client_timer_ready cf = (\<lambda>(c, w).
     do {
       let c = c \<lparr> cl_fail_time_counter := 0 \<rparr>;
       let (dead, w) = elapsed (last_hb_recv_time (cl_conn c)) client_conn_timeout w;
       (if dead then do {
          (id, w) \<leftarrow> get_true_random_number_nz w;
          Some (0, upd_conn (\<lambda>ci. ci \<lparr> state := client_idle, my_id := id \<rparr>) c, w)
        }
        else do {
          let (up_dead, w) = elapsed (last_oppsite_roller_time (cl_conn c)) client_conn_uplink_timeout w;
          (c, w) \<leftarrow> (if up_dead then do {
                       (id, w) \<leftarrow> get_true_random_number_nz w;
                       Some (upd_conn (\<lambda>ci. ci \<lparr> state := client_idle, my_id := id \<rparr>) c, w)
                     } else Some (c, w));
          let (t, w) = get_current_time w;
          (if t - last_hb_sent_time (cl_conn c) < heartbeat_interval then Some (0, c, w)
           else do {
             (c, w) \<leftarrow> client_send_hb cf (c, w);
             let (t, w) = get_current_time w;
             Some (0, upd_conn (\<lambda>ci. ci \<lparr> last_hb_sent_time := t \<rparr>) c, w)
           })
        })
     })"

text \<open>The cleaner of the conversations; the client has no callback.\<close>

definition client_clear_convs :: "cworld \<Rightarrow> cworld option" where
  "client_clear_convs = (\<lambda>(c, w).
     do {
       b \<leftarrow> blob (cl_conn c);
       (cm, _, w) \<leftarrow> conv_clear_inactive None addr_clear (conv_mgr b, (), w);
       Some (upd_conn (\<lambda>ci. ci \<lparr> blob := Some (b \<lparr> conv_mgr := cm \<rparr>) \<rparr>) c, w)
     })"

definition client_on_timer :: "vpn_conf \<Rightarrow> cworld \<Rightarrow> cres" where
  "client_on_timer cf st =
     do {
       (c, w) \<leftarrow> client_clear_convs st;
       (c, w) \<leftarrow> (if disabled (raw_info (cl_conn c)) then do {
                    let c = upd_conn (\<lambda>ci. ci \<lparr> state := client_idle \<rparr>) c;
                    (id, w) \<leftarrow> get_true_random_number_nz w;
                    Some (upd_conn (\<lambda>ci. ci \<lparr> my_id := id \<rparr>) c, w)
                  } else Some (c, w));
       (rc, c, w) \<leftarrow> (if c_state c = client_idle then client_start cf (c, w) else Some (0, c, w));
       (if rc \<noteq> 0 then Some (rc, c, w)
        else case c_state c of
          client_tcp_handshake \<Rightarrow> client_timer_tcp_handshake cf (c, w)
        | client_tcp_handshake_dummy \<Rightarrow> client_timer_dummy cf (c, w)
        | client_handshake1 \<Rightarrow> client_timer_handshake1 cf (c, w)
        | client_handshake2 \<Rightarrow> client_timer_handshake2 cf (c, w)
        | client_ready \<Rightarrow> client_timer_ready cf (c, w)
        | _ \<Rightarrow> None)
     }"

section \<open>Packets from the server\<close>

text \<open>Whether the packet just parsed comes from the server's address and port.\<close>

definition from_server :: "vpn_conf \<Rightarrow> client \<Rightarrow> bool option" where
  "from_server cf c =
     do {
       eq \<leftarrow> my_ip_equal (raw_ip_version (net_cf cf)) (new_src_ip (c_recv c)) (new_dst_ip (c_send c));
       Some (eq \<and> src_port (c_recv c) = dst_port (c_send c))
     }"

text \<open>A message of the encrypted channel.\<close>

definition client_on_raw_recv_hs2_or_ready :: "vpn_conf \<Rightarrow> u8 \<Rightarrow> bytes \<Rightarrow> cworld \<Rightarrow> cres" where
  "client_on_raw_recv_hs2_or_ready cf type data = (\<lambda>(c, w).
     do {
       ok \<leftarrow> from_server cf c;
       (if \<not> ok then Some (-1, c, w)
        else do {
          (c, w) \<leftarrow>
            (if c_state c = client_handshake2 then do {
               let (t, w) = get_current_time w;
               let c = upd_conn (\<lambda>ci. ci \<lparr> state := client_ready, last_hb_sent_time := 0,
                                          last_hb_recv_time := t, last_oppsite_roller_time := t \<rparr>) c;
               (_, st) \<leftarrow> client_on_timer cf (c, w);
               Some st
             } else Some (c, w));
          (if type = ch_h then
             let (t, w) = get_current_time w
             in Some (0, upd_conn (\<lambda>ci. ci \<lparr> last_hb_recv_time := t \<rparr>) c, w)
           else if 4 \<le> length data \<and> type = ch_d then do {
             let (c, w) = (if hb_mode cf = 0
               then let (t, w) = get_current_time w
                    in (upd_conn (\<lambda>ci. ci \<lparr> last_hb_recv_time := t \<rparr>) c, w)
               else (c, w));
             let conv = of_be32 (take 4 data);
             b \<leftarrow> blob (cl_conn c);
             (if \<not> is_conv_used (conv_mgr b) conv then Some (0, c, w)
              else do {
                (cm, w) \<leftarrow> conv_update_active_time conv (conv_mgr b) w;
                let (addr, cm) = find_data_by_conv addr_clear conv cm;
                let c = upd_conn (upd_conv (\<lambda>_. cm)) c;
                len \<leftarrow> addr_get_len addr;
                let (_, w) = syscall (SysSendto (udp_fd cf) (drop 4 data) (take len addr)) w;
                Some (0, c, w)
              })
           }
           else Some (-1, c, w))
        })
     })"

text \<open>The messages of one packet, in order; the results are ignored.\<close>

fun client_messages :: "vpn_conf \<Rightarrow> (u8 \<times> bytes) list \<Rightarrow> cworld \<Rightarrow> cworld option" where
  "client_messages cf [] st = Some st"
| "client_messages cf ((type, data) # ms) st =
     do {
       (_, st) \<leftarrow> client_on_raw_recv_hs2_or_ready cf type data st;
       client_messages cf ms st
     }"

text \<open>The answer to the SYN of the simulated TCP handshake.\<close>

definition client_recv_synack :: "vpn_conf \<Rightarrow> cworld \<Rightarrow> cres" where
  "client_recv_synack cf = (\<lambda>(c, w).
     do {
       assert_c (raw_mode (net_cf cf) = mode_faketcp);
       (rc, out, ri, nt) \<leftarrow> recv_raw0 (net_cf (cl_conf cf c)) (raw_info (cl_conn c)) (ch_net (cl_chan c));
       let c = c \<lparr> cl_conn := cl_conn c \<lparr> raw_info := ri \<rparr>, cl_chan := cl_chan c \<lparr> ch_net := nt \<rparr> \<rparr>;
       (if rc < 0 then Some (-1, c, w)
        else case out of
          None \<Rightarrow> None
        | Some (p, dlen) \<Rightarrow>
          if dlen \<ge> max_data_len + 1 then Some (-1, c, w)
          else do {
            ok \<leftarrow> from_server cf c;
            (if \<not> ok then Some (-1, c, w)
             else if dlen = 0 \<and> syn (c_recv c) \<and> ack (c_recv c) then
               (if c_state c = client_tcp_handshake \<and> ack_seq (c_recv c) \<noteq> seq (c_send c) + 1 then Some (-1, c, w)
                else do {
                  let c = (if c_state c = client_tcp_handshake then c
                           else upd_conn (upd_send (\<lambda>si. si \<lparr> seq := ack_seq (c_recv c) - 1 \<rparr>)) c);
                  let (t, w) = get_current_time w;
                  let c = upd_conn (\<lambda>ci. ci \<lparr> state := client_handshake1, last_state_time := t,
                                             last_hb_sent_time := 0 \<rparr>) c;
                  (_, st) \<leftarrow> client_on_timer cf (c, w);
                  Some (0, st)
                })
             else Some (-1, c, w))
          })
     })"

text \<open>The server's answer to the first handshake message.\<close>

definition client_recv_handshake1 :: "vpn_conf \<Rightarrow> cworld \<Rightarrow> cres" where
  "client_recv_handshake1 cf = (\<lambda>(c, w).
     do {
       (rc, data, ri, ch) \<leftarrow> recv_bare (cl_conf cf c) (raw_info (cl_conn c)) (cl_chan c);
       let c = c \<lparr> cl_conn := cl_conn c \<lparr> raw_info := ri \<rparr>, cl_chan := ch \<rparr>;
       (if rc \<noteq> 0 then Some (-1, c, w)
        else do {
          ok \<leftarrow> from_server cf c;
          (if \<not> ok then Some (-1, c, w)
           else if length data < 12 then Some (-1, c, w)
           else let tmp_oppsite_id = of_be32 (take 4 data);
                    tmp_my_id = of_be32 (take 4 (drop 4 data))
             in if tmp_my_id \<noteq> my_id (cl_conn c) then Some (-1, c, w)
             else if raw_mode (net_cf cf) = mode_faketcp \<and>
                     (ack_seq (c_recv c) \<noteq> seq (c_send c) \<or> seq (c_recv c) \<noteq> ack_seq (c_send c))
             then Some (-1, c, w)
             else do {
               let (t, w) = get_current_time w;
               let c = upd_conn (\<lambda>ci. ci \<lparr> oppsite_id := tmp_oppsite_id, state := client_handshake2,
                                          last_state_time := t, last_hb_sent_time := 0 \<rparr>) c;
               (_, st) \<leftarrow> client_on_timer cf (c, w);
               Some (0, st)
             })
        })
     })"

definition client_recv_safer :: "vpn_conf \<Rightarrow> cworld \<Rightarrow> cres" where
  "client_recv_safer cf = (\<lambda>(c, w).
     do {
       (_, msgs, ci, ch, w) \<leftarrow> recv_safer_multi (cl_conf cf c) (cl_conn c) (cl_chan c, w);
       let c = c \<lparr> cl_conn := ci, cl_chan := ch \<rparr>;
       (if msgs = [] then Some (-1, c, w)
        else map_option (\<lambda>st. (0, st)) (client_messages cf msgs (c, w)))
     })"

definition client_on_raw_recv :: "vpn_conf \<Rightarrow> frame \<Rightarrow> cworld \<Rightarrow> cres" where
  "client_on_raw_recv cf fr = (\<lambda>(c, w).
     do {
       (rc, nt) \<leftarrow> pre_recv_raw_packet (net_cf cf) fr (ch_net (cl_chan c));
       let c = c \<lparr> cl_chan := cl_chan c \<lparr> ch_net := nt \<rparr> \<rparr>;
       (if rc < 0 then Some (-1, c, w)
        else case c_state c of
          client_idle \<Rightarrow> do {
            (_, nt) \<leftarrow> discard_raw_packet nt;
            Some (0, c \<lparr> cl_chan := cl_chan c \<lparr> ch_net := nt \<rparr> \<rparr>, w)
          }
        | client_tcp_handshake \<Rightarrow> client_recv_synack cf (c, w)
        | client_tcp_handshake_dummy \<Rightarrow> client_recv_synack cf (c, w)
        | client_handshake1 \<Rightarrow> client_recv_handshake1 cf (c, w)
        | client_handshake2 \<Rightarrow> client_recv_safer cf (c, w)
        | client_ready \<Rightarrow> client_recv_safer cf (c, w)
        | _ \<Rightarrow> None)
     })"

section \<open>Datagrams of the application, commands\<close>

definition client_on_udp_recv :: "vpn_conf \<Rightarrow> cworld \<Rightarrow> cres" where
  "client_on_udp_recv cf = (\<lambda>(c, w).
     do {
       let from = sys_second w;
       let (recv_len, buf, w) = sys_receive (SysRecv (udp_fd cf) 1801) 1801 w;
       (if recv_len = -1 then Some (-1, c, w)
        else if recv_len = max_data_len + 1 then Some (-1, c, w)
        else do {
          tmp_addr \<leftarrow> from_sockaddr (from @ replicate (28 - length from) 0) (length from);
          b \<leftarrow> blob (cl_conn c);
          (if \<not> is_data_used (conv_mgr b) tmp_addr \<and> conv_get_size (conv_mgr b) \<ge> max_conv_num
           then Some (-1, c, w)
           else do {
             (conv, cm, w) \<leftarrow>
               (if \<not> is_data_used (conv_mgr b) tmp_addr then do {
                  (conv, w) \<leftarrow> get_new_conv (conv_mgr b) w;
                  (cm, w) \<leftarrow> insert_conv conv tmp_addr (conv_mgr b) w;
                  Some (conv, cm, w)
                }
                else let (conv, cm) = find_conv_by_data tmp_addr (conv_mgr b) in Some (conv, cm, w));
             (cm, w) \<leftarrow> conv_update_active_time conv cm w;
             let c = upd_conn (upd_conv (\<lambda>_. cm)) c;
             (if c_state c = client_ready then do {
                (_, ci, ch, w) \<leftarrow> send_data_safer (cl_conf cf c) (cl_conn c) buf conv (cl_chan c, w);
                Some (0, c \<lparr> cl_conn := ci, cl_chan := ch \<rparr>, w)
              }
              else Some (0, c, w))
           })
        })
     })"

text \<open>The text of a command as \<open>strcmp\<close> sees it: a final newline becomes the end
  of the string. The terminator is stored at \<open>buf[len]\<close>, outside the buffer
  when the read filled it.\<close>

definition fifo_text :: "bytes \<Rightarrow> bytes" where
  "fifo_text bs =
     (let bs = (if bs \<noteq> [] \<and> last bs = 10 then butlast bs else bs) in takeWhile (\<lambda>b. b \<noteq> 0) bs)"

definition cmd_reconnect :: bytes where
  "cmd_reconnect = map (\<lambda>ch. word_of_nat (of_char ch)) ''reconnect''"

definition fifo_cb :: "vpn_conf \<Rightarrow> int \<Rightarrow> cworld \<Rightarrow> cworld option" where
  "fifo_cb cf fifo_fd = (\<lambda>(c, w).
     do {
       let (len, buf, w) = sys_receive (SysRead fifo_fd 2200) 2200 w;
       (if len < 0 then Some (c, w)
        else do {
          assert_c (length buf < 2200);
          (if fifo_text buf = cmd_reconnect then do {
             (id, w) \<leftarrow> get_true_random_number_nz w;
             Some (upd_conn (\<lambda>ci. ci \<lparr> state := client_idle, my_id := id \<rparr>) c, w)
           }
           else Some (c, w))
        })
     })"

section \<open>The event loop\<close>

datatype client_event = EvTimer | EvRaw frame | EvUdp | EvFifo int

text \<open>The callbacks the event loop runs; they ignore the results.\<close>

definition client_event :: "vpn_conf \<Rightarrow> client_event \<Rightarrow> cworld \<Rightarrow> cworld option" where
  "client_event cf ev st =
     (case ev of
        EvTimer \<Rightarrow> map_option snd (client_on_timer cf st)
      | EvRaw fr \<Rightarrow> map_option snd (client_on_raw_recv cf fr st)
      | EvUdp \<Rightarrow> map_option snd (client_on_udp_recv cf st)
      | EvFifo fd \<Rightarrow> fifo_cb cf fd st)"

end
