(* ===== verification/ClientSafety.thy ===== *)
theory ClientSafety
  imports Client
begin

text \<open>
  What the client guarantees: \<open>client_next\<close> lists, for every event and every state, the
  states it may lead to; every event keeps to the list and keeps the invariant. So the
  tunnel becomes ready only on an authenticated message, and no state is skipped.
\<close>

section \<open>The state machine\<close>

text \<open>Where the client begins anew.\<close>

definition first_state :: "vpn_conf \<Rightarrow> conn_state" where
  "first_state cf =
     (case raw_mode (net_cf cf) of
        mode_faketcp \<Rightarrow> if use_tcp_dummy_socket cf = 0 then client_tcp_handshake else client_tcp_handshake_dummy
      | mode_udp \<Rightarrow> client_handshake1
      | mode_icmp \<Rightarrow> client_handshake1
      | mode_end \<Rightarrow> client_idle)"

text \<open>The frame carries a message that the channel has authenticated.\<close>

definition delivers :: "vpn_conf \<Rightarrow> frame \<Rightarrow> cworld \<Rightarrow> bool" where
  "delivers cf fr = (\<lambda>(c, w). c_state c \<in> {client_handshake2, client_ready} \<and>
     (\<exists>rc nt rc' ms ci ch v. pre_recv_raw_packet (net_cf cf) fr (ch_net (cl_chan c)) = Some (rc, nt) \<and>
        recv_safer_multi (cl_conf cf c) (cl_conn c) ((cl_chan c) \<lparr> ch_net := nt \<rparr>, w) = Some (rc', ms, ci, ch, v) \<and>
        ms \<noteq> []))"

text \<open>The states after one event. A packet moves the handshake forward by one state, and
  the timer run on that occasion may give up or, after a reset of the other end, begin
  anew; the timer alone never moves forward, it begins anew only from the idle state or
  after a reset; datagrams of the application change nothing.\<close>

definition client_next :: "vpn_conf \<Rightarrow> client_event \<Rightarrow> cworld \<Rightarrow> conn_state set" where
  "client_next cf ev = (\<lambda>(c, w).
     case ev of
       EvTimer \<Rightarrow>
         if c_state c = client_idle \<or> disabled (raw_info (cl_conn c)) then {client_idle, first_state cf}
         else {c_state c, client_idle}
     | EvRaw fr \<Rightarrow>
         (case c_state c of
            client_tcp_handshake \<Rightarrow> {client_tcp_handshake, client_handshake1, client_idle, first_state cf}
          | client_tcp_handshake_dummy \<Rightarrow> {client_tcp_handshake_dummy, client_handshake1, client_idle, first_state cf}
          | client_handshake1 \<Rightarrow> {client_handshake1, client_handshake2, client_idle, first_state cf}
          | client_handshake2 \<Rightarrow>
              if delivers cf fr (c, w) then {client_handshake2, client_ready, client_idle, first_state cf}
              else {client_handshake2}
          | s \<Rightarrow> {s})
     | EvUdp \<Rightarrow> {c_state c}
     | EvFifo _ \<Rightarrow> {c_state c, client_idle})"

text \<open>The tunnel becomes ready only by a message in the second handshake state.\<close>

lemma next_ready:
  assumes "client_ready \<in> client_next cf ev (c, w)" "c_state c \<noteq> client_ready"
  shows "c_state c = client_handshake2 \<and> (\<exists>fr. ev = EvRaw fr \<and> delivers cf fr (c, w))"
proof -
  have "first_state cf \<noteq> client_ready" by (simp add: first_state_def split: raw_mode_t.split)
  then show ?thesis
    using assms by (auto simp: client_next_def split: client_event.splits conn_state.splits if_splits)
qed

section \<open>The invariant\<close>

definition client_states :: "vpn_conf \<Rightarrow> conn_state set" where
  "client_states cf = {client_idle, client_handshake1, client_handshake2, client_ready} \<union>
     (if raw_mode (net_cf cf) = mode_faketcp then {client_tcp_handshake, client_tcp_handshake_dummy} else {})"

lemma next_states: "c_state c \<in> client_states cf \<Longrightarrow> client_next cf ev (c, w) \<subseteq> client_states cf"
  by (cases "c_state c"; cases "raw_mode (net_cf cf)")
    (auto simp: client_next_def client_states_def first_state_def split: client_event.splits)

definition client_inv :: "vpn_conf \<Rightarrow> cworld \<Rightarrow> bool" where
  "client_inv cf = (\<lambda>(c, w). c_state c \<in> client_states cf \<and>
     (\<exists>cm. map_option conv_mgr (blob (cl_conn c)) = Some cm \<and> conv_inv w cm))"

definition convs_ok :: "cworld \<Rightarrow> bool" where
  "convs_ok = (\<lambda>(c, w). \<exists>cm. map_option conv_mgr (blob (cl_conn c)) = Some cm \<and> conv_inv w cm)"

lemma client_inv_iff: "client_inv cf (c, w) \<longleftrightarrow> c_state c \<in> client_states cf \<and> convs_ok (c, w)"
  by (simp add: client_inv_def convs_ok_def)

text \<open>Steps that touch neither the state nor the conversations.\<close>

definition quiet :: "cworld \<Rightarrow> cworld \<Rightarrow> bool" where
  "quiet = (\<lambda>(c, w) (c', w'). later w w' \<and> c_state c' = c_state c \<and>
     map_option conv_mgr (blob (cl_conn c')) = map_option conv_mgr (blob (cl_conn c)))"

lemma quiet_refl [simp]: "quiet st st"
  by (cases st) (simp add: quiet_def)

lemma quiet_trans [trans]: "quiet a b \<Longrightarrow> quiet b c \<Longrightarrow> quiet a c"
  by (cases a; cases b; cases c) (auto simp: quiet_def dest: later_trans)

text \<open>What one handler may do: \<open>S\<close>, the states it may reach.\<close>

definition cl_step :: "conn_state set \<Rightarrow> cworld \<Rightarrow> cworld \<Rightarrow> bool" where
  "cl_step S = (\<lambda>(c, w) (c', w'). later w w' \<and> c_state c' \<in> S \<and> (convs_ok (c, w) \<longrightarrow> convs_ok (c', w')))"

lemma step_state: "cl_step S a (c, w) \<Longrightarrow> c_state c \<in> S"
  by (cases a) (simp add: cl_step_def)

lemma step_within: "cl_step S' a (c, w) \<Longrightarrow> c_state c \<in> S \<Longrightarrow> cl_step S a (c, w)"
  by (cases a) (simp add: cl_step_def)

lemma cl_step_refl: "c_state c \<in> S \<Longrightarrow> cl_step S (c, w) (c, w)"
  by (simp add: cl_step_def)

lemma cl_step_trans: "cl_step S a b \<Longrightarrow> cl_step S' b c \<Longrightarrow> cl_step S' a c"
  by (cases a; cases b; cases c) (auto simp: cl_step_def dest: later_trans)

lemma cl_step_keep:
  assumes "later w w'" "map_option conv_mgr (blob (cl_conn c')) = map_option conv_mgr (blob (cl_conn c))" "c_state c' \<in> S"
  shows "cl_step S (c, w) (c', w')"
  using assms later_floor[OF assms(1)] conv_inv_later by (auto simp: cl_step_def convs_ok_def)

lemma c_simps [simp]:
  "c_state (upd_conn f c) = state (f (cl_conn c))" "cl_conn (upd_conn f c) = f (cl_conn c)"
  "c_state (c \<lparr> cl_conn := ci \<rparr>) = state ci" "c_state (c \<lparr> cl_chan := ch \<rparr>) = c_state c"
  "c_state (c \<lparr> cl_bind_fd := i \<rparr>) = c_state c" "c_state (c \<lparr> cl_filter_port := i \<rparr>) = c_state c"
  "c_state (c \<lparr> cl_fail_time_counter := i \<rparr>) = c_state c"
  "state (upd_send g ci) = state ci" "blob (upd_send g ci) = blob ci"
  "map_option conv_mgr (blob (upd_anti_replay h ci)) = map_option conv_mgr (blob ci)"
  "state (cl_conn c) = c_state c" "state (upd_conv k ci) = state ci"
  by (simp_all add: upd_conn_def c_state_def upd_send_def upd_anti_replay_def upd_conv_def option.map_comp comp_def
      map_option.compositionality)

section \<open>Handlers\<close>

lemma elapsed_later [later_steps]: "elapsed s l w = (b, w') \<Longrightarrow> later w w'"
  by (auto simp: elapsed_def dest: later_time split: prod.splits)

lemma quiet_send_raw0: "client_send_raw0 cf d (c, w) = Some st \<Longrightarrow> quiet (c, w) st"
  by (auto simp: client_send_raw0_def quiet_def elim!: bind_eq_SomeE dest!: later_send_raw0)

lemma quiet_send_handshake: "client_send_handshake cf a b (c, w) = Some st \<Longrightarrow> quiet (c, w) st"
  by (auto simp: client_send_handshake_def quiet_def elim!: bind_eq_SomeE dest!: later_send_handshake)

lemma quiet_send_hb: "client_send_hb cf (c, w) = Some st \<Longrightarrow> quiet (c, w) st"
  by (auto simp: client_send_hb_def quiet_def only_channel_def elim!: bind_eq_SomeE dest!: only_channel_sent)

text \<open>A tracked fact \<open>cl_step S a (c, w)\<close> through assignments and calls.\<close>

lemma step_upd [simp]:
  "state (f (cl_conn c)) = c_state c \<Longrightarrow>
     map_option conv_mgr (blob (f (cl_conn c))) = map_option conv_mgr (blob (cl_conn c)) \<Longrightarrow>
     cl_step S a (upd_conn f c, w) = cl_step S a (c, w)"
  by (cases a) (simp add: cl_step_def convs_ok_def del: map_option_eq_Some)

lemma step_fields [simp]:
  "cl_step S a (c \<lparr> cl_bind_fd := i \<rparr>, w) = cl_step S a (c, w)"
  "cl_step S a (c \<lparr> cl_filter_port := i \<rparr>, w) = cl_step S a (c, w)"
  "cl_step S a (c \<lparr> cl_fail_time_counter := i \<rparr>, w) = cl_step S a (c, w)"
  "cl_step S a (c \<lparr> cl_chan := ch \<rparr>, w) = cl_step S a (c, w)"
  by (cases a; simp add: cl_step_def convs_ok_def)+

lemma step_later: "cl_step S a (c, w) \<Longrightarrow> later w w' \<Longrightarrow> cl_step S a (c, w')"
  using cl_step_trans[OF _ cl_step_keep[of w w' c c S]] step_state by auto

lemma step_move:
  assumes "cl_step S a (c, w)" "state (f (cl_conn c)) \<in> S"
    "map_option conv_mgr (blob (f (cl_conn c))) = map_option conv_mgr (blob (cl_conn c))"
  shows "cl_step S a (upd_conn f c, w)"
  by (rule cl_step_trans[OF assms(1) cl_step_keep]) (use assms in simp_all)

lemma step_quiet:
  assumes "cl_step S a st" "quiet st st'"
  shows "cl_step S a st'"
proof -
  obtain c w c' w' where st: "st = (c, w)" "st' = (c', w')" by fastforce
  have "cl_step S st st'"
    unfolding st by (rule cl_step_keep) (use assms step_state[of S a c w] in \<open>simp_all add: st quiet_def\<close>)
  with assms(1) show ?thesis by (rule cl_step_trans)
qed

lemma op_send_raw0: "cl_step S a (c, w) \<Longrightarrow> (\<And>c w. cl_step S a (c, w) \<Longrightarrow> Q (c, w)) \<Longrightarrow>
   ensures (client_send_raw0 cf d (c, w)) Q"
  by (auto simp: ensures_def dest!: quiet_send_raw0 intro: step_quiet)

lemma op_send_handshake: "cl_step S a (c, w) \<Longrightarrow> (\<And>c w. cl_step S a (c, w) \<Longrightarrow> Q (c, w)) \<Longrightarrow>
   ensures (client_send_handshake cf i j (c, w)) Q"
  by (auto simp: ensures_def dest!: quiet_send_handshake intro: step_quiet)

lemma op_send_hb: "cl_step S a (c, w) \<Longrightarrow> (\<And>c w. cl_step S a (c, w) \<Longrightarrow> Q (c, w)) \<Longrightarrow>
   ensures (client_send_hb cf (c, w)) Q"
  by (auto simp: ensures_def dest!: quiet_send_hb intro: step_quiet)

lemma op_clear_convs:
  assumes "cl_step S a (c, w)" "\<And>c' w. cl_step S a (c', w) \<Longrightarrow> c_state c' = c_state c \<Longrightarrow>
    raw_info (cl_conn c') = raw_info (cl_conn c) \<Longrightarrow> Q (c', w)"
  shows "ensures (client_clear_convs (c, w)) Q"
proof (rule postI)
  fix st assume run: "client_clear_convs (c, w) = Some st"
  obtain b cm w' where b: "blob (cl_conn c) = Some b"
    and r: "conv_clear_inactive None addr_clear (conv_mgr b, (), w) = Some (cm, (), w')"
    and st: "st = (upd_conn (\<lambda>ci. ci \<lparr> blob := Some (b \<lparr> conv_mgr := cm \<rparr>) \<rparr>) c, w')"
    using run by (auto simp: client_clear_convs_def elim!: bind_eq_SomeE)
  have "conv_inv w' cm" if "conv_inv w (conv_mgr b)"
    using client_convs.conv_clear_inactive_ok[OF that, where x = "()" and dflt = addr_clear] r by auto
  moreover have "later w w'" using conv_clear_later[OF client_callback_later r] by simp
  ultimately have "cl_step S (c, w) st" using b step_state[OF assms(1)] by (auto simp: st cl_step_def convs_ok_def)
  then have "cl_step S a st" by (rule cl_step_trans[OF assms(1)])
  then show "Q st" using assms(2) by (auto simp: st upd_conn_def)
qed

lemma step_elapsed:
  "cl_step S a (c, w) \<Longrightarrow> (\<And>r w'. elapsed s l w = (r, w') \<Longrightarrow> cl_step S a (c, w') \<Longrightarrow> ensures (f r w') Q) \<Longrightarrow>
     ensures (case elapsed s l w of (r, w') \<Rightarrow> f r w') Q"
  by (rule post_prod) (blast dest: elapsed_later intro: step_later)

lemma step_time:
  "cl_step S a (c, w) \<Longrightarrow> (\<And>r w'. cl_step S a (c, w') \<Longrightarrow> ensures (f r w') Q) \<Longrightarrow>
     ensures (case get_current_time w of (r, w') \<Rightarrow> f r w') Q"
  by (rule post_prod) (blast dest: later_time intro: step_later)

lemma step_syscall:
  "cl_step S a (c, w) \<Longrightarrow> (\<And>r w'. cl_step S a (c, w') \<Longrightarrow> ensures (f r w') Q) \<Longrightarrow>
     ensures (case syscall op w of (r, w') \<Rightarrow> f r w') Q"
  by (rule post_prod) (blast dest: later_syscall intro: step_later)

lemma step_rand: "cl_step S a (c, w) \<Longrightarrow> (\<And>r w'. cl_step S a (c, w') \<Longrightarrow> Q (r, w')) \<Longrightarrow>
   ensures (get_true_random_number w) Q"
  by (rule post_rand) (blast intro: step_later)

lemma step_rand_nz: "cl_step S a (c, w) \<Longrightarrow> (\<And>r w'. cl_step S a (c, w') \<Longrightarrow> r \<noteq> 0 \<Longrightarrow> Q (r, w')) \<Longrightarrow>
   ensures (get_true_random_number_nz w) Q"
  by (rule post_rand_nz) (blast intro: step_later)

lemmas step_env = step_elapsed step_time step_syscall step_rand step_rand_nz

lemmas ops = op_send_raw0 op_send_handshake op_send_hb op_clear_convs

lemma step_timer_dummy:
  "cl_step S a (c, w) \<Longrightarrow> client_idle \<in> S \<Longrightarrow> ensures (client_timer_dummy cf (c, w)) (\<lambda>(rc, st). cl_step S a st)"
  unfolding client_timer_dummy_def split
  by (erule step_env | rule post_rules | (auto intro: step_move; fail))+

lemma step_timer_tcp_handshake:
  "cl_step S a (c, w) \<Longrightarrow> client_idle \<in> S \<Longrightarrow> ensures (client_timer_tcp_handshake cf (c, w)) (\<lambda>(rc, st). cl_step S a st)"
  unfolding client_timer_tcp_handshake_def split
  by (erule step_env | rule post_rules ops[where a = a] | (auto intro: step_move; fail))+

lemma step_timer_handshake1:
  "cl_step S a (c, w) \<Longrightarrow> client_idle \<in> S \<Longrightarrow> ensures (client_timer_handshake1 cf (c, w)) (\<lambda>(rc, st). cl_step S a st)"
  unfolding client_timer_handshake1_def split
  by (erule step_env | rule post_rules ops[where a = a] | (auto intro: step_move; fail))+

lemma step_timer_handshake2:
  "cl_step S a (c, w) \<Longrightarrow> client_idle \<in> S \<Longrightarrow> ensures (client_timer_handshake2 cf (c, w)) (\<lambda>(rc, st). cl_step S a st)"
  unfolding client_timer_handshake2_def split
  by (erule step_env | rule post_rules ops[where a = a] | (auto intro: step_move; fail))+

lemma step_timer_ready:
  "cl_step S a (c, w) \<Longrightarrow> client_idle \<in> S \<Longrightarrow> ensures (client_timer_ready cf (c, w)) (\<lambda>(rc, st). cl_step S a st)"
  unfolding client_timer_ready_def split
  by (erule step_env | rule post_rules ops[where a = a] | (auto intro: step_move; fail))+

text \<open>Starting over leads to the first state of the mode, or stays idle.\<close>

lemma post_mode:
  "(m = mode_faketcp \<Longrightarrow> ensures f1 Q) \<Longrightarrow> (m = mode_udp \<Longrightarrow> ensures f2 Q) \<Longrightarrow> (m = mode_icmp \<Longrightarrow> ensures f3 Q) \<Longrightarrow>
     (m = mode_end \<Longrightarrow> ensures f4 Q) \<Longrightarrow>
     ensures (case m of mode_faketcp \<Rightarrow> f1 | mode_udp \<Rightarrow> f2 | mode_icmp \<Rightarrow> f3 | mode_end \<Rightarrow> f4) Q"
  by (cases m) auto

lemma step_setnonblocking: "cl_step S a (c, w) \<Longrightarrow> (\<And>w'. cl_step S a (c, w') \<Longrightarrow> Q w') \<Longrightarrow> ensures (setnonblocking fd w) Q"
  by (rule post_setnonblocking) (blast intro: step_later)

lemma step_get_src: "cl_step S a (c, w) \<Longrightarrow> (\<And>r ad w'. cl_step S a (c, w') \<Longrightarrow> Q (r, ad, w')) \<Longrightarrow>
   ensures (get_src_adress2 cf o1 d w) Q"
  by (rule track_get_src[OF later_refl]) (blast intro: step_later)

lemma step_client_bind: "cl_step S a (c, w) \<Longrightarrow> (\<And>p fd w'. cl_step S a (c, w') \<Longrightarrow> 10000 \<le> p \<Longrightarrow> p \<le> 65534 \<Longrightarrow> Q (p, fd, w')) \<Longrightarrow>
   ensures (client_bind_to_a_new_port2 cf fd x w) Q"
  by (rule track_client_bind[OF later_refl]) (blast intro: step_later)

lemma step_init_filter: "cl_step S a (c, w) \<Longrightarrow> (\<And>p w'. cl_step S a (c, w') \<Longrightarrow> Q (p, w')) \<Longrightarrow>
   ensures (init_filter cf port fp w) Q"
  by (rule track_init_filter[OF later_refl]) (blast intro: step_later)

lemmas step_sockets = step_setnonblocking step_get_src step_client_bind step_init_filter

lemma step_to:
  assumes "cl_step S' a (c, w)" "s \<in> S"
  shows "cl_step S a (upd_conn (state_update (\<lambda>_. s)) c, w)"
  by (rule cl_step_trans[OF assms(1) cl_step_keep]) (simp_all add: assms(2))

lemma step_start:
  assumes "cl_step S a (c, w)" "first_state cf \<in> S"
  shows "ensures (client_start cf (c, w)) (\<lambda>(rc, st). cl_step S a st)"
  using assms unfolding client_start_def split
  by - (erule step_env step_sockets | rule post_rules post_mode | (simp; fail) | (simp, rule step_to; simp add: first_state_def; fail)
   | (simp, rule impI, rule step_to; simp add: first_state_def; fail)| (simp only: prod.case) | rule postI)+

text \<open>A step in the middle of a handler.\<close>

lemma step_cut:
  "ensures x (cl_step S a) \<Longrightarrow> (\<And>c w. cl_step S a (c, w) \<Longrightarrow> ensures (f (c, w)) Q) \<Longrightarrow> ensures (Option.bind x f) Q"
  by (cases x) (auto simp: ensures_def)

lemma step_cut_rc:
  "ensures x (\<lambda>(rc, st). cl_step S a st) \<Longrightarrow> (\<And>rc c w. cl_step S a (c, w) \<Longrightarrow> ensures (f (rc, c, w)) Q) \<Longrightarrow>
     ensures (Option.bind x f) Q"
  by (cases x) (auto simp: ensures_def)

lemmas step_timers = step_timer_dummy step_timer_tcp_handshake step_timer_handshake1 step_timer_handshake2 step_timer_ready

text \<open>Starting over happens from the idle state or after a reset only.\<close>

lemma step_on_timer:
  assumes "cl_step S' a (c, w)" "client_idle \<in> S" and stay: "\<not> disabled (raw_info (cl_conn c)) \<Longrightarrow> c_state c \<in> S"
    and first: "c_state c = client_idle \<or> disabled (raw_info (cl_conn c)) \<Longrightarrow> first_state cf \<in> S"
  shows "ensures (client_on_timer cf (c, w)) (\<lambda>(rc, st). cl_step S a st)"
  unfolding client_on_timer_def
proof (rule post_bind, rule op_clear_convs[OF assms(1)], rule post_pair, rule post_bind)
  let ?P = "\<lambda>(c, w). cl_step S a (c, w) \<and> (c_state c = client_idle \<longrightarrow> first_state cf \<in> S)"
  fix c1 w1 assume c: "cl_step S' a (c1, w1)" "c_state c1 = c_state c" "raw_info (cl_conn c1) = raw_info (cl_conn c)"
  have "ensures (if disabled (raw_info (cl_conn c1)) then do {
                    let c = upd_conn (\<lambda>ci. ci \<lparr> state := client_idle \<rparr>) c1;
                    (id, w) \<leftarrow> get_true_random_number_nz w1;
                    Some (upd_conn (\<lambda>ci. ci \<lparr> my_id := id \<rparr>) c, w)
                  } else Some (c1, w1)) ?P"
    using c first stay step_to[OF c(1) assms(2)] step_within[OF c(1), of S]
    by - (rule post_if, rule post_let, rule post_bind, rule step_rand_nz[where a = a and S = S], simp, simp add: post_some, simp add: post_some)
  then show "ensures (if disabled (raw_info (cl_conn c1)) then do {
                    let c = upd_conn (\<lambda>ci. ci \<lparr> state := client_idle \<rparr>) c1;
                    (id, w) \<leftarrow> get_true_random_number_nz w1;
                    Some (upd_conn (\<lambda>ci. ci \<lparr> my_id := id \<rparr>) c, w)
                  } else Some (c1, w1)) (\<lambda>x. ensures (case x of (c, w) \<Rightarrow> do {
       (rc, c, w) \<leftarrow> (if c_state c = client_idle then client_start cf (c, w) else Some (0, c, w));
       (if rc \<noteq> 0 then Some (rc, c, w)
        else case c_state c of
          client_tcp_handshake \<Rightarrow> client_timer_tcp_handshake cf (c, w)
        | client_tcp_handshake_dummy \<Rightarrow> client_timer_dummy cf (c, w)
        | client_handshake1 \<Rightarrow> client_timer_handshake1 cf (c, w)
        | client_handshake2 \<Rightarrow> client_timer_handshake2 cf (c, w)
        | client_ready \<Rightarrow> client_timer_ready cf (c, w)
        | _ \<Rightarrow> None)
     }) (\<lambda>(rc, st). cl_step S a st))"
  proof (rule post_weaken, goal_cases)
    case (1 x)
    obtain c w where x: "x = (c, w)" by fastforce
    have c: "cl_step S a (c, w)" "c_state c = client_idle \<Longrightarrow> first_state cf \<in> S" using 1 by (simp_all add: x)
    show ?case
      unfolding x prod.case
    proof (rule step_cut_rc[where S = S and a = a])
      show "ensures (if c_state c = client_idle then client_start cf (c, w) else Some (0, c, w)) (\<lambda>(rc, st). cl_step S a st)"
        using c step_start[of S a c w cf] by (simp add: post_some)
    next
      fix rc c w assume c: "cl_step S a (c, w)"
      show "ensures (case (rc, c, w) of (rc, c, w) \<Rightarrow> (if rc \<noteq> 0 then Some (rc, c, w)
          else case c_state c of
            client_tcp_handshake \<Rightarrow> client_timer_tcp_handshake cf (c, w)
          | client_tcp_handshake_dummy \<Rightarrow> client_timer_dummy cf (c, w)
          | client_handshake1 \<Rightarrow> client_timer_handshake1 cf (c, w)
          | client_handshake2 \<Rightarrow> client_timer_handshake2 cf (c, w)
          | client_ready \<Rightarrow> client_timer_ready cf (c, w)
          | _ \<Rightarrow> None)) (\<lambda>(rc, st). cl_step S a st)"
        using c step_timers[OF c assms(2)] by (cases "c_state c") (simp_all add: post_some post_none)
    qed
  qed
qed

lemma op_on_timer:
  "cl_step S a (c, w) \<Longrightarrow> client_idle \<in> S \<Longrightarrow> first_state cf \<in> S \<Longrightarrow> (\<And>rc c w. cl_step S a (c, w) \<Longrightarrow> Q (rc, c, w)) \<Longrightarrow>
     ensures (client_on_timer cf (c, w)) Q"
  by (rule post_weaken[OF step_on_timer]) (auto dest: step_state)

section \<open>Conversations\<close>

lemma step_conv:
  assumes "cl_step S a (c, w)" "later w w'"
    "\<And>b. blob (cl_conn c) = Some b \<Longrightarrow> conv_inv w (conv_mgr b) \<Longrightarrow> conv_inv w' cm"
  shows "cl_step S a (upd_conn (upd_conv (\<lambda>_. cm)) c, w')"
proof (rule cl_step_trans[OF assms(1)])
  show "cl_step S (c, w) (upd_conn (upd_conv (\<lambda>_. cm)) c, w')"
    using assms(2,3) step_state[OF assms(1)] by (auto simp: cl_step_def convs_ok_def upd_conv_def)
qed

text \<open>The conversation of a datagram's sender: a new one, or the known one.\<close>

lemma assign_conv_inv:
  "ensures (if \<not> is_data_used cm d then do {
              (conv, w) \<leftarrow> get_new_conv cm w;
              (cm, w) \<leftarrow> insert_conv conv d cm w;
              Some (conv, cm, w)
            }
            else let (conv, cm) = find_conv_by_data d cm in Some (conv, cm, w))
     (\<lambda>(conv, cm', w'). later w w' \<and> (conv_inv w cm \<longrightarrow> conv_inv w' cm' \<and> is_conv_used cm' conv))"
proof (rule post_if)
  assume new: "\<not> is_data_used cm d"
  show "ensures (do {
              (conv, w) \<leftarrow> get_new_conv cm w;
              (cm, w) \<leftarrow> insert_conv conv d cm w;
              Some (conv, cm, w)
            }) (\<lambda>(conv, cm', w'). later w w' \<and> (conv_inv w cm \<longrightarrow> conv_inv w' cm' \<and> is_conv_used cm' conv))"
  proof (rule postI, clarsimp elim!: bind_eq_SomeE split: prod.splits)
    fix conv v cm' w'
    assume g: "get_new_conv cm w = Some (conv, v)" and i: "insert_conv conv d cm v = Some (cm', w')"
    obtain t u where t: "get_current_time v = (t, u)" by (metis prod.collapse)
    have "u = w'" using i t by (auto simp: insert_conv_def lru_new_key_def lru_push_front_def elim!: bind_eq_SomeE split: if_splits)
    note l = later_get_new_conv[OF g]
    have "conv_inv w' cm' \<and> is_conv_used cm' conv" if "conv_inv w cm"
      using insert_conv_ok[OF conv_inv_later[OF that later_floor] _ new t, of conv] l i by (auto simp: is_conv_used_def)
    then show "later w w' \<and> (conv_inv w cm \<longrightarrow> conv_inv w' cm' \<and> is_conv_used cm' conv)"
      using l later_time[OF t] later_trans \<open>u = w'\<close> by blast
  qed
next
  assume "\<not> \<not> is_data_used cm d"
  then obtain conv where "data_to_conv cm d = Some conv" by (auto simp: is_data_used_def)
  then show "ensures (let (conv, cm) = find_conv_by_data d cm in Some (conv, cm, w))
     (\<lambda>(conv, cm', w'). later w w' \<and> (conv_inv w cm \<longrightarrow> conv_inv w' cm' \<and> is_conv_used cm' conv))"
    by (auto simp: find_conv_by_data_def ensures_def is_conv_used_def conv_inv_def)
qed

lemma step_conn [simp]:
  "state ci = c_state c \<Longrightarrow> map_option conv_mgr (blob ci) = map_option conv_mgr (blob (cl_conn c)) \<Longrightarrow>
     cl_step S a (c \<lparr> cl_conn := ci \<rparr>, w) = cl_step S a (c, w)"
  using step_upd[of "\<lambda>_. ci" c S a w] by (simp add: upd_conn_def del: map_option_eq_Some)

lemma op_recv_safer:
  assumes "cl_step S a (c, w)"
    "\<And>rc ms ci ch w. cl_step S a (c \<lparr> cl_conn := ci, cl_chan := ch \<rparr>, w) \<Longrightarrow> Q (rc, ms, ci, ch, w)"
  shows "ensures (recv_safer_multi cf' (cl_conn c) (ch, w)) Q"
proof (rule postI)
  fix x assume "recv_safer_multi cf' (cl_conn c) (ch, w) = Some x"
  then obtain rc ms ci' ch' w' where x: "x = (rc, ms, ci', ch', w')"
    and r: "recv_safer_multi cf' (cl_conn c) (ch, w) = Some (rc, ms, ci', ch', w')" by (cases x) auto
  have "cl_step S a (c \<lparr> cl_conn := ci', cl_chan := ch' \<rparr>, w')"
    using recv_safer_multi_frame[OF r] step_later[OF assms(1), of w'] by (simp add: only_channel_def del: map_option_eq_Some)
  then show "Q x" using assms(2) x by simp
qed

lemma op_send_data:
  assumes "cl_step S a (c, w)"
    "\<And>rc ci ch w. cl_step S a (c \<lparr> cl_conn := ci, cl_chan := ch \<rparr>, w) \<Longrightarrow> Q (rc, ci, ch, w)"
  shows "ensures (send_data_safer cf' (cl_conn c) data conv (ch, w)) Q"
proof (rule postI)
  fix x assume "send_data_safer cf' (cl_conn c) data conv (ch, w) = Some x"
  then obtain rc ci' ch' w' where x: "x = (rc, ci', ch', w')"
    and r: "send_data_safer cf' (cl_conn c) data conv (ch, w) = Some (rc, ci', ch', w')" by (cases x) auto
  have "cl_step S a (c \<lparr> cl_conn := ci', cl_chan := ch' \<rparr>, w')"
    using only_channel_data_sent[OF r] step_later[OF assms(1), of w'] by (simp add: only_channel_def del: map_option_eq_Some)
  then show "Q x" using assms(2) x by simp
qed

lemma op_use_conv:
  assumes "cl_step S a (c, w)" "blob (cl_conn c) = Some b" "is_conv_used (conv_mgr b) conv"
    "\<And>cm w'. (\<And>addr cm'. find_data_by_conv dflt conv cm = (addr, cm') \<Longrightarrow>
        cl_step S a (upd_conn (upd_conv (\<lambda>_. cm')) c, w')) \<Longrightarrow> Q (cm, w')"
  shows "ensures (conv_update_active_time conv (conv_mgr b) w) Q"
proof (rule postI)
  fix x assume run: "conv_update_active_time conv (conv_mgr b) w = Some x"
  obtain cm w' where x: "x = (cm, w')" by (cases x)
  note u = update_active_inv[OF run[unfolded x]]
  have "Q (cm, w')"
  proof (rule assms(4))
    fix addr cm' assume f: "find_data_by_conv dflt conv cm = (addr, cm')"
    show "cl_step S a (upd_conn (upd_conv (\<lambda>_. cm')) c, w')"
      by (rule step_conv[OF assms(1) u(1)])
        (use u(2) assms(2,3) f in \<open>auto simp: find_data_by_conv_def is_conv_used_def split: option.splits\<close>)
  qed
  then show "Q x" by (simp add: x)
qed

lemma step_become_ready:
  assumes "cl_step S a (c, w)" and S: "client_handshake2 \<in> S \<Longrightarrow> {client_ready, client_idle, first_state cf} \<subseteq> S"
  shows "ensures (if c_state c = client_handshake2 then do {
               let (t, w) = get_current_time w;
               let c = upd_conn (\<lambda>ci. ci \<lparr> state := client_ready, last_hb_sent_time := 0,
                                          last_hb_recv_time := t, last_oppsite_roller_time := t \<rparr>) c;
               (_, st) \<leftarrow> client_on_timer cf (c, w);
               Some st
             } else Some (c, w)) (cl_step S a)"
proof (rule post_if)
  assume s: "c_state c = client_handshake2"
  then have S': "client_ready \<in> S" "client_idle \<in> S" "first_state cf \<in> S" using S step_state[OF assms(1)] by auto
  have r: "cl_step S a (upd_conn (\<lambda>ci. ci \<lparr> state := client_ready, last_hb_sent_time := 0,
      last_hb_recv_time := t, last_oppsite_roller_time := t \<rparr>) c, w)" if "cl_step S a (c, w)" for t w
    by (rule step_move[OF that]) (simp_all add: S'(1))
  show "ensures (let (t, w) = get_current_time w; c = upd_conn (\<lambda>ci. ci \<lparr> state := client_ready, last_hb_sent_time := 0,
      last_hb_recv_time := t, last_oppsite_roller_time := t \<rparr>) c in client_on_timer cf (c, w) \<bind> (\<lambda>(_, st). Some st)) (cl_step S a)"
    using assms
    by - (rule post_let, erule step_time, rule post_let, rule post_bind, erule op_on_timer[OF r S'(2,3)], simp add: post_some)
qed (use assms in \<open>simp add: post_some\<close>)

lemma step_deliver:
  assumes "cl_step S a (c, w)"
  shows "ensures (do {
             b \<leftarrow> blob (cl_conn c);
             (if \<not> is_conv_used (conv_mgr b) conv then Some (0, c, w)
              else do {
                (cm, w) \<leftarrow> conv_update_active_time conv (conv_mgr b) w;
                let (addr, cm) = find_data_by_conv addr_clear conv cm;
                let c = upd_conn (upd_conv (\<lambda>_. cm)) c;
                len \<leftarrow> addr_get_len addr;
                let (_, w) = syscall (SysSendto (udp_fd cf) (data) (take len addr)) w;
                Some (0, c, w)
              })
           }) (\<lambda>(rc, st). cl_step S a st)"
proof (rule post_bind, rule postI, rule post_if)
  fix b assume b: "blob (cl_conn c) = Some b" and u: "\<not> \<not> is_conv_used (conv_mgr b) conv"
  show "ensures (do {
                (cm, w) \<leftarrow> conv_update_active_time conv (conv_mgr b) w;
                let (addr, cm) = find_data_by_conv addr_clear conv cm;
                let c = upd_conn (upd_conv (\<lambda>_. cm)) c;
                len \<leftarrow> addr_get_len addr;
                let (_, w) = syscall (SysSendto (udp_fd cf) (data) (take len addr)) w;
                Some (0, c, w)
              }) (\<lambda>(rc, st). cl_step S a st)"
  proof (rule post_bind, rule op_use_conv[OF assms b _, where dflt = addr_clear], use u in simp,
      rule post_pair[unfolded ensures_def, folded ensures_def], rule post_let, rule post_prod)
    fix cm w' addr cm'
    assume k: "\<And>addr cm'. find_data_by_conv addr_clear conv cm = (addr, cm') \<Longrightarrow>
        cl_step S a (upd_conn (upd_conv (\<lambda>_. cm')) c, w')"
      and f: "find_data_by_conv addr_clear conv cm = (addr, cm')"
    show "ensures (let c = upd_conn (upd_conv (\<lambda>_. cm')) c in addr_get_len addr \<bind> (\<lambda>len.
        let (_, w) = syscall (SysSendto (udp_fd cf) data (take len addr)) w' in Some (0, c, w))) (\<lambda>(rc, st). cl_step S a st)"
      using k[OF f]
      by - (rule post_let, rule post_bind, rule postI, rule post_let, erule step_syscall, simp add: post_some)
  qed
qed (simp add: post_some assms)

lemma step_message:
  assumes "cl_step S a (c, w)" "client_handshake2 \<in> S \<Longrightarrow> {client_ready, client_idle, first_state cf} \<subseteq> S"
  shows "ensures (client_on_raw_recv_hs2_or_ready cf type data (c, w)) (\<lambda>(rc, st). cl_step S a st)"
  using assms unfolding client_on_raw_recv_hs2_or_ready_def split
  by - (rule post_bind, rule postI, rule post_if, simp add: post_some, rule step_cut[OF step_become_ready[where S = S and a = a]], assumption, assumption, rule post_pair,
    (erule step_env | rule step_deliver | rule post_cases post_pair post_if post_let post_some | (auto; fail))+)

lemma step_messages: "(client_handshake2 \<in> S \<Longrightarrow> {client_ready, client_idle, first_state cf} \<subseteq> S) \<Longrightarrow> cl_step S a st \<Longrightarrow>
     ensures (client_messages cf ms st) (cl_step S a)"
proof (induction ms arbitrary: st)
  case (Cons x ms)
  obtain type data c w where x: "x = (type, data)" "st = (c, w)" by (metis surj_pair)
  show ?case
    unfolding x client_messages.simps
    by (rule step_cut_rc[OF step_message]) (use Cons x in auto)
qed (simp add: post_some)

lemma step_recv_safer:
  assumes st: "cl_step S a (c, w)"
    and auth: "\<And>rc ms ci ch v. recv_safer_multi (cl_conf cf c) (cl_conn c) (cl_chan c, w) = Some (rc, ms, ci, ch, v) \<Longrightarrow>
      ms \<noteq> [] \<Longrightarrow> client_handshake2 \<in> S \<Longrightarrow> {client_ready, client_idle, first_state cf} \<subseteq> S"
  shows "ensures (client_recv_safer cf (c, w)) (\<lambda>(rc, st). cl_step S a st)"
proof (cases "recv_safer_multi (cl_conf cf c) (cl_conn c) (cl_chan c, w)")
  case (Some x)
  obtain rc ms ci ch v where x: "x = (rc, ms, ci, ch, v)" by (cases x)
  have "cl_step S a (c \<lparr> cl_conn := ci, cl_chan := ch \<rparr>, v)"
    using postD[OF op_recv_safer[OF st, where Q = "\<lambda>(rc, ms, ci, ch, v). cl_step S a (c \<lparr> cl_conn := ci, cl_chan := ch \<rparr>, v)"], OF _ Some[unfolded x]]
    by simp
  then have "ensures (if ms = [] then Some (-1, c \<lparr> cl_conn := ci, cl_chan := ch \<rparr>, v)
      else map_option (Pair 0) (client_messages cf ms (c \<lparr> cl_conn := ci, cl_chan := ch \<rparr>, v))) (\<lambda>(rc, st). cl_step S a st)"
    by - (rule post_if, simp add: post_some, rule post_map, simp only: prod.case, rule step_messages[OF auth[OF Some[unfolded x]]])
  then show ?thesis by (simp add: client_recv_safer_def Some x Let_def)
qed (simp add: client_recv_safer_def ensures_def)

lemma op_recv_raw0:
  "(\<And>rc out ri nt. Q (rc, out, ri, nt)) \<Longrightarrow> ensures (recv_raw0 cf ri nt) Q"
  "(\<And>rc data ri ch. R (rc, data, ri, ch)) \<Longrightarrow> ensures (recv_bare vc ri ch) R"
  by (auto simp: ensures_def)

lemma step_become_handshake1:
  assumes "cl_step S a (c, w)" "client_handshake1 \<in> S"
  shows "cl_step S a (upd_conn (\<lambda>ci. ci \<lparr> state := client_handshake1, last_state_time := t, last_hb_sent_time := 0 \<rparr>) c, w)"
  by (rule step_move[OF assms(1)]) (simp_all add: assms(2))

lemma step_become_handshake2:
  assumes "cl_step S a (c, w)" "client_handshake2 \<in> S"
  shows "cl_step S a (upd_conn (\<lambda>ci. ci \<lparr> oppsite_id := i, state := client_handshake2, last_state_time := t, last_hb_sent_time := 0 \<rparr>) c, w)"
  by (rule step_move[OF assms(1)]) (simp_all add: assms(2))

lemma step_synack:
  assumes "cl_step S a (c, w)" "client_handshake1 \<in> S" "client_idle \<in> S" "first_state cf \<in> S"
  shows "ensures (client_recv_synack cf (c, w)) (\<lambda>(rc, st). cl_step S a st)"
  using assms unfolding client_recv_synack_def split
  by - (erule step_time | rule post_bind post_assert op_recv_raw0 | simp only: prod.case | rule post_if post_let post_pair post_option post_none post_some post_prod
    | (simp; fail)
   | erule step_time | rule op_on_timer[where a = a and S = S] | rule step_become_handshake1 | (auto ; fail) |rule postI)+

lemma step_recv_handshake1:
  assumes "cl_step S a (c, w)" "client_handshake2 \<in> S" "client_idle \<in> S" "first_state cf \<in> S"
  shows "ensures (client_recv_handshake1 cf (c, w)) (\<lambda>(rc, st). cl_step S a st)"
  using assms unfolding client_recv_handshake1_def split
  by - (erule step_time | rule post_bind post_assert op_recv_raw0 | simp only: prod.case | rule post_if post_let post_pair post_option post_none post_some 
   | (simp; fail)
   | erule step_time | rule op_on_timer[where a = a and S = S] | rule step_become_handshake2 | (auto ; fail) |rule postI)+

lemma step_receive: "cl_step S a (c, w) \<Longrightarrow> (\<And>n bs w'. length bs \<le> k \<Longrightarrow> cl_step S a (c, w') \<Longrightarrow> ensures (f n bs w') Q) \<Longrightarrow>
   ensures (case sys_receive op k w of (n, bs, w') \<Rightarrow> f n bs w') Q"
  using step_later[of S a c w] later_syscall[of op w]
  by (auto simp: sys_receive_def Let_def split: prod.splits)

lemma step_raw_recv:
  assumes "cl_step S a (c, w)" and S: "S = client_next cf (EvRaw fr) (c, w)" shows "ensures (client_on_raw_recv cf fr (c, w)) (\<lambda>(rc, st). cl_step S a st)"
  unfolding client_on_raw_recv_def split
proof (rule post_bind, rule postI, simp only: split_paired_all, simp only: prod.case, rule post_let, rule post_if)
  fix rc nt assume pre: "pre_recv_raw_packet (net_cf cf) fr (ch_net (cl_chan c)) = Some (rc, nt)"
  let ?c = "c \<lparr> cl_chan := cl_chan c \<lparr> ch_net := nt \<rparr> \<rparr>"
  have c: "cl_step S a (?c, w)" using assms(1) by simp
  then show "ensures (Some (-1, ?c, w)) (\<lambda>(rc, st). cl_step S a st)" by (simp add: post_some)
  have i: "ensures (discard_raw_packet nt \<bind> (\<lambda>(_, nt). Some (0, ?c \<lparr> cl_chan := cl_chan ?c \<lparr> ch_net := nt \<rparr> \<rparr>, w))) (\<lambda>(rc, st). cl_step S a st)"
    using assms by (auto simp: ensures_def elim!: bind_eq_SomeE)
  have s: "ensures (client_recv_safer cf (?c, w)) (\<lambda>(rc, st). cl_step S a st)"
    if "c_state ?c \<in> {client_handshake2, client_ready}"
  proof (rule step_recv_safer[OF c])
    fix rc' ms ci ch v
    assume "recv_safer_multi (cl_conf cf ?c) (cl_conn ?c) (cl_chan ?c, w) = Some (rc', ms, ci, ch, v)" "ms \<noteq> []"
    then have "delivers cf fr (c, w)" using that pre by (auto simp: delivers_def cl_conf_def)
    moreover assume "client_handshake2 \<in> S"
    ultimately show "{client_ready, client_idle, first_state cf} \<subseteq> S" using that by (auto simp: S client_next_def)
  qed
  show "ensures (case c_state ?c of
          client_idle \<Rightarrow> do {
            (_, nt) \<leftarrow> discard_raw_packet nt;
            Some (0, ?c \<lparr> cl_chan := cl_chan ?c \<lparr> ch_net := nt \<rparr> \<rparr>, w)
          }
        | client_tcp_handshake \<Rightarrow> client_recv_synack cf (?c, w)
        | client_tcp_handshake_dummy \<Rightarrow> client_recv_synack cf (?c, w)
        | client_handshake1 \<Rightarrow> client_recv_handshake1 cf (?c, w)
        | client_handshake2 \<Rightarrow> client_recv_safer cf (?c, w)
        | client_ready \<Rightarrow> client_recv_safer cf (?c, w)
        | _ \<Rightarrow> None) (\<lambda>(rc, st). cl_step S a st)"
    using i s step_synack[OF c] step_recv_handshake1[OF c] S[unfolded client_next_def prod.case client_event.case]
    by (cases "c_state c") (simp_all add: post_none)
qed

lemma step_udp_recv:
  assumes "cl_step S a (c, w)" shows "ensures (client_on_udp_recv cf (c, w)) (\<lambda>(rc, st). cl_step S a st)"
proof -
  have send: "ensures (let c = upd_conn (upd_conv (\<lambda>_. cm)) c in
       (if c_state c = client_ready then do {
          (_, ci, ch, w) \<leftarrow> send_data_safer (cl_conf cf c) (cl_conn c) buf conv (cl_chan c, w');
          Some (0, c \<lparr> cl_conn := ci, cl_chan := ch \<rparr>, w)
        } else Some (0, c, w'))) (\<lambda>(rc, st). cl_step S a st)"
    if st: "cl_step S a (c, w)" and b: "blob (cl_conn c) = Some b"
      and as: "later w v" "conv_inv w (conv_mgr b) \<longrightarrow> conv_inv v cm0 \<and> is_conv_used cm0 conv"
      and up: "conv_update_active_time conv cm0 v = Some (cm, w')" for c w b cm0 conv v cm w' buf
  proof -
    have st': "cl_step S a (upd_conn (upd_conv (\<lambda>_. cm)) c, w')"
      by (rule step_conv[OF st]) (use b as update_active_inv[OF up] later_trans in auto)
    show ?thesis
      by (rule post_let, rule post_if, rule post_bind, rule op_send_data[OF st'], simp add: post_some, simp add: post_some st')
  qed
  show ?thesis
    using assms unfolding client_on_udp_recv_def split
    by - (rule post_let, rule post_let, erule step_receive, rule post_if, simp add: post_some, rule post_if, simp add: post_some,
      rule post_bind, rule postI, rule post_bind, rule postI, rule post_if, simp add: post_some,
      rule post_bind, rule post_weaken[OF assign_conv_inv], clarify,
      rule post_bind, rule postI, clarify, (rule send; assumption?; simp)+)
qed

lemma step_fifo:
  assumes "cl_step S a (c, w)" "client_idle \<in> S" shows "ensures (fifo_cb cf fd (c, w)) (cl_step S a)"
  using assms unfolding fifo_cb_def split
  by - (rule post_let, erule step_receive, (erule step_env | rule post_rules | (auto intro: step_move; fail))+)

text \<open>Every event keeps to the list.\<close>

lemma step_event: "ensures (client_event cf ev (c, w)) (cl_step (client_next cf ev (c, w)) (c, w))"
proof (cases ev)
  case EvTimer
  have "ensures (client_on_timer cf (c, w)) (\<lambda>(rc, st). cl_step (client_next cf ev (c, w)) (c, w) st)"
    by (rule step_on_timer[OF cl_step_refl[of c UNIV]]) (simp_all add: EvTimer client_next_def)
  then show ?thesis by (auto simp: EvTimer client_event_def ensures_def)
next
  case (EvRaw fr)
  have "c_state c \<in> client_next cf ev (c, w)" by (simp add: EvRaw client_next_def split: conn_state.split)
  from step_raw_recv[OF cl_step_refl[OF this] arg_cong[OF EvRaw]] show ?thesis
    by (auto simp: EvRaw client_event_def ensures_def)
next
  case EvUdp
  have "c_state c \<in> client_next cf ev (c, w)" by (simp add: EvUdp client_next_def)
  from step_udp_recv[OF cl_step_refl[OF this]] show ?thesis by (auto simp: EvUdp client_event_def ensures_def)
next
  case (EvFifo fd)
  have "c_state c \<in> client_next cf ev (c, w)" "client_idle \<in> client_next cf ev (c, w)" by (simp_all add: EvFifo client_next_def)
  from step_fifo[OF cl_step_refl[OF this(1)] this(2)] show ?thesis by (auto simp: EvFifo client_event_def ensures_def)
qed

end
