(* ===== verification/ClientProps.thy ===== *)
theory ClientProps
  imports ClientSafety
begin

text \<open>
  The guarantees of the client over its event loop: every run keeps the
  invariant and every event the list of next states, only an authenticated message opens the tunnel, a handshake or a
  silent tunnel is given up after its timeout.
\<close>

section \<open>Runs\<close>

inductive client_runs :: "vpn_conf \<Rightarrow> cworld \<Rightarrow> cworld \<Rightarrow> bool" for cf st where
  start: "client_runs cf st st"
| event: "client_runs cf st st' \<Longrightarrow> client_event cf ev st' = Some st'' \<Longrightarrow> client_runs cf st st''"

lemma event_step:
  assumes "client_event cf ev (c, w) = Some (c', w')"
  shows "c_state c' \<in> client_next cf ev (c, w) \<and> later w w' \<and> (client_inv cf (c, w) \<longrightarrow> client_inv cf (c', w'))"
  using postD[OF step_event assms] next_states by (fastforce simp: cl_step_def client_inv_iff)

lemma runs_keep:
  assumes "client_runs cf st st'" "client_inv cf st"
  shows "client_inv cf st' \<and> later (snd st) (snd st')"
  using assms
proof (induction rule: client_runs.induct)
  case (event st' ev st'')
  then show ?case using event_step[of cf ev "fst st'" "snd st'" "fst st''" "snd st''"] later_trans by auto
qed simp

section \<open>Timeouts\<close>

lemma clear_convs_ok:
  assumes "client_inv cf (c, w)"
  shows "\<exists>b v. client_clear_convs (c, w) = Some (upd_conn (\<lambda>ci. ci \<lparr> blob := Some b \<rparr>) c, v) \<and> later w v"
proof -
  obtain b where b: "blob (cl_conn c) = Some b" "conv_inv w (conv_mgr b)" using assms by (auto simp: client_inv_def)
  obtain cm v where r: "conv_clear_inactive None addr_clear (conv_mgr b, (), w) = Some (cm, (), v)"
    using client_convs.conv_clear_inactive_ok[OF b(2), where x = "()" and dflt = addr_clear] by auto
  then have "later w v" using conv_clear_later[OF client_callback_later r] by simp
  then show ?thesis using b r by (auto simp: client_clear_convs_def)
qed

lemma elapsed_true:
  assumes "since \<le> now_floor w" "now_floor w - since > limit"
  shows "\<exists>v. elapsed since limit w = (True, v) \<and> later w v"
proof -
  obtain t v where t: "get_current_time w = (t, v)" by (metis prod.collapse)
  have f: "now_floor w \<le> t" using get_current_time_floor[OF t] by simp
  have "unat (now_floor w - since) \<le> unat (t - since)"
    using f assms(1) by (simp add: unat_diff word_le_nat_alt)
  then have "limit < t - since" using assms(2) by (simp add: word_less_nat_alt)
  then show ?thesis using t later_time[OF t] by (simp add: elapsed_def)
qed

lemma client_gives_up_helper:
  assumes inv: "client_inv cf (c, w)" and dis: "\<not> disabled (raw_info (cl_conn c))"
    and s: "c_state c \<in> {client_tcp_handshake, client_tcp_handshake_dummy, client_handshake1, client_handshake2}"
    and t: "last_state_time (cl_conn c) \<le> now_floor w" "now_floor w - last_state_time (cl_conn c) > client_handshake_timeout"
  shows "\<exists>c' w'. client_on_timer cf (c, w) = Some (0, c', w') \<and> c_state c' = client_idle \<and> later w w'"
proof -
  obtain b v where cl: "client_clear_convs (c, w) = Some (upd_conn (\<lambda>ci. ci \<lparr> blob := Some b \<rparr>) c, v)" and l: "later w v"
    using clear_convs_ok[OF inv] by blast
  let ?c = "upd_conn (\<lambda>ci. ci \<lparr> blob := Some b \<rparr>) c"
  have t': "last_state_time (cl_conn ?c) \<le> now_floor v" "client_handshake_timeout < now_floor v - last_state_time (cl_conn ?c)"
    using t later_floor[OF l] by (auto simp: word_less_nat_alt word_le_nat_alt unat_diff)
  obtain u where u: "elapsed (last_state_time (cl_conn ?c)) client_handshake_timeout v = (True, u)" "later v u"
    using elapsed_true[OF t'] by blast
  have tcp: "c_state c = client_tcp_handshake \<or> c_state c = client_tcp_handshake_dummy \<Longrightarrow> raw_mode (net_cf cf) = mode_faketcp"
    using inv by (auto simp: client_inv_def client_states_def split: if_splits)
  show ?thesis
    using s dis u tcp later_trans[OF l u(2)]
    by (auto simp: client_on_timer_def cl client_timer_tcp_handshake_def client_timer_dummy_def client_timer_handshake1_def
        client_timer_handshake2_def Let_def)
qed

lemma dead_tunnel_helper:
  assumes inv: "client_inv cf (c, w)" and dis: "\<not> disabled (raw_info (cl_conn c))"
    and s: "c_state c = client_ready"
    and t: "last_hb_recv_time (cl_conn c) \<le> now_floor w" "now_floor w - last_hb_recv_time (cl_conn c) > client_conn_timeout"
    and rnd: "\<forall>v. later w v \<longrightarrow> (\<exists>r u. get_true_random_number_nz v = Some (r, u))"
  shows "\<exists>c' w'. client_on_timer cf (c, w) = Some (0, c', w') \<and> c_state c' = client_idle \<and> my_id (cl_conn c') \<noteq> 0 \<and> later w w'"
proof -
  obtain b v where cl: "client_clear_convs (c, w) = Some (upd_conn (\<lambda>ci. ci \<lparr> blob := Some b \<rparr>) c, v)" and l: "later w v"
    using clear_convs_ok[OF inv] by blast
  let ?c = "upd_conn (\<lambda>ci. ci \<lparr> blob := Some b \<rparr>) c"
  have t': "last_hb_recv_time (cl_conn ?c) \<le> now_floor v" "client_conn_timeout < now_floor v - last_hb_recv_time (cl_conn ?c)"
    using t later_floor[OF l] by (auto simp: word_less_nat_alt word_le_nat_alt unat_diff)
  obtain u where u: "elapsed (last_hb_recv_time (cl_conn ?c)) client_conn_timeout v = (True, u)" "later v u"
    using elapsed_true[OF t'] by blast
  obtain r x where r: "get_true_random_number_nz u = Some (r, x)" using rnd later_trans[OF l u(2)] by blast
  have "r \<noteq> 0" "later w x"
    using postD[OF post_rand_nz[where Q = "\<lambda>(r, x). r \<noteq> 0"] r] later_rand_nz[OF r] later_trans[OF later_trans[OF l u(2)]] by auto
  then show ?thesis
    using s dis u r by (auto simp: client_on_timer_def cl client_timer_ready_def Let_def)
qed

lemma fifo_reconnect_helper:
  assumes "take 2200 (hd (sys_out w (sys_i w))) = cmd_reconnect @ nl" "nl = [] \<or> nl = [10]"
    "sys_out w (sys_i w) \<noteq> []" "sys_ret w (sys_i w) \<ge> 0"
    "get_true_random_number_nz (snd (syscall (SysRead fd 2200) w)) = Some (nid, w')"
  shows "fifo_cb cf fd (c, w) =
    Some (upd_conn (\<lambda>ci. ci \<lparr> state := client_idle, my_id := nid \<rparr>) c, w') \<and> nid \<noteq> 0"
proof -
  have len: "length cmd_reconnect = 9" "0 \<notin> set cmd_reconnect" "10 \<notin> set cmd_reconnect" "cmd_reconnect \<noteq> []"
    by (simp_all add: cmd_reconnect_def)
  have "last cmd_reconnect \<noteq> 10" using len by (metis last_in_set)
  then have "fifo_text (cmd_reconnect @ nl) = cmd_reconnect"
    using assms(2) len by (auto simp: fifo_text_def takeWhile_eq_all_conv)
  moreover have "length (cmd_reconnect @ nl) < 2200" using assms(2) len by auto
  moreover have "nid \<noteq> 0" using postD[OF post_rand_nz[where Q = "\<lambda>(r, x). r \<noteq> 0"] assms(5)] by simp
  ultimately show ?thesis
    using assms by (cases "sys_out w (sys_i w)") (auto simp: fifo_cb_def sys_receive_def syscall_def)
qed

section \<open>Properties\<close>


text \<open>C22. the tunnel becomes ready only in the second handshake state and by a
  packet of the raw socket from which the channel has delivered a message.\<close>

theorem client_ready_authenticated:
  assumes "client_event cf ev (c, w) = Some (c', w')" "c_state c \<noteq> client_ready" "c_state c' = client_ready"
  shows "c_state c = client_handshake2 \<and>
    (\<exists>fr rc nt rc' ms ci ch v. ev = EvRaw fr \<and>
       pre_recv_raw_packet (net_cf cf) fr (ch_net (cl_chan c)) = Some (rc, nt) \<and>
       recv_safer_multi (cl_conf cf c) (cl_conn c) ((cl_chan c) \<lparr> ch_net := nt \<rparr>, w) = Some (rc', ms, ci, ch, v) \<and>
       ms \<noteq> [])"
proof -
  have "\<exists>fr. ev = EvRaw fr \<and> delivers cf fr (c, w)"
    using event_step[OF assms(1)] next_ready[of cf ev c w] assms(2,3) by auto
  then show ?thesis using assms(2) by (fastforce simp: delivers_def)
qed

text \<open>C23. a handshake that has lasted longer than its timeout is given up by the
  next timer.\<close>

theorem handshake_times_out:
  assumes "client_inv cf (c, w)" "\<not> disabled (raw_info (cl_conn c))"
    "c_state c \<in> {client_tcp_handshake, client_tcp_handshake_dummy, client_handshake1, client_handshake2}"
    "last_state_time (cl_conn c) \<le> now_floor w" "now_floor w - last_state_time (cl_conn c) > client_handshake_timeout"
  shows "\<exists>c' w'. client_on_timer cf (c, w) = Some (0, c', w') \<and> c_state c' = client_idle \<and> later w w'"
  by (rule client_gives_up_helper[OF assms])

text \<open>C24. a tunnel without a heartbeat for longer than its timeout is given up by
  the next timer, and the client takes a fresh nonzero id.\<close>

theorem dead_tunnel_restarts:
  assumes "client_inv cf (c, w)" "\<not> disabled (raw_info (cl_conn c))" "c_state c = client_ready"
    "last_hb_recv_time (cl_conn c) \<le> now_floor w" "now_floor w - last_hb_recv_time (cl_conn c) > client_conn_timeout"
    "\<forall>v. later w v \<longrightarrow> (\<exists>r u. get_true_random_number_nz v = Some (r, u))"
  shows "\<exists>c' w'. client_on_timer cf (c, w) = Some (0, c', w') \<and> c_state c' = client_idle \<and>
    my_id (cl_conn c') \<noteq> 0 \<and> later w w'"
  by (rule dead_tunnel_helper[OF assms])

text \<open>the port a client picks is one of 10000 to 65534.\<close>

theorem client_port_range:
  assumes "client_bind_to_a_new_port2 cf fd addr w = Some (port, fd', w')"
  shows "10000 \<le> port \<and> port \<le> 65534"
  using postD[OF track_client_bind[OF later_refl, where Q = "\<lambda>(p, _). 10000 \<le> p \<and> p \<le> 65534"], OF _ assms] by simp

text \<open>the fifo command \<open>reconnect\<close>, with or without a newline, makes the
  client idle with a fresh nonzero id.\<close>

theorem fifo_reconnect:
  assumes "take 2200 (hd (sys_out w (sys_i w))) = cmd_reconnect @ nl" "nl = [] \<or> nl = [10]"
    "sys_out w (sys_i w) \<noteq> []" "sys_ret w (sys_i w) \<ge> 0"
    "get_true_random_number_nz (snd (syscall (SysRead fd 2200) w)) = Some (nid, w')"
  shows "fifo_cb cf fd (c, w) =
    Some (upd_conn (\<lambda>ci. ci \<lparr> state := client_idle, my_id := nid \<rparr>) c, w') \<and> nid \<noteq> 0"
  by (rule fifo_reconnect_helper[OF assms])

section \<open>Examples\<close>

definition example_client_conn :: "address_t conn_info" where
  "example_client_conn = \<lparr> state = client_ready, raw_info = example_raw, last_state_time = 0, last_hb_sent_time = 0,
     last_hb_recv_time = 0, my_id = 7, oppsite_id = 8, timer_fd64 = 0, udp_fd64 = 0, oppsite_const_id = 0,
     blob = Some \<lparr> conv_mgr = conv_manager_init 0, anti_rep = anti_replay_init (\<lambda>_. 0) 50 \<rparr>, my_roller = 0,
     oppsite_roller = 0, last_oppsite_roller_time = 0 \<rparr>"

definition example_client :: client where
  "example_client = \<lparr> cl_conn = example_client_conn, cl_chan = example_chan, cl_filter_port = 0, cl_bind_fd = -1,
     cl_fail_time_counter = 0 \<rparr>"

definition late_world :: world where
  "late_world = example_world \<lparr> largest_value := 20000000, sys_out := (\<lambda>_. [cmd_reconnect @ [10]]) \<rparr>"

lemma example_client_simps [simp]:
  "c_state example_client = client_ready" "raw_info (cl_conn example_client) = example_raw"
  "last_hb_recv_time (cl_conn example_client) = 0" "last_state_time (cl_conn example_client) = 0"
  "now_floor late_world = 20000" "\<not> disabled example_raw" "sys_i late_world = 0" "sys_ret late_world = (\<lambda>_. 0)"
  "sys_out late_world = (\<lambda>_. [cmd_reconnect @ [10]])" "rand_read late_world = (\<lambda>_ n. take n [1, 2, 3, 4, 5, 6, 7, 8])"
  by (simp_all add: example_client_def example_client_conn_def c_state_def now_floor_def late_world_def example_raw_def
      example_world_def)

lemma example_client_inv: "c_state c \<in> client_states cf \<Longrightarrow> blob (cl_conn c) = blob example_client_conn \<Longrightarrow> client_inv cf (c, w)"
  by (simp add: client_inv_def example_client_conn_def)

lemma later_rand_late: "later late_world v \<Longrightarrow> \<exists>r u. get_true_random_number_nz v = Some (r, u)"
  by (simp add: later_def get_true_random_number_nz.simps get_true_random_number_def of_be32_def of_be16_def)

lemma example_fifo:
  "\<exists>nid w'. nid \<noteq> 0 \<and> get_true_random_number_nz (snd (syscall (SysRead 3 2200) late_world)) = Some (nid, w')"
  using later_rand_late[OF later_syscall'] postD[OF post_rand_nz[where Q = "\<lambda>(r, x). r \<noteq> 0"]] by fastforce


lemma fifo_reconnect_witness:
  "\<exists>nid w'. nid \<noteq> 0 \<and> fifo_cb example_vpn 3 (example_client, late_world) =
     Some (upd_conn (\<lambda>ci. ci \<lparr> state := client_idle, my_id := nid \<rparr>) example_client, w')"
proof -
  obtain nid w' where r: "get_true_random_number_nz (snd (syscall (SysRead 3 2200) late_world)) = Some (nid, w')"
    using example_fifo by blast
  have "take 2200 (hd (sys_out late_world (sys_i late_world))) = cmd_reconnect @ [10]" by (simp add: cmd_reconnect_def)
  from fifo_reconnect[OF this _ _ _ r] show ?thesis by auto
qed

lemma dead_tunnel_restarts_witness:
  "\<exists>c' w'. client_on_timer example_vpn (example_client, late_world) = Some (0, c', w') \<and> c_state c' = client_idle"
proof -
  have inv: "client_inv example_vpn (example_client, late_world)"
    by (rule example_client_inv) (simp_all add: client_states_def, simp add: example_client_def)
  show ?thesis
    using dead_tunnel_restarts[OF inv] later_rand_late by (simp add: client_conn_timeout_def) blast
qed

lemma handshake_times_out_witness:
  "\<exists>c c' w'. c_state c = client_handshake1 \<and> client_on_timer example_vpn (c, late_world) = Some (0, c', w') \<and> c_state c' = client_idle"
proof -
  let ?c = "upd_conn (state_update (\<lambda>_. client_handshake1)) example_client"
  have inv: "client_inv example_vpn (?c, late_world)"
    by (rule example_client_inv) (simp_all add: client_states_def, simp add: example_client_def)
  obtain c' w' where "client_on_timer example_vpn (?c, late_world) = Some (0, c', w')" "c_state c' = client_idle"
    using handshake_times_out[OF inv] by (auto simp: client_handshake_timeout_def)
  then show ?thesis by (intro exI[of _ ?c] exI[of _ c'] exI[of _ w']) simp
qed

lemma example_attempt:
  "\<exists>p fd w'. client_bind_to_a_new_port2 example_vpn (-1) (sockaddr_in 0 [10, 0, 0, 1]) example_world = Some (p, fd, w')"
proof -
  have n: "(1000::nat) = Suc 999" by simp
  show ?thesis
    unfolding client_bind_to_a_new_port2_def n bind_attempts.simps
    by (simp add: get_true_random_number_def example_world_def of_be32_def of_be16_def addr_set_port_def sockaddr_in_def
      try_to_list_and_bind2_def addr_get_type_def addr_get_len_def syscall_def Let_def sa_family_def le16_def be16_def of_be16_def
      AF_INET_def AF_INET6_def)
qed

lemma client_port_range_witness:
  "\<exists>p fd w'. client_bind_to_a_new_port2 example_vpn (-1) (sockaddr_in 0 [10, 0, 0, 1]) example_world = Some (p, fd, w') \<and>
     10000 \<le> p \<and> p \<le> 65534"
  using example_attempt client_port_range by blast

definition hb_packet :: bytes where
  "hb_packet = [69, 0, 0, 46, 0, 1, 64, 0, 64, 17, 0, 0, 2, 2, 2, 2, 1, 1, 1, 1,
     7, 208, 3, 232, 0, 26, 133, 160] @ safer_plain example_other 77 ch_h []"

lemma hb_packet_bytes: "hb_packet = [69, 0, 0, 46, 0, 1, 64, 0, 64, 17, 0, 0, 2, 2, 2, 2, 1, 1, 1, 1,
     7, 208, 3, 232, 0, 26, 133, 160, 0, 0, 0, 8, 0, 0, 0, 7, 0, 0, 0, 0, 0, 0, 0, 77, 104, 0]"
  by (simp add: hb_packet_def safer_plain_def example_other_def example_conn_def ch_h_def be32_def be16_def be64_def)

definition hb_net :: net where
  "hb_net = example_net \<lparr> g_packet_buf := buf_write (\<lambda>_. 0) 0 hb_packet, g_packet_buf_len := 46, g_packet_buf_cnt := 1 \<rparr>"

lemma hb_pre: "pre_recv_raw_packet example_net_conf (46, hb_packet, []) example_net = Some (0, hb_net)"
  by (simp add: pre_recv_raw_packet_def hb_net_def example_net_def example_net_conf_def huge_data_len_def max_data_len_def)

lemma hb_reads:
  "buf_read (g_packet_buf hb_net) 0 (length hb_packet) = hb_packet" "rd8 hb_net 0 = 0x45" "rd8 hb_net 9 = 17" "rd16 hb_net 2 = 46"
  "rd16 hb_net 20 = 2000" "rd16 hb_net 22 = 1000" "rd16 hb_net 24 = 26"
  "buf_read (g_packet_buf hb_net) 12 4 = [2, 2, 2, 2]" "buf_read (g_packet_buf hb_net) 16 4 = [1, 1, 1, 1]"
  "buf_read (g_packet_buf hb_net) 20 26 = drop 20 hb_packet" "buf_read (g_packet_buf hb_net) 28 18 = safer_plain example_other 77 ch_h []"
  "g_packet_buf_len hb_net = 46" "g_packet_buf_cnt hb_net = 1"
proof -
  have l: "length hb_packet = 46" by (simp add: hb_packet_bytes)
  show r: "buf_read (g_packet_buf hb_net) 0 (length hb_packet) = hb_packet" by (simp add: hb_net_def)
  note sr = segment_reads[OF r]
  show "buf_read (g_packet_buf hb_net) 12 4 = [2, 2, 2, 2]" "buf_read (g_packet_buf hb_net) 16 4 = [1, 1, 1, 1]"
    "buf_read (g_packet_buf hb_net) 20 26 = drop 20 hb_packet"
    using sr(1)[of 12 4] sr(1)[of 16 4] sr(1)[of 20 26] l by (simp_all add: hb_packet_bytes)
  show "buf_read (g_packet_buf hb_net) 28 18 = safer_plain example_other 77 ch_h []"
    using sr(1)[of 28 18] l by (simp add: hb_packet_def safer_plain_length)
  show "rd8 hb_net 0 = 0x45" "rd8 hb_net 9 = 17" using sr(2)[of 0] sr(2)[of 9] l by (simp_all add: rd8_def hb_packet_bytes)
  have rd: "rd16 hb_net i = of_be16 (take 2 (drop i hb_packet))" if "i + 2 \<le> 46" for i
    using sr(1)[of i 2] that l by (simp add: rd16_def)
  show "rd16 hb_net 2 = 46"   "rd16 hb_net 20 = 2000" "rd16 hb_net 22 = 1000" "rd16 hb_net 24 = 26"
    by (subst rd; simp add: hb_packet_bytes of_be16_def)+
qed (simp_all add: hb_net_def)

lemma hb_csum: "csum_with_header ([2,2,2,2,1,1,1,1,0,17,0,26]) (drop 20 hb_packet) = Some 0"
  by (simp add: hb_packet_bytes csum_with_header_def csum_fold_def Let_def)

lemma hb_recv: "\<exists>ri nt. recv_raw0 example_net_conf (example_raw \<lparr> peek := True \<rparr>) hb_net = Some (0, Some (28, 18), ri, nt) \<and>
  buf_read (g_packet_buf nt) 28 18 = safer_plain example_other 77 ch_h [] \<and> take 4 (new_src_ip (recv_info ri)) = [2, 2, 2, 2] \<and>
  src_port (recv_info ri) = 2000 \<and> send_info ri = example_info \<and> \<not> disabled ri"
proof -
  have c: "raw_ip_version example_net_conf = AF_INET" "link_level_header_len example_net_conf = 0" "lower_level example_net_conf = 1" "bind_addr_used example_net_conf = 0"
    "filter_port example_net_conf = 1000" "raw_mode example_net_conf = mode_udp" 
    by (simp_all add: example_net_conf_def AF_INET_def)
  have p: "peek (example_raw \<lparr> peek := True \<rparr>)" "send_info (example_raw \<lparr> peek := True \<rparr>) = example_info" "send_info example_raw = example_info" "\<not> disabled example_raw"
    by (simp_all add: example_raw_def)
  have "recv_raw_packet example_net_conf True hb_net = Some (0, Some (0, 46), hb_net)"
    by (simp add: recv_raw_packet_def c hb_reads Let_def)
  then have "\<exists>ri. recv_raw_ip example_net_conf (example_raw \<lparr> peek := True \<rparr>) hb_net = Some (0, Some (20, 26), ri, hb_net) \<and>
       protocol (recv_info ri) = IPPROTO_UDP \<and> pseudo_header example_net_conf (recv_info ri) IPPROTO_UDP 26 = [2,2,2,2,1,1,1,1,0,17,0,26]
      \<and> take 4 (new_src_ip (recv_info ri)) = [2, 2, 2, 2] \<and> send_info ri = example_info \<and> \<not> disabled ri"
    by (simp add: recv_raw_ip_def c p hb_reads hi4_lo4 Let_def pseudo_header_def IPPROTO_UDP_def be16_def
        del: add_2_eq_Suc add_2_eq_Suc')
  then obtain ri where ip: "recv_raw_ip example_net_conf (example_raw \<lparr> peek := True \<rparr>) hb_net = Some (0, Some (20, 26), ri, hb_net)"
    and pr: "protocol (recv_info ri) = IPPROTO_UDP" and ph: "pseudo_header example_net_conf (recv_info ri) IPPROTO_UDP 26 = [2,2,2,2,1,1,1,1,0,17,0,26]"
    and src: "take 4 (new_src_ip (recv_info ri)) = [2, 2, 2, 2]" "send_info ri = example_info" "\<not> disabled ri"
    by blast
  show ?thesis
    by (simp add: recv_raw0_def recv_raw_udp_def ip pr c hb_reads ph hb_csum src Let_def)
qed
text \<open>A world whose clock stands still.\<close>

definition still :: "world \<Rightarrow> bool" where
  "still w \<longleftrightarrow> raw_time w = (\<lambda>_. 0) \<and> value_fix w = 0 \<and> largest_value w = 0"

lemma still_time: "still w \<Longrightarrow> \<exists>v. get_current_time w = (0, v) \<and> still v"
  by (simp add: still_def get_current_time_def get_current_time_us_def Let_def)

lemma example_world_still: "still example_world"
  by (simp add: still_def example_world_def)

definition hb_conn :: "address_t conn_info" where
  "hb_conn = \<lparr> state = client_handshake2, raw_info = example_raw \<lparr> peek := True \<rparr>, last_state_time = 0, last_hb_sent_time = 0,
     last_hb_recv_time = 0, my_id = 7, oppsite_id = 8, timer_fd64 = 0, udp_fd64 = 0, oppsite_const_id = 0,
     blob = Some \<lparr> conv_mgr = conv_manager_init 0, anti_rep = anti_replay_init (\<lambda>_. 0) 50 \<rparr>, my_roller = 0,
     oppsite_roller = 0, last_oppsite_roller_time = 0 \<rparr>"

definition hb_client :: client where
  "hb_client = \<lparr> cl_conn = hb_conn, cl_chan = example_chan, cl_filter_port = 1000, cl_bind_fd = -1,
     cl_fail_time_counter = 0 \<rparr>"

lemma hb_conf: "cl_chan c = ch \<Longrightarrow> cl_filter_port c = 1000 \<Longrightarrow> cl_conf example_clear_vpn c = example_clear_vpn"
  by (simp add: cl_conf_def example_clear_vpn_def example_vpn_def example_net_conf_def)

lemma hb_delivered:
  "\<exists>ci ch. recv_safer_multi example_clear_vpn hb_conn (example_chan \<lparr> ch_net := hb_net \<rparr>, example_world) =
     Some (0, [(ch_h, [])], ci, ch, example_world) \<and> state ci = client_handshake2 \<and> \<not> disabled (raw_info ci) \<and>
     (\<exists>b. blob ci = Some b \<and> conv_mgr b = conv_manager_init 0) \<and> last_hb_sent_time ci = 0 \<and> 
     take 4 (new_src_ip (recv_info (raw_info ci))) = [2, 2, 2, 2] \<and>
     src_port (recv_info (raw_info ci)) = 2000 \<and> take 4 (new_dst_ip (send_info (raw_info ci))) = [2, 2, 2, 2] \<and>
     dst_port (send_info (raw_info ci)) = 2000"
proof -
  obtain ri nt where r: "recv_raw0 example_net_conf (example_raw \<lparr> peek := True \<rparr>) hb_net = Some (0, Some (28, 18), ri, nt)"
    "buf_read (g_packet_buf nt) 28 18 = safer_plain example_other 77 ch_h []" "take 4 (new_src_ip (recv_info ri)) = [2, 2, 2, 2]"
    "src_port (recv_info ri) = 2000" "send_info ri = example_info" and dis: "\<not> disabled ri" using hb_recv by blast
  let ?m = "safer_plain example_other 77 ch_h []"
  obtain ar where v: "is_vaild 0 (anti_replay_init (\<lambda>_. 0) 50) 77 = (1, ar)"
    by (simp add: is_vaild_def anti_replay_init_def anti_replay_window_size_def)
  have n: "net_cf example_clear_vpn = example_net_conf" "disable_anti_replay example_clear_vpn = 0" "hb_mode example_clear_vpn = 1"
    "raw_mode example_net_conf = mode_udp" "g_fix_gro example_net_conf = 0"
    by (simp_all add: example_clear_vpn_def example_vpn_def example_net_conf_def)
  have dd: "my_decrypt (lib example_clear_vpn) (crypt_cf example_clear_vpn) kc ?m = Some ((0, ?m, int (length ?m)), kc)" for kc
    by (rule clear_decrypt) (simp add: safer_plain_length)
  note f = safer_plain_reads[of example_other 77 ch_h "[]" ?m _ "safer_buf example_chan", OF _ refl]
  have o: "my_id example_other = 8" "oppsite_id example_other = 7" "my_roller example_other = 0"
    by (simp_all add: example_other_def example_conn_def)
  have rep4: "replicate 4 (2 :: u8) = [2, 2, 2, 2]" by (simp add: numeral_eq_Suc)
  show ?thesis
    by (simp add: recv_safer_multi_def n hb_conn_def r reserved_parse_safer_def dd f[simplified] o v after_recv_raw0_def Let_def 
       safer_plain_length dis example_info_def rep4)
qed
lemma hb_on_timer:
  assumes "still w" "c_state c = client_ready" "\<not> disabled (raw_info (cl_conn c))" "last_hb_recv_time (cl_conn c) = 0"
    "last_oppsite_roller_time (cl_conn c) = 0" "last_hb_sent_time (cl_conn c) = 0"
    "blob (cl_conn c) = Some b" "conv_mgr b = conv_manager_init 0"
  shows "\<exists>c' w'. client_on_timer cf (c, w) = Some (0, c', w') \<and> c_state c' = client_ready \<and> still w'"
proof -
  obtain w1 where 1: "get_current_time w = (0, w1)" "still w1" using still_time assms(1) by blast
  obtain w2 where 2: "get_current_time w1 = (0, w2)" "still w2" using still_time 1 by blast
  obtain w3 where 3: "get_current_time w2 = (0, w3)" "still w3" using still_time 2 by blast
  obtain w4 where 4: "get_current_time w3 = (0, w4)" "still w4" using still_time 3 by blast
  show ?thesis
    using assms 1 2 3 4
    by (simp add: client_on_timer_def client_clear_convs_def conv_clear_inactive_def conv_manager_init_def
        client_timer_ready_def elapsed_def client_conn_timeout_def client_conn_uplink_timeout_def heartbeat_interval_def
        conv_clear_interval_def Let_def)
qed

lemma hb_event:
  "\<exists>c' w'. client_event example_clear_vpn (EvRaw (46, hb_packet, [])) (hb_client, example_world) = Some (c', w') \<and>
     c_state c' = client_ready"
proof -
  obtain ci ch where d: "recv_safer_multi example_clear_vpn hb_conn (example_chan \<lparr> ch_net := hb_net \<rparr>, example_world) =
     Some (0, [(ch_h, [])], ci, ch, example_world)" and s: "state ci = client_handshake2" "\<not> disabled (raw_info ci)"
     "take 4 (new_src_ip (recv_info (raw_info ci))) = [2, 2, 2, 2]"
     "src_port (recv_info (raw_info ci)) = 2000" "take 4 (new_dst_ip (send_info (raw_info ci))) = [2, 2, 2, 2]"
     "dst_port (send_info (raw_info ci)) = 2000" and b: "\<exists>b. blob ci = Some b \<and> conv_mgr b = conv_manager_init 0"
    using hb_delivered by blast
  have n: "net_cf example_clear_vpn = example_net_conf" "raw_ip_version example_net_conf = AF_INET"
    by (simp_all add: example_clear_vpn_def example_net_conf_def AF_INET_def)
  let ?c = "hb_client \<lparr> cl_chan := example_chan \<lparr> ch_net := hb_net \<rparr> \<rparr>"
  have h: "cl_chan hb_client = example_chan" "c_state ?c = client_handshake2" "cl_conn ?c = hb_conn"
    "c_state hb_client = client_handshake2" "cl_conn hb_client = hb_conn" "cl_conf example_clear_vpn ?c = example_clear_vpn"
    by (simp_all add: hb_client_def hb_conn_def c_state_def hb_conf)
  let ?c1 = "hb_client \<lparr> cl_conn := ci, cl_chan := ch \<rparr>"
  obtain w1 where w1: "get_current_time example_world = (0, w1)" "still w1" using still_time example_world_still by blast
  let ?c2 = "upd_conn (\<lambda>ci. ci \<lparr> state := client_ready, last_hb_sent_time := 0, last_hb_recv_time := 0, last_oppsite_roller_time := 0 \<rparr>) ?c1"
  obtain c3 w3 where t: "client_on_timer example_clear_vpn (?c2, w1) = Some (0, c3, w3)" "c_state c3 = client_ready" "still w3"
    using hb_on_timer[OF w1(2), of ?c2 _ example_clear_vpn] b s by auto
  have f: "from_server example_clear_vpn ?c1 = Some True"
    by (simp add: from_server_def n my_ip_equal_def c_recv_def c_send_def s)
  obtain w4 where w4: "get_current_time w3 = (0, w4)" using still_time t(3) by blast
  have m: "client_messages example_clear_vpn [(ch_h, [])] (?c1, example_world) =
      Some (upd_conn (\<lambda>ci. ci \<lparr> last_hb_recv_time := 0 \<rparr>) c3, w4)"
    using t w4 s by (simp add: client_on_raw_recv_hs2_or_ready_def f w1 Let_def del: upd_conn_def)
  show ?thesis
    using d m t by (simp add: client_event_def client_on_raw_recv_def hb_pre n h client_recv_safer_def Let_def del: client_messages.simps)
qed
lemma client_ready_authenticated_witness:
  "\<exists>c' w' rc nt rc' ms ci ch v. c_state c' = client_ready \<and>
     client_event example_clear_vpn (EvRaw (46, hb_packet, [])) (hb_client, example_world) = Some (c', w') \<and>
     recv_safer_multi (cl_conf example_clear_vpn hb_client) hb_conn (example_chan \<lparr> ch_net := nt \<rparr>, example_world) =
       Some (rc', ms, ci, ch, v) \<and> ms \<noteq> []"
proof -
  obtain c' w' where e: "client_event example_clear_vpn (EvRaw (46, hb_packet, [])) (hb_client, example_world) = Some (c', w')"
    "c_state c' = client_ready" using hb_event by blast
  have "c_state hb_client \<noteq> client_ready" "cl_conn hb_client = hb_conn" "cl_chan hb_client = example_chan"
    by (simp_all add: hb_client_def hb_conn_def c_state_def)
  with client_ready_authenticated[OF e(1) _ e(2)] e show ?thesis by fastforce
qed

end
