(* ===== verification/Server.thy ===== *)
theory Server
  imports ConnManager Client
begin

text \<open>
  The server (server.cpp): one raw socket, a timer for the connection manager,
  and for every ready connection a timer and a UDP socket per conversation. The
  events carry a 64 bit number: a descriptor for the first three kinds of
  source, a handle of the descriptor manager for the others.
\<close>

section \<open>Objects\<close>

definition max_handshake_conn_num :: nat where "max_handshake_conn_num = 10000"
definition max_ready_conn_num :: u32 where "max_ready_conn_num = 1000"

text \<open>Assignment to an object; the record of the shared channel state.\<close>

definition put_conn :: "nat \<Rightarrow> u64 conn_info \<Rightarrow> server \<Rightarrow> server" where
  "put_conn p ci s = s \<lparr> heap := (heap s)(p \<mapsto> ci) \<rparr>"

definition put_net :: "net \<Rightarrow> server \<Rightarrow> server" where
  "put_net nt s = s \<lparr> chn := chn s \<lparr> ch_net := nt \<rparr> \<rparr>"

type_synonym sres = "(int \<times> server \<times> world) option"

definition peer_addr :: "vpn_conf \<Rightarrow> packet_info \<Rightarrow> address_t" where
  "peer_addr cf info = from_ip_port_new (raw_ip_version (net_cf cf)) (new_src_ip info) (uint (src_port info))"

text \<open>The heartbeat of a connection.\<close>

definition server_send_hb :: "vpn_conf \<Rightarrow> nat \<Rightarrow> sworld \<Rightarrow> sworld option" where
  "server_send_hb cf p = (\<lambda>(s, w).
     do {
       ci \<leftarrow> heap s p;
       (_, ci, ch, w) \<leftarrow> send_safer cf ci ch_h (hb_payload cf) (chn s, w);
       Some (put_conn p ci s \<lparr> chn := ch \<rparr>, w)
     })"

section \<open>A connection's timer\<close>

definition server_on_timer_multi :: "vpn_conf \<Rightarrow> nat \<Rightarrow> sworld \<Rightarrow> sres" where
  "server_on_timer_multi cf p = (\<lambda>(s, w).
     do {
       ci \<leftarrow> heap s p;
       assert_c (state ci = server_ready);
       b \<leftarrow> blob ci;
       (cm, fm, w) \<leftarrow> conv_clear_inactive (Some server_clear_function) 0 (conv_mgr b, fds s, w);
       let s = put_conn p (ci \<lparr> blob := Some (b \<lparr> conv_mgr := cm \<rparr>) \<rparr>) s \<lparr> fds := fm \<rparr>;
       let (t, w) = get_current_time w;
       (if t - last_hb_sent_time ci < heartbeat_interval then Some (0, s, w)
        else do {
          (s, w) \<leftarrow> server_send_hb cf p (s, w);
          ci \<leftarrow> heap s p;
          let (t, w) = get_current_time w;
          Some (0, put_conn p (ci \<lparr> last_hb_sent_time := t \<rparr>) s, w)
        })
     })"

section \<open>Messages of a ready connection\<close>

text \<open>A conversation the server does not know yet: a socket connected to the
  remote address, its handle, the registration with epoll. \<open>Inl\<close>: the value
  with which the caller returns. When the registration fails the descriptor is
  closed but stays in the descriptor manager.\<close>

definition server_new_conv :: "vpn_conf \<Rightarrow> nat \<Rightarrow> u32 \<Rightarrow> sworld \<Rightarrow> ((int + unit) \<times> server \<times> world) option" where
  "server_new_conv cf p conv = (\<lambda>(s, w).
     do {
       ci \<leftarrow> heap s p;
       b \<leftarrow> blob ci;
       (if conv_get_size (conv_mgr b) \<ge> max_conv_num then Some (Inl 0, s, w)
        else do {
          (new_udp_fd, w) \<leftarrow> new_connected_udp_fd (force_socket_buf cf) (socket_buf_size cf) (remote_addr cf) w;
          (if new_udp_fd < 0 then Some (Inl (-1), s, w)
           else do {
             (fd64, fm) \<leftarrow> fd_create new_udp_fd (fds s);
             fm \<leftarrow> set_info fd64 p fm;
             let s = s \<lparr> fds := fm \<rparr>;
             let (ret, w) = syscall (SysEpollAdd (epollfd cf) new_udp_fd fd64) w;
             (if ret \<noteq> 0 then let (_, w) = syscall (SysClose new_udp_fd) w in Some (Inl (-1), s, w)
              else do {
                (cm, w) \<leftarrow> insert_conv conv fd64 (conv_mgr b) w;
                Some (Inr (), put_conn p (ci \<lparr> blob := Some (b \<lparr> conv_mgr := cm \<rparr>) \<rparr>) s, w)
              })
           })
        })
     })"

text \<open>The data goes to the socket of its conversation.\<close>

definition server_forward :: "vpn_conf \<Rightarrow> nat \<Rightarrow> u32 \<Rightarrow> bytes \<Rightarrow> sworld \<Rightarrow> sres" where
  "server_forward cf p conv data = (\<lambda>(s, w).
     do {
       ci \<leftarrow> heap s p;
       b \<leftarrow> blob ci;
       let (fd64, cm) = find_data_by_conv 0 conv (conv_mgr b);
       (cm, w) \<leftarrow> conv_update_active_time conv cm w;
       let s = put_conn p (ci \<lparr> blob := Some (b \<lparr> conv_mgr := cm \<rparr>) \<rparr>) s;
       fd \<leftarrow> to_fd (fds s) fd64;
       let (_, w) = syscall (SysSend fd data) w;
       Some (0, s, w)
     })"

definition server_on_raw_recv_ready :: "vpn_conf \<Rightarrow> nat \<Rightarrow> u8 \<Rightarrow> bytes \<Rightarrow> sworld \<Rightarrow> sres" where
  "server_on_raw_recv_ready cf p type data = (\<lambda>(s, w).
     do {
       ci \<leftarrow> heap s p;
       (if type = ch_h then
          let (t, w) = get_current_time w
          in Some (0, put_conn p (ci \<lparr> last_hb_recv_time := t \<rparr>) s, w)
        else if type = ch_d \<and> 4 \<le> length data then do {
          let conv = of_be32 (take 4 data);
          let (s, w) = (if hb_mode cf = 0
             then let (t, w) = get_current_time w in (put_conn p (ci \<lparr> last_hb_recv_time := t \<rparr>) s, w)
             else (s, w));
          b \<leftarrow> blob ci;
          (r, s, w) \<leftarrow> (if is_conv_used (conv_mgr b) conv then Some (Inr (), s, w)
                        else server_new_conv cf p conv (s, w));
          (case r of
             Inl rc \<Rightarrow> Some (rc, s, w)
           | Inr _ \<Rightarrow> server_forward cf p conv (drop 4 data) (s, w))
        }
        else Some (0, s, w))
     })"

fun server_messages :: "vpn_conf \<Rightarrow> nat \<Rightarrow> (u8 \<times> bytes) list \<Rightarrow> sworld \<Rightarrow> sworld option" where
  "server_messages cf p [] st = Some st"
| "server_messages cf p ((type, data) # ms) st =
     do {
       (_, st) \<leftarrow> server_on_raw_recv_ready cf p type data st;
       server_messages cf p ms st
     }"

section \<open>The handshake\<close>

text \<open>The client is unknown: the connection becomes ready.\<close>

definition server_become_ready :: "vpn_conf \<Rightarrow> nat \<Rightarrow> u32 \<Rightarrow> sworld \<Rightarrow> sres" where
  "server_become_ready cf p tmp_oppsite_const_id = (\<lambda>(s, w).
     do {
       ci \<leftarrow> heap s p;
       (if ready_num (mgr s) \<ge> max_ready_conn_num then Some (0, put_conn p (ci \<lparr> state := server_idle \<rparr>) s, w)
        else do {
          (ci, w) \<leftarrow> conn_prepare (program_mode (net_cf cf)) (mem_blob s) ci w;
          let m = (mgr s) \<lparr> ready_num := ready_num (mgr s) + 1,
                            const_id_mp := (const_id_mp (mgr s))(tmp_oppsite_const_id \<mapsto> p) \<rparr>;
          let (t, w) = get_current_time w;
          let ci = ci \<lparr> state := server_ready, oppsite_const_id := tmp_oppsite_const_id,
                        last_hb_recv_time := t, last_hb_sent_time := t \<rparr>;
          let s = put_conn p ci s \<lparr> mgr := m \<rparr>;
          (s, w) \<leftarrow> server_send_hb cf p (s, w);
          ci \<leftarrow> heap s p;
          let ci = upd_anti_replay ar_re_init ci;
          (fd64, fm, w) \<leftarrow> set_timer_server cf (fds s, w);
          fm \<leftarrow> set_info fd64 p fm;
          Some (0, put_conn p (ci \<lparr> timer_fd64 := fd64 \<rparr>) s \<lparr> fds := fm \<rparr>, w)
        })
     })"

text \<open>The client has a ready connection, \<open>q\<close>, from an earlier address: that object
  takes over the new address and packet state, the new object becomes idle.\<close>

definition server_take_over :: "vpn_conf \<Rightarrow> nat \<Rightarrow> nat \<Rightarrow> sworld \<Rightarrow> sres" where
  "server_take_over cf p q = (\<lambda>(s, w).
     do {
       ci \<leftarrow> heap s p;
       ori \<leftarrow> heap s q;
       assert_c (state ori = server_ready);
       (if last_state_time ci < last_state_time ori
        then Some (0, put_conn p (ci \<lparr> state := server_idle, oppsite_const_id := 0 \<rparr>) s, w)
        else do {
          let addr1 = peer_addr cf (recv_info (raw_info ori));
          assert_c (conn_exist s addr1);
          let addr2 = peer_addr cf (recv_info (raw_info ci));
          assert_c (conn_exist s addr2);
          p_ori \<leftarrow> map_of (conn_mp (mgr s)) addr1;
          p_new \<leftarrow> map_of (conn_mp (mgr s)) addr2;
          let s = s \<lparr> mgr := (mgr s) \<lparr> conn_mp := mp_assign addr1 p_new (mp_assign addr2 p_ori (conn_mp (mgr s))) \<rparr> \<rparr>;
          ori \<leftarrow> conn_recover ori ci;
          let s = put_conn q ori s;
          (s, w) \<leftarrow> server_send_hb cf q (s, w);
          ori \<leftarrow> heap s q;
          let (t, w) = get_current_time w;
          let s = put_conn q (ori \<lparr> last_hb_recv_time := t \<rparr>) s;
          ci \<leftarrow> heap s p;
          Some (0, put_conn p (ci \<lparr> state := server_idle, oppsite_const_id := 0 \<rparr>) s, w)
        })
     })"

definition server_on_raw_recv_pre_ready :: "vpn_conf \<Rightarrow> nat \<Rightarrow> u32 \<Rightarrow> sworld \<Rightarrow> sres" where
  "server_on_raw_recv_pre_ready cf p tmp_oppsite_const_id = (\<lambda>(s, w).
     case const_id_mp (mgr s) tmp_oppsite_const_id of
       None \<Rightarrow> server_become_ready cf p tmp_oppsite_const_id (s, w)
     | Some q \<Rightarrow> server_take_over cf p q (s, w))"

text \<open>The numbers of the packet answered.\<close>

definition answer_numbers :: "vpn_conf \<Rightarrow> raw_info \<Rightarrow> raw_info" where
  "answer_numbers cf ri =
     (let si = send_info ri; info = recv_info ri;
          si = (if raw_mode (net_cf cf) = mode_faketcp
                then si \<lparr> seq := ack_seq info, ack_seq := seq info + word_of_int (data_len info), ts_ack := ts info \<rparr>
                else si);
          si = (if raw_mode (net_cf cf) = mode_icmp then si \<lparr> my_icmp_seq := my_icmp_seq info \<rparr> else si)
      in ri \<lparr> send_info := si \<rparr>)"

definition server_on_raw_recv_handshake1 :: "vpn_conf \<Rightarrow> nat \<Rightarrow> bytes \<Rightarrow> sworld \<Rightarrow> sres" where
  "server_on_raw_recv_handshake1 cf p data = (\<lambda>(s, w).
     do {
       ci \<leftarrow> heap s p;
       (if length data < 12 then Some (-1, s, w)
        else let tmp_oppsite_id = of_be32 (take 4 data);
                 tmp_my_id = of_be32 (take 4 (drop 4 data))
          in if tmp_my_id = 0 then do {
               (_, ri, ch, w) \<leftarrow>
                  send_handshake cf (answer_numbers cf (raw_info ci)) (my_id ci) tmp_oppsite_id (const_id cf) (chn s, w);
               Some (0, put_conn p (ci \<lparr> raw_info := ri \<rparr>) s \<lparr> chn := ch \<rparr>, w)
             }
             else if tmp_my_id = my_id ci then
               server_on_raw_recv_pre_ready cf p (of_be32 (take 4 (drop 8 data)))
                 (put_conn p (ci \<lparr> oppsite_id := tmp_oppsite_id, raw_info := answer_numbers cf (raw_info ci) \<rparr>) s, w)
             else Some (0, s, w))
     })"

section \<open>Packets\<close>

text \<open>The addresses of an answer.\<close>

definition reply_ends :: "vpn_conf \<Rightarrow> raw_info \<Rightarrow> raw_info" where
  "reply_ends cf ri =
     (let info = recv_info ri;
          ri = ri \<lparr> send_info := (send_info ri) \<lparr> new_src_ip := new_dst_ip info, src_port := dst_port info,
                                  dst_port := src_port info, new_dst_ip := new_src_ip info \<rparr> \<rparr>
      in if lower_level (net_cf cf) \<noteq> 0 then handle_lower_level cf ri else ri)"

text \<open>A SYN of the simulated TCP is answered until the connection is ready.\<close>

definition server_recv_syn :: "vpn_conf \<Rightarrow> sworld \<Rightarrow> sres" where
  "server_recv_syn cf = (\<lambda>(s, w).
     do {
       (ri, w) \<leftarrow> raw_info_init (net_cf cf) (raw_info (mem_conn s)) w;
       (rc, out, ri, nt) \<leftarrow> recv_raw0 (net_cf cf) ri (ch_net (chn s));
       let s = put_net nt s;
       (if rc < 0 then Some (0, s, w)
        else case out of
          None \<Rightarrow> None
        | Some (_, dlen) \<Rightarrow>
          if dlen \<ge> max_data_len + 1 then Some (-1, s, w)
          else if use_tcp_dummy_socket cf \<noteq> 0 then Some (0, s, w)
          else let ri = reply_ends cf ri; info = recv_info ri
            in if dlen = 0 \<and> syn info \<and> \<not> ack info then do {
                 let ri = ri \<lparr> send_info := (send_info ri) \<lparr> ack_seq := seq info + 1, psh := False, syn := True,
                                                          ack := True, ts_ack := ts info \<rparr> \<rparr>;
                 (_, _, nt, w) \<leftarrow> send_raw0 (net_cf cf) ri [] (nt, w);
                 Some (0, put_net nt s, w)
               }
               else Some (0, s, w))
     })"

text \<open>A packet from an address without a connection: only a first handshake
  message creates one.\<close>

definition server_recv_new :: "vpn_conf \<Rightarrow> address_t \<Rightarrow> sworld \<Rightarrow> sres" where
  "server_recv_new cf addr = (\<lambda>(s, w).
     if length (conn_mp (mgr s)) \<ge> max_handshake_conn_num then do {
       (_, nt) \<leftarrow> discard_raw_packet (ch_net (chn s));
       Some (0, put_net nt s, w)
     }
     else do {
       (ri, w) \<leftarrow> raw_info_init (net_cf cf) (raw_info (mem_conn s)) w;
       ri \<leftarrow> (if raw_mode (net_cf cf) = mode_icmp
              then do { port \<leftarrow> addr_get_port addr;
                        Some (ri \<lparr> send_info := (send_info ri) \<lparr> src_port := port, dst_port := port \<rparr> \<rparr>) }
              else Some ri);
       (rc, data, ri, ch) \<leftarrow> recv_bare cf ri (chn s);
       let s = s \<lparr> chn := ch \<rparr>;
       (if rc < 0 then Some (0, s, w)
        else if length data < 12 then Some (-1, s, w)
        else if of_be32 (take 4 (drop 4 data)) \<noteq> 0 then Some (-1, s, w)
        else do {
          (p, s, w) \<leftarrow> find_insert cf addr (s, w);
          ci \<leftarrow> heap s p;
          (id, w) \<leftarrow> get_true_random_number_nz w;
          let (t, w) = get_current_time w;
          let ci = ci \<lparr> raw_info := reply_ends cf ri, my_id := id, state := server_handshake1, last_state_time := t \<rparr>;
          (_, s, w) \<leftarrow> server_on_raw_recv_handshake1 cf p data (put_conn p ci s, w);
          Some (0, s, w)
        })
     })"

text \<open>A packet from the address of a connection.\<close>

definition server_recv_known :: "vpn_conf \<Rightarrow> nat \<Rightarrow> sworld \<Rightarrow> sres" where
  "server_recv_known cf p = (\<lambda>(s, w).
     do {
       ci \<leftarrow> heap s p;
       (case state ci of
          server_handshake1 \<Rightarrow> do {
            (rc, data, ri, ch) \<leftarrow> recv_bare cf (raw_info ci) (chn s);
            let s = put_conn p (ci \<lparr> raw_info := ri \<rparr>) s \<lparr> chn := ch \<rparr>;
            (if rc \<noteq> 0 then Some (-1, s, w) else server_on_raw_recv_handshake1 cf p data (s, w))
          }
        | server_ready \<Rightarrow> do {
            (_, msgs, ci, ch, w) \<leftarrow> recv_safer_multi cf ci (chn s, w);
            let s = put_conn p ci s \<lparr> chn := ch \<rparr>;
            (if msgs = [] then Some (-1, s, w) else map_option (\<lambda>st. (0, st)) (server_messages cf p msgs (s, w)))
          }
        | server_idle \<Rightarrow> do {
            (_, nt) \<leftarrow> discard_raw_packet (ch_net (chn s));
            Some (0, put_net nt s, w)
          }
        | _ \<Rightarrow> None)
     })"

definition server_on_raw_recv_multi :: "vpn_conf \<Rightarrow> frame \<Rightarrow> sworld \<Rightarrow> sres" where
  "server_on_raw_recv_multi cf fr = (\<lambda>(s, w).
     do {
       (peek_ri, w) \<leftarrow> raw_info_init (net_cf cf) (raw_info (mem_conn s)) w;
       let peek_ri = peek_ri \<lparr> peek := True \<rparr>;
       (rc, nt) \<leftarrow> pre_recv_raw_packet (net_cf cf) fr (ch_net (chn s));
       let s = put_net nt s;
       (if rc < 0 then Some (-1, s, w)
        else do {
          (rc, peek_ri, nt) \<leftarrow> peek_raw (net_cf cf) peek_ri nt;
          let s = put_net nt s;
          (if rc < 0 then do { (_, nt) \<leftarrow> discard_raw_packet nt; Some (-1, put_net nt s, w) }
           else do {
             let addr = peer_addr cf (recv_info peek_ri);
             let known = map_of (conn_mp (mgr s)) addr;
             (if raw_mode (net_cf cf) = mode_faketcp \<and> syn (recv_info peek_ri) then do {
                answers \<leftarrow> (case known of
                    None \<Rightarrow> Some True
                  | Some p \<Rightarrow> map_option (\<lambda>ci. state ci \<noteq> server_ready) (heap s p));
                (if answers then server_recv_syn cf (s, w)
                 else do { (_, nt) \<leftarrow> discard_raw_packet nt; Some (0, put_net nt s, w) })
              }
              else case known of
                None \<Rightarrow> server_recv_new cf addr (s, w)
              | Some p \<Rightarrow> server_recv_known cf p (s, w))
           })
        })
     })"

section \<open>Datagrams of the remote end\<close>

definition server_on_udp_recv :: "vpn_conf \<Rightarrow> nat \<Rightarrow> u64 \<Rightarrow> sworld \<Rightarrow> sres" where
  "server_on_udp_recv cf p fd64 = (\<lambda>(s, w).
     do {
       ci \<leftarrow> heap s p;
       assert_c (state ci = server_ready);
       b \<leftarrow> blob ci;
       assert_c (is_data_used (conv_mgr b) fd64);
       let (conv, _) = find_conv_by_data fd64 (conv_mgr b);
       fd \<leftarrow> to_fd (fds s) fd64;
       let (recv_len, buf, w) = sys_receive (SysRecv fd 1801) 1801 w;
       (if recv_len = max_data_len + 1 then Some (-1, s, w)
        else if recv_len < 0 then Some (-1, s, w)
        else do {
          (_, ci, ch, w) \<leftarrow> send_data_safer cf ci buf conv (chn s, w);
          Some (0, put_conn p ci s \<lparr> chn := ch \<rparr>, w)
        })
     })"

section \<open>The event loop\<close>

text \<open>One event of a batch: the 64 bit number, and for the raw socket what it
  has received. \<open>True\<close>: the loop returns.\<close>

definition server_handle_event :: "vpn_conf \<Rightarrow> int \<Rightarrow> int \<Rightarrow> u64 \<times> frame \<Rightarrow> sworld \<Rightarrow> (bool \<times> server \<times> world) option" where
  "server_handle_event cf timer_fd fifo_fd = (\<lambda>(data, fr) (s, w).
     if data = word_of_int timer_fd then do {
       (s, w) \<leftarrow> conn_clear_inactive cf (s, w);
       let (_, w) = syscall (SysRead timer_fd 8) w;
       Some (False, s, w)
     }
     else if data = word_of_int (raw_recv_fd cf) then do {
       (_, s, w) \<leftarrow> server_on_raw_recv_multi cf fr (s, w);
       Some (False, s, w)
     }
     else if data = word_of_int fifo_fd then do {
       let (len, buf, w) = sys_receive (SysRead fifo_fd 2200) 2200 w;
       (if len < 0 then Some (False, s, w)
        else do { assert_c (length buf < 2200); Some (False, s, w) })
     }
     else if data > 0xFFFFFFFF then
       (if \<not> fd64_exist (fds s) data then Some (True, s, w)
        else do {
          assert_c (exist_info (fds s) data);
          (p, fm) \<leftarrow> get_info data (fds s);
          let s = s \<lparr> fds := fm \<rparr>;
          ci \<leftarrow> heap s p;
          (if data = timer_fd64 ci then do {
             fd \<leftarrow> to_fd (fds s) data;
             let (_, w) = syscall (SysRead fd 8) w;
             assert_c (state ci = server_ready);
             (_, s, w) \<leftarrow> server_on_timer_multi cf p (s, w);
             Some (False, s, w)
           }
           else do {
             (_, s, w) \<leftarrow> server_on_udp_recv cf p data (s, w);
             Some (False, s, w)
           })
        })
     else None)"

fun server_handle_batch :: "vpn_conf \<Rightarrow> int \<Rightarrow> int \<Rightarrow> (u64 \<times> frame) list \<Rightarrow> sworld \<Rightarrow> (bool \<times> server \<times> world) option" where
  "server_handle_batch cf timer_fd fifo_fd [] st = Some (False, st)"
| "server_handle_batch cf timer_fd fifo_fd (ev # evs) st =
     do {
       (stop, st) \<leftarrow> server_handle_event cf timer_fd fifo_fd ev st;
       (if stop then Some (True, st) else server_handle_batch cf timer_fd fifo_fd evs st)
     }"

end
