(* ===== verification/ServerSafety.thy ===== *)
theory ServerSafety
  imports Server ClientSafety
begin

text \<open>
  The invariant of the server over all its events: every operation of Server.thy
  keeps it, and stays within the memory the objects own (\<open>srv\<close>).
\<close>

section \<open>The invariant over all events\<close>

definition srv :: "nat \<Rightarrow> sworld \<Rightarrow> bool" where
  "srv n = (\<lambda>(s, w). server_inv (s, w) \<and> dom (heap s) \<subseteq> ptrs s \<and> unat (counter (fds s)) + n < 2 ^ 64 \<and>
     ready_num (mgr s) \<le> max_ready_conn_num \<and> length (conn_mp (mgr s)) \<le> max_handshake_conn_num)"

lemma srv_less: "srv n st \<Longrightarrow> k \<le> n \<Longrightarrow> srv k st"
  by (cases st) (simp add: srv_def)

lemma server_inv_later: "server_inv (s, w) \<Longrightarrow> later w w' \<Longrightarrow> server_inv (s, w')"
  using core_later later_floor by (auto simp: server_inv_def)

lemma srv_later: "srv n (s, w) \<Longrightarrow> later w w' \<Longrightarrow> srv n (s, w')"
  using server_inv_later by (auto simp: srv_def)

lemma srv_chan [simp]: "srv n (s \<lparr> chn := ch \<rparr>, w) = srv n (s, w)"
  by (simp add: srv_def server_inv_def server_core_def ptrs_def)

lemma put_fields [simp]:
  "put_conn p ci (s \<lparr> fds := fm \<rparr>) = put_conn p ci s \<lparr> fds := fm \<rparr>"
  "put_conn p ci (s \<lparr> chn := ch \<rparr>) = put_conn p ci s \<lparr> chn := ch \<rparr>"
  "put_conn p ci (s \<lparr> mgr := m \<rparr>) = put_conn p ci s \<lparr> mgr := m \<rparr>"
  "put_conn p ci' (put_conn p ci s) = put_conn p ci' s"
  "heap (put_conn p ci s) = (heap s)(p \<mapsto> ci)" "mgr (put_conn p ci s) = mgr s" "fds (put_conn p ci s) = fds s"
  "chn (put_conn p ci s) = chn s" "next_ptr (put_conn p ci s) = next_ptr s" "ptrs (put_conn p ci s) = ptrs s"
  "mem_conn (put_conn p ci s) = mem_conn s" "mem_blob (put_conn p ci s) = mem_blob s"
  by (cases s; simp add: put_conn_def ptrs_def)+

text \<open>What an update of one connection may change.\<close>

lemma core_update:
  assumes core: "server_core (s, w)" and p: "p \<in> ptrs s" "heap s p = Some ci"
    and ok: "conn_ok w' (const_id_mp (mgr s)) p ci'"
    and same: "(state ci' = server_ready) = (state ci = server_ready)" "oppsite_const_id ci' = oppsite_const_id ci"
    and own: "\<forall>h\<in>conn_handles ci'. fd64_exist fm h \<and> fd_info_mp fm h = Some p"
    and others: "\<forall>q\<in>ptrs s - {p}. \<forall>cj. heap s q = Some cj \<longrightarrow>
        (\<forall>h\<in>conn_handles cj. fd64_exist fm h \<and> fd_info_mp fm h = Some q)"
    and fm: "fds_ok fm" and w: "now_floor w \<le> now_floor w'"
  shows "server_core (put_conn p ci' s \<lparr> fds := fm \<rparr>, w')"
proof -
  let ?s = "put_conn p ci' s \<lparr> fds := fm \<rparr>"
  have A: "\<exists>cj. heap ?s q = Some cj \<and> conn_ok w' (const_id_mp (mgr s)) q cj \<and>
      (\<forall>h\<in>conn_handles cj. fd64_exist fm h \<and> fd_info_mp fm h = Some q)" if q: "q \<in> ptrs s" for q
  proof (cases "q = p")
    case True
    then show ?thesis using ok own by (simp add: put_conn_def)
  next
    case False
    obtain cj where cj: "heap s q = Some cj" "conn_ok w (const_id_mp (mgr s)) q cj"
      using core_conn[OF core q] by blast
    then show ?thesis using False others q conn_ok_later[OF cj(2) w] by (simp add: put_conn_def)
  qed
  have B: "q \<in> ptrs s \<and> (\<exists>cj. heap ?s q = Some cj \<and> state cj = server_ready \<and> oppsite_const_id cj = c)"
    if "const_id_mp (mgr s) c = Some q" for c q
    using core_const[OF core that] same p(2) by (cases "q = p") (auto simp: put_conn_def)
  have nx: "\<forall>q\<ge>next_ptr s. heap ?s q = None"
    using core p(2) by (auto simp: server_core_def put_conn_def)
  have ps: "ptrs ?s = ptrs s" "mgr ?s = mgr s" "fds ?s = fm" "next_ptr ?s = next_ptr s" by (simp_all add: ptrs_def put_conn_def)
  show ?thesis
    unfolding server_core_def split_conv ps
    using core A B nx fm by (simp add: server_core_def)
qed

definition same_conn :: "u64 conn_info \<Rightarrow> u64 conn_info \<Rightarrow> bool" where
  "same_conn ci ci' \<longleftrightarrow> (state ci' = server_ready) = (state ci = server_ready) \<and> timer_fd64 ci' = timer_fd64 ci \<and> oppsite_const_id ci' = oppsite_const_id ci \<and>
     map_option conv_mgr (blob ci') = map_option conv_mgr (blob ci)"

lemma same_conn_refl [simp]: "same_conn ci ci"
  by (simp add: same_conn_def)

lemma same_conn_ok:
  assumes "same_conn ci ci'"
  shows "conn_handles ci' = conn_handles ci" "conn_ok w cids p ci' = conn_ok w cids p ci"
proof -
  have "conv_handles ci' = conv_handles ci"
    using assms by (cases "blob ci"; cases "blob ci'") (auto simp: same_conn_def conv_handles_def)
  then show "conn_handles ci' = conn_handles ci" "conn_ok w cids p ci' = conn_ok w cids p ci"
    using assms by (cases "blob ci"; cases "blob ci'"; auto simp: same_conn_def conn_handles_def conn_ok_def)+
qed

lemma put_same:
  assumes "server_core (s, w)" "p \<in> ptrs s" "heap s p = Some ci" "same_conn ci ci'"
  shows "server_core (put_conn p ci' s, w)"
proof -
  note sc = same_conn_ok[OF assms(4)]
  obtain ci0 where c: "heap s p = Some ci0" "conn_ok w (const_id_mp (mgr s)) p ci0"
    "\<forall>h\<in>conn_handles ci0. fd64_exist (fds s) h \<and> fd_info_mp (fds s) h = Some p"
    using core_conn[OF assms(1,2)] by blast
  have "server_core (put_conn p ci' s \<lparr> fds := fds s \<rparr>, w)"
  proof (rule core_update[OF assms(1-3)])
    show "conn_ok w (const_id_mp (mgr s)) p ci'" using c assms(3) sc by simp
    show "(state ci' = server_ready) = (state ci = server_ready)" "oppsite_const_id ci' = oppsite_const_id ci" using assms(4) by (simp_all add: same_conn_def)
    show "\<forall>h\<in>conn_handles ci'. fd64_exist (fds s) h \<and> fd_info_mp (fds s) h = Some p" using c assms(3) sc by simp
    show "\<forall>q\<in>ptrs s - {p}. \<forall>cj. heap s q = Some cj \<longrightarrow>
        (\<forall>h\<in>conn_handles cj. fd64_exist (fds s) h \<and> fd_info_mp (fds s) h = Some q)"
      using core_conn[OF assms(1)] by (metis DiffD1 option.inject)
    show "fds_ok (fds s)" using assms(1) by (simp add: server_core_def)
  qed simp
  then show ?thesis by (simp add: put_conn_def)
qed

lemma srv_put [intro]:
  assumes "srv n (s, w)" "heap s p = Some ci" "same_conn ci ci'"
  shows "srv n (put_conn p ci' s, w)"
proof -
  have p: "p \<in> ptrs s" using assms(1,2) by (auto simp: srv_def)
  have "server_core (put_conn p ci' s, w)" using put_same[OF _ p assms(2,3)] assms(1) by (simp add: srv_def server_inv_def)
  moreover have "ptrs (put_conn p ci' s) = ptrs s" by (simp add: ptrs_def put_conn_def)
  ultimately show ?thesis using assms(1) p by (auto simp: srv_def server_inv_def put_conn_def)
qed

lemma same_conn_channel: "only_channel ci ci' \<Longrightarrow> same_conn ci ci'"
  by (simp add: only_channel_def same_conn_def)

lemma same_conn_trans: "same_conn a b \<Longrightarrow> same_conn b c \<Longrightarrow> same_conn a c"
  by (simp add: same_conn_def)

section \<open>Heartbeats, datagrams\<close>

lemma srv_time:
  "srv n (s, w) \<Longrightarrow> (\<And>t w'. srv n (s, w') \<Longrightarrow> ensures (f t w') Q) \<Longrightarrow>
     ensures (case get_current_time w of (t, w') \<Rightarrow> f t w') Q"
  by (rule post_prod) (blast dest: later_time intro: srv_later)

lemma srv_syscall:
  "srv n (s, w) \<Longrightarrow> (\<And>t w'. srv n (s, w') \<Longrightarrow> ensures (f t w') Q) \<Longrightarrow>
     ensures (case syscall op w of (t, w') \<Rightarrow> f t w') Q"
  by (rule post_prod) (blast dest: later_syscall intro: srv_later)

lemma srv_receive:
  "srv m (s, w) \<Longrightarrow> (\<And>n bs w'. srv m (s, w') \<Longrightarrow> ensures (f n bs w') Q) \<Longrightarrow>
     ensures (case sys_receive op k w of (n, bs, w') \<Rightarrow> f n bs w') Q"
  using srv_later[of m s w] later_syscall[of op w]
  by (auto simp: sys_receive_def Let_def split: prod.splits)

lemma srv_rand_nz: "srv n (s, w) \<Longrightarrow> (\<And>r w'. srv n (s, w') \<Longrightarrow> r \<noteq> 0 \<Longrightarrow> Q (r, w')) \<Longrightarrow>
   ensures (get_true_random_number_nz w) Q"
  by (rule post_rand_nz) (blast intro: srv_later)

lemmas srv_env = srv_time srv_syscall srv_receive srv_rand_nz

lemma srv_send_hb:
  assumes "srv n (s, w)"
    "\<And>ci ci' ch w'. heap s p = Some ci \<Longrightarrow> same_conn ci ci' \<Longrightarrow> srv n (put_conn p ci' s \<lparr> chn := ch \<rparr>, w') \<Longrightarrow>
       Q (put_conn p ci' s \<lparr> chn := ch \<rparr>, w')"
  shows "ensures (server_send_hb cf p (s, w)) Q"
proof (rule postI)
  fix st assume "server_send_hb cf p (s, w) = Some st"
  then obtain ci rc ci' ch w' where h: "heap s p = Some ci"
    and r: "send_safer cf ci ch_h (hb_payload cf) (chn s, w) = Some (rc, ci', ch, w')"
    and st: "st = (put_conn p ci' s \<lparr> chn := ch \<rparr>, w')"
    by (auto simp: server_send_hb_def elim!: bind_eq_SomeE)
  note o = only_channel_sent[OF r]
  have "srv n (put_conn p ci' s, w')"
    using srv_put[OF srv_later[OF assms(1)] h] same_conn_channel o by blast
  then show "Q st" using assms(2)[OF h] same_conn_channel o st by simp
qed

section \<open>The cleaner of conversations\<close>

text \<open>The callback closes handles of connection \<open>p\<close> and no others.\<close>

definition owned :: "nat \<Rightarrow> fd_manager \<Rightarrow> u64 set \<Rightarrow> u64 set \<Rightarrow> fd_manager \<times> world \<Rightarrow> bool" where
  "owned p fm0 D0 D = (\<lambda>(fm, w). D \<subseteq> D0 \<and> (\<forall>h\<in>D. fd64_exist fm h \<and> fd_info_mp fm h = Some p) \<and>
     (\<forall>h. h \<notin> D0 \<longrightarrow> fd64_exist fm h = fd64_exist fm0 h \<and> fd_info_mp fm h = fd_info_mp fm0 h) \<and>
     (\<forall>h. fd64_exist fm h \<longrightarrow> fd64_exist fm0 h) \<and> counter fm = counter fm0)"

interpretation owned_convs: conv_cleaner "Some server_clear_function" "owned p fm0 D0" for p fm0 D0
proof unfold_locales
  fix D :: "u64 set" and xw :: "fd_manager \<times> world" and d and x :: fd_manager and w w' :: world
  show "\<exists>xw'. run_clear_fn (Some server_clear_function) d xw = Some xw' \<and> owned p fm0 D0 (D - {d}) xw' \<and>
      now_floor (snd xw') = now_floor (snd xw)" if o: "owned p fm0 D0 D xw" and d: "d \<in> D"
  proof -
    obtain fm u where xw: "xw = (fm, u)" by (cases xw)
    have ex: "fd64_exist fm d" using o d by (auto simp: owned_def xw)
    then obtain fm' u' where c: "fd64_close d (fm, u) = Some (fm', u')"
      by (auto simp: fd64_close_def fd64_exist_def Let_def)
    note cd = fd64_closeD[OF c, simplified] and ci = closed_info[OF c]
    have "run_clear_fn (Some server_clear_function) d xw = Some (fm', u')"
      using ex c by (simp add: run_clear_fn_def server_clear_function_def xw)
    moreover have "owned p fm0 D0 (D - {d}) (fm', u')"
      using o d cd ci by (auto simp: owned_def xw)
    ultimately show ?thesis using ci by (simp add: xw)
  qed
  show "owned p fm0 D0 D (x, w) \<Longrightarrow> owned p fm0 D0 D (x, w')" by (simp add: owned_def)
qed

lemma srv_ready:
  assumes "srv n (s, w)" "heap s p = Some ci" "state ci = server_ready"
  obtains b where "p \<in> ptrs s" "blob ci = Some b" "conv_inv w (conv_mgr b)" "timer_fd64 ci \<notin> ran (conv_to_data (conv_mgr b))"
    "conn_handles ci = insert (timer_fd64 ci) (ran (conv_to_data (conv_mgr b)))"
    "\<forall>h\<in>conn_handles ci. fd64_exist (fds s) h \<and> fd_info_mp (fds s) h = Some p"
    "conn_ok w (const_id_mp (mgr s)) p ci" "server_core (s, w)"
proof -
  have p: "p \<in> ptrs s" and core: "server_core (s, w)" using assms(1,2) by (auto simp: srv_def server_inv_def)
  have c: "conn_ok w (const_id_mp (mgr s)) p ci" "\<forall>h\<in>conn_handles ci. fd64_exist (fds s) h \<and> fd_info_mp (fds s) h = Some p"
    using core_conn[OF core p] assms(2) by (metis option.inject)+
  obtain b where b: "blob ci = Some b" "conv_inv w (conv_mgr b)" using c(1) assms(3) by (auto simp: conn_ok_def)
  show thesis
    by (rule that[OF p b]) (use c assms(3) core b in \<open>auto simp: conn_ok_def conn_handles_def conv_handles_def\<close>)
qed

text \<open>A new conversation table in a ready connection, with a new descriptor table.\<close>

lemma srv_put_convs:
  assumes st: "srv n (s, w)" and ci: "heap s p = Some ci" "state ci = server_ready" "blob ci = Some b"
    and inv: "conv_inv w' cm" and own: "\<forall>h\<in>ran (conv_to_data cm). fd64_exist fm h \<and> fd_info_mp fm h = Some p"
    and tm: "timer_fd64 ci \<notin> ran (conv_to_data cm)"
    and keep: "\<forall>h. fd64_exist (fds s) h \<and> h \<notin> ran (conv_to_data (conv_mgr b)) \<longrightarrow> fd64_exist fm h \<and> fd_info_mp fm h = fd_info_mp (fds s) h"
    and fm: "fds_ok fm" "unat (counter fm) + k < 2 ^ 64" and w: "later w w'"
  shows "srv k (put_conn p (ci \<lparr> blob := Some (b \<lparr> conv_mgr := cm \<rparr>) \<rparr>) s \<lparr> fds := fm \<rparr>, w')"
proof -
  let ?ci = "ci \<lparr> blob := Some (b \<lparr> conv_mgr := cm \<rparr>) \<rparr>"
  obtain b' where r: "p \<in> ptrs s" "blob ci = Some b'" "timer_fd64 ci \<notin> ran (conv_to_data (conv_mgr b'))"
    "conn_handles ci = insert (timer_fd64 ci) (ran (conv_to_data (conv_mgr b')))"
    "\<forall>h\<in>conn_handles ci. fd64_exist (fds s) h \<and> fd_info_mp (fds s) h = Some p"
    "conn_ok w (const_id_mp (mgr s)) p ci" "server_core (s, w)"
    by (rule srv_ready[OF st ci(1,2)])
  have b': "b' = b" using r(2) ci(3) by simp
  note r = r[unfolded b']
  have h: "conn_handles ?ci = insert (timer_fd64 ci) (ran (conv_to_data cm))"
    using ci by (simp add: conn_handles_def conv_handles_def)
  have "server_core (put_conn p ?ci s \<lparr> fds := fm \<rparr>, w')"
  proof (rule core_update[OF r(7) r(1) ci(1)])
    show "conn_ok w' (const_id_mp (mgr s)) p ?ci"
      using r(6) ci inv tm by (simp add: conn_ok_def conv_handles_def)
    show "\<forall>h\<in>conn_handles ?ci. fd64_exist fm h \<and> fd_info_mp fm h = Some p"
      unfolding h using own keep r(3,4,5) by auto
    show "\<forall>q\<in>ptrs s - {p}. \<forall>cj. heap s q = Some cj \<longrightarrow> (\<forall>h\<in>conn_handles cj. fd64_exist fm h \<and> fd_info_mp fm h = Some q)"
    proof (intro ballI allI impI)
      fix q cj k assume q: "q \<in> ptrs s - {p}" and cj: "heap s q = Some cj" and k: "k \<in> conn_handles cj"
      have k': "k \<notin> conn_handles ci" using handles_apart[OF r(7) r(1) _ _ ci(1) cj] q k by blast
      have "fd64_exist (fds s) k \<and> fd_info_mp (fds s) k = Some q"
        using core_conn[OF r(7), of q] q cj k by (metis DiffD1 option.inject)
      then show "fd64_exist fm k \<and> fd_info_mp fm k = Some q" using keep k' r(2,4) ci(3) by simp
    qed
  qed (use fm later_floor[OF w] in simp_all)
  moreover have "ptrs (put_conn p ?ci s \<lparr> fds := fm \<rparr>) = ptrs s" by (simp add: ptrs_def put_conn_def)
  ultimately show ?thesis using st r(1) fm by (auto simp: srv_def server_inv_def put_conn_def)
qed

lemma srv_clear_convs:
  assumes st: "srv n (s, w)" and ci: "heap s p = Some ci" "state ci = server_ready" "blob ci = Some b"
    and r: "conv_clear_inactive (Some server_clear_function) 0 (conv_mgr b, fds s, w) = Some (cm, fm, w')"
  shows "srv n (put_conn p (ci \<lparr> blob := Some (b \<lparr> conv_mgr := cm \<rparr>) \<rparr>) s \<lparr> fds := fm \<rparr>, w') \<and> later w w'"
proof -
  let ?D = "ran (conv_to_data (conv_mgr b))"
  obtain b' where rr: "blob ci = Some b'" "conv_inv w (conv_mgr b')" "timer_fd64 ci \<notin> ran (conv_to_data (conv_mgr b'))"
    "conn_handles ci = insert (timer_fd64 ci) (ran (conv_to_data (conv_mgr b')))"
    "\<forall>h\<in>conn_handles ci. fd64_exist (fds s) h \<and> fd_info_mp (fds s) h = Some p" "server_core (s, w)"
    by (rule srv_ready[OF st ci(1,2)])
  have b: "b' = b" using rr ci by simp
  have own: "owned p (fds s) ?D ?D (fds s, w)" using rr by (auto simp: owned_def b)
  have inv: "conv_inv w (conv_mgr b)" using rr by (simp add: b)
  have ok: "conv_inv w' cm" "owned p (fds s) ?D (ran (conv_to_data cm)) (fm, w')"
    using owned_convs.conv_clear_inactive_ok[OF inv own, of 0] r by auto
  have l: "later w w'" by (rule conv_clear_later[OF server_callback_later r])
  have fok: "fds_ok fm" using rr(6) ok(2) by (auto simp: server_core_def fds_ok_def owned_def)
  have "srv n (put_conn p (ci \<lparr> blob := Some (b \<lparr> conv_mgr := cm \<rparr>) \<rparr>) s \<lparr> fds := fm \<rparr>, w')"
    by (rule srv_put_convs[OF st ci ok(1) _ _ _ fok _ l])
      (use ok(2) rr(3) b st in \<open>auto simp: owned_def srv_def\<close>)
  then show ?thesis using l by blast
qed

lemma srv_on_timer:
  assumes "srv n (s, w)" shows "ensures (server_on_timer_multi cf p (s, w)) (\<lambda>(rc, st). srv n st)"
proof -
  have hb: "ensures (do { (s, w) \<leftarrow> server_send_hb cf p (s, w);
          ci \<leftarrow> heap s p;
          let (t, w) = get_current_time w;
          Some (0, put_conn p (ci \<lparr> last_hb_sent_time := t \<rparr>) s, w) }) (\<lambda>(rc, st). srv n st)" if "srv n (s, w)" for s w
    using that
    by - (rule post_bind, erule srv_send_hb, simp only: prod.case, rule post_bind, rule postI, rule post_let, erule srv_time,
      rule post_some, simp only: prod.case, erule srv_put, assumption, simp add: same_conn_def)
  show ?thesis
    unfolding server_on_timer_multi_def split
  proof (rule post_bind, rule postI, rule post_bind, rule post_assert, rule post_bind, rule postI, rule post_bind, rule postI)
    fix ci b x assume ci: "heap s p = Some ci" "state ci = server_ready" "blob ci = Some b"
      and "conv_clear_inactive (Some server_clear_function) 0 (conv_mgr b, fds s, w) = Some x"
    moreover obtain cm fm w' where x: "x = (cm, fm, w')" by (cases x)
    ultimately have c: "srv n (put_conn p (ci \<lparr> blob := Some (b \<lparr> conv_mgr := cm \<rparr>) \<rparr>) s \<lparr> fds := fm \<rparr>, w')"
      using srv_clear_convs[OF assms ci] by simp
    show "ensures (case x of (cm, fm, w) \<Rightarrow>
       let s = put_conn p (ci \<lparr> blob := Some (b \<lparr> conv_mgr := cm \<rparr>) \<rparr>) s \<lparr> fds := fm \<rparr>; (t, w) = get_current_time w
       in if t - last_hb_sent_time ci < heartbeat_interval then Some (0, s, w)
        else do {
          (s, w) \<leftarrow> server_send_hb cf p (s, w);
          ci \<leftarrow> heap s p;
          let (t, w) = get_current_time w;
          Some (0, put_conn p (ci \<lparr> last_hb_sent_time := t \<rparr>) s, w)
        }) (\<lambda>(rc, st). srv n st)"
      unfolding x by (simp only: prod.case, rule post_let, rule post_let, rule post_prod, rule post_if)
        (use srv_later[OF c later_time] hb in \<open>simp_all add: post_some\<close>)
  qed
qed

section \<open>New handles\<close>

lemma new_handle:
  assumes st: "srv (Suc n) (s, w)" and c: "fd_create fd (fds s) = Some (fd64, fm)" and i: "set_info fd64 p fm = Some fm'"
  shows "fd64_exist fm' fd64" "fd_info_mp fm' fd64 = Some p" "\<not> fd64_exist (fds s) fd64" "fd64 \<noteq> 0"
    "\<forall>h. fd64_exist (fds s) h \<longrightarrow> fd64_exist fm' h \<and> fd_info_mp fm' h = fd_info_mp (fds s) h"
    "fds_ok fm'" "unat (counter fm') + n < 2 ^ 64"
proof -
  have ok: "fds_ok (fds s)" and room: "unat (counter (fds s)) + Suc n < 2 ^ 64" using st by (auto simp: srv_def server_inv_def server_core_def)
  have f: "fd64 = counter (fds s)" "fm = (fds s) \<lparr> counter := counter (fds s) + 1, fd_to_fd64_mp := (fd_to_fd64_mp (fds s))(fd \<mapsto> fd64),
      fd64_to_fd_mp := (fd64_to_fd_mp (fds s))(fd64 \<mapsto> fd) \<rparr>" "fm' = fm \<lparr> fd_info_mp := (fd_info_mp fm)(fd64 \<mapsto> p) \<rparr>"
    using c i by (auto simp: fd_create_def set_info_def guard_simps Let_def)
  have "unat (counter (fds s) + 1) = Suc (unat (counter (fds s)))"
    using room by (simp add: unat_word_ariths)
  then have cnt: "unat (counter fm') = Suc (unat (counter (fds s)))" by (simp add: f)
  then have lt: "counter (fds s) < counter fm'" by (simp add: word_less_nat_alt)
  show new: "\<not> fd64_exist (fds s) fd64" using ok f by (auto simp: fds_ok_def)
  show "fd64_exist fm' fd64" "fd_info_mp fm' fd64 = Some p" by (simp_all add: f fd64_exist_def)
  show "fd64 \<noteq> 0" using ok f by (auto simp: fds_ok_def)
  show "\<forall>h. fd64_exist (fds s) h \<longrightarrow> fd64_exist fm' h \<and> fd_info_mp fm' h = fd_info_mp (fds s) h"
    using new by (auto simp: f fd64_exist_def)
  show "unat (counter fm') + n < 2 ^ 64" using cnt room by simp
  have "h < counter fm'" if "fd64_exist fm' h" for h
    using that ok lt f by (auto simp: fds_ok_def fd64_exist_def split: if_splits)
  moreover have "0xFFFFFFFF < counter fm'" using ok lt by (auto simp: fds_ok_def)
  ultimately show "fds_ok fm'" by (simp add: fds_ok_def)
qed

lemma srv_fds:
  assumes "srv n (s, w)" "\<forall>h. fd64_exist (fds s) h \<longrightarrow> fd64_exist fm h \<and> fd_info_mp fm h = fd_info_mp (fds s) h"
    "fds_ok fm" "unat (counter fm) + k < 2 ^ 64"
  shows "srv k (s \<lparr> fds := fm \<rparr>, w)"
proof -
  have core: "server_core (s, w)" using assms(1) by (simp add: srv_def server_inv_def)
  have "\<exists>ci. heap s q = Some ci \<and> conn_ok w (const_id_mp (mgr s)) q ci \<and>
      (\<forall>h\<in>conn_handles ci. fd64_exist fm h \<and> fd_info_mp fm h = Some q)" if "q \<in> ptrs s" for q
    using core_conn[OF core that] assms(2) by metis
  then have "server_core (s \<lparr> fds := fm \<rparr>, w)"
    using core assms(3) by (simp add: server_core_def ptrs_def)
  then show ?thesis using assms(1,4) by (simp add: srv_def server_inv_def ptrs_def)
qed

section \<open>Messages\<close>

text \<open>A ready connection with a known conversation.\<close>

definition is_ready :: "nat \<Rightarrow> server \<Rightarrow> bool" where
  "is_ready p s \<longleftrightarrow> (\<exists>ci. heap s p = Some ci \<and> state ci = server_ready)"

definition knows :: "nat \<Rightarrow> u32 \<Rightarrow> server \<Rightarrow> bool" where
  "knows p conv s \<longleftrightarrow> (\<exists>ci b. heap s p = Some ci \<and> state ci = server_ready \<and> blob ci = Some b \<and> is_conv_used (conv_mgr b) conv)"

lemma srv_new_conv:
  assumes st: "srv (Suc n) (s, w)" and ci: "heap s p = Some ci" "state ci = server_ready" "blob ci = Some b"
    and new: "\<not> is_conv_used (conv_mgr b) conv"
  shows "ensures (server_new_conv cf p conv (s, w)) (\<lambda>(r, s', w'). srv n (s', w') \<and> is_ready p s' \<and> (r = Inr () \<longrightarrow> knows p conv s'))"
proof -
  have st': "srv n (s, w)" by (rule srv_less[OF st]) simp
  have reg: "ensures (do {
             (fd64, fm) \<leftarrow> fd_create fd (fds s);
             fm \<leftarrow> set_info fd64 p fm;
             let s = s \<lparr> fds := fm \<rparr>;
             let (ret, w) = syscall (SysEpollAdd (epollfd cf) fd fd64) v;
             (if ret \<noteq> 0 then let (_, w) = syscall (SysClose fd) w in Some (Inl (-1), s, w)
              else do {
                (cm, w) \<leftarrow> insert_conv conv fd64 (conv_mgr b) w;
                Some (Inr (), put_conn p (ci \<lparr> blob := Some (b \<lparr> conv_mgr := cm \<rparr>) \<rparr>) s, w)
              })
           }) (\<lambda>(r, s', w'). srv n (s', w') \<and> is_ready p s' \<and> (r = Inr () \<longrightarrow> knows p conv s'))" (is "ensures ?m ?Q")
    if v: "later w v" for fd :: int and v
  proof (rule post_bind, rule postI, clarify, rule post_bind, rule postI, rule post_let, rule post_let, rule post_prod)
    fix fd64 fm fm' ret u assume c: "fd_create fd (fds s) = Some (fd64, fm)" "set_info fd64 p fm = Some fm'"
      and e: "syscall (SysEpollAdd (epollfd cf) fd fd64) v = (ret, u)"
    note h = new_handle[OF st c]
    have u: "later w u" using later_trans[OF v later_syscall[OF e]] .
    have fs: "srv n (s \<lparr> fds := fm' \<rparr>, u)" by (rule srv_fds[OF srv_later[OF st u] h(5-7)])
    show "ensures (if ret \<noteq> 0 then let (_, w) = syscall (SysClose fd) u in Some (Inl (-1), s \<lparr> fds := fm' \<rparr>, w)
              else do {
                (cm, w) \<leftarrow> insert_conv conv fd64 (conv_mgr b) u;
                Some (Inr (), put_conn p (ci \<lparr> blob := Some (b \<lparr> conv_mgr := cm \<rparr>) \<rparr>) (s \<lparr> fds := fm' \<rparr>), w)
              }) ?Q"
    proof (rule post_if)
      show "ensures (let (_, w) = syscall (SysClose fd) u in Some (Inl (-1), s \<lparr> fds := fm' \<rparr>, w)) ?Q"
        using fs by - (rule post_let, erule srv_syscall, use ci in \<open>simp add: post_some is_ready_def\<close>)
      show "ensures (do {
                (cm, w) \<leftarrow> insert_conv conv fd64 (conv_mgr b) u;
                Some (Inr (), put_conn p (ci \<lparr> blob := Some (b \<lparr> conv_mgr := cm \<rparr>) \<rparr>) (s \<lparr> fds := fm' \<rparr>), w)
              }) ?Q"
      proof (rule post_bind, rule postI, clarify, rule post_some)
        fix cm w' assume i: "insert_conv conv fd64 (conv_mgr b) u = Some (cm, w')"
        obtain b' where r: "blob ci = Some b'" "conv_inv w (conv_mgr b')" "timer_fd64 ci \<notin> ran (conv_to_data (conv_mgr b'))"
            "conn_handles ci = insert (timer_fd64 ci) (ran (conv_to_data (conv_mgr b')))"
            "\<forall>h\<in>conn_handles ci. fd64_exist (fds s) h \<and> fd_info_mp (fds s) h = Some p"
          by (rule srv_ready[OF st ci(1,2)])
        have b': "b' = b" using r ci by simp
        note r = r[unfolded b']
        have nd: "\<not> is_data_used (conv_mgr b) fd64"
        proof
          assume "is_data_used (conv_mgr b) fd64"
          then have "fd64 \<in> ran (conv_to_data (conv_mgr b))" using r(2) by (auto simp: is_data_used_def conv_inv_def ran_def)
          then show False using r(4,5) h(3) by simp
        qed
        obtain t x where t: "get_current_time u = (t, x)" by (metis prod.collapse)
        note ic = insert_conv_ok[OF conv_inv_later[OF r(2) later_floor[OF u]] new nd t]
        have cm: "conv_inv w' cm" "conv_to_data cm = (conv_to_data (conv_mgr b))(conv \<mapsto> fd64)" and x: "x = w'" using ic i by auto
        have l: "later w w'" using later_trans[OF u later_time[OF t]] x by simp
        have rn: "ran (conv_to_data cm) = insert fd64 (ran (conv_to_data (conv_mgr b)))"
          using new by (auto simp: cm(2) is_conv_used_def)
        have "srv n (put_conn p (ci \<lparr> blob := Some (b \<lparr> conv_mgr := cm \<rparr>) \<rparr>) s \<lparr> fds := fm' \<rparr>, w')"
        proof (rule srv_put_convs[OF st ci cm(1) _ _ _ h(6,7) l])
          show "\<forall>h\<in>ran (conv_to_data cm). fd64_exist fm' h \<and> fd_info_mp fm' h = Some p"
            unfolding rn using h r(4,5) by auto
          show "timer_fd64 ci \<notin> ran (conv_to_data cm)" unfolding rn using r(3,4,5) h(3) by auto
        qed (use h(5) in blast)
        then show "case (Inr (), put_conn p (ci \<lparr> blob := Some (b \<lparr> conv_mgr := cm \<rparr>) \<rparr>) (s \<lparr> fds := fm' \<rparr>), w') of
            (r, s', w') \<Rightarrow> srv n (s', w') \<and> is_ready p s' \<and> (r = Inr () \<longrightarrow> knows p conv s')"
          using ci cm(2) by (simp add: knows_def is_conv_used_def is_ready_def)
      qed
    qed
  qed
  show ?thesis
    unfolding server_new_conv_def split
    by (rule post_bind, rule post_known[OF ci(1)], rule post_bind, rule post_known[OF ci(3)], rule post_if, use ci in \<open>simp add: post_some st' is_ready_def\<close>,
      rule post_bind, rule track_connected_udp[OF later_refl], simp only: prod.case, rule post_if,
      use srv_later[OF st'] ci in \<open>simp add: post_some is_ready_def\<close>, rule reg)
qed

lemma srv_forward:
  assumes "srv n (s, w)" "knows p conv s" shows "ensures (server_forward cf p conv data (s, w)) (\<lambda>(rc, s', w'). srv n (s', w') \<and> is_ready p s')"
proof -
  obtain ci b where ci: "heap s p = Some ci" "state ci = server_ready" "blob ci = Some b" and u: "is_conv_used (conv_mgr b) conv"
    using assms(2) by (auto simp: knows_def)
  obtain d where d: "conv_to_data (conv_mgr b) conv = Some d" using u by (auto simp: is_conv_used_def)
  have f: "find_data_by_conv 0 conv (conv_mgr b) = (d, conv_mgr b)" by (simp add: find_data_by_conv_def d)
  obtain b' where r: "blob ci = Some b'" "conv_inv w (conv_mgr b')" "timer_fd64 ci \<notin> ran (conv_to_data (conv_mgr b'))"
            "conn_handles ci = insert (timer_fd64 ci) (ran (conv_to_data (conv_mgr b')))"
            "\<forall>h\<in>conn_handles ci. fd64_exist (fds s) h \<and> fd_info_mp (fds s) h = Some p"
    by (rule srv_ready[OF assms(1) ci(1,2)])
  have b': "b' = b" using r ci by simp
  note r = r[unfolded b']
  show ?thesis
    unfolding server_forward_def split
  proof (rule post_bind, rule post_known[OF ci(1)], rule post_bind, rule post_known[OF ci(3)], rule post_let, simp only: f prod.case,
      rule post_bind, rule postI, clarify)
    fix cm w' assume up: "conv_update_active_time conv (conv_mgr b) w = Some (cm, w')"
    note ua = update_active_inv(1)[OF up] update_active_inv(2)[OF up r(2) u]
    have ok: "fds_ok (fds s)" using assms(1) by (simp add: srv_def server_inv_def server_core_def)
    let ?s = "put_conn p (ci \<lparr> blob := Some (b \<lparr> conv_mgr := cm \<rparr>) \<rparr>) s"
    have "srv n (?s \<lparr> fds := fds s \<rparr>, w')"
      by (rule srv_put_convs[OF assms(1) ci _ _ _ _ ok _ ua(1)]) (use ua r assms(1) in \<open>auto simp: srv_def\<close>)
    then have "srv n (?s, w')" by (simp add: put_conn_def)
    then show "ensures (let s = ?s in to_fd (fds s) d \<bind> (\<lambda>fd. let (_, w) = syscall (SysSend fd data) w' in Some (0, s, w)))
        (\<lambda>(rc, s', w'). srv n (s', w') \<and> is_ready p s')"
      by - (rule post_let, rule post_bind, rule postI, rule post_let, erule srv_syscall, use ci in \<open>simp add: post_some is_ready_def\<close>)
  qed
qed

lemma srv_message:
  assumes "srv (Suc n) (s, w)" "is_ready p s"
  shows "ensures (server_on_raw_recv_ready cf p type data (s, w)) (\<lambda>(rc, s', w'). srv n (s', w') \<and> is_ready p s')"
    (is "ensures _ ?Q")
proof -
  obtain ci where ci: "heap s p = Some ci" "state ci = server_ready" using assms(2) by (auto simp: is_ready_def)
  have st: "srv n (s, w)" by (rule srv_less[OF assms(1)]) simp
  have same: "same_conn ci (ci \<lparr> last_hb_recv_time := t \<rparr>)" for t by (simp add: same_conn_def)
  have data: "ensures (do {
          b \<leftarrow> blob ci;
          (r, s, w) \<leftarrow> (if is_conv_used (conv_mgr b) conv then Some (Inr (), s, w)
                        else server_new_conv cf p conv (s, w));
          (case r of
             Inl rc \<Rightarrow> Some (rc, s, w)
           | Inr _ \<Rightarrow> server_forward cf p conv (drop 4 data) (s, w))
        }) ?Q" if s: "srv (Suc n) (s, w)" and ci: "heap s p = Some ci'" "blob ci' = blob ci" "state ci' = server_ready"
    for conv s w ci'
  proof (rule post_bind, rule postI, rule post_bind)
    fix b assume b: "blob ci = Some b"
    have n: "srv n (s, w)" by (rule srv_less[OF s]) simp
    show "ensures (if is_conv_used (conv_mgr b) conv then Some (Inr (), s, w) else server_new_conv cf p conv (s, w))
      (\<lambda>x. ensures (case x of (r, s, w) \<Rightarrow> case r of Inl rc \<Rightarrow> Some (rc, s, w)
           | Inr _ \<Rightarrow> server_forward cf p conv (drop 4 data) (s, w)) ?Q)"
    proof (rule post_if)
      assume "is_conv_used (conv_mgr b) conv"
      then have "knows p conv s" using ci b by (simp add: knows_def)
      then show "ensures (Some (Inr (), s, w)) (\<lambda>x. ensures (case x of (r, s, w) \<Rightarrow> case r of Inl rc \<Rightarrow> Some (rc, s, w)
           | Inr _ \<Rightarrow> server_forward cf p conv (drop 4 data) (s, w)) ?Q)"
        using srv_forward[OF n] by (simp add: post_some)
    next
      assume "\<not> is_conv_used (conv_mgr b) conv"
      then show "ensures (server_new_conv cf p conv (s, w)) (\<lambda>x. ensures (case x of (r, s, w) \<Rightarrow> case r of Inl rc \<Rightarrow> Some (rc, s, w)
           | Inr _ \<Rightarrow> server_forward cf p conv (drop 4 data) (s, w)) ?Q)"
        using ci b srv_forward
        by (intro post_weaken[OF srv_new_conv[OF s ci(1,3)]]) (auto simp: post_some split: sum.splits)
    qed
  qed
  show ?thesis
    unfolding server_on_raw_recv_ready_def split
  proof (rule post_bind, rule post_known[OF ci(1)], rule post_if)
    show "ensures (let (t, w) = get_current_time w in Some (0, put_conn p (ci \<lparr> last_hb_recv_time := t \<rparr>) s, w)) ?Q"
      using st by - (rule post_let, erule srv_time, rule post_some, use srv_put[OF _ ci(1) same] ci in \<open>simp add: is_ready_def\<close>)
    show "ensures (if type = ch_d \<and> 4 \<le> length data then do {
          let conv = of_be32 (take 4 data);
          let (s, w) = (if hb_mode cf = 0
             then let (t, w) = get_current_time w in (put_conn p (ci \<lparr> last_hb_recv_time := t \<rparr>) s, w)
             else (s, w));
          b \<leftarrow> blob ci;
          (r, s, w) \<leftarrow> (if is_conv_used (conv_mgr b) conv then Some (Inr (), s, w)
                        else server_new_conv cf p conv (s, w));
          (case r of
             Inl rc \<Rightarrow> Some (rc, s, w)
           | Inr _ \<Rightarrow> server_forward cf p conv (drop 4 data) (s, w))
        }
        else Some (0, s, w)) ?Q"
    proof (rule post_if, rule post_let, rule post_let, rule post_case_if, rule post_case_let, rule post_case_case)
      show "ensures (case get_current_time w of (t, w) \<Rightarrow> case (put_conn p (ci \<lparr> last_hb_recv_time := t \<rparr>) s, w) of (s, w) \<Rightarrow> do {
          b \<leftarrow> blob ci;
          (r, s, w) \<leftarrow> (if is_conv_used (conv_mgr b) (of_be32 (take 4 data)) then Some (Inr (), s, w)
                        else server_new_conv cf p (of_be32 (take 4 data)) (s, w));
          (case r of
             Inl rc \<Rightarrow> Some (rc, s, w)
           | Inr _ \<Rightarrow> server_forward cf p (of_be32 (take 4 data)) (drop 4 data) (s, w))
        }) ?Q"
        using assms(1)
        by - (erule srv_time, simp only: prod.case, rule data, erule srv_put[OF _ ci(1) same], simp, simp, simp add: ci(2))
    qed (use data[OF assms(1) ci(1)] ci st in \<open>simp_all add: post_some is_ready_def\<close>)
  qed
qed

lemma srv_messages:
  "srv (length ms + n) st \<Longrightarrow> is_ready p (fst st) \<Longrightarrow> ensures (server_messages cf p ms st) (srv n)"
proof (induction ms arbitrary: st)
  case (Cons m ms)
  obtain type data s w where m: "m = (type, data)" "st = (s, w)" by (metis surj_pair)
  have "srv (Suc (length ms + n)) (s, w)" using Cons.prems(1) by (simp add: m)
  then show ?case
    unfolding m server_messages.simps
    by (intro post_bind post_weaken[OF srv_message[of "length ms + n" s w p]])
      (use Cons m in auto)
qed (simp add: post_some)

section \<open>The handshake\<close>

lemma not_ready_fields:
  assumes "srv n (s, w)" "heap s p = Some ci" "state ci \<noteq> server_ready"
  shows "blob ci = None" "timer_fd64 ci = 0" "oppsite_const_id ci = 0" "conn_handles ci = {}" "p \<in> ptrs s"
proof -
  have p: "p \<in> ptrs s" and core: "server_core (s, w)" using assms(1,2) by (auto simp: srv_def server_inv_def)
  have "conn_ok w (const_id_mp (mgr s)) p ci" using core_conn[OF core p] assms(2) by (metis option.inject)
  then show "blob ci = None" "timer_fd64 ci = 0" "oppsite_const_id ci = 0" using assms(3) by (simp_all add: conn_ok_def)
  show "conn_handles ci = {}" "p \<in> ptrs s" using assms(3) p by (simp_all add: conn_handles_def)
qed

lemma srv_put_idle:
  assumes "srv n (s, w)" "heap s p = Some ci" "state ci \<noteq> server_ready"
  shows "srv n (put_conn p (ci \<lparr> state := server_idle, oppsite_const_id := 0 \<rparr>) s, w)"
  using not_ready_fields[OF assms] assms(3) by (intro srv_put[OF assms(1,2)]) (simp add: same_conn_def)

text \<open>Exchanging the objects of two addresses.\<close>

lemma swap_entries:
  assumes d: "distinct (map fst mp)" "distinct (map snd mp)" and a: "map_of mp a1 = Some p1" "map_of mp a2 = Some p2"
  defines "mp' \<equiv> mp_assign a1 p2 (mp_assign a2 p1 mp)"
  shows "map fst mp' = map fst mp" "distinct (map snd mp')" "snd ` set mp' = snd ` set mp"
proof -
  show "map fst mp' = map fst mp" by (simp add: mp'_def mp_assign_def comp_def case_prod_unfold)
  define sw where "sw q = (if q = p1 then p2 else if q = p2 then p1 else q)" for q
  have m: "(a1, p1) \<in> set mp" "(a2, p2) \<in> set mp" using a by (auto dest: map_of_SomeD)
  have k1: "y = z" if "(x, y) \<in> set mp" "(x, z) \<in> set mp" for x y z
    using d(1) that by (metis eq_key_imp_eq_value)
  have k2: "x = y" if "(x, z) \<in> set mp" "(y, z) \<in> set mp" for x y z
    using d(2) that inj_onD[of snd "set mp" "(x, z)" "(y, z)"] by (simp add: distinct_map)
  have key: "(b = a1) = (q = p1)" "(b = a2) = (q = p2)" if "(b, q) \<in> set mp" for b q
    using that m k1 k2 by metis+
  have sw: "snd (case e of (a, q) \<Rightarrow> (a, if a = a1 then p2 else if a = a2 then p1 else q)) = sw (snd e)" if "e \<in> set mp" for e
    using key[of "fst e" "snd e"] that by (cases e) (auto simp: sw_def)
  have "mp' = map (\<lambda>(a, q). (a, if a = a1 then p2 else if a = a2 then p1 else q)) mp"
    by (simp add: mp'_def mp_assign_def case_prod_unfold)
  then have snds: "map snd mp' = map sw (map snd mp)" using sw by simp
  have inj: "inj sw" by (auto simp: inj_def sw_def)
  show "distinct (map snd mp')" unfolding snds using d(2) inj by (simp add: distinct_map inj_on_def inj_def)
  have "p1 \<in> snd ` set mp" "p2 \<in> snd ` set mp" using m by (auto intro: rev_image_eqI)
  then have "sw ` (snd ` set mp) = snd ` set mp" by (force simp: sw_def)
  then show "snd ` set mp' = snd ` set mp" using arg_cong[OF snds, of set] by (simp add: image_image)
qed

lemma srv_swap:
  assumes st: "srv n (s, w)" and a: "map_of (conn_mp (mgr s)) a1 = Some p1" "map_of (conn_mp (mgr s)) a2 = Some p2"
  shows "srv n (s \<lparr> mgr := (mgr s) \<lparr> conn_mp := mp_assign a1 p2 (mp_assign a2 p1 (conn_mp (mgr s))) \<rparr> \<rparr>, w)"
proof -
  have d: "distinct (map fst (conn_mp (mgr s)))" "distinct (map snd (conn_mp (mgr s)))"
    using st by (auto simp: srv_def server_inv_def server_core_def)
  note sw = swap_entries[OF d a]
  have f: "fst ` set (mp_assign a1 p2 (mp_assign a2 p1 (conn_mp (mgr s)))) = fst ` set (conn_mp (mgr s))"
    using arg_cong[OF sw(1), of set] by simp
  have l: "length (mp_assign a1 p2 (mp_assign a2 p1 (conn_mp (mgr s)))) = length (conn_mp (mgr s))" by (simp add: mp_assign_def)
  show ?thesis
    using st unfolding srv_def server_inv_def server_core_def ptrs_def split_conv
    by (simp add: sw f l)
qed

lemma recover_same:
  assumes "conn_recover ori ci = Some ori'" shows "same_conn ori ori'"
  using assms by (auto simp: conn_recover_def same_conn_def split: option.splits)

lemma srv_take_over:
  assumes st: "srv n (s, w)" and ci: "heap s p = Some ci" "state ci \<noteq> server_ready"
  shows "ensures (server_take_over cf p q (s, w)) (\<lambda>(rc, st). srv n st)"
  unfolding server_take_over_def split
proof (rule post_bind, rule post_known[OF ci(1)], rule post_bind, rule postI, rule post_bind, rule post_assert, rule post_if)
  fix ori assume ori: "heap s q = Some ori" "state ori = server_ready"
  show "ensures (Some (0, put_conn p (ci \<lparr> state := server_idle, oppsite_const_id := 0 \<rparr>) s, w)) (\<lambda>(rc, st). srv n st)"
    using srv_put_idle[OF st ci] by (simp add: post_some)
  have pq: "p \<noteq> q" using ci ori by auto
  let ?a1 = "peer_addr cf (recv_info (raw_info ori))" and ?a2 = "peer_addr cf (recv_info (raw_info ci))"
  have rest: "ensures (do {
          ori \<leftarrow> conn_recover ori ci;
          let s = put_conn q ori s;
          (s, w) \<leftarrow> server_send_hb cf q (s, w);
          ori \<leftarrow> heap s q;
          let (t, w) = get_current_time w;
          let s = put_conn q (ori \<lparr> last_hb_recv_time := t \<rparr>) s;
          ci \<leftarrow> heap s p;
          Some (0, put_conn p (ci \<lparr> state := server_idle, oppsite_const_id := 0 \<rparr>) s, w)
        }) (\<lambda>(rc, st). srv n st)" if s: "srv n (s, w)" and h: "heap s p = Some ci" "heap s q = Some ori" for s
  proof (rule post_bind, rule postI, rule post_let, rule post_bind, rule srv_send_hb, erule srv_put[OF s h(2) recover_same],
      simp only: prod.case, rule post_bind, rule postI, rule post_let)
    fix ori' cq cq' ch w' o2 assume f: "srv n (put_conn q cq' (put_conn q ori' s) \<lparr> chn := ch \<rparr>, w')"
      and o2: "heap (put_conn q cq' (put_conn q ori' s) \<lparr> chn := ch \<rparr>) q = Some o2"
    show "ensures (case get_current_time w' of (t, w) \<Rightarrow>
         let s = put_conn q (o2 \<lparr> last_hb_recv_time := t \<rparr>) (put_conn q cq' (put_conn q ori' s) \<lparr> chn := ch \<rparr>)
         in heap s p \<bind> (\<lambda>ci. Some (0, put_conn p (ci \<lparr> state := server_idle, oppsite_const_id := 0 \<rparr>) s, w))) (\<lambda>(rc, st). srv n st)"
      using f
    proof (rule srv_time, goal_cases)
      case (1 t v)
      have g: "srv n (put_conn q (o2 \<lparr> last_hb_recv_time := t \<rparr>) (put_conn q cq' (put_conn q ori' s) \<lparr> chn := ch \<rparr>), v)"
        by (rule srv_put[OF 1 o2]) (simp add: same_conn_def)
      show ?case
        by (rule post_let, rule post_bind, rule post_known[where b = ci], use pq h in simp, rule post_some, simp only: prod.case,
          rule srv_put_idle[OF g], use pq h ci in simp_all)
    qed
  qed
  show "ensures (let addr1 = ?a1 in do {
          assert_c (conn_exist s addr1);
          let addr2 = ?a2;
          assert_c (conn_exist s addr2);
          p_ori \<leftarrow> map_of (conn_mp (mgr s)) addr1;
          p_new \<leftarrow> map_of (conn_mp (mgr s)) addr2;
          let s = s \<lparr> mgr := (mgr s) \<lparr> conn_mp := mp_assign addr1 p_new (mp_assign addr2 p_ori (conn_mp (mgr s))) \<rparr> \<rparr>;
          ori \<leftarrow> conn_recover ori ci;
          let s = put_conn q ori s;
          (s, w) \<leftarrow> server_send_hb cf q (s, w);
          ori \<leftarrow> heap s q;
          let (t, w) = get_current_time w;
          let s = put_conn q (ori \<lparr> last_hb_recv_time := t \<rparr>) s;
          ci \<leftarrow> heap s p;
          Some (0, put_conn p (ci \<lparr> state := server_idle, oppsite_const_id := 0 \<rparr>) s, w)
        }) (\<lambda>(rc, st). srv n st)"
    by (rule post_let, rule post_bind, rule post_assert, rule post_let, rule post_bind, rule post_assert,
      rule post_bind, rule postI, rule post_bind, rule postI, rule post_let, rule rest)
      (use srv_swap[OF st] ci ori in simp_all)
qed

text \<open>The connection becomes ready.\<close>

lemma srv_made_ready:
  assumes st: "srv (Suc n) (s, w)" and ci: "heap s p = Some ci" "state ci \<noteq> server_ready"
    and id: "const_id_mp (mgr s) c = None" "c \<noteq> 0" and room: "ready_num (mgr s) < max_ready_conn_num"
    and h: "fd_create fd (fds s) = Some (fd64, fm)" "set_info fd64 p fm = Some fm'"
    and ci': "state ci' = server_ready" "oppsite_const_id ci' = c" "timer_fd64 ci' = fd64" "blob ci' = Some b"
      "conv_mgr b = conv_manager_init j"
    and w: "later w w'"
  shows "srv n (put_conn p ci' s \<lparr> mgr := (mgr s) \<lparr> ready_num := ready_num (mgr s) + 1,
     const_id_mp := (const_id_mp (mgr s))(c \<mapsto> p) \<rparr>, fds := fm' \<rparr>, w')"
proof -
  let ?m = "(mgr s) \<lparr> ready_num := ready_num (mgr s) + 1, const_id_mp := (const_id_mp (mgr s))(c \<mapsto> p) \<rparr>"
  let ?s = "put_conn p ci' s \<lparr> mgr := ?m, fds := fm' \<rparr>"
  note nh = new_handle[OF st h] and nf = not_ready_fields[OF st ci]
  have core: "server_core (s, w)" using st by (simp add: srv_def server_inv_def)
  have cv: "conv_handles ci' = {}" "conn_handles ci' = {fd64}" using ci' by (simp_all add: conv_handles_def conn_handles_def conv_manager_init_def)
  have ok: "conn_ok w' (const_id_mp ?m) p ci'" using ci' id nh(4) by (simp add: conn_ok_def cv)
  have A: "\<exists>cj. heap ?s q = Some cj \<and> conn_ok w' (const_id_mp ?m) q cj \<and>
      (\<forall>h\<in>conn_handles cj. fd64_exist fm' h \<and> fd_info_mp fm' h = Some q)" if q: "q \<in> ptrs s" for q
  proof (cases "q = p")
    case True
    then show ?thesis using ok nh by (simp add: cv)
  next
    case False
    obtain cj where cj: "heap s q = Some cj" "conn_ok w (const_id_mp (mgr s)) q cj"
      "\<forall>h\<in>conn_handles cj. fd64_exist (fds s) h \<and> fd_info_mp (fds s) h = Some q"
      using core_conn[OF core q] by blast
    have "conn_ok w (const_id_mp ?m) q cj" using cj(2) id by (auto simp: conn_ok_def)
    then show ?thesis using cj nh(5) False conn_ok_later[OF _ later_floor[OF w]] by auto
  qed
  have B: "q \<in> ptrs s \<and> (\<exists>cj. heap ?s q = Some cj \<and> state cj = server_ready \<and> oppsite_const_id cj = d)"
    if "const_id_mp ?m d = Some q" for d q
  proof (cases "d = c")
    case True
    then show ?thesis using that ci' nf(5) by simp
  next
    case False
    then have "const_id_mp (mgr s) d = Some q" using that by simp
    from core_const[OF core this] show ?thesis using ci by auto
  qed
  have "unat (ready_num (mgr s) + 1) = Suc (unat (ready_num (mgr s)))"
    using room by (simp add: max_ready_conn_num_def word_less_nat_alt unat_word_ariths)
  moreover have "card (dom (const_id_mp ?m)) = Suc (card (dom (const_id_mp (mgr s))))"
    using finite_const_ids[OF core] id(1) by (simp add: domIff)
  ultimately have R: "unat (ready_num ?m) = card (dom (const_id_mp ?m))" using core by (simp add: server_core_def)
  have "ready_num (mgr s) + 1 \<le> max_ready_conn_num"
    using room \<open>unat (ready_num (mgr s) + 1) = _\<close> by (simp add: word_less_nat_alt word_le_nat_alt)
  moreover have np: "\<not> next_ptr s \<le> p" using core ci(1) by (auto simp: server_core_def)
  moreover have "server_core (?s, w')"
    unfolding server_core_def split_conv using core A B R np nh(6) ci(1) nf(5) by (simp add: server_core_def ptrs_def)
  ultimately show ?thesis using st nf(5) nh(7) by (auto simp: srv_def server_inv_def ptrs_def)
qed

lemma set_timer_shape:
  assumes "set_timer_server cf (fm, w) = Some (fd64, fm', w')"
  shows "\<exists>fd. fd_create fd fm = Some (fd64, fm') \<and> later w w'"
proof -
  have "ensures (set_timer_server cf (fm, w)) (\<lambda>(fd64, fm', w'). \<exists>fd. fd_create fd fm = Some (fd64, fm') \<and> later w w')"
    unfolding set_timer_server_def split using later_refl[of w]
    by - (rule post_let, erule tracks, rule post_bind, rule post_assert, rule post_let, erule tracks, rule post_bind, rule postI,
      simp only: split_paired_all, simp only: prod.case, rule post_let, erule tracks, rule post_bind, rule post_assert,
      rule post_some, simp only: prod.case, blast)
  from postD[OF this assms] show ?thesis by simp
qed

lemma srv_become_ready:
  assumes st: "srv (Suc n) (s, w)" and ci: "heap s p = Some ci" "state ci \<noteq> server_ready" and id: "const_id_mp (mgr s) c = None"
  shows "ensures (server_become_ready cf p c (s, w)) (\<lambda>(rc, s', w'). const_id_mp (mgr s') 0 = None \<longrightarrow> srv n (s', w'))"
    (is "ensures _ ?Q")
proof (rule postI)
  fix x assume run: "server_become_ready cf p c (s, w) = Some x"
  show "?Q x"
  proof (cases "ready_num (mgr s) \<ge> max_ready_conn_num")
    case True
    then have "x = (0, put_conn p (ci \<lparr> state := server_idle \<rparr>) s, w)" using run ci(1) by (simp add: server_become_ready_def)
    then show ?thesis using srv_put[OF srv_less[OF st] ci(1), of n] ci(2) by (simp add: same_conn_def)
  next
    case False
    obtain c1 w1 where pr: "conn_prepare (program_mode (net_cf cf)) (mem_blob s) ci w = Some (c1, w1)"
      using run False ci(1) by (auto simp: server_become_ready_def elim!: bind_eq_SomeE)
    obtain t w2 where t: "get_current_time w1 = (t, w2)" by (metis prod.collapse)
    let ?m = "(mgr s) \<lparr> ready_num := ready_num (mgr s) + 1, const_id_mp := (const_id_mp (mgr s))(c \<mapsto> p) \<rparr>"
    let ?c2 = "c1 \<lparr> state := server_ready, oppsite_const_id := c, last_hb_recv_time := t, last_hb_sent_time := t \<rparr>"
    let ?s2 = "put_conn p ?c2 s \<lparr> mgr := ?m \<rparr>"
    obtain s3 w3 where hb: "server_send_hb cf p (?s2, w2) = Some (s3, w3)"
      using run False ci(1) pr t by (auto simp: server_become_ready_def Let_def elim!: bind_eq_SomeE)
    obtain rc c3 ch where snd: "send_safer cf ?c2 ch_h (hb_payload cf) (chn s, w2) = Some (rc, c3, ch, w3)"
      and s3: "s3 = put_conn p c3 ?s2 \<lparr> chn := ch \<rparr>"
      using hb by (auto simp: server_send_hb_def elim!: bind_eq_SomeE)
    obtain fd64 fm fm' w4 where tm: "set_timer_server cf (fds s, w3) = Some (fd64, fm, w4)" "set_info fd64 p fm = Some fm'"
      and x: "x = (0, put_conn p ((upd_anti_replay ar_re_init c3) \<lparr> timer_fd64 := fd64 \<rparr>) s3 \<lparr> fds := fm' \<rparr>, w4)"
      using run False ci(1) pr t hb s3 by (auto simp: server_become_ready_def Let_def elim!: bind_eq_SomeE)
    obtain b where b: "blob c1 = Some b" "conv_mgr b = conv_manager_init (cv_last_clear_time (conv_mgr (mem_blob s)))" and l1: "later w w1"
      using pr later_rand64 by (fastforce simp: conn_prepare_def blob_new_def guard_simps elim!: bind_eq_SomeE)
    note o = only_channel_sent[OF snd]
    obtain b3 where b3: "blob c3 = Some b3" "conv_mgr b3 = conv_mgr b" using o b by (auto simp: only_channel_def)
    obtain fd where cr: "fd_create fd (fds s) = Some (fd64, fm)" and l4: "later w3 w4" using set_timer_shape[OF tm(1)] by blast
    have l: "later w w4" using l1 later_time[OF t] o l4 later_trans by blast
    let ?c4 = "(upd_anti_replay ar_re_init c3) \<lparr> timer_fd64 := fd64 \<rparr>"
    have "srv n (put_conn p ?c4 s \<lparr> mgr := ?m, fds := fm' \<rparr>, w4)" if "c \<noteq> 0"
      by (rule srv_made_ready[where b = "b3 \<lparr> anti_rep := ar_re_init (anti_rep b3) \<rparr>", OF st ci id that _ cr tm(2) _ _ _ _ _ l])
        (use False o b b3 in \<open>simp_all add: only_channel_def not_le\<close>)
    then show ?thesis unfolding x s3 by (auto simp: srv_def server_inv_def server_core_def ptrs_def)
  qed
qed

text \<open>Unless a client has announced the constant identifier 0.\<close>

definition srvz :: "nat \<Rightarrow> sworld \<Rightarrow> bool" where
  "srvz n st \<longleftrightarrow> (const_id_mp (mgr (fst st)) 0 = None \<longrightarrow> srv n st)"

lemma srvz_intro [simp]: "srv n st \<Longrightarrow> srvz n st"
  by (simp add: srvz_def)

lemma srv_pre_ready:
  assumes "srv (Suc n) (s, w)" "heap s p = Some ci" "state ci \<noteq> server_ready"
  shows "ensures (server_on_raw_recv_pre_ready cf p c (s, w)) (\<lambda>(rc, st). srvz n st)"
proof -
  have "srv n (s, w)" by (rule srv_less[OF assms(1)]) simp
  note t = srv_take_over[OF this assms(2,3)]
  show ?thesis
    using post_weaken[OF srv_become_ready[OF assms, of c cf], of "\<lambda>(rc, st). srvz n st"] post_weaken[OF t, of "\<lambda>(rc, st). srvz n st"]
    by (auto simp: server_on_raw_recv_pre_ready_def srvz_def split: option.splits prod.splits)
qed

lemma srv_handshake1:
  assumes st: "srv (Suc n) (s, w)" and ci: "heap s p = Some ci" "state ci \<noteq> server_ready"
  shows "ensures (server_on_raw_recv_handshake1 cf p data (s, w)) (\<lambda>(rc, st). srvz n st)"
proof -
  have st': "srv n (s, w)" by (rule srv_less[OF st]) simp
  have same: "same_conn ci (ci \<lparr> raw_info := ri \<rparr>)" "same_conn ci (ci \<lparr> oppsite_id := i, raw_info := ri \<rparr>)" for i ri
    by (simp_all add: same_conn_def)
  show ?thesis
    unfolding server_on_raw_recv_handshake1_def split
  proof (rule post_bind, rule post_known[OF ci(1)], rule post_if, use st' in \<open>simp add: post_some\<close>, rule post_let, rule post_let, rule post_if)
    show "ensures (do {
               (_, ri, ch, w) \<leftarrow> send_handshake cf (answer_numbers cf (raw_info ci)) (my_id ci) i (const_id cf) (chn s, w);
               Some (0, put_conn p (ci \<lparr> raw_info := ri \<rparr>) s \<lparr> chn := ch \<rparr>, w)
             }) (\<lambda>(rc, st). srvz n st)" for i
      by (rule post_bind, rule postI, clarify, rule post_some, simp only: prod.case, rule srvz_intro)
        (auto dest!: later_send_handshake intro!: srv_put[OF srv_later[OF st'] ci(1) same(1)])
    show "ensures (if j = my_id ci then server_on_raw_recv_pre_ready cf p k
                 (put_conn p (ci \<lparr> oppsite_id := i, raw_info := answer_numbers cf (raw_info ci) \<rparr>) s, w)
             else Some (0, s, w)) (\<lambda>(rc, st). srvz n st)" for i j k
      by (rule post_if, rule srv_pre_ready[OF srv_put[OF st ci(1) same(2)]], simp, simp add: ci(2), simp add: post_some st')
  qed
qed

section \<open>Packets\<close>

lemma srv_net [simp]: "srv n (put_net nt s, w) = srv n (s, w)"
  by (simp add: put_net_def)

lemma put_net_fields [simp]: "heap (put_net nt s) = heap s" "mgr (put_net nt s) = mgr s"
  by (simp_all add: put_net_def)

lemma later_packet_init: "packet_info_init cf junk w = Some (x, w') \<Longrightarrow> later w w'"
  by (cases "raw_mode cf")
    (auto simp: packet_info_init_def Let_def elim!: bind_eq_SomeE dest!: later_rand split: if_splits intro: later_trans)

lemma post_raw_info_init: "(\<And>ri w'. later w w' \<Longrightarrow> Q (ri, w')) \<Longrightarrow> ensures (raw_info_init cf junk w) Q"
proof (rule postI)
  fix x assume Q: "\<And>ri w'. later w w' \<Longrightarrow> Q (ri, w')" and "raw_info_init cf junk w = Some x"
  then obtain si w1 ri w2 where p: "packet_info_init cf (send_info junk) w = Some (si, w1)"
    "packet_info_init cf (recv_info junk) w1 = Some (ri, w2)" and x: "snd x = w2"
    by (auto simp: raw_info_init_def elim!: bind_eq_SomeE)
  show "Q x" using Q[of w2 "fst x"] later_trans[OF p[THEN later_packet_init]] x by (cases x) simp
qed

lemma insert_entry:
  assumes "distinct (map fst mp)" "distinct (map snd mp)" "a \<notin> fst ` set mp" "p \<notin> snd ` set mp"
  shows "distinct (map fst (mp_insert cf a p mp))" "distinct (map snd (mp_insert cf a p mp))"
    "fst ` set (mp_insert cf a p mp) = insert a (fst ` set mp)" "snd ` set (mp_insert cf a p mp) = insert p (snd ` set mp)"
    "length (mp_insert cf a p mp) = Suc (length mp)" "set (mp_insert cf a p mp) = insert (a, p) (set mp)"
proof -
  define i where "i = hash_place cf a mp"
  have mp: "mp = take i mp @ drop i mp" by simp
  have ins: "mp_insert cf a p mp = take i mp @ (a, p) # drop i mp" by (simp add: mp_insert_def i_def Let_def)
  show s: "set (mp_insert cf a p mp) = insert (a, p) (set mp)"
    unfolding ins by (subst (3) mp) (simp del: append_take_drop_id)
  show "fst ` set (mp_insert cf a p mp) = insert a (fst ` set mp)" "snd ` set (mp_insert cf a p mp) = insert p (snd ` set mp)"
    by (simp_all add: s)
  show l: "length (mp_insert cf a p mp) = Suc (length mp)" by (simp add: ins)
  have c: "card (fst ` set mp) = length mp" "card (snd ` set mp) = length mp"
    using distinct_card[OF assms(1)] distinct_card[OF assms(2)] by simp_all
  show "distinct (map fst (mp_insert cf a p mp))" "distinct (map snd (mp_insert cf a p mp))"
    using assms c by (auto intro!: card_distinct simp: s l)
qed

lemma srv_insert:
  assumes st: "srv n (s, w)" and new: "map_of (conn_mp (mgr s)) addr = None" and room: "length (conn_mp (mgr s)) < max_handshake_conn_num"
    and f: "find_insert cf addr (s, w) = Some (p, s', w')"
  shows "srv n (s', w') \<and> (\<exists>ci. heap s' p = Some ci \<and> state ci \<noteq> server_ready) \<and> chn s' = chn s"
proof -
  obtain ci where c: "conn_info_new (net_cf cf) (mem_conn s) w = Some (ci, w')" and p: "p = next_ptr s"
    and s': "s' = s \<lparr> heap := (heap s)(p \<mapsto> ci), next_ptr := next_ptr s + 1,
                      mgr := mgr s \<lparr> conn_mp := mp_insert cf addr p (conn_mp (mgr s)) \<rparr> \<rparr>"
    using f new by (auto simp: find_insert_def Let_def elim!: bind_eq_SomeE)
  have core: "server_core (s, w)" using st by (simp add: srv_def server_inv_def)
  obtain ri where ri: "raw_info_init (net_cf cf) (raw_info (mem_conn s)) w = Some (ri, w')"
    and cri: "ci = conn_re_init (program_mode (net_cf cf)) (mem_conn s \<lparr> raw_info := ri, blob := None \<rparr>)"
    using c by (auto simp: conn_info_new_def elim!: bind_eq_SomeE)
  have "later w w'" using postD[OF post_raw_info_init[where Q = "\<lambda>(ri, w'). later w w'"] ri] by simp
  then have ci: "state ci \<noteq> server_ready" "blob ci = None" "timer_fd64 ci = 0" "oppsite_const_id ci = 0" "later w w'"
    by (simp_all add: cri conn_re_init_def)
  have fresh: "heap s p = None" using core p by (simp add: server_core_def)
  have pn: "p \<notin> ptrs s"
  proof
    assume "p \<in> ptrs s"
    then obtain cj where "heap s p = Some cj" by (rule core_conn[OF core])
    then show False using fresh by simp
  qed
  have d: "distinct (map fst (conn_mp (mgr s)))" "distinct (map snd (conn_mp (mgr s)))"
    using core by (simp_all add: server_core_def)
  have an: "addr \<notin> fst ` set (conn_mp (mgr s))" using new by (simp add: map_of_eq_None_iff)
  note ie = insert_entry[OF d an pn[unfolded ptrs_def], of cf]
  have ps: "ptrs s' = insert p (ptrs s)" using ie(4) by (simp add: s' ptrs_def)
  have A: "\<exists>cj. heap s' q = Some cj \<and> conn_ok w' (const_id_mp (mgr s)) q cj \<and>
      (\<forall>h\<in>conn_handles cj. fd64_exist (fds s) h \<and> fd_info_mp (fds s) h = Some q)" if q: "q \<in> insert p (ptrs s)" for q
  proof (cases "q = p")
    case True
    then show ?thesis using ci by (simp add: s' conn_ok_def conn_handles_def)
  next
    case False
    then have "q \<in> ptrs s" using q by simp
    then obtain cj where "heap s q = Some cj" "conn_ok w (const_id_mp (mgr s)) q cj"
      "\<forall>h\<in>conn_handles cj. fd64_exist (fds s) h \<and> fd_info_mp (fds s) h = Some q"
      using core_conn[OF core] by blast
    then show ?thesis using False conn_ok_later[OF _ later_floor[OF ci(5)]] by (simp add: s')
  qed
  have B: "q \<in> insert p (ptrs s) \<and> (\<exists>cj. heap s' q = Some cj \<and> state cj = server_ready \<and> oppsite_const_id cj = d)"
    if "const_id_mp (mgr s) d = Some q" for d q
    using core_const[OF core that] pn by (auto simp: s')
  have f': "mgr s' = mgr s \<lparr> conn_mp := mp_insert cf addr p (conn_mp (mgr s)) \<rparr>" "next_ptr s' = next_ptr s + 1" "fds s' = fds s"
    "chn s' = chn s" by (simp_all add: s')
  have nx: "\<forall>q\<ge>next_ptr s + 1. heap s' q = None" using core p by (simp add: s' server_core_def)
  have rest: "unat (ready_num (mgr s)) = card (dom (const_id_mp (mgr s)))" "0 < next_ptr s" "0 \<notin> ptrs s" "fds_ok (fds s)"
    using core by (simp_all add: server_core_def)
  have "server_core (s', w')"
    unfolding server_core_def split_conv ps f'
    apply (intro conjI)
    subgoal using ie(1) by simp
    subgoal using ie(2) by simp
    subgoal using A by simp
    subgoal using B by simp
    subgoal using rest by simp
    subgoal using nx by simp
    subgoal by simp
    subgoal using rest p by simp
    subgoal using rest by simp
    done
  moreover have "dom (heap s') \<subseteq> ptrs s'"
  proof -
    have "heap s' = (heap s)(p \<mapsto> ci)" by (simp add: s')
    then show ?thesis using st unfolding ps by (auto simp: srv_def)
  qed
  moreover have "unat (counter (fds s')) + n < 2 ^ 64" "ready_num (mgr s') \<le> max_ready_conn_num" "length (conn_mp (mgr s')) \<le> max_handshake_conn_num"
    using st room ie(5) by (simp_all add: srv_def f')
  moreover have "heap s' p = Some ci" by (simp add: s')
  moreover have "clear_it (mgr s') = None \<or> the (clear_it (mgr s')) \<in> fst ` set (conn_mp (mgr s'))"
  proof -
    have "clear_it (mgr s') = clear_it (mgr s)" "fst ` set (conn_mp (mgr s')) = insert addr (fst ` set (conn_mp (mgr s)))"
      by (simp_all add: f' ie(3))
    then show ?thesis using st by (auto simp only: srv_def server_inv_def split_conv fst_conv)
  qed
  ultimately show ?thesis using st ci(1) f'(3,4) by (simp add: srv_def server_inv_def)
qed


lemma put_net_chn [simp]: "chn (put_net nt s) = (chn s) \<lparr> ch_net := nt \<rparr>"
  by (simp add: put_net_def)

lemma srv_recv_syn:
  assumes "srv n (s, w)" shows "ensures (server_recv_syn cf (s, w)) (\<lambda>(rc, st). srv n st)"
proof (rule postI)
  fix x assume "server_recv_syn cf (s, w) = Some x"
  then obtain ri w1 where r: "raw_info_init (net_cf cf) (raw_info (mem_conn s)) w = Some (ri, w1)"
    by (auto simp: server_recv_syn_def elim!: bind_eq_SomeE)
  have l: "later w w1" using postD[OF post_raw_info_init[where Q = "\<lambda>(ri, w'). later w w'"] r] by simp
  show "case x of (rc, st) \<Rightarrow> srv n st"
    using \<open>server_recv_syn cf (s, w) = Some x\<close> srv_later[OF assms l]
    by (auto simp: server_recv_syn_def r Let_def elim!: bind_eq_SomeE split: if_splits option.splits prod.splits
        dest!: later_send_raw0) (erule srv_later, assumption)?
qed

lemma srv_raw_init: "srv n (s, w) \<Longrightarrow> (\<And>ri w'. srv n (s, w') \<Longrightarrow> Q (ri, w')) \<Longrightarrow> ensures (raw_info_init cf junk w) Q"
  by (rule post_raw_info_init) (blast intro: srv_later)

lemma srv_recv_new:
  assumes st: "srv (Suc n) (s, w)" and new: "map_of (conn_mp (mgr s)) addr = None"
  shows "ensures (server_recv_new cf addr (s, w)) (\<lambda>(rc, st). srvz n st)"
proof -
  have st': "srv n (s, w)" by (rule srv_less[OF st]) simp
  have create: "ensures (do {
          (p, s, w) \<leftarrow> find_insert cf addr (s\<lparr>chn := ch\<rparr>, w);
          ci \<leftarrow> heap s p;
          (i, w) \<leftarrow> get_true_random_number_nz w;
          let (t, w) = get_current_time w;
          let ci = ci \<lparr> raw_info := ri, my_id := i, state := server_handshake1, last_state_time := t \<rparr>;
          (_, s, w) \<leftarrow> server_on_raw_recv_handshake1 cf p data (put_conn p ci s, w);
          Some (0, s, w)
        }) (\<lambda>(rc, st). srvz n st)" if s: "srv (Suc n) (s, w)" and room: "length (conn_mp (mgr s)) < max_handshake_conn_num" for w ch ri data
  proof (rule post_bind, rule postI, simp only: split_paired_all prod.case, rule post_bind, rule postI)
    fix p s' w' ci assume f: "find_insert cf addr (s\<lparr>chn := ch\<rparr>, w) = Some (p, s', w')" and ci: "heap s' p = Some ci"
    have "srv (Suc n) (s', w') \<and> (\<exists>ci. heap s' p = Some ci \<and> state ci \<noteq> server_ready)"
      using srv_insert[OF _ _ _ f, of "Suc n"] s new room by simp
    then have i: "srv (Suc n) (s', w')" "state ci \<noteq> server_ready" using ci by auto
    let ?ci = "\<lambda>i t. ci \<lparr> raw_info := ri, my_id := i, state := server_handshake1, last_state_time := t \<rparr>"
    have "srv (Suc n) (put_conn p (?ci j t) s', v)" if "srv (Suc n) (s', v)" for j t v
      by (rule srv_put[OF that ci]) (simp add: same_conn_def i(2))
    then show "ensures (do { (i, w) \<leftarrow> get_true_random_number_nz w';
          let (t, w) = get_current_time w;
          let ci = ?ci i t;
          (_, s, w) \<leftarrow> server_on_raw_recv_handshake1 cf p data (put_conn p ci s', w);
          Some (0, s, w) }) (\<lambda>(rc, st). srvz n st)"
      by - (rule post_bind, rule srv_rand_nz[OF i(1)], simp only: prod.case, rule post_let, erule srv_time, rule post_let, rule post_bind,
        rule post_weaken[OF srv_handshake1], auto simp: post_some)
  qed
  show ?thesis
    unfolding server_recv_new_def split
    by (rule post_if, rule post_bind, rule postI, simp only: split_paired_all prod.case, rule post_some, simp add: st',
      rule post_bind, rule srv_raw_init[OF st], simp only: prod.case, rule post_bind, rule postI, rule post_bind, rule postI, simp only: split_paired_all prod.case, rule post_let, rule post_if, rule post_some, simp add: srv_less, rule post_if, rule post_some, simp add: srv_less,
      rule post_if, rule post_some, simp add: srv_less, rule create) (simp_all add: srv_less)
qed


text \<open>The documented result of \<open>recvfrom\<close>: not more than it was asked for.\<close>

definition frame_ok :: "frame \<Rightarrow> bool" where
  "frame_ok fr \<longleftrightarrow> fst fr \<le> huge_data_len + 1"

lemma received_len:
  "pre_recv_raw_packet cf fr nt = Some (rc, nt') \<Longrightarrow> frame_ok fr \<Longrightarrow> 0 \<le> rc \<Longrightarrow> g_packet_buf_len nt' \<le> huge_data_len"
  by (cases fr) (auto simp: pre_recv_raw_packet_def frame_ok_def Let_def elim!: bind_eq_SomeE split: if_splits)

lemma peek_len: "peek_raw cf ri nt = Some (rc, ri', nt') \<Longrightarrow> g_packet_buf_len nt' = g_packet_buf_len nt"
proof -
  have p: "recv_raw_packet cf b n = Some (rc, out, n') \<Longrightarrow> g_packet_buf_len n' = g_packet_buf_len n" for b n rc out n'
    by (auto simp: recv_raw_packet_def Let_def elim!: bind_eq_SomeE split: if_splits)
  have "recv_raw_ip cf ri nt = Some (r0, out, ri1, nt1) \<Longrightarrow> g_packet_buf_len nt1 = g_packet_buf_len nt" for r0 out ri1 nt1
    by (auto simp: recv_raw_ip_def Let_def elim!: bind_eq_SomeE dest!: p split: if_splits option.splits)
  then show "peek_raw cf ri nt = Some (rc, ri', nt') \<Longrightarrow> ?thesis"
    by (auto simp: peek_raw_def elim!: bind_eq_SomeE split: raw_mode_t.splits if_splits option.splits)
qed

text \<open>Enough for the messages of one packet: each of them opens one descriptor.\<close>

definition packet_handles :: nat where "packet_handles = nat huge_data_len + 1"

lemma srv_recv_known:
  assumes st: "srv (packet_handles + n) (s, w)" and len: "g_packet_buf_len (ch_net (chn s)) \<le> huge_data_len"
  shows "ensures (server_recv_known cf p (s, w)) (\<lambda>(rc, st). srvz n st)"
proof (cases "heap s p")
  case None
  then show ?thesis by (simp add: server_recv_known_def post_none)
next
  case (Some ci)
  have st1: "srv (Suc n) (s, w)" and st': "srv n (s, w)" by (rule srv_less[OF st], simp add: packet_handles_def)+
  have hs: "ensures (do {
            (rc, data, ri, ch) \<leftarrow> recv_bare cf (raw_info ci) (chn s);
            let s = put_conn p (ci \<lparr> raw_info := ri \<rparr>) s \<lparr> chn := ch \<rparr>;
            (if rc \<noteq> 0 then Some (-1, s, w) else server_on_raw_recv_handshake1 cf p data (s, w))
          }) (\<lambda>(rc, st). srvz n st)" if "state ci = server_handshake1"
  proof -
    have same: "same_conn ci (ci \<lparr> raw_info := ri \<rparr>)" for ri by (simp add: same_conn_def)
    show ?thesis
      by (rule post_bind, rule postI, simp only: split_paired_all prod.case, rule post_let, rule post_if, rule post_some,
          simp add: srv_put[OF st' Some same], rule srv_handshake1, simp add: srv_put[OF st1 Some same], simp, simp add: that)
  qed
  have ready: "ensures (do {
            (_, msgs, ci, ch, w) \<leftarrow> recv_safer_multi cf ci (chn s, w);
            let s = put_conn p ci s \<lparr> chn := ch \<rparr>;
            (if msgs = [] then Some (-1, s, w) else map_option (\<lambda>st. (0, st)) (server_messages cf p msgs (s, w)))
          }) (\<lambda>(rc, st). srvz n st)" if ready: "state ci = server_ready"
  proof (rule post_bind, rule postI, simp only: split_paired_all prod.case, rule post_let)
    fix rc msgs ci' ch w' assume "recv_safer_multi cf ci (chn s, w) = Some (rc, msgs, ci', ch, w')"
    from recv_safer_multi_frame[OF this] obtain rc0 out ri nt where oc: "only_channel ci ci'" and l: "later w w'"
      and r: "recv_raw0 (net_cf cf) (raw_info ci) (ch_net (chn s)) = Some (rc0, out, ri, nt)"
      and m: "msgs \<noteq> [] \<longrightarrow> rc0 = 0 \<and> (\<exists>p n. out = Some (p, n) \<and> length msgs \<le> max 1 (nat n))" by blast
    have len: "length msgs \<le> packet_handles"
    proof (cases "msgs = []")
      case False
      then obtain q k where o: "rc0 = 0" "out = Some (q, k)" "length msgs \<le> max 1 (nat k)" using m by blast
      then have "0 \<le> k \<and> int q + k \<le> huge_data_len" using raw0_bounds r len by fastforce
      then have "nat k \<le> 65635" unfolding huge_data_len_def by linarith
      then show ?thesis using o by (simp add: packet_handles_def huge_data_len_def max_def split: if_splits)
    qed simp
    let ?s = "put_conn p ci' s \<lparr> chn := ch \<rparr>"
    have sf: "srv k (?s, w')" if "srv k (s, w)" for k
      using srv_put[OF srv_later[OF that l] Some same_conn_channel[OF oc]] by simp
    have "is_ready p ?s" using oc ready by (simp add: is_ready_def only_channel_def)
    moreover have "srv (length msgs + n) (?s, w')" using sf[OF st] by (rule srv_less) (use len in simp)
    ultimately show "ensures (if msgs = [] then Some (-1, ?s, w') else map_option (\<lambda>st. (0, st)) (server_messages cf p msgs (?s, w')))
        (\<lambda>(rc, st). srvz n st)"
      using sf[OF st'] by (intro post_if post_map post_some) (auto intro!: post_weaken[OF srv_messages])
  qed
  have idle: "ensures (do {
            (_, nt) \<leftarrow> discard_raw_packet (ch_net (chn s));
            Some (0, put_net nt s, w)
          }) (\<lambda>(rc, st). srvz n st)"
    by (rule post_bind, rule postI, simp only: split_paired_all prod.case, rule post_some, simp add: st')
  show ?thesis
    unfolding server_recv_known_def split
    by (rule post_bind, rule post_known[OF Some]) (cases "state ci"; simp add: hs ready idle post_none del: bind_split)
qed


lemma srv_raw_recv:
  assumes st: "srv (packet_handles + n) (s, w)" and fr: "frame_ok fr"
  shows "ensures (server_on_raw_recv_multi cf fr (s, w)) (\<lambda>(rc, st). srvz n st)"
proof -
  have less: "srv (packet_handles + n) (t, v) \<Longrightarrow> srv (Suc n) (t, v) \<and> srv n (t, v)" for t v
    by (auto intro: srv_less simp: packet_handles_def)
  show ?thesis
    unfolding server_on_raw_recv_multi_def split
  proof (rule post_bind, rule srv_raw_init[OF st], simp only: prod.case, rule post_let, rule post_bind, rule postI,
      simp only: split_paired_all prod.case, rule post_let, rule post_if)
    fix w1 rc nt assume s1: "srv (packet_handles + n) (s, w1)"
    show "ensures (Some (-1, put_net nt s, w1)) (\<lambda>(rc, st). srvz n st)" using less[OF s1] by (simp add: post_some)
    fix ri :: raw_info assume pre: "pre_recv_raw_packet (net_cf cf) fr (ch_net (chn s)) = Some (rc, nt)" "\<not> rc < 0"
    let ?ri = "ri \<lparr> peek := True \<rparr>"
    show "ensures (do {
          (rc, peek_ri, nt) \<leftarrow> peek_raw (net_cf cf) ?ri nt;
          let s = put_net nt (put_net nt0 s);
          (if rc < 0 then do { (_, nt) \<leftarrow> discard_raw_packet nt; Some (-1, put_net nt s, w1) }
           else do {
             let addr = peer_addr cf (recv_info peek_ri);
             let known = map_of (conn_mp (mgr s)) addr;
             (if raw_mode (net_cf cf) = mode_faketcp \<and> syn (recv_info peek_ri) then do {
                answers \<leftarrow> (case known of
                    None \<Rightarrow> Some True
                  | Some p \<Rightarrow> map_option (\<lambda>ci. state ci \<noteq> server_ready) (heap s p));
                (if answers then server_recv_syn cf (s, w1)
                 else do { (_, nt) \<leftarrow> discard_raw_packet nt; Some (0, put_net nt s, w1) })
              }
              else case known of
                None \<Rightarrow> server_recv_new cf addr (s, w1)
              | Some p \<Rightarrow> server_recv_known cf p (s, w1))
           })
        }) (\<lambda>(rc, st). srvz n st)" for nt0
    proof (rule post_bind, rule postI, simp only: split_paired_all prod.case, rule post_let, rule post_if)
      fix rc2 ri2 nt2 assume pk: "peek_raw (net_cf cf) ?ri nt = Some (rc2, ri2, nt2)"
      let ?s = "put_net nt2 (put_net nt0 s)"
      have s2: "srv (packet_handles + n) (?s, w1)" "srv (Suc n) (?s, w1)" "srv n (?s, w1)" using s1 less[OF s1] by simp_all
      have len: "g_packet_buf_len (ch_net (chn ?s)) \<le> huge_data_len"
        using received_len[OF pre(1) fr] pre(2) peek_len[OF pk] by simp
      have out: "ensures (do { (_, nt) \<leftarrow> discard_raw_packet nt2; Some (r, put_net nt ?s, w1) }) (\<lambda>(rc, st). srvz n st)" for r
        using s2(3) by (intro post_bind postI) (auto simp: post_some)
      then show "ensures (do { (_, nt) \<leftarrow> discard_raw_packet nt2; Some (-1, put_net nt ?s, w1) }) (\<lambda>(rc, st). srvz n st)" .
      have syn: "ensures (if b then server_recv_syn cf (?s, w1)
                 else do { (_, nt) \<leftarrow> discard_raw_packet nt2; Some (0, put_net nt ?s, w1) }) (\<lambda>(rc, st). srvz n st)" for b
        by (rule post_if, rule post_weaken[OF srv_recv_syn[OF s2(3)]], auto, rule out[simplified])
      show "ensures (do {
             let addr = peer_addr cf (recv_info ri2);
             let known = map_of (conn_mp (mgr ?s)) addr;
             (if raw_mode (net_cf cf) = mode_faketcp \<and> syn (recv_info ri2) then do {
                answers \<leftarrow> (case known of
                    None \<Rightarrow> Some True
                  | Some p \<Rightarrow> map_option (\<lambda>ci. state ci \<noteq> server_ready) (heap ?s p));
                (if answers then server_recv_syn cf (?s, w1)
                 else do { (_, nt) \<leftarrow> discard_raw_packet nt2; Some (0, put_net nt ?s, w1) })
              }
              else case known of
                None \<Rightarrow> server_recv_new cf addr (?s, w1)
              | Some p \<Rightarrow> server_recv_known cf p (?s, w1))
           }) (\<lambda>(rc, st). srvz n st)"
        by (rule post_let, rule post_let, rule post_if, rule post_bind, rule postI, rule syn, rule post_option,
          erule srv_recv_new[OF s2(2)], rule srv_recv_known[OF s2(1) len])
    qed
  qed
qed


section \<open>The event loop\<close>

lemma srv_udp_recv:
  assumes "srv n (s, w)" shows "ensures (server_on_udp_recv cf p fd64 (s, w)) (\<lambda>(rc, st). srv n st)"
proof -
  have send: "ensures (do { (rc, ci, ch, w) \<leftarrow> send_data_safer cf ci buf conv (chn s, w);
          Some (0, put_conn p ci s \<lparr> chn := ch \<rparr>, w) }) (\<lambda>(rc, st). srv n st)"
    if ci: "heap s p = Some ci" and s: "srv n (s, w)" for ci buf conv w
  proof (rule post_bind, rule postI, simp only: split_paired_all prod.case, rule post_some)
    fix rc ci' ch w' assume "send_data_safer cf ci buf conv (chn s, w) = Some (rc, ci', ch, w')"
    from only_channel_data_sent[OF this] show "case (0, put_conn p ci' s \<lparr> chn := ch \<rparr>, w') of (rc, st) \<Rightarrow> srv n st"
      using srv_put[OF srv_later[OF s] ci] same_conn_channel by simp
  qed
  show ?thesis
    unfolding server_on_udp_recv_def split
    by (rule post_bind, rule postI, rule post_bind, rule postI, rule post_bind, rule postI, rule post_bind, rule postI,
      rule post_let, rule post_prod, rule post_bind, rule postI, rule post_let, rule srv_receive[OF assms],
      rule post_if, rule post_some, simp, rule post_if, rule post_some, simp, rule send)
qed

lemma srv_clean:
  assumes st: "srv n (s, w)" and ord: "order_ok cf" and r: "conn_clear_inactive cf (s, w) = Some (s', w')"
  shows "srv n (s', w')"
proof -
  have inv: "server_inv (s, w)" and dm: "dom (heap s) \<subseteq> ptrs s" using st by (simp_all add: srv_def)
  from conn_clear_safe[OF inv ord] r obtain now where i: "server_inv (s', w')" "set (conn_mp (mgr s')) \<subseteq> set (conn_mp (mgr s))"
    "counter (fds s') = counter (fds s)" "dom (heap s) \<subseteq> ptrs s \<longrightarrow> dom (heap s') \<subseteq> ptrs s'"
    "\<forall>p. heap s' p = heap s p \<or> heap s' p = None \<and> (\<exists>ci. heap s p = Some ci \<and>
         (if state ci = server_ready
          then now - last_hb_recv_time ci > 240000 \<and> (\<forall>b. blob ci = Some b \<longrightarrow> conv_get_size (conv_mgr b) = 0)
          else now - last_state_time ci > 10000))"
    by (metis (no_types, lifting) option.inject prod.inject)
  have core: "server_core (s, w)" "server_core (s', w')" using inv i(1) by (simp_all add: server_inv_def)
  have "length (conn_mp (mgr s')) = card (set (conn_mp (mgr s')))" "length (conn_mp (mgr s)) = card (set (conn_mp (mgr s)))"
    using core by (simp_all add: server_core_def distinct_map distinct_card)
  then have len: "length (conn_mp (mgr s')) \<le> length (conn_mp (mgr s))" using card_mono[OF _ i(2)] by simp
  have "c \<in> dom (const_id_mp (mgr s))" if "const_id_mp (mgr s') c = Some p" for c p
  proof -
    from core_const[OF core(2) that] obtain ci where ci: "heap s' p = Some ci" "state ci = server_ready" "oppsite_const_id ci = c" by auto
    then have h: "heap s p = Some ci" using i(5)[rule_format, of p] by auto
    then have "p \<in> ptrs s" using dm by auto
    then have "conn_ok w (const_id_mp (mgr s)) p ci" using core_conn[OF core(1)] h by (metis option.inject)
    then show ?thesis using ci by (auto simp: conn_ok_def)
  qed
  then have "card (dom (const_id_mp (mgr s'))) \<le> card (dom (const_id_mp (mgr s)))"
    by (intro card_mono[OF finite_const_ids[OF core(1)]]) auto
  then have "ready_num (mgr s') \<le> ready_num (mgr s)"
    using core by (simp add: server_core_def word_le_nat_alt)
  then show ?thesis using st i(1,3,4) len by (auto simp: srv_def intro: order_trans)
qed


lemma known_info: "exist_info fm h \<Longrightarrow> get_info h fm = Some (p, fm') \<Longrightarrow> fm' = fm \<and> fd_info_mp fm h = Some p"
  by (auto simp: get_info_def exist_info_def guard_simps split: if_splits)

lemma srv_event:
  assumes st: "srv (packet_handles + n) (s, w)" and ord: "order_ok cf" and fr: "frame_ok (snd ev)"
  shows "ensures (server_handle_event cf timer_fd fifo_fd ev (s, w)) (\<lambda>(stop, st). srvz n st)"
proof -
  obtain data f where ev: "ev = (data, f)" by (cases ev)
  have st': "srv n (s, w)" by (rule srv_less[OF st]) simp
  have clean: "ensures (do { (s, w) \<leftarrow> conn_clear_inactive cf (s, w);
       let (_, w) = syscall (SysRead timer_fd 8) w;
       Some (False, s, w) }) (\<lambda>(stop, st). srvz n st)"
  proof (rule post_bind, rule postI, simp only: split_paired_all prod.case)
    fix s1 w1 assume "conn_clear_inactive cf (s, w) = Some (s1, w1)"
    from srv_clean[OF st' ord this] show "ensures (let (_, w) = syscall (SysRead timer_fd 8) w1 in Some (False, s1, w)) (\<lambda>(stop, st). srvz n st)"
      by - (rule post_let, erule srv_syscall, rule post_some, simp)
  qed
  have raw: "ensures (do { (_, s, w) \<leftarrow> server_on_raw_recv_multi cf f (s, w); Some (False, s, w) }) (\<lambda>(stop, st). srvz n st)"
    by (rule post_bind, rule post_weaken[OF srv_raw_recv[OF st]]) (use fr ev in \<open>auto simp: post_some\<close>)
  have fifo: "ensures (do {
       let (len, buf, w) = sys_receive (SysRead fifo_fd 2200) 2200 w;
       (if len < 0 then Some (False, s, w)
        else do { assert_c (length buf < 2200); Some (False, s, w) }) }) (\<lambda>(stop, st). srvz n st)"
    by (rule post_let, rule srv_receive[OF st'], rule post_if, rule post_some, simp, rule post_bind, rule postI, rule post_some, simp)
  have timer: "ensures (do {
             fd \<leftarrow> to_fd (fds s) data;
             let (_, w) = syscall (SysRead fd 8) w;
             assert_c (state ci = server_ready);
             (_, s, w) \<leftarrow> server_on_timer_multi cf p (s, w);
             Some (False, s, w) }) (\<lambda>(stop, st). srvz n st)" for ci p
    by (rule post_bind, rule postI, rule post_let, rule srv_syscall[OF st'], rule post_bind, rule postI, rule post_bind,
      rule post_weaken[OF srv_on_timer], assumption, auto simp: post_some)
  have udp: "ensures (do { (_, s, w) \<leftarrow> server_on_udp_recv cf p data (s, w); Some (False, s, w) }) (\<lambda>(stop, st). srvz n st)" for p
    by (rule post_bind, rule post_weaken[OF srv_udp_recv[OF st']]) (auto simp: post_some)
  show ?thesis
    unfolding server_handle_event_def ev split
  proof (rule post_if, rule clean, rule post_if, rule raw, rule post_if, rule fifo, rule post_if, rule post_if, rule post_some,
      simp add: st', rule post_bind, rule postI, rule post_bind, rule postI, simp only: split_paired_all prod.case, rule post_let)
    fix u p fm assume "assert_c (exist_info (fds s) data) = Some u" "get_info data (fds s) = Some (p, fm)"
    then have fm: "s \<lparr> fds := fm \<rparr> = s" using known_info[of "fds s" data p fm] by (simp add: guard_simps split: if_splits)
    show "ensures (do { ci \<leftarrow> heap (s \<lparr> fds := fm \<rparr>) p;
          (if data = timer_fd64 ci then do {
             fd \<leftarrow> to_fd (fds (s \<lparr> fds := fm \<rparr>)) data;
             let (_, w) = syscall (SysRead fd 8) w;
             assert_c (state ci = server_ready);
             (_, s, w) \<leftarrow> server_on_timer_multi cf p (s \<lparr> fds := fm \<rparr>, w);
             Some (False, s, w)
           }
           else do {
             (_, s, w) \<leftarrow> server_on_udp_recv cf p data (s \<lparr> fds := fm \<rparr>, w);
             Some (False, s, w)
           }) }) (\<lambda>(stop, st). srvz n st)"
      unfolding fm by (rule post_bind, rule postI, rule post_if, rule timer, rule udp)
  qed (rule post_none)
qed

text \<open>Events handled one after the other, as long as no client has announced the
  constant identifier 0.\<close>

inductive server_runs :: "vpn_conf \<Rightarrow> int \<Rightarrow> int \<Rightarrow> sworld \<Rightarrow> nat \<Rightarrow> sworld \<Rightarrow> bool" for cf timer_fd fifo_fd st where
  start: "server_runs cf timer_fd fifo_fd st 0 st"
| event: "server_runs cf timer_fd fifo_fd st k st1 \<Longrightarrow> frame_ok (snd ev) \<Longrightarrow>
    server_handle_event cf timer_fd fifo_fd ev st1 = Some (stop, st2) \<Longrightarrow> const_id_mp (mgr (fst st2)) 0 = None \<Longrightarrow>
    server_runs cf timer_fd fifo_fd st (Suc k) st2"

inductive_cases server_runs_elim: "server_runs cf timer_fd fifo_fd st (Suc k) st2"

lemma srv_runs:
  "server_runs cf timer_fd fifo_fd st k st' \<Longrightarrow> order_ok cf \<Longrightarrow> srv (k * packet_handles + n) st \<Longrightarrow> srv n st'"
proof (induction arbitrary: n rule: server_runs.induct)
  case (event k st1 ev stop st2)
  obtain s w where st1: "st1 = (s, w)" by (cases st1)
  have "srv (packet_handles + n) (s, w)" using event.IH[of "packet_handles + n"] event.prems by (simp add: st1 algebra_simps)
  from postD[OF srv_event[OF this event.prems(1) event.hyps(2)] event.hyps(3)[unfolded st1]]
  show ?case using event.hyps(4) by (simp add: srvz_def)
qed simp

end
