(* ===== verification/ServerProps.thy ===== *)
theory ServerProps
  imports ServerSafety ClientProps
begin

text \<open>
  What the server guarantees: the invariant over all its events, the path of a
  datagram from the client to the remote end, the recovery of a connection by a
  client that comes back, and three ways in which an event stops the server.
\<close>


section \<open>Lemmas\<close>

lemma time_log: "get_current_time w = (t, w') \<Longrightarrow> sys_log w' = sys_log w"
  by (metis get_current_time_other(1) snd_conv)

lemma forward_log:
  assumes inv: "server_inv (s, w)" "dom (heap s) \<subseteq> ptrs s" and ci: "heap s p = Some ci" "state ci = server_ready" "blob ci = Some b"
    and h: "conv_to_data (conv_mgr b) conv = Some h" "to_fd (fds s) h = Some fd"
  shows "\<exists>ci' w'. server_on_raw_recv_ready cf p ch_d (be32 conv @ payload) (s, w) = Some (0, put_conn p ci' s, w') \<and>
    sys_log w' = sys_log w @ [SysSend fd payload]"
proof -
  have core: "server_core (s, w)" using inv(1) by (simp add: server_inv_def)
  have "p \<in> ptrs s" using inv(2) ci(1) by auto
  then have ok: "conn_ok w (const_id_mp (mgr s)) p ci" using core_conn[OF core] ci(1) by (metis option.inject)
  then have cm: "conv_inv w (conv_mgr b)" using ci by (simp add: conn_ok_def)
  have u: "is_conv_used (conv_mgr b) conv" using h(1) by (simp add: is_conv_used_def)
  have f: "find_data_by_conv 0 conv (conv_mgr b) = (h, conv_mgr b)" by (simp add: find_data_by_conv_def h(1))
  have fwd: "\<exists>ci' w'. server_forward cf p conv payload (put_conn p c s, v) = Some (0, put_conn p ci' s, w') \<and>
      sys_log w' = sys_log w @ [SysSend fd payload]" if c: "blob c = Some b" "conv_inv v (conv_mgr b)" "sys_log v = sys_log w" for c v
  proof -
    obtain t v' where t: "get_current_time v = (t, v')" by fastforce
    obtain cm' where "conv_update_active_time conv (conv_mgr b) v = Some (cm', v')"
      using update_active_ok[OF c(2) u t] by blast
    then show ?thesis
      using c h f time_log[OF t] by (auto simp: server_forward_def Let_def syscall_def)
  qed
  obtain t v where t: "get_current_time w = (t, v)" by fastforce
  have cv: "conv_inv v (conv_mgr b)" using conv_inv_later[OF cm] later_floor[OF later_time[OF t]] by blast
  have same: "put_conn p ci s = s" using ci(1) by (simp add: put_conn_def fun_upd_idem)
  have id: "of_be32 (take 4 (be32 conv @ payload)) = conv" "drop 4 (be32 conv @ payload) = payload" "4 \<le> length (be32 conv @ payload)"
    by simp_all
  show ?thesis
  proof (cases "hb_mode cf = 0")
    case True
    then show ?thesis using fwd[of "ci \<lparr> last_hb_recv_time := t \<rparr>" v] cv time_log[OF t] ci u t
      by (simp add: server_on_raw_recv_ready_def id Let_def ch_d_def ch_h_def)
  next
    case False
    then show ?thesis using fwd[of ci w] cm ci u same
      by (simp add: server_on_raw_recv_ready_def id Let_def ch_d_def ch_h_def)
  qed
qed

lemma hb_shape:
  assumes "server_send_hb cf p (s, w) = Some (s', w')" "heap s p = Some ci"
  shows "\<exists>ci' ch. s' = put_conn p ci' s \<lparr> chn := ch \<rparr> \<and> only_channel ci ci' \<and> later w w'"
  using assms by (auto simp: server_send_hb_def elim!: bind_eq_SomeE dest!: only_channel_sent)

lemma assign_lookup: "map_of (mp_assign a p mp) b = (if b = a then map_option (\<lambda>_. p) (map_of mp a) else map_of mp b)"
  by (induction mp) (auto simp: mp_assign_def)

lemma recovered:
  assumes t: "server_take_over cf p q (s, w) = Some (0, s', w')" and st: "srv n (s, w)"
    and ci: "heap s p = Some ci" "state ci \<noteq> server_ready" and ori: "heap s q = Some ori" "last_state_time ori \<le> last_state_time ci"
    and a: "addr1 = peer_addr cf (recv_info (raw_info ori))" "addr2 = peer_addr cf (recv_info (raw_info ci))"
  shows "map_of (conn_mp (mgr s')) addr2 = map_of (conn_mp (mgr s)) addr1 \<and>
    map_of (conn_mp (mgr s')) addr1 = map_of (conn_mp (mgr s)) addr2 \<and>
    (\<exists>ori' ci'. heap s' q = Some ori' \<and> state ori' = server_ready \<and> oppsite_const_id ori' = oppsite_const_id ori \<and>
       map_option conv_mgr (blob ori') = map_option conv_mgr (blob ori) \<and> timer_fd64 ori' = timer_fd64 ori \<and>
       my_id ori' = my_id ci \<and> oppsite_id ori' = oppsite_id ci \<and> heap s' p = Some ci' \<and> state ci' = server_idle)"
proof -
  have pq: "p \<noteq> q" if "state ori = server_ready" using that ci ori by auto
  obtain p1 p2 ori1 s1 w1 o2 t where r: "state ori = server_ready" "map_of (conn_mp (mgr s)) addr1 = Some p1"
    "map_of (conn_mp (mgr s)) addr2 = Some p2" "conn_recover ori ci = Some ori1"
    and hb: "server_send_hb cf q (put_conn q ori1 (s \<lparr> mgr := (mgr s) \<lparr> conn_mp := mp_assign addr1 p2 (mp_assign addr2 p1 (conn_mp (mgr s))) \<rparr> \<rparr>), w) = Some (s1, w1)"
    and o2: "heap s1 q = Some o2"
    and s': "s' = (case heap s1 p of Some c \<Rightarrow> put_conn p (c \<lparr> state := server_idle, oppsite_const_id := 0 \<rparr>) (put_conn q (o2 \<lparr> last_hb_recv_time := t \<rparr>) s1))"
    using t ci ori a pq by (auto simp: server_take_over_def Let_def guard_simps elim!: bind_eq_SomeE split: if_splits prod.splits)
  from hb_shape[OF hb, of ori1] obtain c3 ch where c3: "s1 = put_conn q c3 (put_conn q ori1 (s \<lparr> mgr := (mgr s) \<lparr> conn_mp := mp_assign addr1 p2 (mp_assign addr2 p1 (conn_mp (mgr s))) \<rparr> \<rparr>)) \<lparr> chn := ch \<rparr>"
    and oc: "only_channel ori1 c3" by auto
  have h: "heap s1 q = Some c3" "heap s1 p = Some ci" "mgr s1 = (mgr s) \<lparr> conn_mp := mp_assign addr1 p2 (mp_assign addr2 p1 (conn_mp (mgr s))) \<rparr>"
    using pq[OF r(1)] ci by (simp_all add: c3)
  have "s' = put_conn p (ci \<lparr> state := server_idle, oppsite_const_id := 0 \<rparr>) (put_conn q (c3 \<lparr> last_hb_recv_time := t \<rparr>) s1)"
    using s' o2 h by simp
  then have f: "heap s' q = Some (c3 \<lparr> last_hb_recv_time := t \<rparr>)" "heap s' p = Some (ci \<lparr> state := server_idle, oppsite_const_id := 0 \<rparr>)"
    "conn_mp (mgr s') = mp_assign addr1 p2 (mp_assign addr2 p1 (conn_mp (mgr s)))" using pq[OF r(1)] h by simp_all
  have "state c3 = server_ready \<and> oppsite_const_id c3 = oppsite_const_id ori \<and> map_option conv_mgr (blob c3) = map_option conv_mgr (blob ori) \<and>
      timer_fd64 c3 = timer_fd64 ori \<and> my_id c3 = my_id ci \<and> oppsite_id c3 = oppsite_id ci"
    using oc r(1,4) by (auto simp: only_channel_def conn_recover_def split: option.splits)
  moreover have "map_of (conn_mp (mgr s')) addr2 = map_of (conn_mp (mgr s)) addr1 \<and>
      map_of (conn_mp (mgr s')) addr1 = map_of (conn_mp (mgr s)) addr2"
    using r(2,3) by (auto simp: f(3) assign_lookup)
  ultimately show ?thesis using f by simp
qed

lemma zero_id:
  assumes r: "server_become_ready cf p 0 (s, w) = Some (rc, s', w')" and room: "ready_num (mgr s) < max_ready_conn_num"
    and a: "map_of (conn_mp (mgr s)) addr = Some p"
  shows "\<exists>ci. heap s' p = Some ci \<and> state ci = server_ready \<and> oppsite_const_id ci = 0 \<and>
    (\<forall>cf' v now k. conn_erase cf' addr (s', v) = None \<and>
       (conn_kept now ci = Some False \<longrightarrow> conn_clear_loop cf' now (Suc k) (Some addr) (s', v) = None))"
proof -
  obtain ci where ci: "heap s p = Some ci" using r by (auto simp: server_become_ready_def elim!: bind_eq_SomeE)
  let ?m = "(mgr s) \<lparr> ready_num := ready_num (mgr s) + 1, const_id_mp := (const_id_mp (mgr s))(0 \<mapsto> p) \<rparr>"
  have "ensures (server_become_ready cf p 0 (s, w)) (\<lambda>(rc, s', w'). conn_mp (mgr s') = conn_mp (mgr s) \<and>
     (\<exists>c. heap s' p = Some c \<and> state c = server_ready \<and> oppsite_const_id c = 0))"
    unfolding server_become_ready_def split
  proof (rule post_bind, rule post_known[OF ci], rule post_if, use room in simp, rule post_bind, rule postI,
      simp only: split_paired_all prod.case, rule post_let, rule post_let, rule post_prod, rule post_let, rule post_let, rule post_bind, rule postI)
    fix c1 :: "u64 conn_info" and w1 t w2 x
    let ?c = "c1 \<lparr> state := server_ready, oppsite_const_id := 0, last_hb_recv_time := t, last_hb_sent_time := t \<rparr>"
    assume "server_send_hb cf p (put_conn p ?c s \<lparr> mgr := ?m \<rparr>, w2) = Some x"
    then obtain s3 w3 where x: "x = (s3, w3)" and hb: "server_send_hb cf p (put_conn p ?c s \<lparr> mgr := ?m \<rparr>, w2) = Some (s3, w3)"
      by (cases x) simp
    from hb_shape[OF hb, of ?c] obtain c3 ch where s3: "s3 = put_conn p c3 (put_conn p ?c s \<lparr> mgr := ?m \<rparr>) \<lparr> chn := ch \<rparr>"
      and oc: "only_channel ?c c3" by auto
    show "ensures (case x of (s, w) \<Rightarrow> heap s p \<bind> (\<lambda>ci. let ci = upd_anti_replay ar_re_init ci in
            set_timer_server cf (fds s, w) \<bind> (\<lambda>(fd64, fm, w). set_info fd64 p fm \<bind> (\<lambda>fm.
              Some (0, put_conn p (ci \<lparr> timer_fd64 := fd64 \<rparr>) s \<lparr> fds := fm \<rparr>, w)))))
         (\<lambda>(rc, s', w'). conn_mp (mgr s') = conn_mp (mgr s) \<and>
           (\<exists>c. heap s' p = Some c \<and> state c = server_ready \<and> oppsite_const_id c = 0))"
      unfolding x prod.case s3
      by (rule post_bind, rule post_known[where b = c3], simp, rule post_let, rule post_bind, rule postI,
        simp only: split_paired_all prod.case, rule post_bind, rule postI, rule post_some) (use oc in \<open>simp add: only_channel_def\<close>)
  qed
  from postD[OF this r] obtain c where c: "conn_mp (mgr s') = conn_mp (mgr s)" "heap s' p = Some c" "state c = server_ready" "oppsite_const_id c = 0"
    by auto
  have er: "conn_erase cf' addr (s', v) = None" for cf' v
    using c a by (simp add: conn_erase_def Let_def guard_simps)
  have "conn_clear_loop cf' now (Suc k) (Some addr) (s', v) = None" if "conn_kept now c = Some False" for cf' now k v
    using c a er that map_of_SomeD[OF a] by (auto simp: Let_def)
  then show ?thesis using c er by blast
qed

lemma leaked_fd:
  assumes ci: "heap s p = Some ci" "blob ci = Some b" "conv_get_size (conv_mgr b) < max_conv_num"
    and sock: "new_connected_udp_fd (force_socket_buf cf) (socket_buf_size cf) (remote_addr cf) w = Some (fd, v)" "0 \<le> fd"
    and new: "\<not> fd_exist (fds s) fd" and fail: "sys_ret v (sys_i v) \<noteq> 0"
  shows "\<exists>s' w' h. server_new_conv cf p conv (s, w) = Some (Inl (-1), s', w') \<and>
    sys_log w' = sys_log v @ [SysEpollAdd (epollfd cf) fd h, SysClose fd] \<and> fd_create fd (fds s') = None"
  using assms by (simp add: server_new_conv_def Let_def fd_create_def set_info_def guard_simps fd64_exist_def syscall_def fd_exist_def)


lemma parse_log: "reserved_parse_safer cf ci x (ch, w) = Some (rc, type, data, ci', ch', w') \<Longrightarrow> sys_log w' = sys_log w"
  by (auto simp: reserved_parse_safer_def Let_def elim!: bind_eq_SomeE dest!: time_log split: if_splits prod.splits)

lemma gro_log:
  "gro_loop cf ci p n (ch, w) = Some (ms, ci', ch', w') \<Longrightarrow> sys_log w' = sys_log w"
proof (induction n arbitrary: p ci ch w ms rule: less_induct)
  case (less n)
  obtain l ch1 where u: "gro_unframe cf p ch = (l, ch1)" by fastforce
  show ?case
  proof (cases "n < 16 \<or> l > n - 2 \<or> int l > max_data_len")
    case True
    then show ?thesis using less.prems u by (subst (asm) gro_loop.simps) (auto split: if_splits)
  next
    case False
    then obtain rc type data ci1 ch2 w1 ms1 where r: "reserved_parse_safer cf ci (buf_read (g_packet_buf (ch_net ch1)) (p + 2) l) (ch1, w) =
          Some (rc, type, data, ci1, ch2, w1)"
      and g: "gro_loop cf ci1 (p + 2 + l) (n - 2 - l) (ch2, w1) = Some (ms1, ci', ch', w')"
      using less.prems u by (subst (asm) gro_loop.simps) (auto split: option.splits)
    have "n - 2 - l < n" using False by simp
    then show ?thesis using less.IH[OF _ g] parse_log[OF r] by simp
  qed
qed

lemma recv_multi_log: "recv_safer_multi cf ci (ch, w) = Some (rc, ms, ci', ch', w') \<Longrightarrow> sys_log w' = sys_log w"
  by (auto simp: recv_safer_multi_def Let_def elim!: bind_eq_SomeE dest!: parse_log gro_log split: if_splits option.splits)

lemma uplink:
  assumes pair: "channel_pair cs (raw_info cis) cr" and kc: "cache_ok (crypt_cf cs) (ch_keys ch)"
    and len: "length payload \<le> 1696" and bs: "blob cis = Some bs"
    and send: "send_safer cs cis ch_d (be32 conv @ payload) (ch, w) = Some (0, cis', ch', w')"
  shows "\<exists>pk dest. send_data_safer cs cis payload conv (ch, w) = Some (0, cis', ch', w') \<and>
    sys_log w' = sys_log w @ [SysSendto (raw_send_fd (net_cf cs)) pk dest] \<and>
    (\<forall>s ws p cir b ar h fd. holds_frame (net_cf cr) (ch_net (chn s)) pk \<and> cache_ok (crypt_cf cr) (ch_keys (chn s)) \<and>
       server_inv (s, ws) \<and> dom (heap s) \<subseteq> ptrs s \<and> heap s p = Some cir \<and> state cir = server_ready \<and>
       oppsite_id cir = my_id cis \<and> my_id cir = oppsite_id cis \<and> blob cir = Some b \<and>
       src_port (send_info (raw_info cir)) = src_port (send_info (raw_info cis)) \<and>
       is_vaild (disable_anti_replay cr) (anti_rep b) (anti_replay_seq (anti_rep bs)) = (1, ar) \<and>
       conv_to_data (conv_mgr b) conv = Some h \<and> to_fd (fds s) h = Some fd \<longrightarrow>
       (\<exists>s' ws'. server_recv_known cr p (s, ws) = Some (0, s', ws') \<and> sys_log ws' = sys_log ws @ [SysSend fd payload]))"
proof -
  have l: "length (be32 conv @ payload) \<le> 1700" using len by simp
  from safer_delivered[OF pair kc l bs send, where ?'b = u64] obtain pk dest where
    lg: "sys_log w' = sys_log w @ [SysSendto (raw_send_fd (net_cf cs)) pk dest]"
    and dl: "\<forall>cir :: u64 conn_info. \<forall>b ar chr wr. holds_frame (net_cf cr) (ch_net chr) pk \<and> cache_ok (crypt_cf cr) (ch_keys chr) \<and>
       oppsite_id cir = my_id cis \<and> my_id cir = oppsite_id cis \<and> blob cir = Some b \<and>
       src_port (send_info (raw_info cir)) = src_port (send_info (raw_info cis)) \<and>
       is_vaild (disable_anti_replay cr) (anti_rep b) (anti_replay_seq (anti_rep bs)) = (1, ar) \<longrightarrow>
      (\<exists>cir' chr' wr'. recv_safer_multi cr cir (chr, wr) = Some (0, [(ch_d, be32 conv @ payload)], cir', chr', wr') \<and>
         blob cir' = Some (b \<lparr> anti_rep := ar \<rparr>))" by blast
  have "\<exists>s' ws'. server_recv_known cr p (s, ws) = Some (0, s', ws') \<and> sys_log ws' = sys_log ws @ [SysSend fd payload]"
    if fr: "holds_frame (net_cf cr) (ch_net (chn s)) pk" "cache_ok (crypt_cf cr) (ch_keys (chn s))"
      and inv: "server_inv (s, ws)" "dom (heap s) \<subseteq> ptrs s" and cir: "heap s p = Some cir" "state cir = server_ready" "blob cir = Some b"
      and ids: "oppsite_id cir = my_id cis" "my_id cir = oppsite_id cis"
       "src_port (send_info (raw_info cir)) = src_port (send_info (raw_info cis))"
       "is_vaild (disable_anti_replay cr) (anti_rep b) (anti_replay_seq (anti_rep bs)) = (1, ar)"
      and h: "conv_to_data (conv_mgr b) conv = Some h" "to_fd (fds s) h = Some fd"
    for s ws p cir b ar h fd
  proof -
    obtain cir' chr' wr' where r: "recv_safer_multi cr cir (chn s, ws) = Some (0, [(ch_d, be32 conv @ payload)], cir', chr', wr')"
      and b: "blob cir' = Some (b \<lparr> anti_rep := ar \<rparr>)"
      using dl fr ids cir by blast
    note f = recv_safer_multi_frame[OF r]
    let ?s = "put_conn p cir' s \<lparr> chn := chr' \<rparr>"
    have core: "server_core (s, ws)" using inv by (simp add: server_inv_def)
    have p: "p \<in> ptrs s" using inv cir by auto
    have sc: "same_conn cir cir'" using f same_conn_channel by blast
    have "server_core (put_conn p cir' s, wr')"
      using put_same[OF core_later[OF core] p cir(1) sc] f later_floor by blast
    then have i: "server_inv (?s, wr')" "dom (heap ?s) \<subseteq> ptrs ?s"
      using inv p by (auto simp: server_inv_def server_core_def ptrs_def)
    have rd: "state cir' = server_ready" using sc cir(2) by (simp add: same_conn_def)
    obtain ci2 w2 where fw: "server_on_raw_recv_ready cr p ch_d (be32 conv @ payload) (?s, wr') = Some (0, put_conn p ci2 ?s, w2)"
      "sys_log w2 = sys_log wr' @ [SysSend fd payload]"
      using forward_log[OF i _ rd b, where p = p and conv = conv and h = h and fd = fd and payload = payload and cf = cr] h by auto
    then show ?thesis using cir r recv_multi_log[OF r] by (auto simp: server_recv_known_def Let_def)
  qed
  then show ?thesis
    using lg send by (intro exI[of _ pk] exI[of _ dest] conjI) (simp add: send_data_safer_def, simp, blast)
qed

section \<open>Properties\<close>

text \<open>C27. the tunnel: a datagram the client sends on a conversation is handed,
  unchanged and exactly once, to the socket of that conversation at the server,
  through the encrypted channel of every cipher and raw mode, when the packet
  arrives at a ready connection whose window accepts it.\<close>

theorem tunnel_uplink:
  assumes "channel_pair cs (raw_info cis) cr" "cache_ok (crypt_cf cs) (ch_keys ch)" "length payload \<le> 1696"
    "blob cis = Some bs" "send_safer cs cis ch_d (be32 conv @ payload) (ch, w) = Some (0, cis', ch', w')"
  shows "\<exists>pk dest. send_data_safer cs cis payload conv (ch, w) = Some (0, cis', ch', w') \<and>
    sys_log w' = sys_log w @ [SysSendto (raw_send_fd (net_cf cs)) pk dest] \<and>
    (\<forall>s ws p cir b ar h fd. holds_frame (net_cf cr) (ch_net (chn s)) pk \<and> cache_ok (crypt_cf cr) (ch_keys (chn s)) \<and>
       server_inv (s, ws) \<and> dom (heap s) \<subseteq> ptrs s \<and> heap s p = Some cir \<and> state cir = server_ready \<and>
       oppsite_id cir = my_id cis \<and> my_id cir = oppsite_id cis \<and> blob cir = Some b \<and>
       src_port (send_info (raw_info cir)) = src_port (send_info (raw_info cis)) \<and>
       is_vaild (disable_anti_replay cr) (anti_rep b) (anti_replay_seq (anti_rep bs)) = (1, ar) \<and>
       conv_to_data (conv_mgr b) conv = Some h \<and> to_fd (fds s) h = Some fd \<longrightarrow>
       (\<exists>s' ws'. server_recv_known cr p (s, ws) = Some (0, s', ws') \<and> sys_log ws' = sys_log ws @ [SysSend fd payload]))"
  by (rule uplink[OF assms])

text \<open>C28. whatever events the server handles, and unless a client announces the
  constant identifier 0, its tables stay consistent, no connection object leaks
  and the numbers of connections and of ready connections stay within their
  bounds.\<close>

theorem server_runs_safe:
  assumes "server_inv (s, w)" "dom (heap s) \<subseteq> ptrs s" "ready_num (mgr s) \<le> 1000" "length (conn_mp (mgr s)) \<le> 10000"
    "unat (counter (fds s)) + k * packet_handles < 2 ^ 64" "order_ok cf"
    "server_runs cf timer_fd fifo_fd (s, w) k (s', w')"
  shows "server_inv (s', w') \<and> dom (heap s') = ptrs s' \<and> ready_num (mgr s') \<le> 1000 \<and> length (conn_mp (mgr s')) \<le> 10000"
proof -
  have "srv (k * packet_handles + 0) (s, w)" using assms(1-5) by (simp add: srv_def max_ready_conn_num_def max_handshake_conn_num_def)
  from srv_runs[OF assms(7,6) this] have r: "srv 0 (s', w')" .
  then have "ptrs s' \<subseteq> dom (heap s')" by (auto simp: srv_def server_inv_def elim: core_conn)
  then show ?thesis using r by (auto simp: srv_def max_ready_conn_num_def max_handshake_conn_num_def)
qed

text \<open>C29. a client that comes back: when the second handshake of a known client
  arrives from a new address, its old object, with its conversations and its
  timer, takes over the new address and the new identifiers, and the new object
  becomes idle under the old address.\<close>

theorem recovery_keeps_conversations:
  assumes "server_take_over cf p q (s, w) = Some (0, s', w')" "srv n (s, w)"
    "heap s p = Some ci" "state ci \<noteq> server_ready" "heap s q = Some ori" "last_state_time ori \<le> last_state_time ci"
    "addr1 = peer_addr cf (recv_info (raw_info ori))" "addr2 = peer_addr cf (recv_info (raw_info ci))"
  shows "map_of (conn_mp (mgr s')) addr2 = map_of (conn_mp (mgr s)) addr1 \<and>
    map_of (conn_mp (mgr s')) addr1 = map_of (conn_mp (mgr s)) addr2 \<and>
    (\<exists>ori' ci'. heap s' q = Some ori' \<and> state ori' = server_ready \<and> oppsite_const_id ori' = oppsite_const_id ori \<and>
       map_option conv_mgr (blob ori') = map_option conv_mgr (blob ori) \<and> timer_fd64 ori' = timer_fd64 ori \<and>
       my_id ori' = my_id ci \<and> oppsite_id ori' = oppsite_id ci \<and> heap s' p = Some ci' \<and> state ci' = server_idle)"
  by (rule recovered[OF assms])

text \<open>C30. the server accepts the constant identifier 0, which its own destructor
  forbids: the connection becomes ready, and removing it stops the server.\<close>

theorem zero_const_id_aborts:
  assumes "server_become_ready cf p 0 (s, w) = Some (rc, s', w')" "ready_num (mgr s) < max_ready_conn_num"
    "map_of (conn_mp (mgr s)) addr = Some p"
  shows "\<exists>ci. heap s' p = Some ci \<and> state ci = server_ready \<and> oppsite_const_id ci = 0 \<and>
    (\<forall>cf' v now k. conn_erase cf' addr (s', v) = None \<and>
       (conn_kept now ci = Some False \<longrightarrow> conn_clear_loop cf' now (Suc k) (Some addr) (s', v) = None))"
  by (rule zero_id[OF assms])

text \<open>C31. a conversation whose socket cannot be registered: the socket is closed
  but stays in the descriptor manager, so that the next socket with the same
  descriptor stops the server.\<close>

theorem failed_registration_leaks:
  assumes "heap s p = Some ci" "blob ci = Some b" "conv_get_size (conv_mgr b) < max_conv_num"
    "new_connected_udp_fd (force_socket_buf cf) (socket_buf_size cf) (remote_addr cf) w = Some (fd, v)" "0 \<le> fd"
    "\<not> fd_exist (fds s) fd" "sys_ret v (sys_i v) \<noteq> 0"
  shows "\<exists>s' w' h. server_new_conv cf p conv (s, w) = Some (Inl (-1), s', w') \<and>
    sys_log w' = sys_log v @ [SysEpollAdd (epollfd cf) fd h, SysClose fd] \<and> fd_create fd (fds s') = None"
  by (rule leaked_fd[OF assms])

text \<open>C32. an event of a handle that an earlier event of the same batch has closed
  ends the event loop, and with it the server.\<close>

theorem stale_event_ends_loop:
  assumes "conn_clear_inactive cf (s, w) = Some (s1, w1)" "\<not> fd64_exist (fds s1) h" "0xFFFFFFFF < h"
    "h \<noteq> word_of_int timer_fd" "h \<noteq> word_of_int (raw_recv_fd cf)" "h \<noteq> word_of_int fifo_fd"
  shows "\<exists>w2. server_handle_batch cf timer_fd fifo_fd ((word_of_int timer_fd, f0) # (h, f1) # evs) (s, w) = Some (True, s1, w2)"
  using assms by (simp add: server_handle_event_def syscall_def)

section \<open>Examples\<close>


definition timer_handle :: u64 where "timer_handle = 0x100000001"
definition conv_handle :: u64 where "conv_handle = 0x100000002"

definition ready_convs :: "u64 conv_manager" where
  "ready_convs = example_convs \<lparr> data_to_conv := [conv_handle \<mapsto> 5], conv_to_data := [5 \<mapsto> conv_handle] \<rparr>"

definition ready_conn :: "u64 conn_info" where
  "ready_conn = example_conn \<lparr> state := server_ready, my_id := 8, oppsite_id := 7, timer_fd64 := timer_handle, oppsite_const_id := 9,
     blob := Some (example_blob \<lparr> conv_mgr := ready_convs \<rparr>) \<rparr>"

definition ready_server :: server where
  "ready_server = example_server \<lparr> heap := [1 \<mapsto> ready_conn],
     mgr := conn_mgr_init \<lparr> conn_mp := [(example_peer_addr, 1)], ready_num := 1, const_id_mp := [9 \<mapsto> 1] \<rparr>,
     fds := \<lparr> counter = 0x100000003, fd_to_fd64_mp = [10 \<mapsto> timer_handle, 11 \<mapsto> conv_handle], fd64_to_fd_mp = [timer_handle \<mapsto> 10, conv_handle \<mapsto> 11],
              fd_info_mp = [timer_handle \<mapsto> 1, conv_handle \<mapsto> 1] \<rparr> \<rparr>"

lemma ready_server_simps [simp]:
  "heap ready_server = [1 \<mapsto> ready_conn]" "state ready_conn = server_ready" "ptrs ready_server = {1}"
  "blob ready_conn = Some (example_blob \<lparr> conv_mgr := ready_convs \<rparr>)" "to_fd (fds ready_server) conv_handle = Some 11"
  "conv_to_data ready_convs = [5 \<mapsto> conv_handle]" "my_id ready_conn = 8" "oppsite_id ready_conn = 7" "raw_info ready_conn = example_raw"
  by (simp_all add: ready_server_def ready_conn_def ptrs_def conn_mgr_init_def to_fd_def timer_handle_def conv_handle_def ready_convs_def example_conn_def)

lemma ready_convs_inv: "now_floor w = 0 \<Longrightarrow> conv_inv w ready_convs"
  by (auto simp: conv_inv_def ready_convs_def example_convs_def lru_inv_def lru_entries_def)

lemma ready_server_inv: "now_floor w = 0 \<Longrightarrow> server_inv (ready_server, w)"
proof -
  assume w: "now_floor w = 0"
  have c: "conn_ok w (const_id_mp (mgr ready_server)) 1 ready_conn"
    using ready_convs_inv[OF w]
    by (simp add: conn_ok_def conv_handles_def) (simp add: ready_conn_def ready_server_def conn_mgr_init_def timer_handle_def conv_handle_def)
  have h: "conn_handles ready_conn = {timer_handle, conv_handle}"
    by (simp add: conn_handles_def conv_handles_def) (simp add: ready_conn_def)
  show ?thesis
    using c unfolding server_inv_def server_core_def split_conv
    by (auto simp: h) (auto simp: ready_server_def conn_mgr_init_def fds_ok_def fd64_exist_def example_server_def ready_conn_def timer_handle_def conv_handle_def
        split: if_splits)
qed

definition waiting :: "bytes \<Rightarrow> net" where
  "waiting pk = example_net \<lparr> g_packet_buf := buf_write (\<lambda>_. 0) 0 pk, g_packet_buf_len := int (length pk), g_packet_buf_cnt := 1 \<rparr>"

lemma waiting_holds: "pk \<noteq> [] \<Longrightarrow> link_level_header_len cf = 0 \<Longrightarrow> holds_frame cf (waiting pk) pk"
  by (simp add: holds_frame_def waiting_def)

lemma tot_len: "n \<le> 2000 \<Longrightarrow> unat (28 + word_of_nat n :: u16) = 28 + n"
proof -
  assume "n \<le> 2000"
  then have "unat (word_of_nat (28 + n) :: u16) = 28 + n" by (subst unat_of_nat) (simp add: take_bit_eq_mod)
  then show ?thesis by simp
qed

lemma example_send_log:
  assumes "send_raw0 example_net_conf example_raw m (example_net, example_world) = Some (0, ri, nt, w)" "length m \<le> 2000"
  shows "\<exists>pk dest. sys_log w = [SysSendto 4 pk dest] \<and> pk \<noteq> []"
proof -
  have c: "raw_mode example_net_conf = mode_udp" "random_drop example_net_conf = 0" "\<not> disabled example_raw"
    "raw_ip_version example_net_conf = AF_INET" "lower_level example_net_conf = 1" "raw_send_fd example_net_conf = 4"
    by (simp_all add: example_net_conf_def example_raw_def AF_INET_def)
  have u: "length (udp_header a b (le16 x)) = 8" for a b x by (simp add: udp_header_def)
  have h: "ipv4_header cf a b c d \<noteq> []" for cf a b c d by (simp add: ipv4_header_def)
  show ?thesis
    using assms
    by (auto simp: send_raw0_def c send_raw_udp_def Let_def guard_simps send_raw_ip_def send_raw_packet_def syscall_def u tot_len h
       elim!: bind_eq_SomeE split: if_splits) (simp_all add: example_world_def)
qed


lemma ready_conf [simp]: "disable_anti_replay example_peer = 0" "net_cf example_peer = example_net_conf \<lparr> filter_port := 2000, program_mode := server_mode \<rparr>"
  by (simp_all add: example_peer_def example_vpn_def)

lemma ready_server_chan: "now_floor w = 0 \<Longrightarrow> server_inv (ready_server \<lparr> chn := ch \<rparr>, w)"
  using ready_server_inv[of w] by (simp add: server_inv_def server_core_def ptrs_def)

lemma tunnel_uplink_witness:
  "\<exists>cis' ch' w' pk dest s' ws'.
    send_safer example_vpn example_conn ch_d (be32 5 @ [1, 2, 3]) (example_chan, example_world) = Some (0, cis', ch', w') \<and>
    sys_log w' = [SysSendto 4 pk dest] \<and>
    server_recv_known example_peer 1 (ready_server \<lparr> chn := example_chan \<lparr> ch_net := waiting pk \<rparr> \<rparr>, example_world) = Some (0, s', ws') \<and>
    sys_log ws' = [SysSend 11 [1, 2, 3]]"
proof -
  let ?m = "safer_plain example_conn 5 ch_d (be32 5 @ [1, 2, 3])"
  obtain c kc' where c: "my_encrypt xor_lib example_conf (\<lambda>_. 9) (ch_keys example_chan) ?m = Some ((0, c, int (length c)), kc')"
    "length c \<le> 2000"
    using example_encrypt[of ?m] by (auto simp: safer_plain_length)
  obtain nt' w' where s: "send_raw0 example_net_conf example_raw c (example_net, example_world) = Some (0, example_raw, nt', w')"
    using example_send[OF c(2), of 0] by (auto simp: example_world_def)
  obtain pk dest where pk: "sys_log w' = [SysSendto 4 pk dest]" "pk \<noteq> []" using example_send_log[OF s c(2)] by blast
  have f: "blob example_conn = Some example_blob" "raw_info example_conn = example_raw"
    "anti_replay_seq (anti_rep example_blob) = 5" "my_id example_conn = 7" "oppsite_id example_conn = 8"
    by (simp_all add: example_conn_def example_blob_def anti_replay_init_def)
  have "\<exists>cis' ch' v. send_safer example_vpn example_conn ch_d (be32 5 @ [1, 2, 3]) (example_chan, example_world) = Some (0, cis', ch', v) \<and> sys_log v = sys_log w'"
    using c by (simp add: send_safer_def get_new_seq_for_send_def f s after_send_raw0_def Let_def)
  then obtain cis' ch' v where sent:
    "send_safer example_vpn example_conn ch_d (be32 5 @ [1, 2, 3]) (example_chan, example_world) = Some (0, cis', ch', v)" "sys_log v = sys_log w'" by blast
  have p: "channel_pair example_vpn (raw_info example_conn) example_peer" by (simp add: f example_pair)
  let ?s = "ready_server \<lparr> chn := example_chan \<lparr> ch_net := waiting pk \<rparr> \<rparr>"
  have h: "holds_frame (net_cf example_peer) (ch_net (chn ?s)) pk"
    by (simp add: waiting_holds[OF pk(2)] example_net_conf_def)
  have i: "server_inv (?s, example_world)" by (rule ready_server_chan) (simp add: now_floor_def example_world_def)
  obtain ar where v: "is_vaild 0 (anti_rep example_blob) 5 = (1, ar)"
    by (simp add: is_vaild_def example_blob_def anti_replay_init_def anti_replay_window_size_def)
  have l: "sys_log example_world = []" "raw_send_fd example_net_conf = 4" by (simp_all add: example_world_def example_net_conf_def)
  have d: "dom (heap ?s) \<subseteq> ptrs ?s" by (simp add: ptrs_def) (simp add: ready_server_def conn_mgr_init_def)
  from tunnel_uplink[OF p _ _ f(1) sent(1)] obtain pk' dest' where
    u: "sys_log v = sys_log example_world @ [SysSendto (raw_send_fd (net_cf example_vpn)) pk' dest']"
    "\<forall>s ws p cir b ar h fd. holds_frame (net_cf example_peer) (ch_net (chn s)) pk' \<and> cache_ok (crypt_cf example_peer) (ch_keys (chn s)) \<and>
       server_inv (s, ws) \<and> dom (heap s) \<subseteq> ptrs s \<and> heap s p = Some cir \<and> state cir = server_ready \<and>
       oppsite_id cir = my_id example_conn \<and> my_id cir = oppsite_id example_conn \<and> blob cir = Some b \<and>
       src_port (send_info (raw_info cir)) = src_port (send_info (raw_info example_conn)) \<and>
       is_vaild (disable_anti_replay example_peer) (anti_rep b) (anti_replay_seq (anti_rep example_blob)) = (1, ar) \<and>
       conv_to_data (conv_mgr b) 5 = Some h \<and> to_fd (fds s) h = Some fd \<longrightarrow>
       (\<exists>s' ws'. server_recv_known example_peer p (s, ws) = Some (0, s', ws') \<and> sys_log ws' = sys_log ws @ [SysSend fd [1, 2, 3]])"
    by auto
  have "pk' = pk" using u(1) sent(2) pk(1) l by simp
  have k: "cache_ok (crypt_cf example_peer) (ch_keys (chn ?s))" by (simp add: example_chan_def)
  from u(2)[rule_format, of ?s example_world 1 ready_conn "example_blob \<lparr> conv_mgr := ready_convs \<rparr>" ar conv_handle 11] h i d v k
  show ?thesis using sent pk l \<open>pk' = pk\<close> by (auto simp: f)
qed


text \<open>One event of the manager's timer.\<close>

lemma example_clean: "\<exists>s' w'. conn_clear_inactive example_srv_conf (example_server, example_world) = Some (s', w') \<and> const_id_mp (mgr s') = Map.empty"
proof -
  obtain s' w' where r: "conn_clear_inactive example_srv_conf (example_server, example_world) = Some (s', w')" and i: "server_inv (s', w')"
    and h: "\<forall>p. heap s' p = heap example_server p \<or> heap s' p = None"
    using conn_clear_safe[OF example_server_inv example_order_conf] that by (elim exE conjE) (metis (no_types, lifting))
  have core: "server_core (s', w')" using i by (simp add: server_inv_def)
  have "const_id_mp (mgr s') c = None" for c
  proof (cases "const_id_mp (mgr s') c")
    case (Some q)
    then obtain ci where "heap s' q = Some ci" "state ci = server_ready" using core_const[OF core] by blast
    then show ?thesis using h[rule_format, of q] by (simp add: example_server_def split: if_splits)
  qed
  then show ?thesis using r by auto
qed

lemma server_runs_safe_witness:
  "\<exists>s' w'. server_runs example_srv_conf 3 (-1) (example_server, example_world) 1 (s', w') \<and> server_inv (s', w') \<and>
     dom (heap s') = ptrs s' \<and> ready_num (mgr s') \<le> 1000 \<and> length (conn_mp (mgr s')) \<le> 10000"
proof -
  obtain s' w' where c: "conn_clear_inactive example_srv_conf (example_server, example_world) = Some (s', w')" "const_id_mp (mgr s') = Map.empty"
    using example_clean by blast
  have "server_handle_event example_srv_conf 3 (-1) (3, (0, [], [])) (example_server, example_world) =
      Some (False, s', snd (syscall (SysRead 3 8) w'))"
    using c by (simp add: server_handle_event_def syscall_def)
  then have r: "server_runs example_srv_conf 3 (-1) (example_server, example_world) 1 (s', snd (syscall (SysRead 3 8) w'))"
    using server_runs.event[OF server_runs.start, of "(3, (0, [], []))" example_srv_conf 3 "-1" "(example_server, example_world)" False "(s', snd (syscall (SysRead 3 8) w'))"] c
    by (simp add: frame_ok_def huge_data_len_def)
  have "dom (heap example_server) \<subseteq> ptrs example_server" "ready_num (mgr example_server) \<le> 1000"
    "length (conn_mp (mgr example_server)) \<le> 10000" "unat (counter (fds example_server)) + 1 * packet_handles < 2 ^ 64"
    by (simp_all add: example_server_def ptrs_def conn_mgr_init_def fd_manager_init_def packet_handles_def huge_data_len_def)
  from server_runs_safe[OF example_server_inv this example_order_conf r] r show ?thesis by blast
qed

lemma failed_registration_leaks_witness:
  "\<exists>s' w'. server_new_conv example_peer 1 6 (ready_server, example_world \<lparr> sys_ret := (\<lambda>i. if i = 6 then -1 else 0) \<rparr>) = Some (Inl (-1), s', w') \<and>
    fd_create 0 (fds s') = None"
proof -
  let ?w = "example_world \<lparr> sys_ret := (\<lambda>i. if i = 6 then -1 else 0) \<rparr>"
  have r: "remote_addr example_peer = sockaddr_in 4096 [10, 0, 0, 2]" by (simp add: example_peer_def example_vpn_def)
  have "\<exists>v. new_connected_udp_fd (force_socket_buf example_peer) (socket_buf_size example_peer) (remote_addr example_peer) ?w = Some (0, v) \<and>
     sys_ret v = sys_ret ?w \<and> sys_i v = 6"
    by (simp add: new_connected_udp_fd_def setnonblocking_def set_buf_size_def r syscall_def
       example_world_def addr_get_type_def addr_get_len_def sockaddr_fields Let_def guard_simps)
  then obtain v where v: "new_connected_udp_fd (force_socket_buf example_peer) (socket_buf_size example_peer) (remote_addr example_peer) ?w = Some (0, v)"
    "sys_ret v = sys_ret ?w" "sys_i v = 6" by blast
  have f: "\<not> fd_exist (fds ready_server) 0" by (simp add: ready_server_def fd_exist_def)
  have m: "conv_get_size ready_convs < max_conv_num" by (simp add: conv_get_size_def max_conv_num_def)
  show ?thesis
    using failed_registration_leaks[OF _ _ _ v(1) _ f, of 1 ready_conn "example_blob \<lparr> conv_mgr := ready_convs \<rparr>" 6] v m by auto
qed

text \<open>A connection nobody has used for five minutes.\<close>

definition late_server :: server where
  "late_server = ready_server \<lparr> heap := [1 \<mapsto> ready_conn \<lparr> blob := Some example_blob \<rparr>] \<rparr>"

definition five_minutes :: world where
  "five_minutes = example_world \<lparr> largest_value := 300000000 \<rparr>"

lemma late_cleaned: "\<exists>s1 w1. conn_clear_inactive example_srv_conf (late_server, five_minutes) = Some (s1, w1) \<and> \<not> fd64_exist (fds s1) timer_handle"
proof -
  have c: "last_hb_recv_time ready_conn = 0" "timer_fd64 ready_conn = timer_handle" "oppsite_const_id ready_conn = 9" "conv_mgr example_blob = conv_manager_init 0"
    by (simp_all add: ready_conn_def example_conn_def example_blob_def)
  have o: "conv_order example_srv_conf Map.empty = []" using example_order_conf by (auto simp: order_ok_def dest!: spec[of _ Map.empty])
  have kept: "conn_kept 300000 (ready_conn \<lparr> blob := Some example_blob \<rparr>) = Some False"
    by (simp add: conn_kept_def c server_conn_timeout_def conv_timeout_def conv_get_size_def conv_manager_init_def)
  have t: "get_current_time (five_minutes \<lparr> time_i := i, value_fix := v \<rparr>) = (300000, five_minutes \<lparr> time_i := Suc i, value_fix := 300000000 \<rparr>)"
    if "v = 0 \<or> v = 300000000" for i v
    using that by (auto simp: get_current_time_def get_current_time_us_def five_minutes_def example_world_def Let_def)
  have w: "five_minutes = five_minutes \<lparr> time_i := 0, value_fix := 0 \<rparr>" by (simp add: five_minutes_def example_world_def)
  have t': "\<exists>v. get_current_time five_minutes = (300000, v) \<and> (\<exists>v'. get_current_time v = (300000, v') \<and> (\<exists>v''. get_current_time v' = (300000, v'')))"
    by (subst w) (simp add: t)
  have l: "heap late_server = [1 \<mapsto> ready_conn \<lparr> blob := Some example_blob \<rparr>]" "cm_last_clear_time (mgr late_server) = 0"
    "conn_mp (mgr late_server) = [(example_peer_addr, 1)]" "clear_it (mgr late_server) = None" "ready_num (mgr late_server) = 1"
    "const_id_mp (mgr late_server) = [9 \<mapsto> 1]" "fds late_server = fds ready_server"
    by (simp_all add: late_server_def) (simp_all add: ready_server_def conn_mgr_init_def)
  have cl: "\<exists>fm' v'. fd64_close timer_handle (fds ready_server, v) = Some (fm', v') \<and> \<not> fd64_exist fm' timer_handle" for v
    by (simp add: ready_server_def fd64_close_def syscall_def fd64_exist_def Let_def exist_info_def)
  have h: "timer_handle \<noteq> 0" "fd64_exist (fds ready_server) timer_handle" by (simp_all add: timer_handle_def conv_handle_def ready_server_def fd64_exist_def)
  have e: "conv_to_data (conv_manager_init 0) = Map.empty" by (simp add: conv_manager_init_def)
  have del: "conn_info_delete [] (ready_conn \<lparr> blob := Some example_blob, timer_fd64 := 0 \<rparr>) fw = Some fw" for fw
    by (rule conn_delete_ready) (simp_all add: c e)
  have er: "\<exists>s1 w1. conn_erase example_srv_conf example_peer_addr (late_server \<lparr> mgr := mgr late_server \<lparr> cm_last_clear_time := t \<rparr> \<rparr>, v) = Some (s1, w1) \<and>
     \<not> fd64_exist (fds s1) timer_handle" for t v
    using cl[of v] by (auto simp: conn_erase_def c l h o e guard_simps Let_def del)
  obtain v1 v2 v3 where v: "get_current_time five_minutes = (300000, v1)" "get_current_time v1 = (300000, v2)" "get_current_time v2 = (300000, v3)"
    using t' by blast
  obtain s1 w1 where s1: "conn_erase example_srv_conf example_peer_addr (late_server \<lparr> mgr := mgr late_server \<lparr> cm_last_clear_time := 300000 \<rparr> \<rparr>, v3) = Some (s1, w1)"
    "\<not> fd64_exist (fds s1) timer_handle" using er by blast
  show ?thesis
    using v s1 kept
    by (simp add: conn_clear_inactive_def conn_clear_inactive0_def conn_clear_interval_def conn_clear_ratio_def conn_clear_min_def l Let_def
      next_key_def)
qed

lemma stale_event_ends_loop_witness:
  "\<exists>s1 w2. server_handle_batch example_srv_conf 3 (-1) [(3, (0, [], [])), (timer_handle, (0, [], []))] (late_server, five_minutes) = Some (True, s1, w2)"
proof -
  obtain s1 w1 where c: "conn_clear_inactive example_srv_conf (late_server, five_minutes) = Some (s1, w1)" "\<not> fd64_exist (fds s1) timer_handle"
    using late_cleaned by blast
  have "raw_recv_fd example_srv_conf = 4" by (simp add: example_srv_conf_def example_peer_def example_vpn_def)
  then show ?thesis
    using stale_event_ends_loop[OF c, of 3 "-1" "(0, [], [])" "(0, [], [])" "[]"] by (auto simp: timer_handle_def)
qed


text \<open>A heartbeat of the example server, from any environment whose calls succeed.\<close>

lemma send_any:
  assumes "length m \<le> 2000" "sys_ret w = (\<lambda>_. 0)"
  shows "\<exists>nt' w'. send_raw0 example_net_conf example_raw m (example_net, w) = Some (0, example_raw, nt', w') \<and> sys_ret w' = (\<lambda>_. 0)"
proof -
  have e: "even (length (pseudo_header example_net_conf (send_info example_raw) p l))" for p l
    by (simp add: pseudo_header_def example_net_conf_def AF_INET_def example_raw_def example_info_def)
  have c: "raw_mode example_net_conf = mode_udp" "random_drop example_net_conf = 0" "\<not> disabled example_raw"
    "raw_ip_version example_net_conf = AF_INET" "lower_level example_net_conf = 1"
    by (simp_all add: example_net_conf_def example_raw_def AF_INET_def)
  show ?thesis
    using assms
    by (simp add: send_raw0_def c send_raw_udp_def csum_with_header_append[OF e] udp_header_def Let_def guard_simps)
      (simp add: send_raw_ip_def send_raw_packet_def c Let_def syscall_def)
qed

lemma hb_any:
  assumes "heap s p = Some ci" "blob ci = Some b" "raw_info ci = example_raw" "chn s = example_chan" "sys_ret w = (\<lambda>_. 0)"
  shows "\<exists>ci' ch w'. server_send_hb example_vpn p (s, w) = Some (put_conn p ci' s \<lparr> chn := ch \<rparr>, w') \<and> sys_ret w' = (\<lambda>_. 0) \<and>
    (\<exists>b. blob ci' = Some b)"
proof -
  have hb: "hb_payload example_vpn = []" by (simp add: hb_payload_def example_vpn_def)
  let ?m = "\<lambda>ci sq. safer_plain ci sq ch_h []"
  obtain sq ar where g: "get_new_seq_for_send (anti_rep b) = (sq, ar)" by fastforce
  have "length (?m ci sq) \<le> 1764" by (simp add: safer_plain_length)
  then obtain c kc' where c: "my_encrypt xor_lib example_conf (\<lambda>_. 9) (ch_keys example_chan) (?m ci sq) = Some ((0, c, int (length c)), kc')"
    "length c \<le> 2000" using example_encrypt by blast
  obtain nt' w' where s: "send_raw0 example_net_conf example_raw c (example_net, w) = Some (0, example_raw, nt', w')" "sys_ret w' = (\<lambda>_. 0)"
    using send_any[OF c(2) assms(5)] by blast
  let ?ci = "ci \<lparr> blob := Some (b \<lparr> anti_rep := ar \<rparr>), raw_info := example_raw \<rparr>"
  have "server_send_hb example_vpn p (s, w) = Some (put_conn p ?ci s \<lparr> chn := example_chan \<lparr> ch_keys := kc', ch_net := nt' \<rparr> \<rparr>, w')"
    using c s by (simp add: server_send_hb_def assms send_safer_def hb g after_send_raw0_def Let_def)
  then show ?thesis using s(2) by (intro exI[of _ ?ci] exI[of _ "example_chan \<lparr> ch_keys := kc', ch_net := nt' \<rparr>"] exI[of _ w']) simp
qed

text \<open>The same client again, from another address.\<close>

definition moved_info :: packet_info where "moved_info = example_info \<lparr> src_port := 3000 \<rparr>"

definition old_conn :: "u64 conn_info" where
  "old_conn = ready_conn \<lparr> raw_info := example_raw \<lparr> recv_info := moved_info \<rparr> \<rparr>"

definition new_conn :: "u64 conn_info" where
  "new_conn = example_conn \<lparr> state := server_handshake1, blob := None, my_id := 18, oppsite_id := 17 \<rparr>"

definition moved_server :: server where
  "moved_server = ready_server \<lparr> heap := [1 \<mapsto> old_conn, 2 \<mapsto> new_conn], next_ptr := 3,
     mgr := (mgr ready_server) \<lparr> conn_mp := [(peer_addr example_vpn moved_info, 1), (peer_addr example_vpn example_info, 2)] \<rparr> \<rparr>"

lemma moved_addrs: "peer_addr example_vpn moved_info \<noteq> peer_addr example_vpn example_info"
proof -
  have p: "peer_addr example_vpn i = sockaddr_in (uint (src_port i)) (new_src_ip i)" for i
    by (simp add: peer_addr_def from_ip_port_new_def) (simp add: example_net_conf_def AF_INET_def)
  have "addr_get_port (peer_addr example_vpn moved_info) = Some 3000" "addr_get_port (peer_addr example_vpn example_info) = Some 1000"
    by (simp_all add: p moved_info_def example_info_def)
  then show ?thesis by auto
qed

lemma moved_server_inv: "server_inv (moved_server, example_world)"
proof -
  have f: "conn_handles old_conn = {timer_handle, conv_handle}" "conn_handles new_conn = {}"
    by (simp_all add: conn_handles_def conv_handles_def old_conn_def new_conn_def) (simp add: ready_conn_def)
  have "conn_ok example_world [9 \<mapsto> 1] 1 old_conn" "conn_ok example_world [9 \<mapsto> 1] 2 new_conn"
    using ready_convs_inv[of example_world]
    by (simp_all add: conn_ok_def conv_handles_def old_conn_def new_conn_def) (simp_all add: ready_conn_def timer_handle_def conv_handle_def example_conn_def now_floor_def example_world_def)
  moreover have "state old_conn = server_ready" "oppsite_const_id old_conn = 9" by (simp_all add: old_conn_def ready_conn_def)
  ultimately show ?thesis
    unfolding server_inv_def server_core_def split_conv
    using moved_addrs
    by (auto simp: f moved_server_def ready_server_def conn_mgr_init_def fds_ok_def fd64_exist_def example_server_def ptrs_def timer_handle_def conv_handle_def
        split: if_splits)
qed

lemma recovery_keeps_conversations_witness:
  "\<exists>s' w' ori' ci'. server_take_over example_vpn 2 1 (moved_server, example_world) = Some (0, s', w') \<and>
    map_of (conn_mp (mgr s')) (peer_addr example_vpn example_info) = Some 1 \<and> heap s' 1 = Some ori' \<and>
    map_option conv_mgr (blob ori') = Some ready_convs \<and> my_id ori' = 18 \<and> heap s' 2 = Some ci' \<and> state ci' = server_idle"
proof -
  let ?a1 = "peer_addr example_vpn moved_info" and ?a2 = "peer_addr example_vpn example_info"
  have e: "heap moved_server = [1 \<mapsto> old_conn, 2 \<mapsto> new_conn]" "conn_mp (mgr moved_server) = [(?a1, 1), (?a2, 2)]"
    "chn moved_server = example_chan" by (simp_all add: moved_server_def ready_server_def example_server_def)
  have c: "state old_conn = server_ready" "blob old_conn = Some (example_blob \<lparr> conv_mgr := ready_convs \<rparr>)" "recv_info (raw_info old_conn) = moved_info"
    "recv_info (raw_info new_conn) = example_info" "last_state_time old_conn = last_state_time new_conn" "raw_info new_conn = example_raw"
    "state new_conn = server_handshake1" "my_id new_conn = 18"
    by (simp_all add: old_conn_def new_conn_def example_raw_def) (simp_all add: example_conn_def ready_conn_def example_raw_def)
  have r: "recv_info example_raw = example_info" by (simp add: example_raw_def)
  obtain o1 where o1: "conn_recover old_conn new_conn = Some o1" "raw_info o1 = example_raw"
    "blob o1 = Some (example_blob \<lparr> conv_mgr := ready_convs, anti_rep := ar_re_init (anti_rep example_blob) \<rparr>)"
    by (simp add: conn_recover_def c) (simp add: example_raw_def)
  let ?s = "put_conn 1 o1 (moved_server \<lparr> mgr := (mgr moved_server) \<lparr> conn_mp := mp_assign ?a1 2 (mp_assign ?a2 1 [(?a1, 1), (?a2, 2)]) \<rparr> \<rparr>)"
  obtain c2 ch w2 where hb: "server_send_hb example_vpn 1 (?s, example_world) = Some (put_conn 1 c2 ?s \<lparr> chn := ch \<rparr>, w2)"
    using hb_any[of ?s 1 o1 _ example_world] o1 e by (auto simp: example_world_def)
  have "\<exists>s' w'. server_take_over example_vpn 2 1 (moved_server, example_world) = Some (0, s', w')"
    using hb o1 moved_addrs
    by (simp add: server_take_over_def e c r conn_exist_def Let_def guard_simps split: prod.splits)
  then obtain s' w' where t: "server_take_over example_vpn 2 1 (moved_server, example_world) = Some (0, s', w')" by blast
  have "srv 0 (moved_server, example_world)"
    using moved_server_inv
    by (simp add: srv_def e ptrs_def max_ready_conn_num_def max_handshake_conn_num_def)
      (simp add: moved_server_def ready_server_def conn_mgr_init_def)
  from recovery_keeps_conversations[OF t this, of new_conn old_conn ?a1 ?a2] show ?thesis
    using t moved_addrs by (auto simp: e c r)
qed

lemma zero_const_id_aborts_witness:
  "\<exists>rc s' w' ci. server_become_ready example_vpn 1 0 (example_server, example_world) = Some (rc, s', w') \<and>
    heap s' 1 = Some ci \<and> state ci = server_ready \<and> oppsite_const_id ci = 0 \<and>
    conn_erase example_srv_conf example_peer_addr (s', w') = None"
proof -
  have b: "\<exists>b w. blob_new example_blob example_world = Some (b, w) \<and> sys_ret w = (\<lambda>_. 0)"
    by (simp add: blob_new_def Let_def get_true_random_number_64_def example_world_def)
  then obtain b w where b: "blob_new example_blob example_world = Some (b, w)" "sys_ret w = (\<lambda>_. 0)" by blast
  obtain t w1 where t: "get_current_time w = (t, w1)" by fastforce
  have w1: "sys_ret w1 = (\<lambda>_. 0)" using get_current_time_other(3)[of w] t b(2) by simp
  define c0 where "c0 = example_conn \<lparr> state := server_handshake1, blob := None, last_state_time := -20000 \<rparr>"
  define c1 where "c1 = c0 \<lparr> blob := Some b, state := server_ready, oppsite_const_id := 0, last_hb_recv_time := t, last_hb_sent_time := t \<rparr>"
  let ?s = "put_conn 1 c1 example_server \<lparr> mgr := (mgr example_server) \<lparr> ready_num := 1, const_id_mp := [0 \<mapsto> 1] \<rparr> \<rparr>"
  have e: "heap example_server 1 = Some c0" "mem_blob example_server = example_blob" "ready_num (mgr example_server) = 0"
    "const_id_mp (mgr example_server) = Map.empty" "fds example_server = fd_manager_init" "chn example_server = example_chan"
    "conn_mp (mgr example_server) = [(example_peer_addr, 1)]"
    by (simp_all add: example_server_def conn_mgr_init_def c0_def)
  have c: "blob c0 = None" "blob c1 = Some b" "raw_info c1 = example_raw" by (simp_all add: c0_def c1_def example_conn_def)
  obtain c2 ch w2 b2 where hb: "server_send_hb example_vpn 1 (?s, w1) = Some (put_conn 1 c2 ?s \<lparr> chn := ch \<rparr>, w2)"
    "sys_ret w2 = (\<lambda>_. 0)" "blob c2 = Some b2"
    using hb_any[of ?s 1 c1 b w1] c e w1 by auto
  have "\<exists>rc s' w'. server_become_ready example_vpn 1 0 (example_server, example_world) = Some (rc, s', w')"
    using b hb
    by (simp add: server_become_ready_def e e(1)[simplified] conn_prepare_def c max_ready_conn_num_def t Let_def c1_def[symmetric] set_timer_server_def syscall_def
       fd_create_def fd_manager_init_def fd_exist_def set_info_def fd64_exist_def guard_simps)
  then obtain rc s' w' where r: "server_become_ready example_vpn 1 0 (example_server, example_world) = Some (rc, s', w')" by blast
  from zero_const_id_aborts[OF r, of example_peer_addr] show ?thesis using r by (auto simp: e max_ready_conn_num_def)
qed

end
