(* ===== verification/Options.thy ===== *)
theory Options
  imports Safer
begin

text \<open>
  The command line (misc.cpp) and the configuration file: the global variables
  and their first values, the scanners the options use, \<open>getopt_long\<close> with the
  tables of the program, the checks made before it, \<open>process_arg\<close>,
  \<open>pre_process_arg\<close>, and the derivation of the keys from the password
  (\<open>my_init_keys\<close>, encrypt.cpp). \<open>None\<close>: the program stops, or writes past the end
  of a buffer. The Linux build, \<open>is_udp2raw_mp = 0\<close>.
\<close>

section \<open>The globals\<close>

text \<open>The variables of the configuration that the rest of the program does not
  read; the others are those of \<open>vpn_conf\<close>.\<close>

record globals = vpn_conf +
  key_string :: string
  fifo_file :: string
  dev :: string
  if_name :: string
  hb_len :: int
  mtu_warn :: int
  max_rst_to_show :: int
  enable_dns_resolve :: int
  debug_flag :: int
  simple_rule :: int
  keep_rule :: int
  auto_add_iptables_rule :: int
  generate_iptables_rule :: int
  generate_iptables_rule_add :: int
  retry_on_error :: int
  clear_iptables :: int
  wait_xtables_lock :: int
  log_level :: int
  enable_log_color :: int
  enable_log_position :: int

definition buf_len :: nat where "buf_len = 2200"
definition max_seq_mode :: int where "max_seq_mode = 4"
definition log_end :: int where "log_end = 7"

text \<open>Their first values. The library, the order of the hash tables and the
  unnamed memory of the addresses are those of the process.\<close>

definition net_conf_start :: net_conf where
  "net_conf_start = \<lparr> raw_mode = mode_faketcp, raw_ip_version = 4294967295, program_mode = unset_mode, lower_level = 0,
     ttl_value = 64, filter_port = -1, bind_addr_used = 0, bind_addr = replicate 16 0, link_level_header_len = 0,
     g_fix_gro = 0, random_drop = 0, seq_mode = 3, max_rst_allowed = -1, raw_send_fd = -1 \<rparr>"

definition crypt_conf_start :: crypt_conf where
  "crypt_conf_start = \<lparr> normal_key = replicate 16 0, hmac_key_encrypt = replicate 64 0, hmac_key_decrypt = replicate 64 0,
     cipher_key_encrypt = replicate 64 0, cipher_key_decrypt = replicate 64 0, auth_mode = auth_md5,
     cipher_mode = cipher_aes128cbc, is_hmac_used = 0, aes128cfb_old = 0 \<rparr>"

definition globals_start ::
  "crypto_lib \<Rightarrow> (address_t \<Rightarrow> (address_t \<times> nat) list \<Rightarrow> nat) \<Rightarrow> ((u32 \<rightharpoonup> u64) \<Rightarrow> u64 list) \<Rightarrow> globals" where
  "globals_start L place order =
     \<lparr> net_cf = net_conf_start, crypt_cf = crypt_conf_start, lib = L, hb_mode = 1, hb_data = replicate 1200 0,
       gro_xor = replicate 256 0, disable_anti_replay = 0, const_id = 0, remote_addr = addr_clear, source_addr = addr_clear,
       local_addr = addr_clear, force_source_ip = 0, force_source_port = 0, source_port = -1, use_tcp_dummy_socket = 0,
       lower_level_manual = 0, ifindex = -1, dest_hw_addr = [255, 255, 255, 255, 255, 255, 0, 0], disable_bpf_filter = 0,
       raw_recv_fd = -1, force_socket_buf = 0, socket_buf_size = 1024 * 1024, epollfd = -1, udp_fd = -1,
       hash_place = place, conv_order = order,
       key_string = ''secret key'', fifo_file = '''', dev = '''', if_name = '''', hb_len = 1200, mtu_warn = 1375,
       max_rst_to_show = 15, enable_dns_resolve = 0, debug_flag = 0, simple_rule = 0, keep_rule = 0,
       auto_add_iptables_rule = 0, generate_iptables_rule = 0, generate_iptables_rule_add = 0, retry_on_error = 0,
       clear_iptables = 0, wait_xtables_lock = 0, log_level = 4, enable_log_color = 1, enable_log_position = 0 \<rparr>"

section \<open>Scanners\<close>

text \<open>\<open>sscanf("%d")\<close> into an \<open>int\<close>: the C library converts to a \<open>long\<close>, saturating, and
  stores the low 32 bits.\<close>

definition clamp_long :: "int \<Rightarrow> int" where
  "clamp_long v = max (- (2 ^ 63)) (min (2 ^ 63 - 1) v)"

definition scan_d :: "string \<Rightarrow> int option" where
  "scan_d s =
     (let s = dropWhile is_space s;
          neg = (s \<noteq> [] \<and> hd s = CHR ''-'');
          s = (if s \<noteq> [] \<and> (hd s = CHR ''-'' \<or> hd s = CHR ''+'') then tl s else s);
          ds = takeWhile is_digit s;
          v = int (dec_value ds)
      in if ds = [] then None else Some (sint (word_of_int (clamp_long (if neg then - v else v)) :: u32)))"

text \<open>A variable is left alone when nothing matches.\<close>

definition scan_into :: "int \<Rightarrow> string \<Rightarrow> int" where
  "scan_into old s = (case scan_d s of None \<Rightarrow> old | Some v \<Rightarrow> v)"

text \<open>\<open>sscanf("%s")\<close> into a buffer of \<open>n\<close> bytes.\<close>

definition scan_s_into :: "nat \<Rightarrow> string \<Rightarrow> string \<Rightarrow> string option" where
  "scan_s_into n old s =
     (let w = takeWhile (\<lambda>c. \<not> is_space c) (dropWhile is_space s)
      in if w = [] then Some old else do { assert_c (length w < n); Some w })"

text \<open>\<open>%x\<close>: blanks, a sign, \<open>0x\<close>, digits; the rest of the text.\<close>

definition hex_digit :: "char \<Rightarrow> nat option" where
  "hex_digit c =
     (let n = (of_char c :: nat)
      in if 48 \<le> n \<and> n \<le> 57 then Some (n - 48)
         else if 97 \<le> n \<and> n \<le> 102 then Some (n - 87)
         else if 65 \<le> n \<and> n \<le> 70 then Some (n - 55)
         else None)"

definition hex_value :: "string \<Rightarrow> nat" where
  "hex_value s = fold (\<lambda>c n. 16 * n + the (hex_digit c)) s 0"

definition scan_x :: "string \<Rightarrow> (u32 \<times> string) option" where
  "scan_x s =
     (let s = dropWhile is_space s;
          neg = (s \<noteq> [] \<and> hd s = CHR ''-'');
          s = (if s \<noteq> [] \<and> (hd s = CHR ''-'' \<or> hd s = CHR ''+'') then tl s else s);
          s = (if take 2 s = ''0x'' \<or> take 2 s = ''0X'' then drop 2 s else s);
          ds = takeWhile (\<lambda>c. hex_digit c \<noteq> None) s;
          v = (word_of_nat (min (2 ^ 64 - 1) (hex_value ds)) :: u32)
      in if ds = [] then None else Some (if neg then - v else v, drop (length ds) s))"

text \<open>\<open>"%x:%x:..."\<close>: up to \<open>n\<close> numbers, the missing ones 0.\<close>

fun scan_hw :: "nat \<Rightarrow> string \<Rightarrow> u32 list" where
  "scan_hw 0 s = []"
| "scan_hw (Suc n) s =
     (case scan_x s of
        None \<Rightarrow> replicate (Suc n) 0
      | Some (v, rest) \<Rightarrow>
          v # (if rest \<noteq> [] \<and> hd rest = CHR '':'' then scan_hw n (tl rest) else replicate n 0))"

definition process_lower_level_arg :: "string \<Rightarrow> globals \<Rightarrow> globals option" where
  "process_lower_level_arg optarg g =
     (let g = g \<lparr> net_cf := (net_cf g) \<lparr> lower_level := 1 \<rparr> \<rparr>
      in if optarg = ''auto'' then Some g
         else do {
           let g = g \<lparr> lower_level_manual := 1 \<rparr>;
           assert_c (CHR ''#'' \<in> set optarg);
           let name = takeWhile (\<lambda>c. c \<noteq> CHR ''#'') optarg;
           assert_c (length name < 100);
           let hw = (if name = [] then replicate 6 0 else scan_hw 6 (tl (dropWhile (\<lambda>c. c \<noteq> CHR ''#'') optarg)));
           Some (g \<lparr> if_name := (if name = [] then if_name g else name),
                     dest_hw_addr := map ucast hw @ drop 6 (dest_hw_addr g) \<rparr>)
         })"

section \<open>The options\<close>

definition short_options :: string where "short_options = ''lrschkag''"
definition short_with_arg :: string where "short_with_arg = ''lrk''"

text \<open>The table of long options: name, whether an argument is required, the short
  option the name stands for.\<close>

definition long_options :: "(string \<times> bool \<times> char option) list" where
  "long_options =
     [(''source-ip'', True, None), (''source-port'', True, None), (''log-level'', True, None), (''key'', True, Some (CHR ''k'')),
      (''auth-mode'', True, None), (''cipher-mode'', True, None), (''raw-mode'', True, None), (''disable-color'', False, None),
      (''enable-color'', False, None), (''log-position'', False, None), (''disable-bpf'', False, None),
      (''disable-anti-replay'', False, None), (''auto-rule'', False, Some (CHR ''a'')), (''gen-rule'', False, Some (CHR ''g'')),
      (''gen-add'', False, None), (''debug'', False, None), (''retry-on-error'', False, None), (''clear'', False, None),
      (''simple-rule'', False, None), (''keep-rule'', False, None), (''lower-level'', True, None), (''sock-buf'', True, None),
      (''seq-mode'', True, None), (''conf-file'', True, None), (''force-sock-buf'', False, None), (''wait-lock'', False, None),
      (''random-drop'', True, None), (''fifo'', True, None), (''hb-mode'', True, None), (''hb-len'', True, None),
      (''mtu-warn'', True, None), (''max-rst-to-show'', True, None), (''max-rst-allowed'', True, None), (''set-ttl'', True, None),
      (''dev'', True, None), (''dns-resolve'', False, None), (''easy-tcp'', False, None), (''fix-gro'', False, None)]"

datatype option_t = ShortOpt char string | LongOpt string string | BadOpt

definition dash :: "string \<Rightarrow> bool" where "dash a = (a \<noteq> [] \<and> hd a = CHR ''-'')"

text \<open>\<open>getopt_long\<close> on arguments whose long options are all complete names of the
  table (\<open>check_args\<close> has seen to that): options in order, other arguments
  skipped, \<open>BadOpt\<close> for \<open>'?'\<close>, after which the program stops. The first argument
  is what is left of a group of short options.\<close>

function getopt_long :: "string \<Rightarrow> string list \<Rightarrow> option_t list" where
  "getopt_long (c # cs) args =
     (if c \<notin> set short_options then [BadOpt]
      else if c \<in> set short_with_arg then
        (if cs \<noteq> [] then ShortOpt c cs # getopt_long [] args
         else case args of [] \<Rightarrow> [BadOpt] | v # args \<Rightarrow> ShortOpt c v # getopt_long [] args)
      else ShortOpt c [] # getopt_long cs args)"
| "getopt_long [] [] = []"
| "getopt_long [] (a # args) =
     (if take 2 a = ''--'' then
        (case map_of long_options (drop 2 a) of
           None \<Rightarrow> [BadOpt]
         | Some (req, short) \<Rightarrow>
             (let opt = (\<lambda>v. case short of None \<Rightarrow> LongOpt (drop 2 a) v | Some c \<Rightarrow> ShortOpt c v)
              in if req then (case args of [] \<Rightarrow> [BadOpt] | v # args \<Rightarrow> opt v # getopt_long [] args)
                 else opt [] # getopt_long [] args))
      else if dash a then getopt_long (tl a) args
      else getopt_long [] args)"
  by pat_completeness auto
termination
  by (relation "measure (\<lambda>(c, as). length c + sum_list (map (\<lambda>a. Suc (length a)) as))") auto

text \<open>The checks: no empty argument, no lone dashes, only known options, no option
  twice, under whichever of its names.\<close>

definition short_form :: "string \<Rightarrow> string" where
  "short_form a = (if take 2 a = ''--'' then a else take 2 a)"

definition all_options :: "string list" where
  "all_options = [''--help'', ''-h''] @ map (\<lambda>c. [CHR ''-'', c]) short_options @ map (\<lambda>opt. ''--'' @ fst opt) long_options"

definition shortcut_map :: "(string \<times> string) list" where
  "shortcut_map = List.map_filter (\<lambda>(n, _, v). map_option (\<lambda>c. (''--'' @ n, [CHR ''-'', c])) v) long_options"

definition canonical :: "string \<Rightarrow> string" where
  "canonical a = (let b = short_form a in case map_of shortcut_map b of None \<Rightarrow> b | Some c \<Rightarrow> c)"

definition check_args :: "string list \<Rightarrow> bool" where
  "check_args argv \<longleftrightarrow> list_all (\<lambda>a. a \<noteq> [] \<and> a \<noteq> ''-'' \<and> a \<noteq> ''--'') argv \<and>
     (let opts = filter dash (tl argv)
      in list_all (\<lambda>a. short_form a \<in> set all_options) opts \<and> distinct (map canonical opts))"

text \<open>The log level and colours are taken in a pass of their own.\<close>

fun process_log_level :: "string list \<Rightarrow> globals \<Rightarrow> globals option" where
  "process_log_level [] g = Some g"
| "process_log_level (a # args) g =
     do {
       g \<leftarrow> (if a = ''--log-level'' \<and> args \<noteq> [] then
               let v = scan_into (log_level g) (hd args)
               in do { assert_c (0 \<le> v \<and> v < log_end); Some (g \<lparr> log_level := v \<rparr>) }
             else Some g);
       let g = (if a = ''--enable-color'' then g \<lparr> enable_log_color := 1 \<rparr> else g);
       let g = (if a = ''--disable-color'' then g \<lparr> enable_log_color := 0 \<rparr> else g);
       let g = (if a = ''--log-position'' then g \<lparr> enable_log_position := 1 \<rparr> else g);
       process_log_level args g
     }"

definition raw_mode_of :: "string \<Rightarrow> raw_mode_t option" where
  "raw_mode_of = map_of [(''faketcp'', mode_faketcp), (''udp'', mode_udp), (''icmp'', mode_icmp)]"

definition auth_mode_of :: "string \<Rightarrow> auth_mode_t option" where
  "auth_mode_of = map_of [(''none'', auth_none), (''md5'', auth_md5), (''crc32'', auth_crc32), (''simple'', auth_simple),
     (''hmac_sha1'', auth_hmac_sha1)]"

definition cipher_mode_of :: "string \<Rightarrow> cipher_mode_t option" where
  "cipher_mode_of = map_of [(''none'', cipher_none), (''aes128cfb'', cipher_aes128cfb), (''aes128cbc'', cipher_aes128cbc),
     (''xor'', cipher_xor)]"

definition upd_net :: "(net_conf \<Rightarrow> net_conf) \<Rightarrow> globals \<Rightarrow> globals" where
  "upd_net f g = g \<lparr> net_cf := f (net_cf g) \<rparr>"

definition upd_crypt :: "(crypt_conf \<Rightarrow> crypt_conf) \<Rightarrow> globals \<Rightarrow> globals" where
  "upd_crypt f g = g \<lparr> crypt_cf := f (crypt_cf g) \<rparr>"

text \<open>The heartbeat is the first \<open>hb_len\<close> bytes of a buffer of zeros.\<close>

definition set_hb_len :: "int \<Rightarrow> globals \<Rightarrow> globals" where
  "set_hb_len n g = g \<lparr> hb_len := n, hb_data := replicate (nat n) 0 \<rparr>"

type_synonym pton = "int \<Rightarrow> string \<Rightarrow> int \<times> bytes"

text \<open>The options with a number.\<close>

definition process_number :: "string \<Rightarrow> string \<Rightarrow> globals \<Rightarrow> globals option option" where
  "process_number name optarg g =
     (if name = ''sock-buf'' then
        let v = (case scan_d optarg of None \<Rightarrow> -1 | Some v \<Rightarrow> v)
        in Some (do { assert_c (10 \<le> v \<and> v \<le> 10 * 1024); Some (g \<lparr> socket_buf_size := v * 1024 \<rparr>) })
      else if name = ''seq-mode'' then
        let v = scan_into (seq_mode (net_cf g)) optarg
        in Some (do { assert_c (0 \<le> v \<and> v \<le> max_seq_mode); Some (upd_net (\<lambda>n. n \<lparr> seq_mode := v \<rparr>) g) })
      else if name = ''random-drop'' then
        let v = scan_into (random_drop (net_cf g)) optarg
        in Some (do { assert_c (0 \<le> v \<and> v \<le> 10000); Some (upd_net (\<lambda>n. n \<lparr> random_drop := v \<rparr>) g) })
      else if name = ''hb-mode'' then
        let v = scan_into (hb_mode g) optarg
        in Some (do { assert_c (v = 0 \<or> v = 1); Some (g \<lparr> hb_mode := v \<rparr>) })
      else if name = ''hb-len'' then
        let v = scan_into (hb_len g) optarg
        in Some (do { assert_c (0 \<le> v \<and> v \<le> 1500); Some (set_hb_len v g) })
      else if name = ''mtu-warn'' then
        let v = scan_into (mtu_warn g) optarg
        in Some (do { assert_c (0 < v); Some (g \<lparr> mtu_warn := v \<rparr>) })
      else if name = ''max-rst-to-show'' then
        let v = scan_into (max_rst_to_show g) optarg
        in Some (do { assert_c (-1 \<le> v); Some (g \<lparr> max_rst_to_show := v \<rparr>) })
      else if name = ''max-rst-allowed'' then
        let v = scan_into (max_rst_allowed (net_cf g)) optarg
        in Some (do { assert_c (-1 \<le> v); Some (upd_net (\<lambda>n. n \<lparr> max_rst_allowed := v \<rparr>) g) })
      else if name = ''set-ttl'' then
        let v = scan_into (ttl_value (net_cf g)) optarg
        in Some (do { assert_c (0 \<le> v \<and> v \<le> 255); Some (upd_net (\<lambda>n. n \<lparr> ttl_value := v \<rparr>) g) })
      else None)"

text \<open>The options without an argument.\<close>

definition process_flag :: "string \<Rightarrow> globals \<Rightarrow> globals option" where
  "process_flag name g =
     (if name = ''clear'' then Some (g \<lparr> clear_iptables := 1 \<rparr>)
      else if name = ''simple-rule'' then Some (g \<lparr> simple_rule := 1 \<rparr>)
      else if name = ''keep-rule'' then Some (g \<lparr> keep_rule := 1 \<rparr>)
      else if name = ''gen-add'' then Some (g \<lparr> generate_iptables_rule_add := 1 \<rparr>)
      else if name = ''debug'' then Some (g \<lparr> debug_flag := 1 \<rparr>)
      else if name = ''force-sock-buf'' then Some (g \<lparr> force_socket_buf := 1 \<rparr>)
      else if name = ''retry-on-error'' then Some (g \<lparr> retry_on_error := 1 \<rparr>)
      else if name = ''wait-lock'' then Some (g \<lparr> wait_xtables_lock := 1 \<rparr>)
      else if name = ''disable-bpf'' then Some (g \<lparr> disable_bpf_filter := 1 \<rparr>)
      else if name = ''disable-anti-replay'' then Some (g \<lparr> disable_anti_replay := 1 \<rparr>)
      else if name = ''dns-resolve'' then Some (g \<lparr> enable_dns_resolve := 1 \<rparr>)
      else if name = ''easy-tcp'' then Some (g \<lparr> use_tcp_dummy_socket := 1 \<rparr>)
      else if name = ''fix-gro'' then Some (upd_net (\<lambda>n. n \<lparr> g_fix_gro := 1 \<rparr>) g)
      else None)"

text \<open>A long option; a name without an effect here is ignored.\<close>

definition process_long :: "pton \<Rightarrow> string \<Rightarrow> string \<Rightarrow> globals \<Rightarrow> globals option" where
  "process_long inet_pton name optarg g =
     (if name = ''source-ip'' then do {
        a \<leftarrow> addr_from_str_ip_only inet_pton optarg;
        Some (g \<lparr> source_addr := a, force_source_ip := 1 \<rparr>)
      }
      else if name = ''source-port'' then
        Some (g \<lparr> source_port := scan_into (source_port g) optarg, force_source_port := 1 \<rparr>)
      else if name = ''raw-mode'' then
        (if optarg \<in> {''easyfaketcp'', ''easy_faketcp'', ''easy-faketcp''}
         then Some ((upd_net (\<lambda>n. n \<lparr> raw_mode := mode_faketcp \<rparr>) g) \<lparr> use_tcp_dummy_socket := 1 \<rparr>)
         else do { m \<leftarrow> raw_mode_of optarg; Some (upd_net (\<lambda>n. n \<lparr> raw_mode := m \<rparr>) g) })
      else if name = ''auth-mode'' then do {
        m \<leftarrow> auth_mode_of optarg;
        let g = upd_crypt (\<lambda>c. c \<lparr> auth_mode := m \<rparr>) g;
        Some (if m = auth_none then g \<lparr> disable_anti_replay := 1 \<rparr> else g)
      }
      else if name = ''cipher-mode'' then do {
        let old = (optarg = ''aes128cfb_0'');
        m \<leftarrow> cipher_mode_of (if old then ''aes128cfb'' else optarg);
        Some (upd_crypt (\<lambda>c. if old then c \<lparr> cipher_mode := m, aes128cfb_old := 1 \<rparr> else c \<lparr> cipher_mode := m \<rparr>) g)
      }
      else if name = ''lower-level'' then process_lower_level_arg optarg g
      else if name = ''dev'' then do { d \<leftarrow> scan_s_into 100 (dev g) optarg; Some (g \<lparr> dev := d \<rparr>) }
      else if name = ''fifo'' then do { f \<leftarrow> scan_s_into 1000 (fifo_file g) optarg; Some (g \<lparr> fifo_file := f \<rparr>) }
      else case process_number name optarg g of
        Some r \<Rightarrow> r
      | None \<Rightarrow> (case process_flag name g of Some g \<Rightarrow> Some g | None \<Rightarrow> Some g))"

definition process_short :: "pton \<Rightarrow> char \<Rightarrow> string \<Rightarrow> globals \<Rightarrow> globals option" where
  "process_short inet_pton opt optarg g =
     (if opt = CHR ''l'' then do {
        a \<leftarrow> addr_from_str inet_pton optarg;
        port \<leftarrow> addr_get_port a;
        assert_c (port \<noteq> 22);
        Some (g \<lparr> local_addr := a \<rparr>)
      }
      else if opt = CHR ''r'' then do {
        a \<leftarrow> addr_from_str inet_pton optarg;
        port \<leftarrow> addr_get_port a;
        assert_c (port \<noteq> 22);
        Some (g \<lparr> remote_addr := a \<rparr>)
      }
      else if opt = CHR ''s'' then do {
        assert_c (program_mode (net_cf g) = unset_mode);
        Some (upd_net (\<lambda>n. n \<lparr> program_mode := server_mode \<rparr>) g)
      }
      else if opt = CHR ''c'' then do {
        assert_c (program_mode (net_cf g) = unset_mode);
        Some (upd_net (\<lambda>n. n \<lparr> program_mode := client_mode \<rparr>) g)
      }
      else if opt = CHR ''a'' then Some (g \<lparr> auto_add_iptables_rule := 1 \<rparr>)
      else if opt = CHR ''g'' then Some (g \<lparr> generate_iptables_rule := 1 \<rparr>)
      else if opt = CHR ''k'' then do { k \<leftarrow> scan_s_into 1000 (key_string g) optarg; Some (g \<lparr> key_string := k \<rparr>) }
      else Some g)"

fun process_opts :: "pton \<Rightarrow> option_t list \<Rightarrow> globals \<Rightarrow> globals option" where
  "process_opts inet_pton [] g = Some g"
| "process_opts inet_pton (opt # opts) g =
     do {
       g \<leftarrow> (case opt of
               ShortOpt c optarg \<Rightarrow> process_short inet_pton c optarg g
             | LongOpt name optarg \<Rightarrow> process_long inet_pton name optarg g
             | BadOpt \<Rightarrow> None);
       process_opts inet_pton opts g
     }"

definition given :: "char \<Rightarrow> option_t list \<Rightarrow> bool" where
  "given c opts \<longleftrightarrow> list_ex (\<lambda>opt. case opt of ShortOpt d _ \<Rightarrow> d = c | _ \<Rightarrow> False) opts"

definition process_arg :: "pton \<Rightarrow> string list \<Rightarrow> globals \<Rightarrow> globals option" where
  "process_arg inet_pton argv g =
     do {
       g \<leftarrow> process_log_level argv g;
       assert_c (check_args argv);
       let opts = getopt_long [] (tl argv);
       g \<leftarrow> process_opts inet_pton opts g;
       assert_c (given (CHR ''l'') opts \<and> given (CHR ''r'') opts \<and> program_mode (net_cf g) \<noteq> unset_mode);
       type \<leftarrow> addr_get_type (if program_mode (net_cf g) = client_mode then remote_addr g else local_addr g);
       Some (upd_net (\<lambda>n. n \<lparr> raw_ip_version := type \<rparr>) g)
     }"

section \<open>The configuration file\<close>

definition blank :: "char \<Rightarrow> bool" where "blank c = (c = CHR 0x20 \<or> c = CHR 0x09)"

definition c_text :: "string \<Rightarrow> string" where "c_text s = takeWhile (\<lambda>c. c \<noteq> CHR 0x00) s"

definition parse_conf_line :: "string \<Rightarrow> string list option" where
  "parse_conf_line s0 =
     (let s = rev (dropWhile blank (rev s0));
          p = dropWhile blank (c_text s)
      in if p = [] then Some []
         else if hd p = CHR ''#'' then Some []
         else do {
           assert_c (hd p = CHR ''-'');
           let opt = takeWhile (\<lambda>c. \<not> blank c) p;
           Some (if opt = p then [opt] else [opt, dropWhile blank (drop (length opt) p)])
         })"

text \<open>\<open>std::getline\<close>, until the file ends.\<close>

definition newline :: char where "newline = CHR 0x0A"

function getlines :: "string \<Rightarrow> string list" where
  "getlines s =
     (if s = [] then []
      else takeWhile (\<lambda>c. c \<noteq> newline) s # getlines (tl (dropWhile (\<lambda>c. c \<noteq> newline) s)))"
  by auto
termination
proof (relation "measure length")
  fix s :: string
  assume "s \<noteq> []"
  have "length (dropWhile (\<lambda>c. c \<noteq> newline) s) \<le> length s" by (rule length_dropWhile_le)
  moreover have "0 < length s" using \<open>s \<noteq> []\<close> by simp
  ultimately have "length (tl (dropWhile (\<lambda>c. c \<noteq> newline) s)) < length s" unfolding length_tl by linarith
  then show "(tl (dropWhile (\<lambda>c. c \<noteq> newline) s), s) \<in> measure length" by simp
qed simp

declare getlines.simps [simp del]

fun parse_lines :: "string list \<Rightarrow> string list option" where
  "parse_lines [] = Some []"
| "parse_lines (l # ls) = do { a \<leftarrow> parse_conf_line l; b \<leftarrow> parse_lines ls; Some (a @ b) }"

text \<open>The files of the system: contents by name.\<close>

definition load_config :: "(string \<Rightarrow> string option) \<Rightarrow> string \<Rightarrow> string list \<Rightarrow> string list option" where
  "load_config files file_name argv =
     do { text \<leftarrow> files file_name; args \<leftarrow> parse_lines (getlines text); Some (argv @ args) }"

text \<open>Taking \<open>--conf-file\<close> and its argument out: the files named, the other
  arguments. As the last argument it makes the program read past \<open>argv\<close>.\<close>

fun take_conf_file :: "string list \<Rightarrow> (string list \<times> string list) option" where
  "take_conf_file [] = Some ([], [])"
| "take_conf_file (a # args) =
     (if a = ''--conf-file'' then
        (case args of
           [] \<Rightarrow> None
         | f # args \<Rightarrow> do {
             assert_c (\<not> dash f);
             (fs, rest) \<leftarrow> take_conf_file args;
             Some (f # fs, rest)
           })
      else do { (fs, rest) \<leftarrow> take_conf_file args; Some (fs, a # rest) })"

definition pre_process_arg :: "pton \<Rightarrow> (string \<Rightarrow> string option) \<Rightarrow> string list \<Rightarrow> globals \<Rightarrow> globals option" where
  "pre_process_arg inet_pton files argv g =
     do {
       assert_c (''--unit-test'' \<notin> set argv);
       assert_c (''-h'' \<notin> set argv \<and> ''--help'' \<notin> set argv);
       assert_c (length argv \<noteq> 1);
       g \<leftarrow> process_log_level argv g;
       (fs, new_argv) \<leftarrow> take_conf_file argv;
       assert_c (length fs \<le> 1);
       new_argv \<leftarrow> (case fs of [] \<Rightarrow> Some new_argv | f # _ \<Rightarrow> load_config files f new_argv);
       assert_c (''--conf-file'' \<notin> set new_argv);
       process_arg inet_pton new_argv g
     }"

section \<open>The keys\<close>

text \<open>The key derivation functions of the library: PBKDF2 with 10000 rounds and
  HKDF-SHA256-expand, which also returns a code.\<close>

record kdf_lib =
  PKCS5_PBKDF2_HMAC_SHA256 :: "bytes \<Rightarrow> bytes \<Rightarrow> nat \<Rightarrow> nat \<Rightarrow> bytes"
  hkdf_sha256_expand :: "bytes \<Rightarrow> bytes \<Rightarrow> nat \<Rightarrow> int \<times> bytes"

definition bytes_of :: "string \<Rightarrow> bytes" where "bytes_of s = map of_char s"

definition expand_key :: "kdf_lib \<Rightarrow> bytes \<Rightarrow> string \<Rightarrow> nat \<Rightarrow> bytes option" where
  "expand_key K prk info n =
     (let (rc, key) = hkdf_sha256_expand K prk (bytes_of info) n in do { assert_c (rc = 0); Some key })"

text \<open>The password and \<open>"key1"\<close> are joined in a buffer of 1000 bytes.\<close>

definition my_init_keys :: "kdf_lib \<Rightarrow> string \<Rightarrow> bool \<Rightarrow> 'a vpn_conf_scheme \<Rightarrow> 'a vpn_conf_scheme option" where
  "my_init_keys K user_passwd is_client cf =
     do {
       let passwd = c_text user_passwd;
       assert_c (length passwd + 4 < 1000);
       let normal = md5 (lib cf) (bytes_of (passwd @ ''key1''));
       let hmac = (if auth_mode (crypt_cf cf) = auth_hmac_sha1 then 1 else is_hmac_used (crypt_cf cf));
       let salt = md5 (lib cf) (bytes_of ''udp2raw_salt1'');
       let prk = PKCS5_PBKDF2_HMAC_SHA256 K (bytes_of passwd) salt 10000 32;
       let (hmac_encrypt, hmac_decrypt, cipher_encrypt, cipher_decrypt) =
         (let to_client = (''hmac_key server-->client'', ''cipher_key server-->client'');
              to_server = (''hmac_key client-->server'', ''cipher_key client-->server'')
          in if is_client then (fst to_server, fst to_client, snd to_server, snd to_client)
             else (fst to_client, fst to_server, snd to_client, snd to_server));
       ce \<leftarrow> expand_key K prk cipher_encrypt 64;
       cd \<leftarrow> expand_key K prk cipher_decrypt 64;
       he \<leftarrow> expand_key K prk hmac_encrypt 64;
       hd \<leftarrow> expand_key K prk hmac_decrypt 64;
       gro \<leftarrow> expand_key K prk ''gro'' 256;
       Some (cf \<lparr> crypt_cf := (crypt_cf cf) \<lparr> normal_key := normal, is_hmac_used := hmac, cipher_key_encrypt := ce,
                     cipher_key_decrypt := cd, hmac_key_encrypt := he, hmac_key_decrypt := hd \<rparr>,
                   gro_xor := gro \<rparr>)
     }"

text \<open>The beginning of \<open>main\<close>: options, the random seed, the constant identifier,
  the keys.\<close>

definition main_setup ::
  "kdf_lib \<Rightarrow> pton \<Rightarrow> (string \<Rightarrow> string option) \<Rightarrow> string list \<Rightarrow> globals \<times> world \<Rightarrow> (globals \<times> world) option" where
  "main_setup K inet_pton files argv = (\<lambda>(g, w).
     do {
       g \<leftarrow> pre_process_arg inet_pton files argv g;
       (_, w) \<leftarrow> get_true_random_number_nz w;
       (id, w) \<leftarrow> get_true_random_number_nz w;
       g \<leftarrow> my_init_keys K (key_string g) (program_mode (net_cf g) = client_mode) (g \<lparr> const_id := id \<rparr>);
       Some (g, w)
     })"

end
