(* ===== verification/OptionsProps.thy ===== *)
theory OptionsProps
  imports Options
begin

text \<open>
  What the options and the keys give the rest of the program: the ranges of the
  variables, keys that mirror each other, configuration files.
\<close>

section \<open>The keys of the two ends\<close>

text \<open>The same ciphers and authentication at both ends.\<close>

definition same_crypt :: "crypt_conf \<Rightarrow> crypt_conf \<Rightarrow> bool" where
  "same_crypt a b \<longleftrightarrow> auth_mode a = auth_mode b \<and> cipher_mode a = cipher_mode b \<and>
     is_hmac_used a = is_hmac_used b \<and> aes128cfb_old a = aes128cfb_old b"

lemma my_init_keys_frame:
  "my_init_keys K pw b cf = Some cf' \<Longrightarrow> \<exists>k x. cf' = cf \<lparr> crypt_cf := k, gro_xor := x \<rparr> \<and> auth_mode k = auth_mode (crypt_cf cf) \<and>
     cipher_mode k = cipher_mode (crypt_cf cf) \<and> aes128cfb_old k = aes128cfb_old (crypt_cf cf)"
  by (cases b) (auto simp: my_init_keys_def Let_def bind_eq_Some_conv)

lemma my_init_keys_mirror:
  assumes same: "same_crypt (crypt_cf cs) (crypt_cf cc)" "lib cs = lib cc"
    and c: "my_init_keys K pw True cc = Some cc'"
  shows "\<exists>cs'. my_init_keys K pw False cs = Some cs' \<and> crypt_cf cs' = peer_conf (crypt_cf cc') \<and> gro_xor cs' = gro_xor cc'"
  using c same
  by (auto simp: my_init_keys_def Let_def peer_conf_def same_crypt_def bind_eq_Some_conv)

section \<open>What the options leave\<close>

text \<open>The ranges the rest of the program relies on.\<close>

definition options_ok :: "'a globals_scheme \<Rightarrow> bool" where
  "options_ok g \<longleftrightarrow> (hb_mode g = 0 \<or> hb_mode g = 1) \<and> raw_mode (net_cf g) \<noteq> mode_end \<and>
     auth_mode (crypt_cf g) \<noteq> auth_end \<and> cipher_mode (crypt_cf g) \<noteq> cipher_end \<and>
     0 \<le> seq_mode (net_cf g) \<and> seq_mode (net_cf g) \<le> 4 \<and> 0 \<le> ttl_value (net_cf g) \<and> ttl_value (net_cf g) \<le> 255 \<and>
     0 \<le> random_drop (net_cf g) \<and> random_drop (net_cf g) \<le> 10000 \<and> -1 \<le> max_rst_allowed (net_cf g) \<and>
     10240 \<le> socket_buf_size g \<and> socket_buf_size g \<le> 10485760 \<and> 0 \<le> hb_len g \<and> hb_len g \<le> 1500 \<and>
     hb_data g = replicate (nat (hb_len g)) 0 \<and> 0 < mtu_warn g \<and> -1 \<le> max_rst_to_show g \<and>
     0 \<le> log_level g \<and> log_level g < log_end \<and> length (dest_hw_addr g) = 8 \<and> length (key_string g) < 1000"

text \<open>Before the keys are made: the library and the order of the hash tables are those
  of the process, no HMAC yet.\<close>

definition unkeyed :: "crypto_lib \<times> ((u32 \<rightharpoonup> u64) \<Rightarrow> u64 list) \<Rightarrow> 'a globals_scheme \<Rightarrow> bool" where
  "unkeyed L g \<longleftrightarrow> options_ok g \<and> (lib g, conv_order g) = L \<and> is_hmac_used (crypt_cf g) = 0"

lemma start_ok: "unkeyed (L, order) (globals_start L place order)"
  by (simp add: unkeyed_def options_ok_def globals_start_def net_conf_start_def crypt_conf_start_def log_end_def)

lemma options_ok_log:
  "0 \<le> v \<Longrightarrow> v < log_end \<Longrightarrow> unkeyed L g \<Longrightarrow> unkeyed L (g \<lparr> log_level := v \<rparr>)"
  "unkeyed L (g \<lparr> enable_log_color := x \<rparr>) = unkeyed L g" "unkeyed L (g \<lparr> enable_log_position := x \<rparr>) = unkeyed L g"
  by (simp_all add: unkeyed_def options_ok_def)

lemma options_ok_if: "unkeyed L g \<Longrightarrow> unkeyed L h \<Longrightarrow> unkeyed L (if b then g else h)" by simp

lemma process_log_level_ok: "unkeyed L g \<Longrightarrow> ensures (process_log_level args g) (unkeyed L)"
proof (induction args arbitrary: g)
  case (Cons a args)
  have k: "ensures (if a = ''--log-level'' \<and> args \<noteq> [] then
               let v = scan_into (log_level g) (hd args)
               in do { assert_c (0 \<le> v \<and> v < log_end); Some (g \<lparr> log_level := v \<rparr>) }
             else Some g) (unkeyed L)"
    using Cons.prems by - (rule post_if, rule post_let, rule post_bind, rule post_assert, rule post_some, erule conjE,
        rule options_ok_log(1), assumption+, rule post_some)
  show ?case
    unfolding process_log_level.simps Let_def[of "if _ then _ else _"]
    by (rule post_bind, rule post_weaken[OF k]) (intro Cons.IH options_ok_if; simp add: options_ok_log(2,3))
qed (simp add: ensures_def)

lemma mode_tables:
  "raw_mode_of s = Some rm \<Longrightarrow> rm \<noteq> mode_end" "auth_mode_of s = Some am \<Longrightarrow> am \<noteq> auth_end"
  "cipher_mode_of s = Some cm \<Longrightarrow> cm \<noteq> cipher_end"
  by (auto simp: raw_mode_of_def auth_mode_of_def cipher_mode_of_def split: if_splits)

lemma scan_hw_length: "length (scan_hw n s) = n"
  by (induction n s rule: scan_hw.induct) (auto split: option.splits)

lemma process_number_ok:
  "unkeyed L g \<Longrightarrow> (case process_number name arg g of None \<Rightarrow> True | Some r \<Rightarrow> ensures r (unkeyed L))"
  by (simp add: process_number_def unkeyed_def options_ok_def upd_net_def set_hb_len_def max_seq_mode_def Let_def ensures_def bind_eq_Some_conv
      split: if_splits)

lemma process_flag_ok: "unkeyed L g \<Longrightarrow> (case process_flag name g of None \<Rightarrow> True | Some g \<Rightarrow> unkeyed L g)"
  by (simp add: process_flag_def unkeyed_def options_ok_def upd_net_def)

lemma process_lower_level_arg_ok: "unkeyed L g \<Longrightarrow> ensures (process_lower_level_arg arg g) (unkeyed L)"
  by (auto simp: process_lower_level_arg_def unkeyed_def options_ok_def Let_def ensures_def bind_eq_Some_conv scan_hw_length split: if_splits)


lemma process_long_ok:
  assumes g: "unkeyed L g"
  shows "ensures (process_long inet_pton name arg g) (unkeyed L)"
proof -
  have flag: "ensures (case process_flag name g of Some g \<Rightarrow> Some g | None \<Rightarrow> Some g) (unkeyed L)"
    using process_flag_ok[OF g, of name] g by (auto simp: ensures_def split: option.splits)
  have num: "ensures (case process_number name arg g of Some r \<Rightarrow> r
      | None \<Rightarrow> (case process_flag name g of Some g \<Rightarrow> Some g | None \<Rightarrow> Some g)) (unkeyed L)"
    using process_number_ok[OF g, of name arg] flag by (auto split: option.splits)
  have src: "unkeyed L (g \<lparr> source_addr := a, force_source_ip := 1 \<rparr>)"
    "unkeyed L (g \<lparr> source_port := n, force_source_port := 1 \<rparr>)" "unkeyed L (g \<lparr> dev := d \<rparr>)" "unkeyed L (g \<lparr> fifo_file := d \<rparr>)"
    for a n d using g by (simp_all add: unkeyed_def options_ok_def)
  have raw: "unkeyed L (upd_net (\<lambda>n. n \<lparr> raw_mode := m \<rparr>) g)" if "m \<noteq> mode_end" for m
    using g that by (simp add: unkeyed_def options_ok_def upd_net_def)
  have easy: "unkeyed L ((upd_net (\<lambda>n. n \<lparr> raw_mode := mode_faketcp \<rparr>) g) \<lparr> use_tcp_dummy_socket := 1 \<rparr>)"
    using g by (simp add: unkeyed_def options_ok_def upd_net_def)
  have auth: "unkeyed L (if m = auth_none then (upd_crypt (\<lambda>c. c \<lparr> auth_mode := m \<rparr>) g) \<lparr> disable_anti_replay := 1 \<rparr>
      else upd_crypt (\<lambda>c. c \<lparr> auth_mode := m \<rparr>) g)" if "m \<noteq> auth_end" for m
    using g that by (simp add: unkeyed_def options_ok_def upd_crypt_def)
  have cip: "unkeyed L (upd_crypt (\<lambda>c. if old then c \<lparr> cipher_mode := m, aes128cfb_old := 1 \<rparr> else c \<lparr> cipher_mode := m \<rparr>) g)"
    if "m \<noteq> cipher_end" for m old
    using g that by (simp add: unkeyed_def options_ok_def upd_crypt_def)
  show ?thesis
    unfolding process_long_def Let_def
    by (intro post_if post_bind postI[of "addr_from_str_ip_only inet_pton arg"] postI[of "raw_mode_of arg"]
        postI[of "auth_mode_of arg"] postI[of "cipher_mode_of _"] postI[of "scan_s_into _ _ _"] post_some
        src raw easy auth cip num process_lower_level_arg_ok g; erule mode_tables)
qed

lemma process_short_ok:
  assumes g: "unkeyed L g"
  shows "ensures (process_short inet_pton opt arg g) (unkeyed L)"
proof -
  have upd: "unkeyed L (g \<lparr> local_addr := a \<rparr>)" "unkeyed L (g \<lparr> remote_addr := a \<rparr>)"
    "unkeyed L (upd_net (\<lambda>n. n \<lparr> program_mode := m \<rparr>) g)" "unkeyed L (g \<lparr> auto_add_iptables_rule := n \<rparr>)"
    "unkeyed L (g \<lparr> generate_iptables_rule := n \<rparr>)" for a m n
    using g by (simp_all add: unkeyed_def options_ok_def upd_net_def)
  have key: "unkeyed L (g \<lparr> key_string := k \<rparr>)" if "scan_s_into 1000 (key_string g) arg = Some k" for k
    using g that by (auto simp: unkeyed_def options_ok_def scan_s_into_def Let_def bind_eq_Some_conv split: if_splits)
  show ?thesis
    unfolding process_short_def
    by (intro post_if post_bind post_assert postI[of "addr_from_str inet_pton arg"] postI[of "addr_get_port _"]
        postI[of "scan_s_into _ _ _"] post_some upd g; erule key)
qed

lemma process_opts_ok: "unkeyed L g \<Longrightarrow> ensures (process_opts inet_pton opts g) (unkeyed L)"
proof (induction opts arbitrary: g)
  case (Cons opt opts)
  have "ensures (case opt of ShortOpt c optarg \<Rightarrow> process_short inet_pton c optarg g
      | LongOpt name optarg \<Rightarrow> process_long inet_pton name optarg g | BadOpt \<Rightarrow> None) (unkeyed L)"
    using process_short_ok[OF Cons.prems] process_long_ok[OF Cons.prems] by (cases opt) (simp_all add: post_none)
  then show ?case by (auto intro!: post_bind elim!: post_weaken intro: Cons.IH)
qed (simp add: ensures_def)

text \<open>And what \<open>process_arg\<close> sees to: a program mode, the IP version of the remote or
  the local address.\<close>

definition started :: "crypto_lib \<times> ((u32 \<rightharpoonup> u64) \<Rightarrow> u64 list) \<Rightarrow> 'a globals_scheme \<Rightarrow> bool" where
  "started L g \<longleftrightarrow> unkeyed L g \<and> program_mode (net_cf g) \<noteq> unset_mode \<and>
     (if program_mode (net_cf g) = client_mode then addr_get_type (remote_addr g) else addr_get_type (local_addr g))
       = Some (raw_ip_version (net_cf g))"

lemma process_arg_ok:
  assumes g: "unkeyed L g"
  shows "ensures (process_arg inet_pton argv g) (started L)"
  unfolding process_arg_def Let_def
proof (rule post_bind, rule post_weaken[OF process_log_level_ok[OF g]], rule post_bind, rule post_assert, rule post_bind,
    rule post_weaken[OF process_opts_ok], assumption, rule post_bind, rule post_assert, rule post_bind, rule postI, rule post_some)
  fix g0 g1 :: globals and type
  assume "unkeyed L g1" "given CHR ''l'' (getopt_long [] (tl argv)) \<and> given CHR ''r'' (getopt_long [] (tl argv)) \<and>
      program_mode (net_cf g1) \<noteq> unset_mode"
    "addr_get_type (if program_mode (net_cf g1) = client_mode then remote_addr g1 else local_addr g1) = Some type"
  then show "started L (upd_net (\<lambda>n. n \<lparr> raw_ip_version := type \<rparr>) g1)"
    by (cases "program_mode (net_cf g1) = client_mode") (simp_all add: started_def unkeyed_def options_ok_def upd_net_def)
qed

lemma pre_process_arg_ok:
  assumes g: "unkeyed L g"
  shows "ensures (pre_process_arg inet_pton files argv g) (started L)"
  unfolding pre_process_arg_def
  by (rule post_bind, rule post_assert, rule post_bind, rule post_assert, rule post_bind, rule post_assert,
      rule post_bind, rule post_weaken[OF process_log_level_ok[OF g]], rule post_bind, rule postI, rule post_prod,
      rule post_bind, rule post_assert, rule post_bind, rule postI, rule post_bind, rule post_assert, erule process_arg_ok)


section \<open>The program before its event loop\<close>

lemma main_setup_ok:
  assumes "main_setup K inet_pton files argv (globals_start L place order, w) = Some (g, w')"
  obtains g0 where "started (L, order) g0" "const_id g0 \<noteq> 0"
    "my_init_keys K (key_string g0) (program_mode (net_cf g0) = client_mode) g0 = Some g" "key_string g = key_string g0"
proof -
  obtain g1 r1 w1 id w2 where a: "pre_process_arg inet_pton files argv (globals_start L place order) = Some g1"
    and r: "get_true_random_number_nz w = Some (r1, w1)" "get_true_random_number_nz w1 = Some (id, w2)"
    and k: "my_init_keys K (key_string g1) (program_mode (net_cf g1) = client_mode) (g1 \<lparr> const_id := id \<rparr>) = Some g"
    using assms by (auto simp: main_setup_def bind_eq_Some_conv)
  have "id \<noteq> 0" using rand_nz_result[OF r(2)] by simp
  moreover have "started (L, order) g1" using postD[OF pre_process_arg_ok[OF start_ok] a] .
  moreover have "key_string g = key_string g1" using my_init_keys_frame[OF k] by auto
  ultimately show ?thesis using k by (intro that[of "g1 \<lparr> const_id := id \<rparr>"]) (simp_all add: started_def unkeyed_def options_ok_def split: if_splits)
qed

lemma main_setup_ranges:
  assumes "main_setup K inet_pton files argv (globals_start L place order, w) = Some (g, w')"
  shows "options_ok g \<and> const_id g \<noteq> 0 \<and> lib g = L \<and> conv_order g = order \<and> length (c_text (key_string g)) < 996 \<and>
     (program_mode (net_cf g) = client_mode \<and> addr_get_type (remote_addr g) = Some (raw_ip_version (net_cf g)) \<or>
      program_mode (net_cf g) = server_mode \<and> addr_get_type (local_addr g) = Some (raw_ip_version (net_cf g)))"
  using assms
proof (rule main_setup_ok)
  fix g0
  assume g: "started (L, order) g0" "const_id g0 \<noteq> 0"
    "my_init_keys K (key_string g0) (program_mode (net_cf g0) = client_mode) g0 = Some g" "key_string g = key_string g0"
  from g(3) have "length (c_text (key_string g0)) < 996" by (simp add: my_init_keys_def Let_def bind_eq_Some_conv)
  with g my_init_keys_frame[OF g(3)] show ?thesis
    by (cases "program_mode (net_cf g0)") (auto simp: started_def unkeyed_def options_ok_def)
qed

lemma setup_pair:
  assumes c: "main_setup K ptonc filesc argvc (globals_start L placec orderc, wc) = Some (gc, wc')"
    and s: "main_setup K ptons filess argvs (globals_start L places orders, ws) = Some (gs, ws')"
    and modes: "program_mode (net_cf gc) = client_mode" "program_mode (net_cf gs) = server_mode"
    and same: "key_string gs = key_string gc" "auth_mode (crypt_cf gs) = auth_mode (crypt_cf gc)"
      "cipher_mode (crypt_cf gs) = cipher_mode (crypt_cf gc)" "aes128cfb_old (crypt_cf gs) = aes128cfb_old (crypt_cf gc)"
  shows "crypt_cf gs = peer_conf (crypt_cf gc)" "gro_xor gs = gro_xor gc"
proof -
  obtain g0 where g0: "started (L, orderc) g0"
      "my_init_keys K (key_string g0) (program_mode (net_cf g0) = client_mode) g0 = Some gc" "key_string gc = key_string g0"
    by (rule main_setup_ok[OF c]) blast
  obtain h0 where h0: "started (L, orders) h0"
      "my_init_keys K (key_string h0) (program_mode (net_cf h0) = client_mode) h0 = Some gs" "key_string gs = key_string h0"
    by (rule main_setup_ok[OF s]) blast
  note f = my_init_keys_frame[OF g0(2)] my_init_keys_frame[OF h0(2)]
  have m: "program_mode (net_cf g0) = client_mode" "program_mode (net_cf h0) = server_mode" using f modes by auto
  have sc: "same_crypt (crypt_cf h0) (crypt_cf g0)" "lib h0 = lib g0"
    using f same g0(1) h0(1) by (auto simp: same_crypt_def started_def unkeyed_def)
  have "my_init_keys K (key_string g0) True g0 = Some gc" using g0(2) m by simp
  from my_init_keys_mirror[OF sc this] show "crypt_cf gs = peer_conf (crypt_cf gc)" "gro_xor gs = gro_xor gc"
    using h0(2,3) g0(3) m same(1) by auto
qed


section \<open>Configuration files\<close>

lemma drop_start: "list_all P b \<Longrightarrow> s \<noteq> [] \<Longrightarrow> \<not> P (hd s) \<Longrightarrow> dropWhile P (b @ s) = s"
  by (cases s) (auto simp: list_all_iff dropWhile_append2)

lemma strip_end: "list_all P b \<Longrightarrow> s \<noteq> [] \<Longrightarrow> \<not> P (last s) \<Longrightarrow> rev (dropWhile P (rev (s @ b))) = s"
  using drop_start[of P "rev b" "rev s"] by (simp add: hd_rev)

text \<open>The characters of a line of text.\<close>

definition line_char :: "char \<Rightarrow> bool" where "line_char c \<longleftrightarrow> c \<noteq> CHR 0x00 \<and> c \<noteq> newline"

definition conf_word :: "string \<Rightarrow> bool" where
  "conf_word a \<longleftrightarrow> dash a \<and> list_all (\<lambda>c. \<not> blank c \<and> line_char c) a"

definition conf_value :: "string \<Rightarrow> bool" where
  "conf_value v \<longleftrightarrow> v \<noteq> [] \<and> \<not> blank (hd v) \<and> \<not> blank (last v) \<and> list_all line_char v"

lemma line_chars: "list_all line_char s \<Longrightarrow> c_text s = s" "list_all line_char s \<Longrightarrow> newline \<notin> set s"
  unfolding c_text_def takeWhile_eq_all_conv list_all_iff line_char_def by blast+

lemma blank_line_char: "blank c \<Longrightarrow> line_char c"
  by (auto simp: blank_def line_char_def newline_def)

lemma blanks_line_char: "list_all blank b \<Longrightarrow> list_all line_char b"
  unfolding list_all_iff by (blast intro: blank_line_char)

lemma conf_word_facts:
  assumes "conf_word a"
  shows "a \<noteq> []" "hd a = CHR ''-''" "\<not> blank (hd a)" "\<not> blank (last a)" "list_all line_char a"
    "takeWhile (\<lambda>c. \<not> blank c) a = a" "list_all (\<lambda>c. \<not> blank c) a"
proof -
  show ne: "a \<noteq> []" "hd a = CHR ''-''" using assms by (simp_all add: conf_word_def dash_def)
  show "list_all (\<lambda>c. \<not> blank c) a" "list_all line_char a" using assms unfolding conf_word_def list_all_iff by blast+
  then show "\<not> blank (hd a)" "\<not> blank (last a)" "takeWhile (\<lambda>c. \<not> blank c) a = a"
    using ne(1) unfolding list_all_iff takeWhile_eq_all_conv by simp_all
qed

lemma parse_line_value:
  assumes a: "conf_word a" and v: "conf_value v" and b: "list_all blank b1" "list_all blank b2" "b2 \<noteq> []" "list_all blank b3"
  shows "parse_conf_line (b1 @ a @ b2 @ v @ b3) = Some [a, v]"
proof -
  note f = conf_word_facts[OF a]
  have v': "v \<noteq> []" "\<not> blank (hd v)" "\<not> blank (last v)" "list_all line_char v"
    using v unfolding conf_value_def by blast+
  have s: "rev (dropWhile blank (rev (b1 @ a @ b2 @ v @ b3))) = b1 @ a @ b2 @ v"
    using strip_end[of blank b3 "b1 @ a @ b2 @ v"] b(4) v' by simp
  have t: "c_text (b1 @ a @ b2 @ v) = b1 @ a @ b2 @ v"
    using b f v' by (intro line_chars) (simp add: blanks_line_char)
  have p: "dropWhile blank (b1 @ a @ b2 @ v) = a @ b2 @ v"
    using b(1) f by (intro drop_start) simp_all
  have o1: "takeWhile (\<lambda>c. \<not> blank c) (a @ b2 @ v) = a"
    using f(7) b(2,3) by (cases b2) (simp_all add: takeWhile_append1 takeWhile_append2 list_all_iff)
  have d: "dropWhile blank (b2 @ v) = v" using b(2) v' by (intro drop_start)
  show ?thesis
    unfolding parse_conf_line_def s t p Let_def
    using f(1,2) b(3) o1 d by (simp add: assert_c_def)
qed

lemma parse_line_flag:
  assumes a: "conf_word a" and b: "list_all blank b1" "list_all blank b3"
  shows "parse_conf_line (b1 @ a @ b3) = Some [a]"
proof -
  note f = conf_word_facts[OF a]
  have s: "rev (dropWhile blank (rev (b1 @ a @ b3))) = b1 @ a"
    using strip_end[of blank b3 "b1 @ a"] b f by simp
  have t: "c_text (b1 @ a) = b1 @ a" using b f by (intro line_chars) (simp add: blanks_line_char)
  have p: "dropWhile blank (b1 @ a) = a" using b(1) f by (intro drop_start) simp_all
  show ?thesis unfolding parse_conf_line_def s t p Let_def using f by (simp add: assert_c_def)
qed

lemma getlines_line: "newline \<notin> set l \<Longrightarrow> getlines (l @ newline # s) = l # getlines s"
  by (subst getlines.simps) (simp add: takeWhile_until dropWhile_until)

text \<open>A file with one option on each line.\<close>

definition conf_line :: "string \<times> string option \<Rightarrow> string" where
  "conf_line opt = (case opt of (a, None) \<Rightarrow> a | (a, Some v) \<Rightarrow> a @ '' '' @ v)"

definition conf_words :: "string \<times> string option \<Rightarrow> string list" where
  "conf_words opt = (case opt of (a, None) \<Rightarrow> [a] | (a, Some v) \<Rightarrow> [a, v])"

definition conf_option :: "string \<times> string option \<Rightarrow> bool" where
  "conf_option opt \<longleftrightarrow> conf_word (fst opt) \<and> (case snd opt of None \<Rightarrow> True | Some v \<Rightarrow> conf_value v)"

definition conf_text :: "(string \<times> string option) list \<Rightarrow> string" where
  "conf_text opts = concat (map (\<lambda>opt. conf_line opt @ [newline]) opts)"

lemma parse_conf_line_option: "conf_option opt \<Longrightarrow> parse_conf_line (conf_line opt) = Some (conf_words opt)"
  using parse_line_flag[of "fst opt" "[]" "[]"] parse_line_value[of "fst opt" "the (snd opt)" "[]" "'' ''" "[]"]
  by (auto simp: conf_option_def conf_line_def conf_words_def blank_def split: prod.splits option.splits)

lemma parse_lines_text: "list_all conf_option opts \<Longrightarrow> parse_lines (getlines (conf_text opts)) = Some (concat (map conf_words opts))"
proof (induction opts)
  case Nil
  then show ?case by (simp add: conf_text_def getlines.simps)
next
  case (Cons opt opts)
  have "newline \<notin> set (conf_line opt)"
    using Cons.prems conf_word_facts(5)[of "fst opt"] blank_line_char[of "CHR 0x20"]
    by (cases opt; cases "snd opt"; intro line_chars)
      (simp_all add: conf_option_def conf_line_def conf_value_def blank_def)
  then have "getlines (conf_text (opt # opts)) = conf_line opt # getlines (conf_text opts)"
    by (simp add: conf_text_def getlines_line)
  with Cons show ?case by (simp add: parse_conf_line_option)
qed

text \<open>The effect of the pass over the log options: the last value counts.\<close>

fun log_values :: "string list \<Rightarrow> int list" where
  "log_values [] = []"
| "log_values (a # args) =
     (if a = ''--log-level'' \<and> args \<noteq> [] then (case scan_d (hd args) of None \<Rightarrow> [] | Some v \<Rightarrow> [v]) else []) @ log_values args"

fun colour_values :: "string list \<Rightarrow> int list" where
  "colour_values [] = []"
| "colour_values (a # args) =
     (if a = ''--enable-color'' then [1] else if a = ''--disable-color'' then [0] else []) @ colour_values args"

definition log_fields :: "string list \<Rightarrow> globals \<Rightarrow> globals" where
  "log_fields args g = g \<lparr> log_level := last (log_level g # log_values args),
     enable_log_color := last (enable_log_color g # colour_values args),
     enable_log_position := (if ''--log-position'' \<in> set args then 1 else enable_log_position g) \<rparr>"

definition level_ok :: "int \<Rightarrow> bool" where "level_ok v \<longleftrightarrow> 0 \<le> v \<and> v < log_end"

lemma process_log_level_result:
  "level_ok (log_level g) \<Longrightarrow> process_log_level args g =
     (if list_all level_ok (log_values args) then Some (log_fields args g) else None)"
proof (induction args arbitrary: g)
  case Nil
  then show ?case by (simp add: log_fields_def)
next
  case (Cons a args)
  define lv where "lv = (if a = ''--log-level'' \<and> args \<noteq> [] then (case scan_d (hd args) of None \<Rightarrow> [] | Some v \<Rightarrow> [v]) else [])"
  define cv where "cv = (if a = ''--enable-color'' then [1] else if a = ''--disable-color'' then [0] else [] :: int list)"
  define h where "h = log_fields [a] (g \<lparr> log_level := last (log_level g # lv) \<rparr>)"
  have h: "log_level h = last (log_level g # lv)" "enable_log_color h = last (enable_log_color g # cv)"
    "enable_log_position h = (if a = ''--log-position'' then 1 else enable_log_position g)"
    by (simp_all add: h_def log_fields_def cv_def)
  have step: "process_log_level (a # args) g = (if list_all level_ok lv then process_log_level args h else None)"
    using Cons.prems by (cases "scan_d (hd args)"; cases "a = ''--log-level''"; cases "a = ''--enable-color''";
        cases "a = ''--disable-color''"; cases "a = ''--log-position''")
      (simp_all add: lv_def h_def log_fields_def scan_into_def Let_def level_ok_def assert_c_def)
  have "log_fields args h = log_fields (a # args) g"
    by (simp add: h lv_def cv_def h_def log_fields_def)
  moreover have "list_all level_ok lv \<Longrightarrow> level_ok (log_level h)"
    using Cons.prems unfolding h(1) lv_def by (auto split: if_splits option.splits)
  moreover have "log_values (a # args) = lv @ log_values args" by (simp add: lv_def)
  ultimately show ?case unfolding step by (simp add: Cons.IH)
qed

lemma log_values_append:
  "xs = [] \<or> last xs \<noteq> ''--log-level'' \<Longrightarrow> log_values (xs @ ys) = log_values xs @ log_values ys"
proof (induction xs)
  case (Cons a xs)
  then show ?case by (cases xs) simp_all
qed simp

lemma colour_values_append: "colour_values (xs @ ys) = colour_values xs @ colour_values ys"
  by (induction xs) simp_all

lemma last_nested: "last (last (x # ys) # ys @ zs) = last (x # ys @ zs)"
  by (cases zs rule: rev_cases; cases ys rule: rev_cases) auto

text \<open>Two passes, the first over the arguments without the file, have the effect of one.\<close>

lemma log_passes:
  assumes ok: "level_ok (log_level g)" and zs: "log_values zs = log_values xs @ vs" "colour_values zs = colour_values xs @ cs"
    "''--log-position'' \<in> set xs \<Longrightarrow> ''--log-position'' \<in> set zs"
  shows "Option.bind (process_log_level xs g) (process_log_level zs) = process_log_level zs g"
proof -
  have last_ok: "level_ok (last (x # ys))" if "level_ok x" "list_all level_ok ys" for x ys
    using that by (cases ys rule: rev_cases) auto
  have "log_fields zs (log_fields xs g) = log_fields zs g"
    unfolding log_fields_def zs(1,2) using zs(3) last_nested by simp
  moreover have "level_ok (log_level (log_fields xs g))" if "list_all level_ok (log_values xs)"
    using last_ok[OF ok that] by (simp add: log_fields_def)
  ultimately show ?thesis
    using ok by (simp add: process_log_level_result zs)
qed

lemma take_conf_none: "''--conf-file'' \<notin> set args \<Longrightarrow> take_conf_file args = Some ([], args)"
  by (induction args) auto

lemma take_conf_one:
  "''--conf-file'' \<notin> set a \<union> set b \<Longrightarrow> \<not> dash f \<Longrightarrow>
     take_conf_file (a @ ''--conf-file'' # f # b) = Some ([f], a @ b)"
  by (induction a) (auto simp: take_conf_none assert_c_def)

definition help_options :: "string set" where "help_options = {''--unit-test'', ''-h'', ''--help''}"

lemma conf_file_equiv:
  assumes fl: "files f = Some (conf_text opts)" "list_all conf_option opts" "\<not> dash f"
    and words: "set (concat (map conf_words opts)) \<inter> help_options = {}"
    and conf: "''--conf-file'' \<notin> set (a @ b @ concat (map conf_words opts))"
    and ends: "last a \<noteq> ''--log-level''" "b = [] \<or> last b \<noteq> ''--log-level''" "a \<noteq> []" "opts \<noteq> []"
    and level: "level_ok (log_level g)"
  shows "pre_process_arg inet_pton files (a @ ''--conf-file'' # f # b) g =
     pre_process_arg inet_pton files (a @ b @ concat (map conf_words opts)) g"
proof -
  define ws where "ws = concat (map conf_words opts)"
  define xs where "xs = a @ ''--conf-file'' # f # b"
  define zs where "zs = a @ b @ ws"
  have f: "f \<noteq> ''--unit-test''" "f \<noteq> ''-h''" "f \<noteq> ''--help''" "f \<noteq> ''--log-level''" "f \<noteq> ''--enable-color''"
    "f \<noteq> ''--disable-color''" "f \<noteq> ''--log-position''"
    using fl(3) by (auto simp: dash_def)
  have lv: "log_values xs = log_values a @ log_values b" "log_values zs = log_values a @ log_values b @ log_values ws"
    using ends(1,2) f by (simp_all add: xs_def zs_def log_values_append)
  have cv: "colour_values xs = colour_values a @ colour_values b" "colour_values zs = colour_values a @ colour_values b @ colour_values ws"
    using f by (simp_all add: xs_def zs_def colour_values_append)
  have hlp: "x \<notin> set xs \<longleftrightarrow> x \<notin> set zs" if "x \<in> help_options" for x
    using that words fl(3) by (auto simp: xs_def zs_def ws_def help_options_def dash_def)
  have "length ws \<noteq> 0" using ends(4) by (cases opts) (auto simp: ws_def conf_words_def split: prod.splits option.splits)
  then have len: "length xs \<noteq> 1" "length zs \<noteq> 1"
    using ends(3) by (cases a; simp add: xs_def zs_def)+
  have load: "load_config files f (a @ b) = Some zs"
    using fl parse_lines_text[OF fl(2)] by (simp add: load_config_def zs_def ws_def)
  have tc: "take_conf_file xs = Some ([f], a @ b)" "take_conf_file zs = Some ([], zs)" "''--conf-file'' \<notin> set zs"
    using conf fl(3) unfolding xs_def zs_def ws_def by (simp_all add: take_conf_one take_conf_none)
  have log: "Option.bind (process_log_level xs g) (process_log_level zs) =
      Option.bind (process_log_level zs g) (process_log_level zs)"
    using log_passes[OF level, of zs xs] log_passes[OF level, of zs zs] lv cv f by (auto simp: xs_def zs_def)
  obtain R where R: "\<And>g. process_arg inet_pton zs g = Option.bind (process_log_level zs g) R"
    unfolding process_arg_def by blast
  have l: "pre_process_arg inet_pton files xs g = do {
      assert_c (''--unit-test'' \<notin> set xs); assert_c (''-h'' \<notin> set xs \<and> ''--help'' \<notin> set xs);
      Option.bind (Option.bind (process_log_level xs g) (process_log_level zs)) R }"
    using len tc load by (simp add: pre_process_arg_def R assert_c_def)
  have r: "pre_process_arg inet_pton files zs g = do {
      assert_c (''--unit-test'' \<notin> set zs); assert_c (''-h'' \<notin> set zs \<and> ''--help'' \<notin> set zs);
      Option.bind (Option.bind (process_log_level zs g) (process_log_level zs)) R }"
    using len tc by (simp add: pre_process_arg_def R assert_c_def)
  show ?thesis
    using hlp unfolding xs_def[symmetric] ws_def[symmetric] zs_def[symmetric] l r log by (simp add: help_options_def)
qed


section \<open>Examples\<close>

definition example_kdf :: kdf_lib where
  "example_kdf = \<lparr> PKCS5_PBKDF2_HMAC_SHA256 = (\<lambda>pw salt r n. take n (pw @ replicate n 1)),
     hkdf_sha256_expand = (\<lambda>prk info n. (0, replicate n (word_of_nat (length info)))) \<rparr>"

definition example_pton :: pton where
  "example_pton f s = (1, if f = AF_INET then [10, 0, 0, 2] else replicate 16 0)"

definition example_args :: "string \<Rightarrow> string list" where
  "example_args m = [''udp2raw'', m, ''-l0.0.0.0:9'', ''-r10.0.0.2:7'', ''-k'', ''passwd'', ''--raw-mode'', ''faketcp'']"

definition example_setup :: "string \<Rightarrow> (globals \<times> world) option" where
  "example_setup m = main_setup example_kdf example_pton (\<lambda>_. None) (example_args m)
     (globals_start xor_lib (\<lambda>_ _. 0) (\<lambda>_. []), example_world)"

lemma example_client_setup:
  obtains g w where "example_setup ''-c'' = Some (g, w)" "program_mode (net_cf g) = client_mode" "key_string g = ''passwd''"
    "auth_mode (crypt_cf g) = auth_md5" "cipher_mode (crypt_cf g) = cipher_aes128cbc" "aes128cfb_old (crypt_cf g) = 0"
    "net_cf g = net_conf_start \<lparr> raw_ip_version := 2, program_mode := client_mode \<rparr>"
proof -
  have "case example_setup ''-c'' of None \<Rightarrow> False | Some (g, w) \<Rightarrow> key_string g = ''passwd'' \<and>
      auth_mode (crypt_cf g) = auth_md5 \<and> cipher_mode (crypt_cf g) = cipher_aes128cbc \<and> aes128cfb_old (crypt_cf g) = 0 \<and>
      net_cf g = net_conf_start \<lparr> raw_ip_version := 2, program_mode := client_mode \<rparr>"
    by code_simp
  then show ?thesis using that by (cases "example_setup ''-c''") auto
qed

lemma example_server_setup:
  obtains g w where "example_setup ''-s'' = Some (g, w)" "program_mode (net_cf g) = server_mode" "key_string g = ''passwd''"
    "auth_mode (crypt_cf g) = auth_md5" "cipher_mode (crypt_cf g) = cipher_aes128cbc" "aes128cfb_old (crypt_cf g) = 0"
    "net_cf g = net_conf_start \<lparr> raw_ip_version := 2, program_mode := server_mode \<rparr>"
proof -
  have "case example_setup ''-s'' of None \<Rightarrow> False | Some (g, w) \<Rightarrow> key_string g = ''passwd'' \<and>
      auth_mode (crypt_cf g) = auth_md5 \<and> cipher_mode (crypt_cf g) = cipher_aes128cbc \<and> aes128cfb_old (crypt_cf g) = 0 \<and>
      net_cf g = net_conf_start \<lparr> raw_ip_version := 2, program_mode := server_mode \<rparr>"
    by code_simp
  then show ?thesis using that by (cases "example_setup ''-s''") auto
qed

section \<open>Properties\<close>

lemma peer_conf_peer: "peer_conf (peer_conf cf) = cf" by (simp add: peer_conf_def)

text \<open>C33. Two commands, one for a client and one for a server, with the same
  password, ciphers and authentication, make the two ends of an encrypted channel,
  in both directions: whatever the network part of the two configurations becomes,
  if the raw layer of the two ends agrees then so do the keys, the ciphers and the
  masks, which is what the delivery of messages rests on.\<close>

theorem setup_channel:
  assumes "main_setup K ptonc filesc argvc (globals_start L placec orderc, wc) = Some (gc, wc')"
    and "main_setup K ptons filess argvs (globals_start L places orders, ws) = Some (gs, ws')"
    and "program_mode (net_cf gc) = client_mode" "program_mode (net_cf gs) = server_mode"
    and "key_string gs = key_string gc" "auth_mode (crypt_cf gs) = auth_mode (crypt_cf gc)"
      "cipher_mode (crypt_cf gs) = cipher_mode (crypt_cf gc)" "aes128cfb_old (crypt_cf gs) = aes128cfb_old (crypt_cf gc)"
    and "aes_inverts L" "g_fix_gro nets = g_fix_gro netc"
  shows "(ends_agree netc rs nets \<and> wire_pair netc rs nets [] \<longrightarrow>
       channel_pair ((vpn_conf.truncate gc) \<lparr> net_cf := netc \<rparr>) rs ((vpn_conf.truncate gs) \<lparr> net_cf := nets \<rparr>)) \<and>
     (ends_agree nets rs netc \<and> wire_pair nets rs netc [] \<longrightarrow>
       channel_pair ((vpn_conf.truncate gs) \<lparr> net_cf := nets \<rparr>) rs ((vpn_conf.truncate gc) \<lparr> net_cf := netc \<rparr>))"
  using setup_pair[OF assms(1-8)] main_setup_ranges[OF assms(1)] main_setup_ranges[OF assms(2)] assms(9,10)
  by (simp add: channel_pair_def vpn_conf.truncate_def options_ok_def peer_conf_peer)

theorem setup_channel_witness:
  "\<exists>gc wc gs ws. example_setup ''-c'' = Some (gc, wc) \<and> example_setup ''-s'' = Some (gs, ws) \<and>
     channel_pair ((vpn_conf.truncate gc) \<lparr> net_cf := example_net_conf \<rparr>) example_raw
       ((vpn_conf.truncate gs) \<lparr> net_cf := example_net_conf \<lparr> filter_port := 2000, program_mode := server_mode \<rparr> \<rparr>)"
proof -
  obtain gc wc where c: "example_setup ''-c'' = Some (gc, wc)" "program_mode (net_cf gc) = client_mode" "key_string gc = ''passwd''"
    "auth_mode (crypt_cf gc) = auth_md5" "cipher_mode (crypt_cf gc) = cipher_aes128cbc" "aes128cfb_old (crypt_cf gc) = 0"
    by (rule example_client_setup)
  obtain gs ws where s: "example_setup ''-s'' = Some (gs, ws)" "program_mode (net_cf gs) = server_mode" "key_string gs = ''passwd''"
    "auth_mode (crypt_cf gs) = auth_md5" "cipher_mode (crypt_cf gs) = cipher_aes128cbc" "aes128cfb_old (crypt_cf gs) = 0"
    by (rule example_server_setup)
  let ?ns = "example_net_conf \<lparr> filter_port := 2000, program_mode := server_mode \<rparr>"
  have e: "ends_agree example_net_conf example_raw ?ns" "wire_pair example_net_conf example_raw ?ns []"
    by (simp_all add: ends_agree_def wire_pair_def example_net_conf_def example_raw_def example_info_def AF_INET_def IPPROTO_UDP_def)
  show ?thesis
    using setup_channel[OF c(1)[unfolded example_setup_def] s(1)[unfolded example_setup_def] c(2) s(2), of ?ns example_net_conf example_raw]
      c s e xor_lib_inverts by simp
qed

text \<open>C34. When the set-up of the program succeeds, every variable is in the range the
  rest of the program relies on: the modes are real ones, the heartbeat is a run of at
  most 1500 zeros, the counters are in their bounds, the identifier is not 0, and the
  IP version is the one of the address the packets go to or come to.\<close>

theorem options_well_formed:
  assumes "main_setup K inet_pton files argv (globals_start L place order, w) = Some (g, w')"
  shows "options_ok g \<and> const_id g \<noteq> 0 \<and> lib g = L \<and> length (c_text (key_string g)) < 996 \<and>
     (program_mode (net_cf g) = client_mode \<and> addr_get_type (remote_addr g) = Some (raw_ip_version (net_cf g)) \<or>
      program_mode (net_cf g) = server_mode \<and> addr_get_type (local_addr g) = Some (raw_ip_version (net_cf g)))"
  using main_setup_ranges[OF assms] by simp

theorem options_well_formed_witness: "\<exists>g w. example_setup ''-c'' = Some (g, w) \<and> options_ok g \<and> const_id g \<noteq> 0"
proof (rule example_client_setup)
  fix g w
  assume g: "example_setup ''-c'' = Some (g, w)"
  then show ?thesis using options_well_formed[OF g[unfolded example_setup_def]] by blast
qed

text \<open>The keys a server derives from a password mirror those a client derives: what
  one end encrypts and signs with, the other decrypts and verifies with; the shared
  key and the mask are equal. The server's derivation succeeds when the client's does.\<close>

theorem keys_mirror:
  assumes "same_crypt (crypt_cf cs) (crypt_cf cc)" "lib cs = lib cc"
    and "my_init_keys K pw True cc = Some cc'"
  shows "\<exists>cs'. my_init_keys K pw False cs = Some cs' \<and> crypt_cf cs' = peer_conf (crypt_cf cc') \<and> gro_xor cs' = gro_xor cc'"
  by (rule my_init_keys_mirror[OF assms])

theorem keys_mirror_witness:
  "\<exists>cc' cs'. my_init_keys example_kdf ''passwd'' True example_vpn = Some cc' \<and>
     my_init_keys example_kdf ''passwd'' False example_peer = Some cs' \<and> crypt_cf cs' = peer_conf (crypt_cf cc') \<and>
     hmac_key_encrypt (crypt_cf cc') \<noteq> cipher_key_encrypt (crypt_cf cc')"
proof -
  have "case my_init_keys example_kdf ''passwd'' True example_vpn of None \<Rightarrow> False
      | Some c \<Rightarrow> hmac_key_encrypt (crypt_cf c) \<noteq> cipher_key_encrypt (crypt_cf c)"
    by code_simp
  then obtain cc' where c: "my_init_keys example_kdf ''passwd'' True example_vpn = Some cc'"
    "hmac_key_encrypt (crypt_cf cc') \<noteq> cipher_key_encrypt (crypt_cf cc')" by (auto split: option.splits)
  have "same_crypt (crypt_cf example_peer) (crypt_cf example_vpn)" "lib example_peer = lib example_vpn"
    by (simp_all add: same_crypt_def example_peer_def example_vpn_def)
  from keys_mirror[OF this c(1)] c show ?thesis by blast
qed


text \<open>A line of the configuration file, an option and its value with blanks before,
  between and after them, is split into that option and that value, blanks inside the
  value included; an option alone gives itself.\<close>

theorem conf_line_roundtrip:
  assumes "conf_word a" "conf_value v"
    and "list_all blank b1" "list_all blank b2" "b2 \<noteq> []" "list_all blank b3"
  shows "parse_conf_line (b1 @ a @ b2 @ v @ b3) = Some [a, v] \<and> parse_conf_line (b1 @ a @ b3) = Some [a]"
  using assms by (simp add: parse_line_value parse_line_flag)

theorem conf_line_roundtrip_witness:
  "parse_conf_line ''  --key  my secret key '' = Some [''--key'', ''my secret key''] \<and>
   parse_conf_line ''  --key '' = Some [''--key'']"
proof -
  have "conf_word ''--key''" "conf_value ''my secret key''" "list_all blank ''  ''" "list_all blank '' ''" by code_simp+
  from conf_line_roundtrip[OF this(1,2,3,3) _ this(4)] show ?thesis by simp
qed

text \<open>C37. Options in a configuration file have the effect they have at the end of the
  command line, wherever the file is named, if the file asks for no help and no unit
  test and an argument next to the file is not a log level cut from its option.\<close>

theorem conf_file_is_command_line:
  assumes "files f = Some (conf_text opts)" "list_all conf_option opts" "\<not> dash f"
    and "set (concat (map conf_words opts)) \<inter> help_options = {}"
    and "''--conf-file'' \<notin> set (a @ b @ concat (map conf_words opts))"
    and "last a \<noteq> ''--log-level''" "b = [] \<or> last b \<noteq> ''--log-level''" "a \<noteq> []" "opts \<noteq> []"
    and "level_ok (log_level g)"
  shows "pre_process_arg inet_pton files (a @ ''--conf-file'' # f # b) g =
     pre_process_arg inet_pton files (a @ b @ concat (map conf_words opts)) g"
  using assms by (rule conf_file_equiv)

theorem conf_file_is_command_line_witness:
  "pre_process_arg example_pton [''my.conf'' \<mapsto> ''--key a b'' @ [newline] @ ''-s'' @ [newline]]
     ([''udp2raw'', ''-l0.0.0.0:3333''] @ ''--conf-file'' # ''my.conf'' # [''-r10.0.0.2:4096'']) (globals_start xor_lib (\<lambda>_ _. 0) (\<lambda>_. [])) =
   pre_process_arg example_pton [''my.conf'' \<mapsto> ''--key a b'' @ [newline] @ ''-s'' @ [newline]]
     [''udp2raw'', ''-l0.0.0.0:3333'', ''-r10.0.0.2:4096'', ''--key'', ''a b'', ''-s''] (globals_start xor_lib (\<lambda>_ _. 0) (\<lambda>_. []))"
proof -
  let ?opts = "[(''--key'', Some ''a b''), (''-s'', None)]"
  have t: "''--key a b'' @ [newline] @ ''-s'' @ [newline] = conf_text ?opts"
    by (simp add: conf_text_def conf_line_def)
  have o1: "list_all conf_option ?opts" by code_simp
  have l: "level_ok (log_level (globals_start xor_lib (\<lambda>_ _. 0) (\<lambda>_. [])))"
    by (simp add: level_ok_def globals_start_def log_end_def)
  show ?thesis
    unfolding t
    using conf_file_is_command_line[of "[''my.conf'' \<mapsto> conf_text ?opts]" "''my.conf''" ?opts
        "[''udp2raw'', ''-l0.0.0.0:3333'']" "[''-r10.0.0.2:4096'']" "globals_start xor_lib (\<lambda>_ _. 0) (\<lambda>_. [])" example_pton] o1 l
    by (simp add: conf_words_def help_options_def dash_def)
qed

text \<open>C38. A password of 996 to 999 characters is accepted as an option and then overruns
  the buffer in which the key derivation joins it with \<open>"key1"\<close>.\<close>

theorem long_key_overruns:
  assumes "996 \<le> length pw" "length pw < 1000" "list_all (\<lambda>c. \<not> is_space c \<and> c \<noteq> CHR 0x00) pw"
  shows "process_short inet_pton (CHR ''k'') pw g = Some (g \<lparr> key_string := pw \<rparr>) \<and> my_init_keys K pw is_client cf = None"
proof -
  have ns: "\<forall>c\<in>set pw. \<not> is_space c" "\<forall>c\<in>set pw. c \<noteq> CHR 0x00" using assms(3) unfolding list_all_iff by blast+
  have d: "dropWhile is_space pw = pw" using ns(1) by (cases pw) simp_all
  have t: "takeWhile (\<lambda>c. \<not> is_space c) pw = pw" using ns(1) by (simp add: takeWhile_eq_all_conv)
  have c: "c_text pw = pw" unfolding c_text_def takeWhile_eq_all_conv using ns(2) by blast
  have "scan_s_into 1000 (key_string g) pw = Some pw"
    unfolding scan_s_into_def d t Let_def using assms(1,2) by (cases pw) (simp_all add: assert_c_def)
  then have "process_short inet_pton (CHR ''k'') pw g = Some (g \<lparr> key_string := pw \<rparr>)" by (simp add: process_short_def)
  moreover have "my_init_keys K pw is_client cf = None"
    unfolding my_init_keys_def c Let_def using assms(1) by (simp add: assert_c_def)
  ultimately show ?thesis by blast
qed

theorem long_key_overruns_witness:
  "process_short example_pton (CHR ''k'') (replicate 997 CHR ''x'') (globals_start xor_lib (\<lambda>_ _. 0) (\<lambda>_. [])) =
     Some ((globals_start xor_lib (\<lambda>_ _. 0) (\<lambda>_. [])) \<lparr> key_string := replicate 997 CHR ''x'' \<rparr>) \<and>
   my_init_keys example_kdf (replicate 997 CHR ''x'') True example_vpn = None"
  by (rule long_key_overruns) (simp_all add: list_all_iff is_space_def)

end
