(* ===== verification/Route.thy ===== *)
theory Route
  imports Options
begin

text \<open>
  The next hop for \<open>--lower-level auto\<close> (network.cpp, common.cpp): reading and
  splitting \<open>/proc/net/route\<close> and \<open>/proc/net/arp\<close>, the routes that fit an address,
  the walk over gateways, the hardware address. Then: the routes found are those of
  the longest prefix, and the bound of the walk is high enough.
\<close>

unbundle bit_operations_syntax

section \<open>Files and words\<close>

text \<open>\<open>read_file\<close> reads once, at most 3 MB, and keeps the descriptor open.\<close>

definition max_file_len :: nat where "max_file_len = 3 * 1024 * 1024"

definition read_file :: "string \<Rightarrow> world \<Rightarrow> (int \<times> string) \<times> world" where
  "read_file file_name w =
     (let (fd, w) = syscall (SysOpen file_name) w
      in if fd = -1 then ((-1, ''''), w)
         else let (len, buf, w) = sys_receive (SysRead fd max_file_len) max_file_len w
              in if len = int max_file_len then ((-2, ''''), w)
                 else if len < 0 then ((-3, ''''), w)
                 else ((0, c_text (map (\<lambda>b. char_of (unat b)) buf)), w))"

text \<open>\<open>strtok\<close> over a whole string; the second argument is the word being read.\<close>

fun strtok_from :: "string \<Rightarrow> string \<Rightarrow> string \<Rightarrow> string list" where
  "strtok_from sp w [] = (if w = [] then [] else [w])"
| "strtok_from sp w (c # s) =
     (if c \<in> set sp then (if w = [] then [] else [w]) @ strtok_from sp [] s else strtok_from sp (w @ [c]) s)"

definition string_to_vec :: "string \<Rightarrow> string \<Rightarrow> string list" where
  "string_to_vec s sp = strtok_from sp [] s"

definition string_to_vec2 :: "string \<Rightarrow> string list list" where
  "string_to_vec2 s = map (\<lambda>l. string_to_vec l [CHR 0x09, CHR 0x20]) (string_to_vec s [newline])"

definition hex_to_u32 :: "string \<Rightarrow> u32 option" where
  "hex_to_u32 a = map_option fst (scan_x a)"

definition hex_to_u32_with_endian :: "string \<Rightarrow> u32 option" where
  "hex_to_u32_with_endian a = map_option (\<lambda>(v, _). htonl v) (scan_x a)"

section \<open>Routes\<close>

record route_info_t =
  rt_if_name :: string
  rt_dest :: u32
  rt_mask :: u32
  rt_gw :: u32
  rt_flag :: u32

text \<open>The mask of the \<open>i\<close>-th round: the low \<open>i\<close> bits are free.\<close>

definition round_mask :: "nat \<Rightarrow> u32" where
  "round_mask i = (if i = 32 then 0 else push_bit i 0xffffffff)"

definition round_hits :: "route_info_t list \<Rightarrow> u32 \<Rightarrow> nat \<Rightarrow> nat list" where
  "round_hits rts ip i =
     filter (\<lambda>j. rt_mask (rts ! j) = round_mask i \<and> rt_dest (rts ! j) AND round_mask i = ip AND round_mask i) [0..<length rts]"

fun find_route_from :: "route_info_t list \<Rightarrow> u32 \<Rightarrow> nat list \<Rightarrow> nat list" where
  "find_route_from rts ip [] = []"
| "find_route_from rts ip (i # is) =
     (let res = round_hits rts ip i in if res \<noteq> [] then res else find_route_from rts ip is)"

definition find_route_entry :: "route_info_t list \<Rightarrow> u32 \<Rightarrow> nat list" where
  "find_route_entry rts ip = find_route_from rts ip [0..<33]"

text \<open>The walk over gateways, at most so many steps; \<open>None\<close> for \<open>-1\<close>.\<close>

fun direct_dest_steps :: "nat \<Rightarrow> route_info_t list \<Rightarrow> u32 \<Rightarrow> (u32 \<times> string) option" where
  "direct_dest_steps 0 rts ip = None"
| "direct_dest_steps (Suc n) rts ip =
     (let res = find_route_entry rts ip
      in if length res = 0 then None
         else if length res > 1 then None
         else if rt_flag (rts ! (res ! 0)) AND 2 = 0 then Some (ip, rt_if_name (rts ! (res ! 0)))
         else direct_dest_steps n rts (rt_gw (rts ! (res ! 0))))"

definition find_direct_dest :: "route_info_t list \<Rightarrow> u32 \<Rightarrow> (u32 \<times> string) option" where
  "find_direct_dest rts ip = direct_dest_steps 1000 rts ip"

section \<open>Hardware addresses\<close>

record arp_info_t =
  arp_ip :: u32
  arp_hw :: string
  arp_if_name :: string

definition find_arp :: "arp_info_t list \<Rightarrow> u32 \<Rightarrow> string \<Rightarrow> string option" where
  "find_arp arps ip name =
     (case filter (\<lambda>info. arp_if_name info = name \<and> arp_ip info = ip) arps of
        [info] \<Rightarrow> Some (arp_hw info)
      | _ \<Rightarrow> None)"

text \<open>The flags of an interface; a longer name than the request holds is written past it.\<close>

definition interface_has_arp :: "net_conf \<Rightarrow> string \<Rightarrow> world \<Rightarrow> (bool \<times> world) option" where
  "interface_has_arp cf name w =
     do {
       assert_c (length name < 16);
       let out = (case sys_out w (sys_i w) of [] \<Rightarrow> [] | b # _ \<Rightarrow> b);
       let (r, w) = syscall (SysIoctl (raw_send_fd cf) ''SIOCGIFFLAGS'' name) w;
       assert_c (\<not> r < 0);
       Some (of_be16 (rev (take 2 out)) AND 128 = 0, w)
     }"

section \<open>The two files\<close>

fun parse_routes :: "string list list \<Rightarrow> route_info_t list option" where
  "parse_routes [] = Some []"
| "parse_routes (row # rows) =
     (if length row \<noteq> 11 then None
      else do {
        dest \<leftarrow> hex_to_u32_with_endian (row ! 1);
        gw \<leftarrow> hex_to_u32_with_endian (row ! 2);
        mask \<leftarrow> hex_to_u32_with_endian (row ! 7);
        flag \<leftarrow> hex_to_u32 (row ! 3);
        rest \<leftarrow> parse_routes rows;
        Some (\<lparr> rt_if_name = row ! 0, rt_dest = dest, rt_mask = mask, rt_gw = gw, rt_flag = flag \<rparr> # rest)
      })"

fun parse_arps :: "(string \<Rightarrow> u32) \<Rightarrow> string list list \<Rightarrow> arp_info_t list option" where
  "parse_arps inet_addr [] = Some []"
| "parse_arps inet_addr (row # rows) =
     (if length row \<noteq> 6 then None
      else do {
        rest \<leftarrow> parse_arps inet_addr rows;
        Some (\<lparr> arp_ip = htonl (inet_addr (row ! 0)), arp_hw = row ! 3, arp_if_name = row ! 5 \<rparr> # rest)
      })"

definition no_hw :: string where "no_hw = ''00:00:00:00:00:00''"

text \<open>The inner \<open>None\<close> is the code \<open>-1\<close>, the outer one the end of the program.\<close>

definition find_lower_level_info ::
  "(string \<Rightarrow> u32) \<Rightarrow> net_conf \<Rightarrow> u32 \<Rightarrow> world \<Rightarrow> ((u32 \<times> string \<times> string) option \<times> world) option" where
  "find_lower_level_info inet_addr cf ip0 w =
     (let ip = htonl ip0
      in if ip = htonl (inet_addr ''127.0.0.1'') then Some (Some (htonl ip, ''lo'', no_hw), w)
         else
           let ((r, route_file), w) = read_file ''/proc/net/route'' w
           in if r \<noteq> 0 then Some (None, w)
              else
                let ((r, arp_file), w) = read_file ''/proc/net/arp'' w
                in if r \<noteq> 0 then Some (None, w)
                   else
                     (case Option.bind (parse_routes (tl (string_to_vec2 route_file))) (\<lambda>rts. find_direct_dest rts ip) of
                        None \<Rightarrow> Some (None, w)
                      | Some (dest_ip, name) \<Rightarrow>
                          (case parse_arps inet_addr (tl (string_to_vec2 arp_file)) of
                             None \<Rightarrow> Some (None, w)
                           | Some arps \<Rightarrow> do {
                               (has, w) \<leftarrow> interface_has_arp cf name w;
                               Some (if \<not> has then Some (htonl dest_ip, name, no_hw)
                                     else map_option (\<lambda>hw. (htonl dest_ip, name, hw)) (find_arp arps dest_ip name), w)
                             })))"


section \<open>The longest prefix\<close>

text \<open>A route with \<open>i\<close> free bits covers an address when the other bits agree.\<close>

definition covers :: "route_info_t \<Rightarrow> nat \<Rightarrow> u32 \<Rightarrow> bool" where
  "covers r i ip \<longleftrightarrow> rt_mask r = round_mask i \<and> drop_bit i (rt_dest r) = drop_bit i ip"

lemma bit_round_mask: "i \<le> 32 \<Longrightarrow> bit (round_mask i) n \<longleftrightarrow> i \<le> n \<and> n < 32"
proof -
  have m: "(0xffffffff :: u32) = - 1" by simp
  show "i \<le> 32 \<Longrightarrow> bit (round_mask i) n \<longleftrightarrow> i \<le> n \<and> n < 32"
    unfolding round_mask_def m by (auto simp: bit_push_bit_iff bit_not_iff bit_mask_iff not_le)
qed

lemma and_round_mask: "i \<le> 32 \<Longrightarrow> a AND round_mask i = b AND round_mask i \<longleftrightarrow> drop_bit i a = drop_bit i (b :: u32)"
proof
  assume i: "i \<le> 32" and e: "a AND round_mask i = b AND round_mask i"
  show "drop_bit i a = drop_bit i b"
  proof (rule bit_word_eqI)
    fix n
    have "bit (a AND round_mask i) (i + n) = bit (b AND round_mask i) (i + n)" using e by simp
    then have "i + n < 32 \<Longrightarrow> bit a (i + n) = bit b (i + n)" using i by (simp add: bit_and_iff bit_round_mask)
    moreover have "\<not> i + n < 32 \<Longrightarrow> \<not> bit a (i + n) \<and> \<not> bit b (i + n)" by (simp add: bit_word.rep_eq)
    ultimately show "bit (drop_bit i a) n = bit (drop_bit i b) n" by (auto simp: bit_drop_bit_eq)
  qed
next
  assume i: "i \<le> 32" and e: "drop_bit i a = drop_bit i b"
  show "a AND round_mask i = b AND round_mask i"
  proof (rule bit_word_eqI)
    fix n
    have "bit (drop_bit i a) (n - i) = bit (drop_bit i b) (n - i)" using e by simp
    then show "bit (a AND round_mask i) n = bit (b AND round_mask i) n"
      using i by (auto simp: bit_and_iff bit_round_mask bit_drop_bit_eq)
  qed
qed

lemma round_hits_covers: "i \<le> 32 \<Longrightarrow> j \<in> set (round_hits rts ip i) \<longleftrightarrow> j < length rts \<and> covers (rts ! j) i ip"
  by (auto simp: round_hits_def covers_def and_round_mask)

lemma find_route_from_iff:
  "j \<in> set (find_route_from rts ip is) \<longleftrightarrow>
     (\<exists>k < length is. j \<in> set (round_hits rts ip (is ! k)) \<and> (\<forall>k' < k. round_hits rts ip (is ! k') = []))"
proof (induction "is")
  case (Cons i "is")
  show ?case
  proof (cases "round_hits rts ip i = []")
    case True
    have "(\<forall>k' < Suc k. round_hits rts ip ((i # is) ! k') = []) \<longleftrightarrow> (\<forall>k' < k. round_hits rts ip (is ! k') = [])" for k
      by (simp add: All_less_Suc2 True)
    then show ?thesis using True Cons.IH by (simp add: Ex_less_Suc2)
  next
    case False
    then show ?thesis by (simp add: Ex_less_Suc2 All_less_Suc2)
  qed
qed simp

lemma find_route_longest:
  "j \<in> set (find_route_entry rts ip) \<longleftrightarrow> j < length rts \<and>
     (\<exists>i \<le> 32. covers (rts ! j) i ip \<and> (\<forall>k < length rts. \<forall>i' < i. \<not> covers (rts ! k) i' ip))"
proof -
  have none: "round_hits rts ip i = [] \<longleftrightarrow> (\<forall>k < length rts. \<not> covers (rts ! k) i ip)" if "i \<le> 32" for i
  proof -
    have "round_hits rts ip i = [] \<longleftrightarrow> (\<forall>k. k \<notin> set (round_hits rts ip i))" by (cases "round_hits rts ip i") auto
    then show ?thesis by (simp add: round_hits_covers[OF that])
  qed
  have "j \<in> set (find_route_entry rts ip) \<longleftrightarrow>
      (\<exists>i < 33. j \<in> set (round_hits rts ip i) \<and> (\<forall>i' < i. round_hits rts ip i' = []))"
    unfolding find_route_entry_def find_route_from_iff by (intro ex_cong1 conj_cong) simp_all
  also have "\<dots> \<longleftrightarrow> (\<exists>i \<le> 32. (j < length rts \<and> covers (rts ! j) i ip) \<and> (\<forall>i' < i. \<forall>k < length rts. \<not> covers (rts ! k) i' ip))"
    by (intro ex_cong1 conj_cong all_cong) (auto simp: round_hits_covers none)
  finally show ?thesis by blast
qed

section \<open>The bound of the walk\<close>

text \<open>Where the gateways of a table lead, without a bound.\<close>

inductive reaches :: "route_info_t list \<Rightarrow> u32 \<Rightarrow> u32 \<times> string \<Rightarrow> bool" for rts where
  direct: "find_route_entry rts ip = [j] \<Longrightarrow> rt_flag (rts ! j) AND 2 = 0 \<Longrightarrow> reaches rts ip (ip, rt_if_name (rts ! j))"
| gateway: "find_route_entry rts ip = [j] \<Longrightarrow> rt_flag (rts ! j) AND 2 \<noteq> 0 \<Longrightarrow> reaches rts (rt_gw (rts ! j)) d \<Longrightarrow> reaches rts ip d"

text \<open>With the number of gateways passed.\<close>

fun walk :: "nat \<Rightarrow> route_info_t list \<Rightarrow> u32 \<Rightarrow> u32 \<times> string \<Rightarrow> bool" where
  "walk 0 rts ip d \<longleftrightarrow> (\<exists>j. find_route_entry rts ip = [j] \<and> rt_flag (rts ! j) AND 2 = 0 \<and> d = (ip, rt_if_name (rts ! j)))"
| "walk (Suc n) rts ip d \<longleftrightarrow> (\<exists>j. find_route_entry rts ip = [j] \<and> rt_flag (rts ! j) AND 2 \<noteq> 0 \<and> walk n rts (rt_gw (rts ! j)) d)"

lemma walk_unique: "walk n rts ip d \<Longrightarrow> walk m rts ip d' \<Longrightarrow> n = m"
proof (induction n arbitrary: ip m)
  case 0
  then show ?case by (cases m) auto
next
  case (Suc n)
  then show ?case by (cases m) auto
qed

lemma reaches_walk: "reaches rts ip d \<longleftrightarrow> (\<exists>n. walk n rts ip d)"
proof
  show "reaches rts ip d \<Longrightarrow> \<exists>n. walk n rts ip d"
  proof (induction rule: reaches.induct)
    case (direct ip j)
    then show ?case by (intro exI[of _ 0]) simp
  next
    case (gateway ip j d)
    then obtain n where "walk n rts (rt_gw (rts ! j)) d" by blast
    with gateway show ?case by (intro exI[of _ "Suc n"]) simp
  qed
  have "walk n rts ip d \<Longrightarrow> reaches rts ip d" for n
    by (induction n arbitrary: ip) (auto intro: reaches.intros)
  then show "\<exists>n. walk n rts ip d \<Longrightarrow> reaches rts ip d" by blast
qed

text \<open>Every number of gateways still to pass belongs to a route of its own.\<close>

definition route_rank :: "route_info_t list \<Rightarrow> nat \<Rightarrow> nat \<Rightarrow> bool" where
  "route_rank rts j r \<longleftrightarrow> (case r of 0 \<Rightarrow> rt_flag (rts ! j) AND 2 = 0
     | Suc n \<Rightarrow> rt_flag (rts ! j) AND 2 \<noteq> 0 \<and> (\<exists>d. walk n rts (rt_gw (rts ! j)) d))"

lemma route_rank_unique: "route_rank rts j r \<Longrightarrow> route_rank rts j r' \<Longrightarrow> r = r'"
  by (auto simp: route_rank_def dest: walk_unique split: nat.splits)

lemma entry_in_table: "find_route_entry rts ip = [j] \<Longrightarrow> j < length rts"
  using find_route_longest[of j rts ip] by simp

lemma walk_ranks: "walk n rts ip d \<Longrightarrow> r \<le> n \<Longrightarrow> \<exists>j < length rts. route_rank rts j r"
proof (induction n arbitrary: ip)
  case 0
  then show ?case by (auto simp: route_rank_def dest: entry_in_table)
next
  case (Suc n)
  then obtain j where j: "find_route_entry rts ip = [j]" "rt_flag (rts ! j) AND 2 \<noteq> 0" "walk n rts (rt_gw (rts ! j)) d" by auto
  show ?case
  proof (cases "r = Suc n")
    case True
    have "\<exists>d. walk n rts (rt_gw (rts ! j)) d" using j(3) by blast
    then show ?thesis using True j(2) entry_in_table[OF j(1)] by (intro exI[of _ j]) (simp add: route_rank_def)
  next
    case False
    then show ?thesis using Suc.IH[OF j(3)] Suc.prems(2) by simp
  qed
qed

lemma walk_bound:
  assumes w: "walk n rts ip d"
  shows "n < length rts"
proof -
  obtain f where f: "\<And>r. r \<le> n \<Longrightarrow> f r < length rts \<and> route_rank rts (f r) r"
    using walk_ranks[OF w] by metis
  have "inj_on f {..n}" using f by (intro inj_onI) (metis atMost_iff route_rank_unique)
  moreover have "f ` {..n} \<subseteq> {..<length rts}" using f by auto
  ultimately have "card {..n} \<le> card {..<length rts}" by (rule card_inj_on_le) simp
  then show ?thesis by simp
qed

lemma steps_walk: "direct_dest_steps m rts ip = Some d \<longleftrightarrow> (\<exists>n < m. walk n rts ip d)"
proof (induction m arbitrary: ip)
  case (Suc m)
  show ?case
  proof (cases "\<exists>j. find_route_entry rts ip = [j]")
    case True
    then obtain j where j: "find_route_entry rts ip = [j]" by blast
    show ?thesis
    proof (cases "rt_flag (rts ! j) AND 2 = 0")
      case True
      have "walk n rts ip d \<longleftrightarrow> n = 0 \<and> d = (ip, rt_if_name (rts ! j))" for n
        using j True by (cases n) auto
      then show ?thesis using j True by auto
    next
      case False
      have "(\<exists>n < Suc m. walk n rts ip d) \<longleftrightarrow> (\<exists>n < m. walk n rts (rt_gw (rts ! j)) d)"
        using j False by (simp add: Ex_less_Suc2)
      then show ?thesis using j False Suc.IH by simp
    qed
  next
    case False
    then have "\<not> walk n rts ip d" for n by (cases n) auto
    then show ?thesis using False by (cases "find_route_entry rts ip" rule: list.exhaust) (auto simp: Let_def)
  qed
qed simp

lemma find_direct_dest_reaches:
  "length rts \<le> 1000 \<Longrightarrow> find_direct_dest rts ip = Some d \<longleftrightarrow> reaches rts ip d"
  unfolding find_direct_dest_def steps_walk reaches_walk using walk_bound by (metis order_less_le_trans)


section \<open>Properties\<close>

definition example_routes :: "route_info_t list" where
  "example_routes =
     [\<lparr> rt_if_name = ''eth0'', rt_dest = 0, rt_mask = 0, rt_gw = 0x0A000001, rt_flag = 3 \<rparr>,
      \<lparr> rt_if_name = ''eth0'', rt_dest = 0x0A000000, rt_mask = 0xFFFFFF00, rt_gw = 0, rt_flag = 1 \<rparr>,
      \<lparr> rt_if_name = ''eth1'', rt_dest = 0x0A000000, rt_mask = 0xFFFF0000, rt_gw = 0, rt_flag = 1 \<rparr>]"

text \<open>C39. The routes found for an address are exactly those with the longest prefix: the
  route covers the address, and no route of the table with fewer free bits does. Routes
  whose mask is not a prefix are never found.\<close>

theorem route_longest_prefix:
  "j \<in> set (find_route_entry rts ip) \<longleftrightarrow> j < length rts \<and>
     (\<exists>i \<le> 32. covers (rts ! j) i ip \<and> (\<forall>k < length rts. \<forall>i' < i. \<not> covers (rts ! k) i' ip))"
  by (rule find_route_longest)

theorem route_longest_prefix_witness:
  "1 \<in> set (find_route_entry example_routes 0x0A000007) \<and> covers (example_routes ! 1) 8 0x0A000007 \<and>
     covers (example_routes ! 2) 16 0x0A000007"
proof -
  have c: "covers (example_routes ! 1) 8 0x0A000007" "covers (example_routes ! 2) 16 0x0A000007"
    by (simp_all add: covers_def example_routes_def round_mask_def)
  have "\<forall>k < length example_routes. \<forall>i' < 8. \<not> covers (example_routes ! k) i' 0x0A000007"
    by code_simp
  then have "1 \<in> set (find_route_entry example_routes 0x0A000007)"
    unfolding route_longest_prefix using c(1) by (intro conjI exI[of _ 8]) (simp_all add: example_routes_def)
  with c show ?thesis by blast
qed

text \<open>C40. On a table of at most 1000 routes the walk over gateways gives up only when it has
  to: it finds the direct destination and the interface exactly when the gateways lead
  there, however long the chain, so an answer of "dead loop" is a real loop.\<close>

theorem direct_dest_complete:
  assumes "length rts \<le> 1000"
  shows "find_direct_dest rts ip = Some d \<longleftrightarrow> reaches rts ip d"
  by (rule find_direct_dest_reaches[OF assms])

theorem direct_dest_complete_witness:
  "find_direct_dest example_routes 0x08080808 = Some (0x0A000001, ''eth0'') \<and>
     reaches example_routes 0x08080808 (0x0A000001, ''eth0'')"
proof -
  have f: "find_direct_dest example_routes 0x08080808 = Some (0x0A000001, ''eth0'')" by code_simp
  show ?thesis
    using f direct_dest_complete[of example_routes "0x08080808" "(0x0A000001, ''eth0'')"] by (simp add: example_routes_def)
qed

end
