(* ===== verification/Firewall.thy ===== *)
theory Firewall
  imports Options ChanFrame
begin

text \<open>
  The firewall rules (misc.cpp): the kernel must not answer the packets of the
  simulated protocol, so the program has them dropped by iptables, itself or by a
  rule it prints. Two chains hold the rule with \<open>--keep-rule\<close>, refreshed in turn.
  The commands are handed to the shell with \<open>run_command\<close> (common.cpp). Then: the
  refreshing never leaves a moment without a rule in force. The thread that runs
  \<open>keep_iptables_rule\<close> is not modelled, its calls are.
\<close>

section \<open>Commands\<close>

definition show_none :: int where "show_none = 0"
definition show_command :: int where "show_command = 1"
definition show_log :: int where "show_log = 2"
definition show_all :: int where "show_all = show_command OR show_log"

text \<open>The code of \<open>run_command\<close>; its output is never used. \<open>popen\<close> gives \<open>-1\<close> for \<open>NULL\<close>,
  \<open>fread\<close> a negative number for an error of the stream.\<close>

definition run_command :: "string \<Rightarrow> int \<Rightarrow> world \<Rightarrow> int \<times> world" where
  "run_command command flag w =
     (let command = (if flag AND show_log = 0 then command @ '' 2>&1 '' else command);
          (file, w) = syscall (SysPopen command) w
      in if file = -1 then (-1, w)
         else let (len, w) = syscall SysFread w
              in if len = 1024 * 1024 then (-2, w)
                 else if len < 0 then (-3, w)
                 else let (ret, w) = syscall SysPclose w
                      in if ret \<noteq> 0 then (-4, w) else (0, w))"

text \<open>Commands whose codes are ignored.\<close>

fun run_commands :: "(string \<times> int) list \<Rightarrow> world \<Rightarrow> world" where
  "run_commands [] w = w"
| "run_commands ((c, flag) # cs) w = run_commands cs (snd (run_command c flag w))"

section \<open>State\<close>

record firewall =
  iptables_command :: string
  iptables_pattern :: string
  iptables_rule_added :: int
  iptables_rule_keeped :: int
  iptables_rule_keep_index :: nat
  chain :: "string list"
  rule_keep :: "string list"
  rule_keep_add :: "string list"
  rule_keep_del :: "string list"

definition firewall_start :: firewall where
  "firewall_start = \<lparr> iptables_command = '''', iptables_pattern = '''', iptables_rule_added = 0, iptables_rule_keeped = 0,
     iptables_rule_keep_index = 0, chain = ['''', ''''], rule_keep = ['''', ''''], rule_keep_add = ['''', ''''],
     rule_keep_del = ['''', ''''] \<rparr>"

text \<open>\<open>"%x"\<close>.\<close>

fun hex_digits :: "nat \<Rightarrow> string" where
  "hex_digits n =
     (if n < 10 then [char_of (48 + n)] else if n < 16 then [char_of (87 + n)]
      else hex_digits (n div 16) @ hex_digits (n mod 16))"

declare hex_digits.simps [simp del]

section \<open>Operations\<close>

definition set_rules :: "nat \<Rightarrow> string \<Rightarrow> firewall \<Rightarrow> firewall" where
  "set_rules i name fw =
     (let rule = iptables_pattern fw @ '' -j '' @ name
      in fw \<lparr> chain := (chain fw)[i := name], rule_keep := (rule_keep fw)[i := rule],
              rule_keep_add := (rule_keep_add fw)[i := iptables_command fw @ ''-I INPUT '' @ rule],
              rule_keep_del := (rule_keep_del fw)[i := iptables_command fw @ ''-D INPUT '' @ rule] \<rparr>)"

text \<open>A new chain \<open>i\<close>, emptied and filled with the one rule.\<close>

definition chain_commands :: "firewall \<Rightarrow> nat \<Rightarrow> (string \<times> int) list" where
  "chain_commands fw i =
     [(iptables_command fw @ ''-N '' @ chain fw ! i, show_all), (iptables_command fw @ ''-F '' @ chain fw ! i, show_all),
      (iptables_command fw @ ''-I '' @ chain fw ! i @ '' -j DROP'', show_all)]"

definition clear_iptables_rule :: "firewall \<Rightarrow> world \<Rightarrow> world" where
  "clear_iptables_rule fw w =
     (if iptables_rule_added fw = 0 then w
      else run_commands (concat (map (\<lambda>i. [(rule_keep_del fw ! i, show_all), (iptables_command fw @ ''-F '' @ chain fw ! i, show_all),
             (iptables_command fw @ ''-X '' @ chain fw ! i, show_all)]) [0..<nat (iptables_rule_keeped fw) + 1])) w)"

text \<open>\<open>Inl\<close>: the program has ended, with what it printed.\<close>

type_synonym 'a ends = "(string \<times> world) + 'a"

definition myexit :: "firewall \<Rightarrow> string \<Rightarrow> world \<Rightarrow> 'a ends" where
  "myexit fw out w = Inl (out, clear_iptables_rule fw w)"

definition iptables_gen_add :: "string \<Rightarrow> firewall \<times> world \<Rightarrow> (firewall \<times> world) ends" where
  "iptables_gen_add s = (\<lambda>(fw, w).
     let fw = set_rules 0 ''udp2rawDwrW_C'' (fw \<lparr> iptables_pattern := s \<rparr>);
         w = run_commands ((fst (chain_commands fw 0 ! 0), show_none) # tl (chain_commands fw 0)) w;
         w = run_commands [(rule_keep_del fw ! 0, show_none), (rule_keep_del fw ! 0, show_none)] w;
         (r, w) = run_command (rule_keep_add fw ! 0) show_all w
     in if r \<noteq> 0 then myexit fw '''' w else Inr (fw, w))"

fun install_chains :: "nat list \<Rightarrow> firewall \<times> world \<Rightarrow> (firewall \<times> world) ends" where
  "install_chains [] (fw, w) = Inr (fw, w)"
| "install_chains (i # is) (fw, w) =
     (let w = run_commands (chain_commands fw i) w; (r, w) = run_command (rule_keep_add fw ! i) show_all w
      in if r \<noteq> 0 then myexit fw '''' w else install_chains is (fw, w))"

definition iptables_rule_init :: "string \<Rightarrow> u32 \<Rightarrow> int \<Rightarrow> firewall \<times> world \<Rightarrow> (firewall \<times> world) ends" where
  "iptables_rule_init s cid keep = (\<lambda>(fw, w).
     let fw = fw \<lparr> iptables_pattern := s, iptables_rule_added := 1, iptables_rule_keeped := keep \<rparr>;
         name = ''udp2rawDwrW_'' @ hex_digits (unat cid);
         fw = set_rules 1 (name @ ''_C1'') (set_rules 0 (name @ ''_C0'') fw);
         (_, w) = get_current_time w
     in install_chains [0..<nat keep + 1] (fw, w))"

text \<open>One round of \<open>--keep-rule\<close>: the other chain than last time is made anew.\<close>

definition keep_commands :: "firewall \<Rightarrow> nat \<Rightarrow> (string \<times> int) list" where
  "keep_commands fw i = map (\<lambda>(c, _). (c, show_none)) (chain_commands fw i) @
     [(rule_keep_del fw ! i, show_none), (rule_keep_del fw ! i, show_none), (rule_keep_add fw ! i, show_log)]"

definition keep_iptables_rule :: "firewall \<times> world \<Rightarrow> firewall \<times> world" where
  "keep_iptables_rule = (\<lambda>(fw, w).
     let (_, w) = get_current_time w;
         i = (iptables_rule_keep_index fw + 1) mod 2;
         w = run_commands (keep_commands fw i) w;
         (_, w) = get_current_time w
     in (fw \<lparr> iptables_rule_keep_index := i \<rparr>, w))"

section \<open>The rule\<close>

text \<open>What the rule matches: packets from the server at the client, packets to the
  local address at the server.\<close>

definition match_text :: "raw_mode_t \<Rightarrow> int \<Rightarrow> string \<Rightarrow> nat \<Rightarrow> nat \<Rightarrow> nat \<Rightarrow> string" where
  "match_text mode version port_word port icmp4 icmp6 =
     (case mode of
        mode_faketcp \<Rightarrow> ''-p tcp -m tcp --'' @ port_word @ '' '' @ dec_digits port
      | mode_udp \<Rightarrow> ''-p udp -m udp --'' @ port_word @ '' '' @ dec_digits port
      | mode_icmp \<Rightarrow> if version = AF_INET then ''-p icmp --icmp-type '' @ dec_digits icmp4
                     else ''-p icmpv6 --icmpv6-type '' @ dec_digits icmp6
      | mode_end \<Rightarrow> '''')"

definition rule_pattern :: "(int \<Rightarrow> bytes \<Rightarrow> string option) \<Rightarrow> globals \<Rightarrow> string option" where
  "rule_pattern inet_ntop g =
     (case program_mode (net_cf g) of
        client_mode \<Rightarrow> do {
          ip \<leftarrow> addr_get_ip inet_ntop (remote_addr g);
          port \<leftarrow> addr_get_port (remote_addr g);
          Some (if raw_mode (net_cf g) = mode_end then ''''
                else ''-s '' @ ip @ '' '' @ match_text (raw_mode (net_cf g)) (raw_ip_version (net_cf g)) ''sport'' (unat port) 0 129)
        }
      | server_mode \<Rightarrow> do {
          ip \<leftarrow> addr_get_ip inet_ntop (local_addr g);
          port \<leftarrow> addr_get_port (local_addr g);
          let given = (if raw_ip_version (net_cf g) = AF_INET then take 4 (drop 4 (local_addr g)) \<noteq> replicate 4 0
                       else take 16 (drop 8 (local_addr g)) \<noteq> replicate 16 0);
          Some ((if given then ''-d '' @ ip @ '' '' else '''') @
                match_text (raw_mode (net_cf g)) (raw_ip_version (net_cf g)) ''dport'' (unat port) 8 128)
        }
      | unset_mode \<Rightarrow> Some '''')"

text \<open>The options that contradict each other.\<close>

definition settle_rule_options :: "globals \<Rightarrow> globals" where
  "settle_rule_options g =
     (let g = (if auto_add_iptables_rule g \<noteq> 0 \<and> generate_iptables_rule g \<noteq> 0 then g \<lparr> auto_add_iptables_rule := 0 \<rparr> else g);
          g = (if generate_iptables_rule_add g \<noteq> 0 \<and> generate_iptables_rule g \<noteq> 0 then g \<lparr> generate_iptables_rule := 0 \<rparr> else g)
      in if keep_rule g \<noteq> 0 \<and> auto_add_iptables_rule g = 0
         then g \<lparr> auto_add_iptables_rule := 1, generate_iptables_rule := 0 \<rparr> else g)"

definition clear_all_commands :: "string \<Rightarrow> (string \<times> int) list" where
  "clear_all_commands cmd =
     [(cmd @ ''-S|sed -n '' @ [CHR 0x27] @ ''/udp2rawDwrW/p'' @ [CHR 0x27] @ ''|sed -n '' @ [CHR 0x27] @ ''s/^-A/'' @ cmd @ ''-D/p'' @ [CHR 0x27] @ ''|sh'', show_all),
      (cmd @ ''-S|sed -n '' @ [CHR 0x27] @ ''/udp2rawDwrW/p'' @ [CHR 0x27] @ ''|sed -n '' @ [CHR 0x27] @ ''s/^-N/'' @ cmd @ ''-X/p'' @ [CHR 0x27] @ ''|sh'', show_all)]"

text \<open>\<open>None\<close>: a failed assertion. The thread is started where the last result is \<open>True\<close>.\<close>

definition iptables_rule ::
  "(int \<Rightarrow> bytes \<Rightarrow> string option) \<Rightarrow> globals \<times> firewall \<times> world \<Rightarrow> (globals \<times> firewall \<times> world \<times> bool) ends option" where
  "iptables_rule inet_ntop = (\<lambda>(g, fw, w).
     do {
       assert_c (raw_ip_version (net_cf g) = AF_INET \<or> raw_ip_version (net_cf g) = AF_INET6);
       let cmd = (if raw_ip_version (net_cf g) = AF_INET then ''iptables '' else ''ip6tables '') @
                 (if wait_xtables_lock g = 0 then '''' else ''-w '');
       let fw = fw \<lparr> iptables_command := cmd \<rparr>;
       (if clear_iptables g \<noteq> 0 then Some (myexit fw '''' (run_commands (clear_all_commands cmd) w))
        else do {
          let g = settle_rule_options g;
          pattern \<leftarrow> rule_pattern inet_ntop g;
          Some (if generate_iptables_rule g \<noteq> 0 then myexit fw (cmd @ ''-I INPUT '' @ pattern @ '' -j DROP'') w
                else if generate_iptables_rule_add g \<noteq> 0 then
                  (case iptables_gen_add pattern (fw, w) of Inl e \<Rightarrow> Inl e | Inr (fw, w) \<Rightarrow> myexit fw '''' w)
                else if auto_add_iptables_rule g \<noteq> 0 then
                  (case iptables_rule_init pattern (const_id g) (keep_rule g) (fw, w) of
                     Inl e \<Rightarrow> Inl e
                   | Inr (fw, w) \<Rightarrow> Inr (g, fw, w, keep_rule g \<noteq> 0))
                else Inr (g, fw, w, False))
        })
     })"


section \<open>The rule is always in force\<close>

text \<open>The commands handed to the shell so far.\<close>

definition issued :: "world \<Rightarrow> string list" where
  "issued w = List.map_filter (\<lambda>op. case op of SysPopen c \<Rightarrow> Some c | _ \<Rightarrow> None) (sys_log w)"

definition shell_text :: "string \<times> int \<Rightarrow> string" where
  "shell_text cf = (if snd cf AND show_log = 0 then fst cf @ '' 2>&1 '' else fst cf)"

lemma issued_run_command: "run_command c flag w = (r, w') \<Longrightarrow> issued w' = issued w @ [shell_text (c, flag)]"
  by (auto simp: run_command_def issued_def shell_text_def syscall_def Let_def map_filter_def split: if_splits)

lemma issued_run_commands: "issued (run_commands cs w) = issued w @ map shell_text cs"
proof (induction cs w rule: run_commands.induct)
  case (2 c flag cs w)
  then show ?case using issued_run_command[of c flag w "fst (run_command c flag w)" "snd (run_command c flag w)"] by simp
qed simp

lemma issued_time: "get_current_time w = (t, w') \<Longrightarrow> issued w' = issued w"
  using get_current_time_outside[of w t w'] by (simp add: issued_def)

text \<open>What iptables does, as far as the program relies on it: \<open>present f c\<close>, the chain
  exists, \<open>jumps f c\<close>, the packets of the pattern are handed to it, and \<open>full f c\<close>, it
  drops everything. After \<open>-N\<close> the chain is there, made now or before; inserting into a
  chain that is there, or a jump to one, succeeds; \<open>-F\<close> empties only its chain and \<open>-D\<close>
  removes only jumps to its chain. Nothing is said of an insertion into a missing chain.\<close>

definition kept :: "('f \<Rightarrow> string \<Rightarrow> bool) \<Rightarrow> 'f \<Rightarrow> 'f \<Rightarrow> string set \<Rightarrow> bool" where
  "kept P f g cs \<longleftrightarrow> (\<forall>d \<in> cs. P f d \<longrightarrow> P g d)"

definition iptables_laws ::
  "(string \<Rightarrow> 'f \<Rightarrow> 'f) \<Rightarrow> ('f \<Rightarrow> string \<Rightarrow> bool) \<Rightarrow> ('f \<Rightarrow> string \<Rightarrow> bool) \<Rightarrow> ('f \<Rightarrow> string \<Rightarrow> bool) \<Rightarrow> string \<Rightarrow> string \<Rightarrow> string set \<Rightarrow> bool" where
  "iptables_laws eff present jumps full b p names \<longleftrightarrow> (\<forall>s \<in> {'''', '' 2>&1 ''}. \<forall>c \<in> names. \<forall>f.
     (let g = eff (b @ ''-N '' @ c @ s) f
      in present g c \<and> kept present f g names \<and> kept jumps f g names \<and> kept full f g names) \<and>
     (let g = eff (b @ ''-F '' @ c @ s) f
      in kept present f g names \<and> kept jumps f g names \<and> kept full f g (names - {c})) \<and>
     (let g = eff (b @ ''-I '' @ c @ '' -j DROP'' @ s) f
      in (present f c \<longrightarrow> full g c) \<and> kept present f g names \<and> kept jumps f g names \<and> kept full f g names) \<and>
     (let g = eff (b @ ''-I INPUT '' @ p @ '' -j '' @ c @ s) f
      in (present f c \<longrightarrow> jumps g c) \<and> kept present f g names \<and> kept jumps f g names \<and> kept full f g names) \<and>
     (let g = eff (b @ ''-D INPUT '' @ p @ '' -j '' @ c @ s) f
      in kept present f g names \<and> kept jumps f g (names - {c}) \<and> kept full f g names))"

definition in_force :: "('f \<Rightarrow> string \<Rightarrow> bool) \<Rightarrow> ('f \<Rightarrow> string \<Rightarrow> bool) \<Rightarrow> 'f \<Rightarrow> string \<Rightarrow> bool" where
  "in_force jumps full f c \<longleftrightarrow> jumps f c \<and> full f c"

text \<open>The commands of the program on one chain.\<close>

definition about :: "string \<Rightarrow> string \<Rightarrow> string \<Rightarrow> string set" where
  "about b p c = (\<Union>s \<in> {'''', '' 2>&1 ''}. {b @ ''-N '' @ c @ s, b @ ''-F '' @ c @ s, b @ ''-I '' @ c @ '' -j DROP'' @ s,
     b @ ''-D INPUT '' @ p @ '' -j '' @ c @ s, b @ ''-I INPUT '' @ p @ '' -j '' @ c @ s})"

lemma kept_fewer: "kept P f g cs \<Longrightarrow> kept P f g (cs - ds)"
  by (simp add: kept_def)

lemma about_other:
  assumes laws: "iptables_laws eff present jumps full b p names" and c: "c \<in> names" "d \<in> names" "d \<noteq> c"
    and cmd: "x \<in> about b p c" and f: "in_force jumps full f d"
  shows "in_force jumps full (eff x f) d"
proof -
  obtain s where s: "s \<in> {'''', '' 2>&1 ''}" and x: "x \<in> {b @ ''-N '' @ c @ s, b @ ''-F '' @ c @ s, b @ ''-I '' @ c @ '' -j DROP'' @ s,
     b @ ''-D INPUT '' @ p @ '' -j '' @ c @ s, b @ ''-I INPUT '' @ p @ '' -j '' @ c @ s}"
    using cmd unfolding about_def by blast
  define n where "n = eff (b @ ''-N '' @ c @ s) f"
  define e where "e = eff (b @ ''-F '' @ c @ s) f"
  define i where "i = eff (b @ ''-I '' @ c @ '' -j DROP'' @ s) f"
  define j where "j = eff (b @ ''-I INPUT '' @ p @ '' -j '' @ c @ s) f"
  define k where "k = eff (b @ ''-D INPUT '' @ p @ '' -j '' @ c @ s) f"
  note l = laws[unfolded iptables_laws_def Let_def, rule_format, OF s c(1), of f, folded n_def e_def i_def j_def k_def]
  have "eff x f \<in> {n, e, i, k, j}" using x unfolding n_def e_def i_def j_def k_def by (elim insertE emptyE) blast+
  moreover have "jumps g d \<and> full g d" if "kept jumps f g (names - {c})" "kept full f g (names - {c})" for g
    using that c(2,3) f by (simp add: kept_def in_force_def)
  ultimately show ?thesis unfolding in_force_def using l kept_fewer[of _ f _ names "{c}"] by (elim insertE emptyE) metis+
qed

lemma fold_other:
  assumes "iptables_laws eff present jumps full b p names" "c \<in> names" "d \<in> names" "d \<noteq> c" "set xs \<subseteq> about b p c"
    and "in_force jumps full f d"
  shows "in_force jumps full (fold eff xs f) d"
  using assms(5,6) by (induction xs arbitrary: f) (auto intro: about_other[OF assms(1-4)])

text \<open>The chain is made first, so the insertions of a round, or of the set-up, put the
  rule in force.\<close>

lemma round_in_force:
  assumes laws: "iptables_laws eff present jumps full b p names" and c: "c \<in> names" and s: "s \<in> {'''', '' 2>&1 ''}" "s' \<in> {'''', '' 2>&1 ''}"
    and dels: "set ds \<subseteq> {b @ ''-D INPUT '' @ p @ '' -j '' @ c @ s}"
  shows "in_force jumps full (fold eff ([b @ ''-N '' @ c @ s, b @ ''-F '' @ c @ s] @ [b @ ''-I '' @ c @ '' -j DROP'' @ s] @ ds @
    [b @ ''-I INPUT '' @ p @ '' -j '' @ c @ s']) f) c"
proof -
  note l = laws[unfolded iptables_laws_def Let_def kept_def, rule_format, OF s(1) c]
  note l' = laws[unfolded iptables_laws_def Let_def kept_def, rule_format, OF s(2) c]
  define g1 where "g1 = eff (b @ ''-F '' @ c @ s) (eff (b @ ''-N '' @ c @ s) f)"
  define g2 where "g2 = eff (b @ ''-I '' @ c @ '' -j DROP'' @ s) g1"
  have "present g1 c" using l[of f] l[of "eff (b @ ''-N '' @ c @ s) f"] c unfolding g1_def by blast
  then have g2: "present g2 c \<and> full g2 c" using l[of g1] c unfolding g2_def by blast
  have "present (fold eff ds g) c \<and> full (fold eff ds g) c" if "present g c \<and> full g c" for g
    using dels that
  proof (induction ds arbitrary: g)
    case (Cons d ds)
    have "d = b @ ''-D INPUT '' @ p @ '' -j '' @ c @ s" using Cons.prems(1) by simp
    then have "present (eff d g) c \<and> full (eff d g) c" using Cons.prems(2) l[of g] c by blast
    with Cons show ?case by simp
  qed simp
  from this[OF g2] have "in_force jumps full (eff (b @ ''-I INPUT '' @ p @ '' -j '' @ c @ s') (fold eff ds g2)) c"
    using l'[of "fold eff ds g2"] c unfolding in_force_def by blast
  then show ?thesis by (simp add: g1_def g2_def)
qed

text \<open>The two chains and their rules as the set-up leaves them.\<close>

definition rules_set :: "string \<Rightarrow> string \<Rightarrow> string \<Rightarrow> string \<Rightarrow> firewall \<Rightarrow> bool" where
  "rules_set b p c0 c1 fw \<longleftrightarrow> iptables_command fw = b \<and> chain fw = [c0, c1] \<and>
     rule_keep_add fw = [b @ ''-I INPUT '' @ p @ '' -j '' @ c0, b @ ''-I INPUT '' @ p @ '' -j '' @ c1] \<and>
     rule_keep_del fw = [b @ ''-D INPUT '' @ p @ '' -j '' @ c0, b @ ''-D INPUT '' @ p @ '' -j '' @ c1]"

lemma keep_commands_text:
  assumes "rules_set b p c0 c1 fw" "i < 2"
  defines "c \<equiv> [c0, c1] ! i"
  shows "map shell_text (keep_commands fw i) =
    [b @ ''-N '' @ c @ '' 2>&1 '', b @ ''-F '' @ c @ '' 2>&1 ''] @ [b @ ''-I '' @ c @ '' -j DROP'' @ '' 2>&1 ''] @
    [b @ ''-D INPUT '' @ p @ '' -j '' @ c @ '' 2>&1 '', b @ ''-D INPUT '' @ p @ '' -j '' @ c @ '' 2>&1 ''] @
    [b @ ''-I INPUT '' @ p @ '' -j '' @ c @ '''']"
  using assms(1,2) unfolding c_def
  by (auto simp: keep_commands_def chain_commands_def rules_set_def shell_text_def show_none_def show_log_def less_2_cases_iff)


lemma round_about:
  assumes "rules_set b p c0 c1 fw" "i < 2"
  shows "set (map shell_text (keep_commands fw i)) \<subseteq> about b p ([c0, c1] ! i)"
  unfolding keep_commands_text[OF assms] about_def by simp

definition both_in_force :: "('f \<Rightarrow> string \<Rightarrow> bool) \<Rightarrow> ('f \<Rightarrow> string \<Rightarrow> bool) \<Rightarrow> string \<Rightarrow> string \<Rightarrow> 'f \<Rightarrow> bool" where
  "both_in_force jumps full c0 c1 f \<longleftrightarrow> in_force jumps full f c0 \<and> in_force jumps full f c1"

lemma round_never_open:
  assumes laws: "iptables_laws eff present jumps full b p {c0, c1}" and ne: "c0 \<noteq> c1" and fw: "rules_set b p c0 c1 fw" and i: "i < 2"
    and f: "both_in_force jumps full c0 c1 f"
  defines "cs \<equiv> map shell_text (keep_commands fw i)"
  shows "\<exists>d \<in> {c0, c1}. in_force jumps full (fold eff (take k cs) f) d" "both_in_force jumps full c0 c1 (fold eff cs f)"
proof -
  define c where "c = [c0, c1] ! i"
  define d where "d = [c0, c1] ! (1 - i)"
  have cd: "c \<in> {c0, c1}" "d \<in> {c0, c1}" "d \<noteq> c" "{c0, c1} = {c, d}"
    using i ne by (auto simp: c_def d_def less_2_cases_iff)
  have d: "in_force jumps full f d" using f cd(2) by (auto simp: both_in_force_def)
  have ab: "set cs \<subseteq> about b p c" using round_about[OF fw i] by (simp add: cs_def c_def)
  then have "set (take k cs) \<subseteq> about b p c" using set_take_subset by fast
  from fold_other[OF laws cd(1-3) this d] cd(2) show "\<exists>d \<in> {c0, c1}. in_force jumps full (fold eff (take k cs) f) d" by blast
  have "in_force jumps full (fold eff cs f) c"
    unfolding cs_def keep_commands_text[OF fw i] c_def[symmetric] by (rule round_in_force[OF laws cd(1)]) simp_all
  moreover have "in_force jumps full (fold eff cs f) d" by (rule fold_other[OF laws cd(1-3) ab d])
  ultimately show "both_in_force jumps full c0 c1 (fold eff cs f)" using cd by (auto simp: both_in_force_def)
qed

lemma keep_round:
  assumes "rules_set b p c0 c1 fw" "keep_iptables_rule (fw, w) = (fw', w')"
  shows "rules_set b p c0 c1 fw' \<and> (\<exists>i < 2. issued w' = issued w @ map shell_text (keep_commands fw i))"
proof -
  let ?i = "(iptables_rule_keep_index fw + 1) mod 2"
  obtain t w1 t' w3 where t: "get_current_time w = (t, w1)" "get_current_time (run_commands (keep_commands fw ?i) w1) = (t', w3)"
    by fastforce
  have "issued w' = issued w @ map shell_text (keep_commands fw ?i)" "rules_set b p c0 c1 fw'"
    using assms t issued_time[OF t(1)] issued_time[OF t(2)]
    by (auto simp: keep_iptables_rule_def issued_run_commands rules_set_def)
  moreover have "?i < 2" by simp
  ultimately show ?thesis by blast
qed

lemma rounds_never_open:
  assumes laws: "iptables_laws eff present jumps full b p {c0, c1}" and ne: "c0 \<noteq> c1"
  shows "rules_set b p c0 c1 fw \<Longrightarrow> both_in_force jumps full c0 c1 f \<Longrightarrow> (keep_iptables_rule ^^ n) (fw, w) = (fw', w') \<Longrightarrow>
    \<exists>cs. issued w' = issued w @ cs \<and> rules_set b p c0 c1 fw' \<and> both_in_force jumps full c0 c1 (fold eff cs f) \<and>
      (\<forall>k. \<exists>d \<in> {c0, c1}. in_force jumps full (fold eff (take k cs) f) d)"
proof (induction n arbitrary: fw' w')
  case 0
  then show ?case by (intro exI[of _ "[]"]) (auto simp: both_in_force_def)
next
  case (Suc n)
  obtain fw1 w1 where 1: "(keep_iptables_rule ^^ n) (fw, w) = (fw1, w1)" by fastforce
  obtain cs where cs: "issued w1 = issued w @ cs" "rules_set b p c0 c1 fw1" "both_in_force jumps full c0 c1 (fold eff cs f)"
      "\<forall>k. \<exists>d \<in> {c0, c1}. in_force jumps full (fold eff (take k cs) f) d"
    using Suc.IH[OF Suc.prems(1,2) 1] by blast
  have "keep_iptables_rule (fw1, w1) = (fw', w')" using Suc.prems(3) 1 by simp
  from keep_round[OF cs(2) this] obtain i where i: "i < 2" "issued w' = issued w1 @ map shell_text (keep_commands fw1 i)"
    "rules_set b p c0 c1 fw'" by blast
  note r = round_never_open[OF laws ne cs(2) i(1) cs(3)]
  have "\<exists>d \<in> {c0, c1}. in_force jumps full (fold eff (take k (cs @ map shell_text (keep_commands fw1 i))) f) d" for k
    using cs(4) r(1) by (cases "k \<le> length cs") simp_all
  then show ?case
    using r(2) i cs(1) by (intro exI[of _ "cs @ map shell_text (keep_commands fw1 i)"]) simp
qed

text \<open>The set-up puts both rules in force.\<close>

lemma init_in_force:
  assumes laws: "iptables_laws eff present jumps full b p {c0, c1}" and ne: "c0 \<noteq> c1"
    and c: "c0 = ''udp2rawDwrW_'' @ hex_digits (unat cid) @ ''_C0''" "c1 = ''udp2rawDwrW_'' @ hex_digits (unat cid) @ ''_C1''"
    and init: "iptables_rule_init p cid 1 (firewall_start \<lparr> iptables_command := b \<rparr>, w) = Inr (fw, w')"
  shows "\<exists>cs. issued w' = issued w @ cs \<and> rules_set b p c0 c1 fw \<and> both_in_force jumps full c0 c1 (fold eff cs f)"
proof -
  define fw1 where "fw1 = set_rules 1 c1 (set_rules 0 c0
    (firewall_start \<lparr> iptables_command := b, iptables_pattern := p, iptables_rule_added := 1, iptables_rule_keeped := 1 \<rparr>))"
  have fw1: "rules_set b p c0 c1 fw1"
    by (simp add: fw1_def set_rules_def firewall_start_def rules_set_def Let_def)
  obtain t w0 where t: "get_current_time w = (t, w0)" by fastforce
  define w1 where "w1 = run_commands (chain_commands fw1 0) w0"
  obtain r2 w2 where r2: "run_command (rule_keep_add fw1 ! 0) show_all w1 = (r2, w2)" by fastforce
  define w3 where "w3 = run_commands (chain_commands fw1 1) w2"
  obtain r4 w4 where r4: "run_command (rule_keep_add fw1 ! 1) show_all w3 = (r4, w4)" by fastforce
  have e: "fw = fw1 \<and> w' = w4"
    using init t r2 r4
    by (auto simp: iptables_rule_init_def fw1_def c firewall_start_def Let_def w1_def w3_def myexit_def upt_rec split: if_splits)
  define part where "part = (\<lambda>c. [b @ ''-N '' @ c @ '''', b @ ''-F '' @ c @ ''''] @ [b @ ''-I '' @ c @ '' -j DROP'' @ ''''] @ [] @
    [b @ ''-I INPUT '' @ p @ '' -j '' @ c @ ''''])"
  have p0: "map shell_text (chain_commands fw1 0) @ [shell_text (rule_keep_add fw1 ! 0, show_all)] = part c0"
    and p1: "map shell_text (chain_commands fw1 1) @ [shell_text (rule_keep_add fw1 ! 1, show_all)] = part c1"
    using fw1 by (simp_all add: part_def rules_set_def chain_commands_def shell_text_def show_all_def show_log_def show_command_def)
  have "issued w4 = issued w @ part c0 @ part c1"
    unfolding p0[symmetric] p1[symmetric] using issued_time[OF t] issued_run_command[OF r2] issued_run_command[OF r4]
    by (simp add: w1_def w3_def issued_run_commands)
  moreover have a: "set (part c1) \<subseteq> about b p c1" unfolding part_def about_def by simp
  have "in_force jumps full (fold eff (part c0) f) c0"
    unfolding part_def by (rule round_in_force[OF laws]) simp_all
  from fold_other[OF laws _ _ ne a this] have "in_force jumps full (fold eff (part c0 @ part c1) f) c0" by simp
  moreover have "in_force jumps full (fold eff (part c1) g) c1" for g
    unfolding part_def by (rule round_in_force[OF laws]) simp_all
  ultimately show ?thesis
    using fw1 e by (intro exI[of _ "part c0 @ part c1"]) (simp add: both_in_force_def)
qed


section \<open>Properties\<close>

text \<open>C19. With \<open>--keep-rule\<close> the packets of the simulated protocol are never let
  through: whatever the filter holds before, after the set-up has succeeded, and after each
  single command of any number of rounds that refresh the rule, one of the two chains is
  in force. The commands are taken to do what iptables documents: \<open>-N\<close> leaves the chain
  there, an insertion into a chain that is there succeeds, a command on one chain leaves
  the others alone.\<close>

theorem keep_rule_never_open:
  assumes "iptables_laws eff present jumps full b p {c0, c1}"
    and "c0 = ''udp2rawDwrW_'' @ hex_digits (unat cid) @ ''_C0''" "c1 = ''udp2rawDwrW_'' @ hex_digits (unat cid) @ ''_C1''"
    and "iptables_rule_init p cid 1 (firewall_start \<lparr> iptables_command := b \<rparr>, w0) = Inr (fw, w)"
    and "(keep_iptables_rule ^^ n) (fw, w) = (fw', w')"
  shows "\<exists>set_up rounds. issued w = issued w0 @ set_up \<and> issued w' = issued w @ rounds \<and>
    (\<forall>k. \<exists>c \<in> {c0, c1}. jumps (fold eff (set_up @ take k rounds) f) c \<and> full (fold eff (set_up @ take k rounds) f) c)"
proof -
  have ne: "c0 \<noteq> c1" by (simp add: assms(2,3))
  obtain set_up where s: "issued w = issued w0 @ set_up" "rules_set b p c0 c1 fw" "both_in_force jumps full c0 c1 (fold eff set_up f)"
    using init_in_force[OF assms(1) ne assms(2-4)] by blast
  from rounds_never_open[OF assms(1) ne s(2,3) assms(5)] obtain rounds where "issued w' = issued w @ rounds"
    "\<forall>k. \<exists>d \<in> {c0, c1}. in_force jumps full (fold eff (take k rounds) (fold eff set_up f)) d" by blast
  with s(1) show ?thesis by (intro exI[of _ set_up] exI[of _ rounds]) (simp add: in_force_def)
qed

text \<open>A filter for the example: the chains there are, those jumped to and those that drop;
  insertions fail without their chain.\<close>

definition is_cmd :: "string \<Rightarrow> string \<Rightarrow> bool" where
  "is_cmd text cmd \<longleftrightarrow> cmd = text \<or> cmd = text @ '' 2>&1 ''"

definition toy_eff :: "string \<Rightarrow> string \<Rightarrow> string set \<Rightarrow> string \<Rightarrow> string set \<times> string set \<times> string set \<Rightarrow>
  string set \<times> string set \<times> string set" where
  "toy_eff b p names cmd = (\<lambda>(P, J, F).
     ({c \<in> names. c \<in> P \<or> is_cmd (b @ ''-N '' @ c) cmd},
      {c \<in> names. c \<in> J \<and> \<not> is_cmd (b @ ''-D INPUT '' @ p @ '' -j '' @ c) cmd \<or> c \<in> P \<and> is_cmd (b @ ''-I INPUT '' @ p @ '' -j '' @ c) cmd},
      {c \<in> names. c \<in> F \<and> \<not> is_cmd (b @ ''-F '' @ c) cmd \<or> c \<in> P \<and> is_cmd (b @ ''-I '' @ c @ '' -j DROP'') cmd}))"

lemma is_cmd_kinds:
  assumes "s \<in> {'''', '' 2>&1 ''}"
  shows "\<not> is_cmd (b @ ''-D INPUT '' @ t) (b @ ''-I '' @ u @ s)" "\<not> is_cmd (b @ ''-F '' @ t) (b @ ''-I '' @ u @ s)"
    "\<not> is_cmd (b @ ''-F '' @ t) (b @ ''-D INPUT '' @ u @ s)" "\<not> is_cmd (b @ ''-F '' @ t) (b @ ''-N '' @ u @ s)"
    "\<not> is_cmd (b @ ''-D INPUT '' @ t) (b @ ''-F '' @ u @ s)" "\<not> is_cmd (b @ ''-D INPUT '' @ t) (b @ ''-N '' @ u @ s)"
    "is_cmd (b @ x) (b @ x @ s)"
  using assms by (auto simp: is_cmd_def)

text \<open>The predicates of the example.\<close>

abbreviation toy_present :: "string set \<times> string set \<times> string set \<Rightarrow> string \<Rightarrow> bool" where
  "toy_present f c \<equiv> c \<in> fst f"

abbreviation toy_jumps :: "string set \<times> string set \<times> string set \<Rightarrow> string \<Rightarrow> bool" where
  "toy_jumps f c \<equiv> c \<in> fst (snd f)"

abbreviation toy_full :: "string set \<times> string set \<times> string set \<Rightarrow> string \<Rightarrow> bool" where
  "toy_full f c \<equiv> c \<in> snd (snd f)"

lemma toy_laws:
  assumes names: "\<And>c d s. c \<in> names \<Longrightarrow> d \<in> names \<Longrightarrow> s \<in> {'''', '' 2>&1 ''} \<Longrightarrow> is_cmd d (c @ s) \<Longrightarrow> d = c"
  shows "iptables_laws (toy_eff b p names) toy_present toy_jumps toy_full b p names"
  unfolding iptables_laws_def Let_def
proof (intro ballI allI, goal_cases)
  case (1 s c f)
  note k = is_cmd_kinds[OF 1(1), of b]
  have sep: "\<not> is_cmd (b @ ''-F '' @ d) (b @ ''-F '' @ c @ s)"
    "\<not> is_cmd (b @ ''-D INPUT '' @ p @ '' -j '' @ d) (b @ ''-D INPUT '' @ p @ '' -j '' @ c @ s)" if "d \<in> names" "d \<noteq> c" for d
    using names[OF 1(2) that(1) 1(1)] that(2) by (auto simp: is_cmd_def)
  have P: "kept toy_present f (toy_eff b p names x f) names" for x
    by (auto simp: kept_def toy_eff_def split: prod.splits)
  have J: "kept toy_jumps f (toy_eff b p names x f) (names - E)" 
    if "\<forall>d \<in> names - E. \<not> is_cmd (b @ ''-D INPUT '' @ p @ '' -j '' @ d) x" for x E
    using that by (auto simp: kept_def toy_eff_def split: prod.splits)
  have F: "kept toy_full f (toy_eff b p names x f) (names - E)" if "\<forall>d \<in> names - E. \<not> is_cmd (b @ ''-F '' @ d) x" for x E
    using that by (auto simp: kept_def toy_eff_def split: prod.splits)
  note J0 = J[where E = "{}", simplified] and F0 = F[where E = "{}", simplified]
  have ins: "toy_present (toy_eff b p names (b @ ''-N '' @ c @ s) f) c"
    "toy_present f c \<longrightarrow> toy_full (toy_eff b p names (b @ ''-I '' @ c @ '' -j DROP'' @ s) f) c"
    "toy_present f c \<longrightarrow> toy_jumps (toy_eff b p names (b @ ''-I INPUT '' @ p @ '' -j '' @ c @ s) f) c"
    using 1(2) k(7)[of "''-N '' @ c"] k(7)[of "''-I '' @ c @ '' -j DROP''"] k(7)[of "''-I INPUT '' @ p @ '' -j '' @ c"]
    by (auto simp: toy_eff_def split: prod.splits)
  show ?case
    using ins P J0[of "b @ ''-N '' @ c @ s"] F0[of "b @ ''-N '' @ c @ s"]
      J0[of "b @ ''-F '' @ c @ s"] F[of "{c}" "b @ ''-F '' @ c @ s"]
      J0[of "b @ ''-I '' @ c @ '' -j DROP'' @ s"] F0[of "b @ ''-I '' @ c @ '' -j DROP'' @ s"]
      J0[of "b @ ''-I INPUT '' @ p @ '' -j '' @ c @ s"] F0[of "b @ ''-I INPUT '' @ p @ '' -j '' @ c @ s"]
      J[of "{c}" "b @ ''-D INPUT '' @ p @ '' -j '' @ c @ s"] F0[of "b @ ''-D INPUT '' @ p @ '' -j '' @ c @ s"]
      k(1,2)[of _ "c @ '' -j DROP''"] k(1,2)[of _ "''INPUT '' @ p @ '' -j '' @ c"] k(3)[of _ "p @ '' -j '' @ c"] k(4-6) sep by simp
qed

definition toy_chain :: "nat \<Rightarrow> string" where
  "toy_chain i = ''udp2rawDwrW_'' @ hex_digits (unat (5 :: u32)) @ (if i = 0 then ''_C0'' else ''_C1'')"

lemma toy_names: "\<forall>c \<in> {toy_chain 0, toy_chain 1}. \<forall>d \<in> {toy_chain 0, toy_chain 1}. \<forall>s \<in> {'''', '' 2>&1 ''}. is_cmd d (c @ s) \<longrightarrow> d = c"
  by code_simp

text \<open>When every call succeeds, so does the set-up.\<close>

lemma run_command_zero: "sys_ret w = (\<lambda>_. 0) \<Longrightarrow> fst (run_command c flag w) = 0 \<and> sys_ret (snd (run_command c flag w)) = (\<lambda>_. 0)"
  by (simp add: run_command_def syscall_def Let_def)

lemma run_commands_zero: "sys_ret w = (\<lambda>_. 0) \<Longrightarrow> sys_ret (run_commands cs w) = (\<lambda>_. 0)"
  by (induction cs w rule: run_commands.induct) (simp_all add: run_command_zero)

lemma install_chains_zero: "sys_ret w = (\<lambda>_. 0) \<Longrightarrow> \<exists>w'. install_chains is (fw, w) = Inr (fw, w')"
proof (induction "is" arbitrary: w)
  case (Cons i "is")
  have z: "sys_ret (run_commands (chain_commands fw i) w) = (\<lambda>_. 0)" using Cons.prems by (rule run_commands_zero)
  show ?case using Cons.IH[OF conjunct2[OF run_command_zero[OF z]]] run_command_zero[OF z]
    by (simp add: Let_def prod.case_eq_if)
qed simp

lemma toy_init: "\<exists>fw w. iptables_rule_init p cid 1 (fw0, example_world) = Inr (fw, w)"
proof -
  obtain t w0 where t: "get_current_time example_world = (t, w0)" by fastforce
  then have "sys_ret w0 = (\<lambda>_. 0)" using get_current_time_outside[OF t] by (simp add: example_world_def)
  note z = install_chains_zero[OF this]
  show ?thesis unfolding iptables_rule_init_def Let_def t prod.case using z by blast
qed

lemma toy_chain_laws:
  "iptables_laws (toy_eff b p {toy_chain 0, toy_chain 1}) toy_present toy_jumps toy_full b p {toy_chain 0, toy_chain 1}"
  by (rule toy_laws) (rule toy_names[rule_format])

theorem keep_rule_never_open_witness:
  "\<exists>fw w fw' w' set_up rounds.
     iptables_rule_init ''-p icmp'' 5 1 (firewall_start \<lparr> iptables_command := ''iptables '' \<rparr>, example_world) = Inr (fw, w) \<and>
     (keep_iptables_rule ^^ 2) (fw, w) = (fw', w') \<and> issued w' = issued w @ rounds \<and>
     (\<forall>k. \<exists>c \<in> {toy_chain 0, toy_chain 1}.
        toy_jumps (fold (toy_eff ''iptables '' ''-p icmp'' {toy_chain 0, toy_chain 1}) (set_up @ take k rounds) ({}, {}, {})) c \<and>
        toy_full (fold (toy_eff ''iptables '' ''-p icmp'' {toy_chain 0, toy_chain 1}) (set_up @ take k rounds) ({}, {}, {})) c)"
proof -
  obtain fw w where i: "iptables_rule_init ''-p icmp'' 5 1 (firewall_start \<lparr> iptables_command := ''iptables '' \<rparr>, example_world) = Inr (fw, w)"
    using toy_init by blast
  obtain fw' w' where r: "(keep_iptables_rule ^^ 2) (fw, w) = (fw', w')" by fastforce
  have c: "toy_chain 0 = ''udp2rawDwrW_'' @ hex_digits (unat (5 :: u32)) @ ''_C0''"
    "toy_chain 1 = ''udp2rawDwrW_'' @ hex_digits (unat (5 :: u32)) @ ''_C1''" by (simp_all add: toy_chain_def)
  from keep_rule_never_open[OF toy_chain_laws c i r, where f = "({}, {}, {})"] obtain set_up rounds where
    "issued w' = issued w @ rounds" "\<forall>k. \<exists>c \<in> {toy_chain 0, toy_chain 1}.
        toy_jumps (fold (toy_eff ''iptables '' ''-p icmp'' {toy_chain 0, toy_chain 1}) (set_up @ take k rounds) ({}, {}, {})) c \<and>
        toy_full (fold (toy_eff ''iptables '' ''-p icmp'' {toy_chain 0, toy_chain 1}) (set_up @ take k rounds) ({}, {}, {})) c" by blast
  with i r show ?thesis by (intro exI conjI)
qed

end
