(* ===== verification/Startup.thy ===== *)
theory Startup
  imports Route Firewall ClientProps ServerProps OptionsProps
begin

text \<open>
  From the options to the event loops: the raw sockets (\<open>init_raw_socket\<close>,
  network.cpp), the fifo (common.cpp) and what \<open>client_event_loop\<close> (client.cpp)
  and \<open>server_event_loop\<close> (server.cpp) do before they handle events. Then: what
  they leave is where the runs of the client and the server start. \<open>None\<close>: the
  program stops, or waits forever for a route.
\<close>

section \<open>The fifo\<close>

definition EEXIST :: nat where "EEXIST = 17"
definition S_IFMT :: u32 where "S_IFMT = 0xF000"
definition S_IFIFO :: u32 where "S_IFIFO = 0x1000"

text \<open>What a call has written: \<open>errno\<close> after a failure, the mode of a file.\<close>

definition sys_first :: "world \<Rightarrow> bytes" where
  "sys_first w = (case sys_out w (sys_i w) of [] \<Rightarrow> [] | b # _ \<Rightarrow> b)"

definition create_fifo :: "string \<Rightarrow> world \<Rightarrow> (int \<times> world) option" where
  "create_fifo file_name w =
     do {
       let errno = sys_first w;
       let (r, w) = syscall (SysMkfifo file_name) w;
       assert_c (r \<noteq> 0 \<longrightarrow> errno = [of_nat EEXIST]);
       let (fifo_fd, w) = syscall (SysOpen file_name) w;
       assert_c (\<not> fifo_fd < 0);
       let st_mode = of_be32 (rev (take 4 (sys_first w)));
       let (r, w) = syscall (SysFstat fifo_fd) w;
       assert_c (r = 0);
       assert_c (st_mode AND S_IFMT = S_IFIFO);
       w \<leftarrow> setnonblocking fifo_fd w;
       Some (fifo_fd, w)
     }"

text \<open>Only when \<open>--fifo\<close> names one; \<open>-1\<close> otherwise.\<close>

definition start_fifo :: "string \<Rightarrow> world \<Rightarrow> (int \<times> world) option" where
  "start_fifo file_name w = (if file_name \<noteq> [] then create_fifo file_name w else Some (-1, w))"

section \<open>The raw sockets\<close>

definition SOCK_RAW :: int where "SOCK_RAW = 3"
definition PF_PACKET :: int where "PF_PACKET = 17"
definition IPPROTO_RAW :: int where "IPPROTO_RAW = 255"
definition ETH_P_IP :: u16 where "ETH_P_IP = 0x0800"
definition ETH_P_IPV6 :: u16 where "ETH_P_IPV6 = 0x86DD"

definition htons_int :: "u16 \<Rightarrow> int" where "htons_int p = uint (of_be16 (rev (be16 p)))"

text \<open>The address the receiving socket is bound to with \<open>--dev\<close>.\<close>

definition dev_address :: "u16 \<Rightarrow> int \<Rightarrow> bytes" where
  "dev_address proto index = rev (be16 17) @ be16 proto @ rev (be32 (word_of_int index)) @ replicate 12 0"

definition bind_dev :: "globals \<Rightarrow> u16 \<Rightarrow> world \<Rightarrow> world option" where
  "bind_dev g proto w =
     (if dev g \<noteq> [] then do {
        (index, w) \<leftarrow> init_ifindex (dev g) (raw_recv_fd g) w;
        let (r, w) = syscall (SysBind (raw_recv_fd g) (dev_address proto index)) w;
        assert_c (r \<noteq> -1);
        Some w
      }
      else Some w)"

definition init_raw_socket :: "globals \<times> net \<times> world \<Rightarrow> (globals \<times> net \<times> world) option" where
  "init_raw_socket = (\<lambda>(g, nt, w).
     do {
       assert_c (raw_ip_version (net_cf g) = AF_INET \<or> raw_ip_version (net_cf g) = AF_INET6);
       (rnd, w) \<leftarrow> get_true_random_number w;
       let nt = nt \<lparr> g_ip_id_counter := ucast (rnd mod 65535) \<rparr>;
       let (fd, w) = (if lower_level (net_cf g) = 0 then syscall (SysSocketProto (raw_ip_version (net_cf g)) SOCK_RAW IPPROTO_RAW) w
                      else syscall (SysSocketProto PF_PACKET SOCK_DGRAM (htons_int ETH_P_IP)) w);
       let g = upd_net (\<lambda>n. n \<lparr> raw_send_fd := fd \<rparr>) g;
       assert_c (fd \<noteq> -1);
       let (r, w) = syscall (SysSetsockopt fd ''SO_RCVBUF'' 0) w;
       assert_c (r = 0);
       let (r, w) = syscall (SysSetsockopt fd (if force_socket_buf g \<noteq> 0 then ''SO_SNDBUFFORCE'' else ''SO_SNDBUF'') (socket_buf_size g)) w;
       assert_c (\<not> r < 0);
       let proto = (if raw_ip_version (net_cf g) = AF_INET then ETH_P_IP else ETH_P_IPV6);
       let (fd, w) = syscall (SysSocketProto PF_PACKET SOCK_DGRAM (htons_int proto)) w;
       let g = g \<lparr> raw_recv_fd := fd \<rparr>;
       assert_c (fd \<noteq> -1);
       w \<leftarrow> bind_dev g proto w;
       let (r, w) = syscall (SysSetsockopt fd (if force_socket_buf g \<noteq> 0 then ''SO_RCVBUFFORCE'' else ''SO_RCVBUF'') (socket_buf_size g)) w;
       assert_c (\<not> r < 0);
       w \<leftarrow> setnonblocking (raw_send_fd (net_cf g)) w;
       w \<leftarrow> setnonblocking fd w;
       Some (g, nt, w)
     })"

section \<open>The client\<close>

definition retry_on_error_interval :: int where "retry_on_error_interval = 10"

definition s_addr :: "address_t \<Rightarrow> u32" where "s_addr a = of_be32 (rev (take 4 (drop 4 a)))"

text \<open>With \<open>--retry-on-error\<close> until the next hop is known.\<close>

partial_function (option) find_info_retrying ::
  "(string \<Rightarrow> u32) \<Rightarrow> net_conf \<Rightarrow> u32 \<Rightarrow> world \<Rightarrow> ((u32 \<times> string \<times> string) \<times> world) option" where
  [code]: "find_info_retrying inet_addr cf ip w =
     Option.bind (find_lower_level_info inet_addr cf ip w)
       (\<lambda>rw. case fst rw of
          Some info \<Rightarrow> Some (info, snd rw)
        | None \<Rightarrow> find_info_retrying inet_addr cf ip (snd (syscall (SysSleep retry_on_error_interval) (snd rw))))"

definition client_lower_level ::
  "(string \<Rightarrow> u32) \<Rightarrow> globals \<times> 'd conn_info \<times> world \<Rightarrow> (globals \<times> 'd conn_info \<times> world) option" where
  "client_lower_level inet_addr = (\<lambda>(g, ci, w).
     if lower_level (net_cf g) = 0 then Some (g, ci, w)
     else do {
       (g, name, w) \<leftarrow>
         (if lower_level_manual g \<noteq> 0 then Some (g, if_name g, w)
          else do {
            type \<leftarrow> addr_get_type (remote_addr g);
            assert_c (type = AF_INET);
            ((dest_ip, name, hw), w) \<leftarrow>
              (if retry_on_error g = 0 then do {
                 (info, w) \<leftarrow> find_lower_level_info inet_addr (net_cf g) (s_addr (remote_addr g)) w;
                 info \<leftarrow> info;
                 Some (info, w)
               }
               else find_info_retrying inet_addr (net_cf g) (s_addr (remote_addr g)) w);
            Some (g \<lparr> dest_hw_addr := map ucast (scan_hw 6 hw) @ drop 6 (dest_hw_addr g) \<rparr>, name, w)
          });
       (index, w) \<leftarrow> init_ifindex name (raw_send_fd (net_cf g)) w;
       Some (g, upd_send (\<lambda>si. si \<lparr> addr_ll := sockaddr_ll_manual index (dest_hw_addr g) \<rparr>) ci, w)
     })"

text \<open>The socket of the local application.\<close>

definition client_udp_socket :: "globals \<times> world \<Rightarrow> (globals \<times> world) option" where
  "client_udp_socket = (\<lambda>(g, w).
     do {
       type \<leftarrow> addr_get_type (local_addr g);
       let (fd, w) = syscall (SysSocket type) w;
       w \<leftarrow> set_buf_size (force_socket_buf g) fd (socket_buf_size g) w;
       len \<leftarrow> addr_get_len (local_addr g);
       let (r, w) = syscall (SysBind fd (take len (local_addr g))) w;
       assert_c (r \<noteq> -1);
       w \<leftarrow> setnonblocking fd w;
       Some (g \<lparr> udp_fd := fd \<rparr>, w)
     })"

text \<open>The fifo descriptor, the configuration and the objects the event loop works
  with; \<open>junk\<close> and \<open>bjunk\<close> are what the memory of the connection held.\<close>

definition client_start_up ::
  "(string \<Rightarrow> u32) \<Rightarrow> address_t conn_info \<Rightarrow> address_t blob \<Rightarrow> chan \<Rightarrow> globals \<times> world \<Rightarrow> (int \<times> vpn_conf \<times> cworld) option" where
  "client_start_up inet_addr junk bjunk ch = (\<lambda>(g, w).
     do {
       (ci, w) \<leftarrow> conn_info_new (net_cf g) junk w;
       (id, w) \<leftarrow> get_true_random_number_nz w;
       (ci, w) \<leftarrow> conn_prepare (program_mode (net_cf g)) bjunk (ci \<lparr> my_id := id \<rparr>) w;
       (g, ci, w) \<leftarrow> client_lower_level inet_addr (g, ci, w);
       dst \<leftarrow> my_ip_from_address_t (raw_ip_version (net_cf g)) (new_dst_ip (send_info (raw_info ci))) (remote_addr g);
       port \<leftarrow> addr_get_port (remote_addr g);
       let ci = upd_send (\<lambda>si. si \<lparr> src_port := 0, new_src_ip := replicate 16 0, new_dst_ip := dst, dst_port := port \<rparr>) ci;
       (g, w) \<leftarrow> client_udp_socket (g, w);
       (fifo_fd, w) \<leftarrow> start_fifo (fifo_file g) w;
       Some (fifo_fd, vpn_conf.truncate g,
         \<lparr> cl_conn = ci, cl_chan = ch, cl_filter_port = filter_port (net_cf g), cl_bind_fd = -1, cl_fail_time_counter = 0 \<rparr>, w)
     })"

section \<open>The server\<close>

definition server_bind_addr :: "globals \<Rightarrow> globals option" where
  "server_bind_addr g =
     (if raw_ip_version (net_cf g) = AF_INET then
        Some (if take 4 (drop 4 (local_addr g)) \<noteq> replicate 4 0 then
                upd_net (\<lambda>n. n \<lparr> bind_addr_used := 1, bind_addr := take 4 (drop 4 (local_addr g)) @ drop 4 (bind_addr n) \<rparr>) g
              else g)
      else do {
        assert_c (raw_ip_version (net_cf g) = AF_INET6);
        Some (if take 16 (drop 8 (local_addr g)) \<noteq> replicate 16 0 then
                upd_net (\<lambda>n. n \<lparr> bind_addr_used := 1, bind_addr := take 16 (drop 8 (local_addr g)) \<rparr>) g
              else g)
      })"

text \<open>A socket that holds the port: its descriptor is not used again.\<close>

definition server_hold_port :: "globals \<times> world \<Rightarrow> world option" where
  "server_hold_port = (\<lambda>(g, w).
     do {
       type \<leftarrow> addr_get_type (local_addr g);
       let (bind_fd, w) =
         (case raw_mode (net_cf g) of
            mode_faketcp \<Rightarrow> syscall (SysSocketType type SOCK_STREAM) w
          | mode_end \<Rightarrow> (-1, w)
          | _ \<Rightarrow> syscall (SysSocketType type SOCK_DGRAM) w);
       len \<leftarrow> addr_get_len (local_addr g);
       let (r, w) = syscall (SysBind bind_fd (take len (local_addr g))) w;
       assert_c (r = 0);
       (if raw_mode (net_cf g) = mode_faketcp then
          let (r, w) = syscall (SysListen bind_fd) w in do { assert_c (r = 0); Some w }
        else Some w)
     })"

definition epoll_watch :: "vpn_conf \<Rightarrow> int \<Rightarrow> world \<Rightarrow> world option" where
  "epoll_watch cf fd w =
     (let (r, w) = syscall (SysEpollAdd (epollfd cf) fd (word_of_int fd)) w in do { assert_c (r = 0); Some w })"

definition server_new :: "u64 conn_info \<Rightarrow> u64 blob \<Rightarrow> chan \<Rightarrow> server" where
  "server_new junk bjunk ch = \<lparr> heap = Map.empty, next_ptr = 1, mgr = conn_mgr_init, fds = fd_manager_init, chn = ch,
     mem_conn = junk, mem_blob = bjunk \<rparr>"

text \<open>The timer and fifo descriptors, the configuration, the objects.\<close>

definition server_start_up ::
  "u64 conn_info \<Rightarrow> u64 blob \<Rightarrow> chan \<Rightarrow> globals \<times> world \<Rightarrow> (int \<times> int \<times> vpn_conf \<times> sworld) option" where
  "server_start_up junk bjunk ch = (\<lambda>(g, w).
     do {
       g \<leftarrow> server_bind_addr g;
       (g, w) \<leftarrow> (if lower_level (net_cf g) \<noteq> 0 \<and> lower_level_manual g \<noteq> 0 then do {
            (index, w) \<leftarrow> init_ifindex (if_name g) (raw_send_fd (net_cf g)) w;
            Some (g \<lparr> ifindex := index \<rparr>, w)
          }
          else Some (g, w));
       w \<leftarrow> server_hold_port (g, w);
       port \<leftarrow> addr_get_port (local_addr g);
       (fport, w) \<leftarrow> init_filter (vpn_conf.truncate g) (uint port) (filter_port (net_cf g)) w;
       let (epfd, w) = syscall SysEpollCreate w;
       assert_c (\<not> epfd < 0);
       let cf = vpn_conf.truncate (upd_net (\<lambda>n. n \<lparr> filter_port := fport \<rparr>) g \<lparr> epollfd := epfd \<rparr>);
       w \<leftarrow> epoll_watch cf (raw_recv_fd cf) w;
       (timer_fd, w) \<leftarrow> set_timer cf w;
       (fifo_fd, w) \<leftarrow> start_fifo (fifo_file g) w;
       w \<leftarrow> (if fifo_file g \<noteq> [] then epoll_watch cf fifo_fd w else Some w);
       Some (timer_fd, fifo_fd, cf, server_new junk bjunk ch, w)
     })"

section \<open>The whole program\<close>

text \<open>Everything \<open>main\<close> does before events, for each of the two programs; \<open>None\<close> as well
  when the options ask for the other one or only for rules.\<close>

definition start_firewall :: "(int \<Rightarrow> bytes \<Rightarrow> string option) \<Rightarrow> globals \<times> world \<Rightarrow> (globals \<times> world) option" where
  "start_firewall inet_ntop = (\<lambda>(g, w).
     case iptables_rule inet_ntop (g, firewall_start, w) of
       Some (Inr (g, fw, w, keep)) \<Rightarrow> Some (g, w)
     | _ \<Rightarrow> None)"

definition client_main where
  "client_main K inet_pton inet_ntop inet_addr files argv junk bjunk ch = (\<lambda>(g, w).
     do {
       (g, w) \<leftarrow> main_setup K inet_pton files argv (g, w);
       (g, w) \<leftarrow> start_firewall inet_ntop (g, w);
       (g, nt, w) \<leftarrow> init_raw_socket (g, ch_net ch, w);
       assert_c (program_mode (net_cf g) = client_mode);
       client_start_up inet_addr junk bjunk (ch \<lparr> ch_net := nt \<rparr>) (g, w)
     })"

definition server_main where
  "server_main K inet_pton inet_ntop files argv junk bjunk ch = (\<lambda>(g, w).
     do {
       (g, w) \<leftarrow> main_setup K inet_pton files argv (g, w);
       (g, w) \<leftarrow> start_firewall inet_ntop (g, w);
       (g, nt, w) \<leftarrow> init_raw_socket (g, ch_net ch, w);
       assert_c (program_mode (net_cf g) \<noteq> client_mode);
       server_start_up junk bjunk (ch \<lparr> ch_net := nt \<rparr>) (g, w)
     })"

section \<open>What the steps leave alone\<close>

text \<open>The variables settled by the options and the keys.\<close>

definition settled :: "'a vpn_conf_scheme \<Rightarrow> 'b vpn_conf_scheme \<Rightarrow> bool" where
  "settled g h \<longleftrightarrow> crypt_cf h = crypt_cf g \<and> lib h = lib g \<and> gro_xor h = gro_xor g \<and> hb_mode h = hb_mode g \<and> hb_data h = hb_data g \<and> conv_order h = conv_order g \<and>
     const_id h = const_id g \<and> remote_addr h = remote_addr g \<and> local_addr h = local_addr g \<and>
     disable_anti_replay h = disable_anti_replay g \<and> socket_buf_size h = socket_buf_size g \<and>
     raw_mode (net_cf h) = raw_mode (net_cf g) \<and> raw_ip_version (net_cf h) = raw_ip_version (net_cf g) \<and>
     program_mode (net_cf h) = program_mode (net_cf g) \<and> g_fix_gro (net_cf h) = g_fix_gro (net_cf g) \<and>
     seq_mode (net_cf h) = seq_mode (net_cf g) \<and> random_drop (net_cf h) = random_drop (net_cf g)"

lemma settled_refl [simp]: "settled g g" by (simp add: settled_def)

lemma settled_trans [trans]: "settled g h \<Longrightarrow> settled h k \<Longrightarrow> settled g k" by (simp add: settled_def)

lemma settled_truncate [simp]: "settled g (vpn_conf.truncate h) = settled g h"
  by (simp add: settled_def vpn_conf.truncate_def)

lemma init_raw_socket_frame:
  assumes "init_raw_socket (g, nt, w) = Some (g', nt', w')"
  shows "settled g g'"
proof -
  obtain a b where "g' = upd_net (\<lambda>n. n \<lparr> raw_send_fd := a \<rparr>) g \<lparr> raw_recv_fd := b \<rparr>"
    using assms by (auto simp: init_raw_socket_def Let_def bind_eq_Some_conv syscall_def split: if_splits)
  then show ?thesis by (simp add: settled_def upd_net_def)
qed

lemma rule_end:
  "(if a then myexit f x w
    else if b then (case A of Inl e \<Rightarrow> Inl e | Inr (fw, w) \<Rightarrow> myexit fw y w)
    else if c then (case B of Inl e \<Rightarrow> Inl e | Inr (fw, w) \<Rightarrow> Inr (h, fw, w, k))
    else Inr (h, f, w, False)) = Inr (g', fw', w', keep) \<Longrightarrow> g' = h"
  by (cases A; cases B) (auto simp: myexit_def split: if_splits)

lemma iptables_rule_globals:
  assumes r: "iptables_rule inet_ntop (g, fw, w) = Some (Inr (g', fw', w', keep))"
  shows "g' = settle_rule_options g"
proof -
  have c: "clear_iptables g = 0"
    using r by (cases "clear_iptables g = 0") (auto simp: iptables_rule_def Let_def bind_eq_Some_conv myexit_def)
  obtain pattern where p: "rule_pattern inet_ntop (settle_rule_options g) = Some pattern"
    using r c by (auto simp: iptables_rule_def Let_def bind_eq_Some_conv)
  show ?thesis
    using r c p by (simp add: iptables_rule_def Let_def bind_eq_Some_conv) (elim conjE, erule rule_end)
qed

lemma start_firewall_frame:
  assumes "start_firewall inet_ntop (g, w) = Some (g', w')"
  shows "settled g g'"
proof -
  have "g' = settle_rule_options g"
    using assms iptables_rule_globals[of inet_ntop g firewall_start w] by (auto simp: start_firewall_def split: option.splits sum.splits)
  then show ?thesis by (auto simp: settled_def settle_rule_options_def Let_def)
qed

lemma client_lower_level_frame:
  assumes "client_lower_level inet_addr (g, ci, w) = Some (g', ci', w')"
  shows "settled g g' \<and> state ci' = state ci \<and> blob ci' = blob ci \<and> my_id ci' = my_id ci"
  using assms
  by (auto simp: client_lower_level_def Let_def bind_eq_Some_conv settled_def upd_send_def split: if_splits prod.splits)

lemma client_udp_socket_frame:
  assumes "client_udp_socket (g, w) = Some (g', w')"
  shows "settled g g'"
  using assms by (auto simp: client_udp_socket_def Let_def bind_eq_Some_conv settled_def syscall_def)

lemma client_started:
  assumes "client_start_up inet_addr junk bjunk ch (g, w) = Some (fifo_fd, cf, c, w')"
  shows "settled g cf \<and> c_state c = (if program_mode (net_cf g) = server_mode then server_idle else client_idle) \<and>
    map_option conv_mgr (blob (cl_conn c)) = Some (conv_manager_init (cv_last_clear_time (conv_mgr bjunk))) \<and>
    my_id (cl_conn c) \<noteq> 0 \<and> Some (dst_port (c_send c)) = addr_get_port (remote_addr g)"
proof -
  obtain ci1 w1 id w2 ci2 w3 g1 ci3 w4 dst port g2 w5 w6 where
    s: "conn_info_new (net_cf g) junk w = Some (ci1, w1)" "get_true_random_number_nz w1 = Some (id, w2)"
      "conn_prepare (program_mode (net_cf g)) bjunk (ci1 \<lparr> my_id := id \<rparr>) w2 = Some (ci2, w3)"
      "client_lower_level inet_addr (g, ci2, w3) = Some (g1, ci3, w4)" "addr_get_port (remote_addr g1) = Some port"
      "client_udp_socket (g1, w4) = Some (g2, w5)" "start_fifo (fifo_file g2) w5 = Some (fifo_fd, w6)"
    and e: "cf = vpn_conf.truncate g2" "cl_conn c = upd_send (\<lambda>si. si \<lparr> src_port := 0, new_src_ip := replicate 16 0, new_dst_ip := dst, dst_port := port \<rparr>) ci3"
    using assms by (auto simp: client_start_up_def bind_eq_Some_conv)
  note f1 = client_lower_level_frame[OF s(4)] and f2 = client_udp_socket_frame[OF s(6)]
  have "id \<noteq> 0" using rand_nz_result[OF s(2)] by simp
  moreover have "state ci2 = (if program_mode (net_cf g) = server_mode then server_idle else client_idle)" "my_id ci2 = id"
    "map_option conv_mgr (blob ci2) = Some (conv_manager_init (cv_last_clear_time (conv_mgr bjunk)))"
    using s(1,3) by (auto simp: conn_info_new_def conn_prepare_def conn_re_init_def blob_new_def bind_eq_Some_conv)
  moreover have "settled g cf" using f1 f2 settled_trans by (auto simp: e)
  ultimately show ?thesis using f1 s(5) by (simp add: e c_state_def c_send_def upd_send_def settled_def)
qed

lemma client_main_started:
  assumes "client_main K inet_pton inet_ntop inet_addr files argv junk bjunk ch (globals_start L place order, w) = Some (fifo_fd, cf, c, w1)"
  obtains g w0 where "main_setup K inet_pton files argv (globals_start L place order, w) = Some (g, w0)"
    "program_mode (net_cf g) = client_mode" "settled g cf" "client_inv cf (c, w1)" "c_state c = client_idle"
    "my_id (cl_conn c) \<noteq> 0" "Some (dst_port (c_send c)) = addr_get_port (remote_addr g)"
proof -
  obtain g w0 gf wf g1 nt w2 where m: "main_setup K inet_pton files argv (globals_start L place order, w) = Some (g, w0)"
      "program_mode (net_cf g1) = client_mode" "init_raw_socket (gf, ch_net ch, wf) = Some (g1, nt, w2)"
      "start_firewall inet_ntop (g, w0) = Some (gf, wf)"
      "client_start_up inet_addr junk bjunk (ch \<lparr> ch_net := nt \<rparr>) (g1, w2) = Some (fifo_fd, cf, c, w1)"
    using assms by (auto simp: client_main_def bind_eq_Some_conv)
  have f: "settled g g1" using start_firewall_frame[OF m(4)] init_raw_socket_frame[OF m(3)] settled_trans by blast
  note c = client_started[OF m(5)]
  have mode: "program_mode (net_cf g) = client_mode" using f m(2) by (simp add: settled_def)
  have "settled g cf" using f c settled_trans by blast
  moreover have "c_state c = client_idle" using f c m(2) by (simp add: settled_def)
  ultimately show ?thesis
    using that[OF m(1) mode] c f conv_inv_init by (auto simp: client_inv_def client_states_def settled_def)
qed

section \<open>The server starts\<close>

lemma init_filter_port:
  assumes "init_filter cf port fport w = Some (fp, w')"
  shows "fp = (if raw_mode (net_cf cf) = mode_faketcp \<or> raw_mode (net_cf cf) = mode_udp then port else fport)"
  using assms by (auto simp: init_filter_def Let_def bind_eq_Some_conv syscall_def split: if_splits)

lemma server_bind_addr_frame:
  "server_bind_addr g = Some g' \<Longrightarrow> settled g g'"
  by (auto simp: server_bind_addr_def bind_eq_Some_conv settled_def upd_net_def split: if_splits)

lemma server_new_inv: "server_inv (server_new junk bjunk ch, w)"
  by (auto simp: server_inv_def server_core_def server_new_def conn_mgr_init_def ptrs_def fds_ok_def fd_manager_init_def fd64_exist_def)

lemma server_started:
  assumes "server_start_up junk bjunk ch (g, w) = Some (timer_fd, fifo_fd, cf, s, w')"
  shows "settled g cf \<and> s = server_new junk bjunk ch \<and>
    (raw_mode (net_cf g) = mode_faketcp \<or> raw_mode (net_cf g) = mode_udp \<longrightarrow>
       Some (word_of_int (filter_port (net_cf cf))) = addr_get_port (local_addr g))"
proof -
  obtain g1 g2 w1 w2 port fport w3 epfd where
    b: "server_bind_addr g = Some g1" and
    l: "(if lower_level (net_cf g1) \<noteq> 0 \<and> lower_level_manual g1 \<noteq> 0 then do {
            (index, w) \<leftarrow> init_ifindex (if_name g1) (raw_send_fd (net_cf g1)) w;
            Some (g1 \<lparr> ifindex := index \<rparr>, w)
          } else Some (g1, w)) = Some (g2, w1)" and
    p: "addr_get_port (local_addr g2) = Some port" and
    f: "init_filter (vpn_conf.truncate g2) (uint port) (filter_port (net_cf g2)) w2 = Some (fport, w3)" and
    e: "cf = vpn_conf.truncate (upd_net (\<lambda>n. n \<lparr> filter_port := fport \<rparr>) g2 \<lparr> epollfd := epfd \<rparr>)" "s = server_new junk bjunk ch"
    using assms by (auto simp: server_start_up_def bind_eq_Some_conv Let_def syscall_def)
  have "settled g1 g2" using l by (auto simp: bind_eq_Some_conv settled_def split: if_splits)
  then have "settled g g2" using server_bind_addr_frame[OF b] settled_trans by blast
  moreover have "settled g2 cf" by (simp add: e settled_def upd_net_def vpn_conf.truncate_def)
  moreover have "filter_port (net_cf cf) = fport" by (simp add: e vpn_conf.truncate_def upd_net_def)
  ultimately show ?thesis
    using settled_trans init_filter_port[OF f] p e(2) by (auto simp: settled_def vpn_conf.truncate_def)
qed

lemma server_main_started:
  assumes "server_main K inet_pton inet_ntop files argv junk bjunk ch (globals_start L place order, w) = Some (timer_fd, fifo_fd, cf, s, w1)"
  obtains g w0 nt where "main_setup K inet_pton files argv (globals_start L place order, w) = Some (g, w0)"
    "program_mode (net_cf g) = server_mode" "settled g cf" "s = server_new junk bjunk (ch \<lparr> ch_net := nt \<rparr>)"
    "raw_mode (net_cf cf) = mode_faketcp \<or> raw_mode (net_cf cf) = mode_udp \<longrightarrow>
       Some (word_of_int (filter_port (net_cf cf))) = addr_get_port (local_addr g)"
proof -
  obtain g w0 gf wf g1 nt w2 where m: "main_setup K inet_pton files argv (globals_start L place order, w) = Some (g, w0)"
      "program_mode (net_cf g1) \<noteq> client_mode" "init_raw_socket (gf, ch_net ch, wf) = Some (g1, nt, w2)"
      "start_firewall inet_ntop (g, w0) = Some (gf, wf)"
      "server_start_up junk bjunk (ch \<lparr> ch_net := nt \<rparr>) (g1, w2) = Some (timer_fd, fifo_fd, cf, s, w1)"
    using assms by (auto simp: server_main_def bind_eq_Some_conv)
  have f: "settled g g1" using start_firewall_frame[OF m(4)] init_raw_socket_frame[OF m(3)] settled_trans by blast
  note c = server_started[OF m(5)]
  have mode: "program_mode (net_cf g) = server_mode" using f m(2) main_setup_ranges[OF m(1)] by (auto simp: settled_def)
  have "settled g cf" using f c settled_trans by blast
  then show ?thesis using that[OF m(1) mode] f c by (auto simp: settled_def)
qed


section \<open>Examples\<close>

definition example_client_main :: "(int \<times> vpn_conf \<times> cworld) option" where
  "example_client_main = client_main example_kdf example_pton (\<lambda>_ _. Some ''10.0.0.2'') (\<lambda>_. 0) (\<lambda>_. None) (example_args ''-c'') example_client_conn
     \<lparr> conv_mgr = conv_manager_init 0, anti_rep = anti_replay_init (\<lambda>_. 0) 50 \<rparr> example_chan
     (globals_start xor_lib (\<lambda>_ _. 0) example_order, example_world)"

definition example_server_main :: "(int \<times> int \<times> vpn_conf \<times> sworld) option" where
  "example_server_main = server_main example_kdf example_pton (\<lambda>_ _. Some ''10.0.0.2'') (\<lambda>_. None) (example_args ''-s'') example_conn example_blob example_chan
     (globals_start xor_lib (\<lambda>_ _. 0) example_order, example_world)"

section \<open>Properties\<close>

text \<open>C36. From the command line to any moment of the client: when the start-up
  succeeds, the event loop begins in the idle state with a nonzero identifier, the
  keys of the set-up and packets addressed to the port of the remote address; from
  there every run of events keeps the conversation tables consistent, and whatever event
  comes next leads to a state that \<open>client_next\<close> lists: no state of the handshake is
  skipped, and only a message of the channel opens the tunnel.\<close>

theorem client_program_safe:
  assumes "client_main K inet_pton inet_ntop inet_addr files argv junk bjunk ch (globals_start L place order, w) = Some (fifo_fd, cf, c, w1)"
    and "client_runs cf (c, w1) (c', w2)"
  shows "c_state c = client_idle \<and> my_id (cl_conn c) \<noteq> 0 \<and> const_id cf \<noteq> 0 \<and>
    (\<exists>g w0. main_setup K inet_pton files argv (globals_start L place order, w) = Some (g, w0) \<and> crypt_cf cf = crypt_cf g \<and>
       gro_xor cf = gro_xor g \<and> addr_get_port (remote_addr g) = Some (dst_port (c_send c))) \<and>
    client_inv cf (c', w2) \<and>
    (\<forall>ev c'' w''. client_event cf ev (c', w2) = Some (c'', w'') \<longrightarrow> c_state c'' \<in> client_next cf ev (c', w2))"
proof -
  obtain g w0 where m: "main_setup K inet_pton files argv (globals_start L place order, w) = Some (g, w0)"
    and c: "settled g cf" "client_inv cf (c, w1)" "c_state c = client_idle" "my_id (cl_conn c) \<noteq> 0"
      "Some (dst_port (c_send c)) = addr_get_port (remote_addr g)"
    by (rule client_main_started[OF assms(1)])
  have "const_id cf \<noteq> 0" using main_setup_ranges[OF m] c(1) by (simp add: settled_def)
  moreover have "client_inv cf (c', w2)" using runs_keep[OF assms(2) c(2)] by simp
  moreover have "\<forall>ev c'' w''. client_event cf ev (c', w2) = Some (c'', w'') \<longrightarrow> c_state c'' \<in> client_next cf ev (c', w2)"
    using event_step by blast
  ultimately show ?thesis using m c by (simp add: settled_def)
qed

theorem client_program_safe_witness:
  "\<exists>fifo_fd cf c w1 c' w2. example_client_main = Some (fifo_fd, cf, c, w1) \<and> client_event cf (EvFifo fifo_fd) (c, w1) = Some (c', w2) \<and>
     my_id (cl_conn c) \<noteq> 0 \<and> client_inv cf (c', w2)"
proof -
  have "case example_client_main of None \<Rightarrow> False | Some (f, cf, c, w) \<Rightarrow> client_event cf (EvFifo f) (c, w) \<noteq> None"
    by code_simp
  then obtain fifo_fd cf c w1 c' w2 where e: "example_client_main = Some (fifo_fd, cf, c, w1)"
      "client_event cf (EvFifo fifo_fd) (c, w1) = Some (c', w2)" by (auto split: option.splits prod.splits)
  have r: "client_runs cf (c, w1) (c', w2)" using client_runs.event[OF client_runs.start e(2)] .
  show ?thesis using e client_program_safe[OF e(1)[unfolded example_client_main_def] r] by blast
qed

text \<open>C20. From the command line to any moment of the server: when the start-up
  succeeds, the packet filter is set to the port of the local address. A run of \<open>k\<close>
  events keeps the tables consistent, leaks no connection object and stays within the
  bounds of 10000 connections and 1000 ready ones, under two conditions: no client
  announces the constant identifier 0 (\<open>server_runs\<close> leaves such runs out, the tables do
  not survive them), and \<open>k\<close> is small enough for the handles of 64 bits, of which one event
  uses at most \<open>packet_handles\<close>, not to run out. The frames are no longer than the
  buffer the code reads them into.\<close>

theorem server_program_safe:
  assumes "server_main K inet_pton inet_ntop files argv junk bjunk ch (globals_start L place order, w) = Some (timer_fd, fifo_fd, cf, s, w1)"
    and "\<forall>m. finite (dom m) \<longrightarrow> set (order m) = ran m \<and> length (order m) = card (dom m)"
    and "server_runs cf timer_fd fifo_fd (s, w1) k (s', w2)" "4294967395 + k * packet_handles < 2 ^ 64"
  shows "(raw_mode (net_cf cf) \<noteq> mode_icmp \<longrightarrow> Some (word_of_int (filter_port (net_cf cf))) = addr_get_port (local_addr cf)) \<and>
    server_inv (s', w2) \<and> dom (heap s') = ptrs s' \<and> ready_num (mgr s') \<le> 1000 \<and> length (conn_mp (mgr s')) \<le> 10000"
proof -
  obtain g w0 nt where m: "main_setup K inet_pton files argv (globals_start L place order, w) = Some (g, w0)"
    and c: "settled g cf" "s = server_new junk bjunk (ch \<lparr> ch_net := nt \<rparr>)"
      "raw_mode (net_cf cf) = mode_faketcp \<or> raw_mode (net_cf cf) = mode_udp \<longrightarrow>
         Some (word_of_int (filter_port (net_cf cf))) = addr_get_port (local_addr g)"
    by (rule server_main_started[OF assms(1)])
  have o1: "order_ok cf" using assms(2) main_setup_ranges[OF m] c(1) by (simp add: settled_def order_ok_def)
  have "srv (k * packet_handles + 0) (s, w1)"
    using server_new_inv[of junk bjunk "ch \<lparr> ch_net := nt \<rparr>" w1] assms(4)
    by (simp add: srv_def c(2)) (simp add: server_new_def fd_manager_init_def conn_mgr_init_def max_ready_conn_num_def ptrs_def)
  from srv_runs[OF assms(3) o1 this] have r: "srv 0 (s', w2)" .
  then have "ptrs s' \<subseteq> dom (heap s')" by (auto simp: srv_def server_inv_def elim: core_conn)
  moreover have "raw_mode (net_cf cf) \<noteq> mode_end" using main_setup_ranges[OF m] c(1) by (simp add: settled_def options_ok_def)
  then have "raw_mode (net_cf cf) \<noteq> mode_icmp \<longrightarrow> Some (word_of_int (filter_port (net_cf cf))) = addr_get_port (local_addr cf)"
    using c(1,3) by (cases "raw_mode (net_cf cf)") (simp_all add: settled_def)
  ultimately show ?thesis using r by (auto simp: srv_def max_ready_conn_num_def max_handshake_conn_num_def)
qed

theorem server_program_safe_witness:
  "\<exists>timer_fd fifo_fd cf s w1 stop s' w2. example_server_main = Some (timer_fd, fifo_fd, cf, s, w1) \<and>
     server_handle_event cf timer_fd fifo_fd (word_of_int timer_fd, (0, [], [])) (s, w1) = Some (stop, s', w2) \<and> server_inv (s', w2)"
proof -
  have "case example_server_main of None \<Rightarrow> False | Some (t, f, cf, s, w) \<Rightarrow>
      (case server_handle_event cf t f (word_of_int t, (0, [], [])) (s, w) of None \<Rightarrow> False
       | Some (st, s', w') \<Rightarrow> const_id_mp (mgr s') 0 = None)"
    by code_simp
  then obtain timer_fd fifo_fd cf s w1 stop s' w2 where e: "example_server_main = Some (timer_fd, fifo_fd, cf, s, w1)"
      "server_handle_event cf timer_fd fifo_fd (word_of_int timer_fd, (0, [], [])) (s, w1) = Some (stop, s', w2)"
      "const_id_mp (mgr s') 0 = None"
    by (auto split: option.splits prod.splits)
  have r: "server_runs cf timer_fd fifo_fd (s, w1) 1 (s', w2)"
    using server_runs.event[OF server_runs.start _ e(2)] e(3) by (simp add: frame_ok_def huge_data_len_def)
  have "\<forall>m. finite (dom m) \<longrightarrow> set (example_order m) = ran m \<and> length (example_order m) = card (dom m)"
    by (simp add: example_order_ok)
  then have "server_inv (s', w2)"
    using server_program_safe[OF e(1)[unfolded example_server_main_def] _ r] by (simp add: packet_handles_def huge_data_len_def)
  with e show ?thesis by blast
qed

end
