(* ===== verification/Words.thy ===== *)
theory Words
  imports Prelude
begin

text \<open>
  Words and bytes in the bundled library (src/lib): the macros that read and
  write 32 bit words in both byte orders, and the facts on the bytes of a word
  the ciphers and the hashes share. The big-endian macros work on
  \<open>unsigned long\<close>, which is 64 bits wide.
\<close>

section \<open>The macros\<close>

definition get_uint32_le :: "bytes \<Rightarrow> nat \<Rightarrow> u32" where
  "get_uint32_le b i = ucast (b ! i) OR push_bit 8 (ucast (b ! (i + 1)))
     OR push_bit 16 (ucast (b ! (i + 2))) OR push_bit 24 (ucast (b ! (i + 3)))"

definition put_uint32_le :: "u32 \<Rightarrow> bytes" where
  "put_uint32_le n = [ucast n, ucast (drop_bit 8 n), ucast (drop_bit 16 n), ucast (drop_bit 24 n)]"

definition get_ulong_be :: "bytes \<Rightarrow> nat \<Rightarrow> u64" where
  "get_ulong_be b i = push_bit 24 (ucast (b ! i)) OR push_bit 16 (ucast (b ! (i + 1)))
     OR push_bit 8 (ucast (b ! (i + 2))) OR ucast (b ! (i + 3))"

definition put_ulong_be :: "u64 \<Rightarrow> bytes" where
  "put_ulong_be n = [ucast (drop_bit 24 n), ucast (drop_bit 16 n), ucast (drop_bit 8 n), ucast n]"

lemma length_put [simp, len_simps]:
  "length (put_uint32_le n) = 4" "length (put_ulong_be m) = 4"
  by (simp_all add: put_uint32_le_def put_ulong_be_def)

section \<open>The bytes of a word\<close>

definition word_byte :: "nat \<Rightarrow> u32 \<Rightarrow> u8" where
  "word_byte k w = ucast (drop_bit (8 * k) w)"

lemma bit_word_byte: "bit (word_byte k w) n \<longleftrightarrow> n < 8 \<and> bit w (8 * k + n)"
  by (auto simp: word_byte_def bit_simps)

lemma unat_word_byte: "unat (drop_bit (8 * k) w AND 0xFF) = unat (word_byte k w)"
proof -
  have ff: "(0xFF :: u32) = mask 8" by (simp add: mask_eq_exp_minus_1)
  have "drop_bit (8 * k) w AND 0xFF = (ucast (word_byte k w) :: u32)"
    unfolding ff by (rule bit_word_eqI) (auto simp: bit_simps bit_word_byte)
  moreover have "unat (word_byte k w) < 2 ^ 32"
  proof -
    have "unat (word_byte k w) < 2 ^ 8" using unsigned_less[of "word_byte k w"] by simp
    then show ?thesis by simp
  qed
  ultimately show ?thesis by (simp add: unsigned_ucast_eq take_bit_nat_eq_self)
qed

lemma word_byte_xor [simp]: "word_byte k (a XOR b) = word_byte k a XOR word_byte k b"
  by (rule bit_word_eqI) (auto simp: bit_word_byte bit_simps)

lemma put_uint32_le_bytes: "put_uint32_le n = map (\<lambda>k. word_byte k n) [0, 1, 2, 3]"
  by (simp add: put_uint32_le_def word_byte_def)

lemma word_byte_get_le:
  "word_byte 0 (get_uint32_le b i) = b ! i" "word_byte 1 (get_uint32_le b i) = b ! (i + 1)"
  "word_byte 2 (get_uint32_le b i) = b ! (i + 2)" "word_byte 3 (get_uint32_le b i) = b ! (i + 3)"
  by (rule bit_word_eqI; auto simp: bit_word_byte get_uint32_le_def bit_simps dest: bit_imp_le_length)+

lemma word_eq_bytes:
  assumes "word_byte 0 a = word_byte 0 b" "word_byte 1 a = word_byte 1 b"
    "word_byte 2 a = word_byte 2 b" "word_byte 3 a = word_byte 3 b"
  shows "a = b"
proof (rule bit_word_eqI)
  fix n assume "n < LENGTH(32)"
  then obtain k j where n: "n = 8 * k + j" "j < 8" "k = 0 \<or> k = 1 \<or> k = 2 \<or> k = 3"
    by (intro that[of "n div 8" "n mod 8"]) auto
  then have "word_byte k a = word_byte k b" using assms by auto
  then have "bit (word_byte k a) j = bit (word_byte k b) j" by simp
  then show "bit a n = bit b n" using n by (simp add: bit_word_byte)
qed

section \<open>32 bit arithmetic in 64 bit words\<close>

text \<open>The SHA files compute in \<open>unsigned long\<close>; only the low halves matter.\<close>

definition low32 :: "u64 \<Rightarrow> u32" where "low32 w = ucast w"

lemma low_bits: "bit (low32 w) n \<longleftrightarrow> n < 32 \<and> bit w n"
  by (auto simp: low32_def bit_simps)

lemma low_arith [simp]:
  "low32 (a + b) = low32 a + low32 b" "low32 (a XOR b) = low32 a XOR low32 b" "low32 (a AND b) = low32 a AND low32 b"
  "low32 (a OR b) = low32 a OR low32 b" "low32 (push_bit n a) = push_bit n (low32 a)"
proof -
  show "low32 (a + b) = low32 a + low32 b"
    unfolding low32_def
  proof transfer
    fix a b :: int
    have "take_bit 32 (take_bit 64 a + take_bit 64 b) = take_bit 32 (take_bit 32 (take_bit 64 a) + take_bit 32 (take_bit 64 b))"
      by (simp only: take_bit_add)
    then show "take_bit LENGTH(32) (take_bit LENGTH(64) (a + b)) = take_bit LENGTH(32) (take_bit LENGTH(64) a + take_bit LENGTH(64) b)"
      by (simp add: take_bit_add)
  qed
qed (rule bit_word_eqI; auto simp: low_bits bit_simps)+

lemma low_ucast: "low32 (ucast (w :: u32)) = w"
  by (rule bit_word_eqI) (auto simp: low_bits bit_simps)

definition long_S :: "u64 \<Rightarrow> nat \<Rightarrow> u64" where
  "long_S x n = push_bit n x OR drop_bit (32 - n) (x AND 0xFFFFFFFF)"

definition long_SHR :: "u64 \<Rightarrow> nat \<Rightarrow> u64" where
  "long_SHR x n = drop_bit n (x AND 0xFFFFFFFF)"

definition long_ROTR :: "u64 \<Rightarrow> nat \<Rightarrow> u64" where
  "long_ROTR x n = long_SHR x n OR push_bit (32 - n) x"

lemma and_low: "x AND 0xFFFFFFFF = take_bit 32 x" for x :: u64
proof -
  have k: "(0xFFFFFFFF :: u64) = mask 32" by (simp add: mask_eq_exp_minus_1)
  show ?thesis unfolding k by (rule take_bit_eq_mask[symmetric])
qed

lemma low_S:
  assumes "n < 32" shows "low32 (long_S x n) = word_rotl n (low32 x)"
proof (rule bit_word_eqI)
  fix i assume i: "i < LENGTH(32)"
  have d: "(i + (32 - n)) mod 32 = (if n \<le> i then i - n else i + (32 - n))"
    using assms i by (auto simp: mod_if)
  have r: "bit (word_rotl n (low32 x)) i = bit (low32 x) ((i + (32 - n)) mod 32)"
    using assms i by (simp add: bit_word_rotl_iff)
  have "bit (low32 (long_S x n)) i = bit (low32 x) (if n \<le> i then i - n else i + (32 - n))"
    using assms i by (auto simp: long_S_def and_low low_bits bit_simps ac_simps)
  then show "bit (low32 (long_S x n)) i = bit (word_rotl n (low32 x)) i" by (simp only: r d)
qed

lemma low_SHR: "low32 (long_SHR x n) = drop_bit n (low32 x)"
  by (rule bit_word_eqI) (auto simp: long_SHR_def and_low low_bits bit_simps ac_simps)

lemma low_ROTR:
  assumes "0 < n" "n < 32" shows "low32 (long_ROTR x n) = word_rotr n (low32 x)"
proof (rule bit_word_eqI)
  fix i assume i: "i < LENGTH(32)"
  have d: "(i + n) mod 32 = (if i + n < 32 then i + n else i - (32 - n))"
    using assms i by (auto simp: mod_if)
  have r: "bit (word_rotr n (low32 x)) i = bit (low32 x) ((i + n) mod 32)"
    using assms i by (simp add: bit_word_rotr_iff)
  have "bit (low32 (long_ROTR x n)) i = bit (low32 x) (if i + n < 32 then i + n else i - (32 - n))"
    using assms i by (auto simp: long_ROTR_def long_SHR_def and_low low_bits bit_simps ac_simps)
  then show "bit (low32 (long_ROTR x n)) i = bit (word_rotr n (low32 x)) i" by (simp only: r d)
qed

text \<open>Big-endian words of 32 bits, as the standards have them.\<close>

definition get_be :: "bytes \<Rightarrow> nat \<Rightarrow> u32" where
  "get_be b i = push_bit 24 (ucast (b ! i)) OR push_bit 16 (ucast (b ! (i + 1)))
     OR push_bit 8 (ucast (b ! (i + 2))) OR ucast (b ! (i + 3))"

definition put_be :: "u32 \<Rightarrow> bytes" where
  "put_be n = [ucast (drop_bit 24 n), ucast (drop_bit 16 n), ucast (drop_bit 8 n), ucast n]"

lemma length_put_be [simp]: "length (put_be n) = 4"
  by (simp add: put_be_def)

lemma low_get: "low32 (get_ulong_be b i) = get_be b i"
  by (rule bit_word_eqI) (auto simp: get_ulong_be_def get_be_def low_bits bit_simps)

lemma put_low: "put_ulong_be w = put_be (low32 w)"
  by (auto simp: put_ulong_be_def put_be_def intro!: bit_word_eqI simp: low_bits bit_simps)

section \<open>Lists built word by word\<close>

definition extend_to :: "nat \<Rightarrow> ('a list \<Rightarrow> 'a) \<Rightarrow> 'a list \<Rightarrow> 'a list" where
  "extend_to n f xs = ((\<lambda>xs. xs @ [f xs]) ^^ (n - length xs)) xs"

lemma extend_grow:
  defines "g \<equiv> \<lambda>f xs :: 'a list. xs @ [f xs]"
  shows "length ((g f ^^ k) xs) = length xs + k"
    and "i < length xs \<Longrightarrow> (g f ^^ k) xs ! i = xs ! i"
    and "i < k \<Longrightarrow> (g f ^^ k) xs ! (length xs + i) = f (take (length xs + i) ((g f ^^ k) xs))"
proof (induction k)
  case (Suc k)
  show "length ((g f ^^ Suc k) xs) = length xs + Suc k" using Suc(1) by (simp add: g_def)
  show "(g f ^^ Suc k) xs ! i = xs ! i" if "i < length xs" using Suc(1,2) that by (simp add: g_def nth_append)
  show "(g f ^^ Suc k) xs ! (length xs + i) = f (take (length xs + i) ((g f ^^ Suc k) xs))" if "i < Suc k"
    using Suc(1,3) that by (cases "i = k") (simp_all add: g_def nth_append)
qed (simp_all add: g_def)

lemma extend_to_old: "i < length xs \<Longrightarrow> extend_to n f xs ! i = xs ! i"
  by (simp add: extend_to_def extend_grow(2))

lemma extend_to_new:
  "length xs \<le> i \<Longrightarrow> i < n \<Longrightarrow> extend_to n f xs ! i = f (take i (extend_to n f xs))"
  using extend_grow(3)[of "i - length xs" "n - length xs" f xs] by (simp add: extend_to_def)

lemma length_extend_to: "length xs \<le> n \<Longrightarrow> length (extend_to n f xs) = n"
  by (simp add: extend_to_def extend_grow(1))

section \<open>Evaluation\<close>

text \<open>Word expressions evaluate when a number is read from them; \<open>value_of\<close> makes
  the code equations read it where a result is used more than once.\<close>

definition value_of :: "'a :: len word \<Rightarrow> 'a word" where
  "value_of w = word_of_int (uint w)"

lemma value_of_id: "value_of w = w"
  by (simp add: value_of_def)

end
