(* ===== verification/Aes.thy ===== *)
theory Aes
  imports Words
begin

text \<open>
  The block cipher of lib/aes_faster_c/aes.cpp: the tables compiled into the
  program, the two key schedules and the encryption and decryption of a block
  by table lookups, for the three key sizes. The build has the tables in the
  program; \<open>aes_gen_tables\<close>, the CTR mode and the accelerated variants are left out by
  the preprocessor. The CBC and CFB modes are in Encrypt.thy.
\<close>

section \<open>Tables\<close>

text \<open>The forward and the reverse S-box, and the bytes \<open>V(a,b,c,d)\<close> from which
  the macros make four word tables each.\<close>


definition FSb :: bytes where
  "FSb = [
     0x63, 0x7C, 0x77, 0x7B, 0xF2, 0x6B, 0x6F, 0xC5,
     0x30, 0x01, 0x67, 0x2B, 0xFE, 0xD7, 0xAB, 0x76,
     0xCA, 0x82, 0xC9, 0x7D, 0xFA, 0x59, 0x47, 0xF0,
     0xAD, 0xD4, 0xA2, 0xAF, 0x9C, 0xA4, 0x72, 0xC0,
     0xB7, 0xFD, 0x93, 0x26, 0x36, 0x3F, 0xF7, 0xCC,
     0x34, 0xA5, 0xE5, 0xF1, 0x71, 0xD8, 0x31, 0x15,
     0x04, 0xC7, 0x23, 0xC3, 0x18, 0x96, 0x05, 0x9A,
     0x07, 0x12, 0x80, 0xE2, 0xEB, 0x27, 0xB2, 0x75,
     0x09, 0x83, 0x2C, 0x1A, 0x1B, 0x6E, 0x5A, 0xA0,
     0x52, 0x3B, 0xD6, 0xB3, 0x29, 0xE3, 0x2F, 0x84,
     0x53, 0xD1, 0x00, 0xED, 0x20, 0xFC, 0xB1, 0x5B,
     0x6A, 0xCB, 0xBE, 0x39, 0x4A, 0x4C, 0x58, 0xCF,
     0xD0, 0xEF, 0xAA, 0xFB, 0x43, 0x4D, 0x33, 0x85,
     0x45, 0xF9, 0x02, 0x7F, 0x50, 0x3C, 0x9F, 0xA8,
     0x51, 0xA3, 0x40, 0x8F, 0x92, 0x9D, 0x38, 0xF5,
     0xBC, 0xB6, 0xDA, 0x21, 0x10, 0xFF, 0xF3, 0xD2,
     0xCD, 0x0C, 0x13, 0xEC, 0x5F, 0x97, 0x44, 0x17,
     0xC4, 0xA7, 0x7E, 0x3D, 0x64, 0x5D, 0x19, 0x73,
     0x60, 0x81, 0x4F, 0xDC, 0x22, 0x2A, 0x90, 0x88,
     0x46, 0xEE, 0xB8, 0x14, 0xDE, 0x5E, 0x0B, 0xDB,
     0xE0, 0x32, 0x3A, 0x0A, 0x49, 0x06, 0x24, 0x5C,
     0xC2, 0xD3, 0xAC, 0x62, 0x91, 0x95, 0xE4, 0x79,
     0xE7, 0xC8, 0x37, 0x6D, 0x8D, 0xD5, 0x4E, 0xA9,
     0x6C, 0x56, 0xF4, 0xEA, 0x65, 0x7A, 0xAE, 0x08,
     0xBA, 0x78, 0x25, 0x2E, 0x1C, 0xA6, 0xB4, 0xC6,
     0xE8, 0xDD, 0x74, 0x1F, 0x4B, 0xBD, 0x8B, 0x8A,
     0x70, 0x3E, 0xB5, 0x66, 0x48, 0x03, 0xF6, 0x0E,
     0x61, 0x35, 0x57, 0xB9, 0x86, 0xC1, 0x1D, 0x9E,
     0xE1, 0xF8, 0x98, 0x11, 0x69, 0xD9, 0x8E, 0x94,
     0x9B, 0x1E, 0x87, 0xE9, 0xCE, 0x55, 0x28, 0xDF,
     0x8C, 0xA1, 0x89, 0x0D, 0xBF, 0xE6, 0x42, 0x68,
     0x41, 0x99, 0x2D, 0x0F, 0xB0, 0x54, 0xBB, 0x16]"

definition FT :: "(u8 \<times> u8 \<times> u8 \<times> u8) list" where
  "FT = [
     (0xA5, 0x63, 0x63, 0xC6), (0x84, 0x7C, 0x7C, 0xF8), (0x99, 0x77, 0x77, 0xEE), (0x8D, 0x7B, 0x7B, 0xF6),
     (0x0D, 0xF2, 0xF2, 0xFF), (0xBD, 0x6B, 0x6B, 0xD6), (0xB1, 0x6F, 0x6F, 0xDE), (0x54, 0xC5, 0xC5, 0x91),
     (0x50, 0x30, 0x30, 0x60), (0x03, 0x01, 0x01, 0x02), (0xA9, 0x67, 0x67, 0xCE), (0x7D, 0x2B, 0x2B, 0x56),
     (0x19, 0xFE, 0xFE, 0xE7), (0x62, 0xD7, 0xD7, 0xB5), (0xE6, 0xAB, 0xAB, 0x4D), (0x9A, 0x76, 0x76, 0xEC),
     (0x45, 0xCA, 0xCA, 0x8F), (0x9D, 0x82, 0x82, 0x1F), (0x40, 0xC9, 0xC9, 0x89), (0x87, 0x7D, 0x7D, 0xFA),
     (0x15, 0xFA, 0xFA, 0xEF), (0xEB, 0x59, 0x59, 0xB2), (0xC9, 0x47, 0x47, 0x8E), (0x0B, 0xF0, 0xF0, 0xFB),
     (0xEC, 0xAD, 0xAD, 0x41), (0x67, 0xD4, 0xD4, 0xB3), (0xFD, 0xA2, 0xA2, 0x5F), (0xEA, 0xAF, 0xAF, 0x45),
     (0xBF, 0x9C, 0x9C, 0x23), (0xF7, 0xA4, 0xA4, 0x53), (0x96, 0x72, 0x72, 0xE4), (0x5B, 0xC0, 0xC0, 0x9B),
     (0xC2, 0xB7, 0xB7, 0x75), (0x1C, 0xFD, 0xFD, 0xE1), (0xAE, 0x93, 0x93, 0x3D), (0x6A, 0x26, 0x26, 0x4C),
     (0x5A, 0x36, 0x36, 0x6C), (0x41, 0x3F, 0x3F, 0x7E), (0x02, 0xF7, 0xF7, 0xF5), (0x4F, 0xCC, 0xCC, 0x83),
     (0x5C, 0x34, 0x34, 0x68), (0xF4, 0xA5, 0xA5, 0x51), (0x34, 0xE5, 0xE5, 0xD1), (0x08, 0xF1, 0xF1, 0xF9),
     (0x93, 0x71, 0x71, 0xE2), (0x73, 0xD8, 0xD8, 0xAB), (0x53, 0x31, 0x31, 0x62), (0x3F, 0x15, 0x15, 0x2A),
     (0x0C, 0x04, 0x04, 0x08), (0x52, 0xC7, 0xC7, 0x95), (0x65, 0x23, 0x23, 0x46), (0x5E, 0xC3, 0xC3, 0x9D),
     (0x28, 0x18, 0x18, 0x30), (0xA1, 0x96, 0x96, 0x37), (0x0F, 0x05, 0x05, 0x0A), (0xB5, 0x9A, 0x9A, 0x2F),
     (0x09, 0x07, 0x07, 0x0E), (0x36, 0x12, 0x12, 0x24), (0x9B, 0x80, 0x80, 0x1B), (0x3D, 0xE2, 0xE2, 0xDF),
     (0x26, 0xEB, 0xEB, 0xCD), (0x69, 0x27, 0x27, 0x4E), (0xCD, 0xB2, 0xB2, 0x7F), (0x9F, 0x75, 0x75, 0xEA),
     (0x1B, 0x09, 0x09, 0x12), (0x9E, 0x83, 0x83, 0x1D), (0x74, 0x2C, 0x2C, 0x58), (0x2E, 0x1A, 0x1A, 0x34),
     (0x2D, 0x1B, 0x1B, 0x36), (0xB2, 0x6E, 0x6E, 0xDC), (0xEE, 0x5A, 0x5A, 0xB4), (0xFB, 0xA0, 0xA0, 0x5B),
     (0xF6, 0x52, 0x52, 0xA4), (0x4D, 0x3B, 0x3B, 0x76), (0x61, 0xD6, 0xD6, 0xB7), (0xCE, 0xB3, 0xB3, 0x7D),
     (0x7B, 0x29, 0x29, 0x52), (0x3E, 0xE3, 0xE3, 0xDD), (0x71, 0x2F, 0x2F, 0x5E), (0x97, 0x84, 0x84, 0x13),
     (0xF5, 0x53, 0x53, 0xA6), (0x68, 0xD1, 0xD1, 0xB9), (0x00, 0x00, 0x00, 0x00), (0x2C, 0xED, 0xED, 0xC1),
     (0x60, 0x20, 0x20, 0x40), (0x1F, 0xFC, 0xFC, 0xE3), (0xC8, 0xB1, 0xB1, 0x79), (0xED, 0x5B, 0x5B, 0xB6),
     (0xBE, 0x6A, 0x6A, 0xD4), (0x46, 0xCB, 0xCB, 0x8D), (0xD9, 0xBE, 0xBE, 0x67), (0x4B, 0x39, 0x39, 0x72),
     (0xDE, 0x4A, 0x4A, 0x94), (0xD4, 0x4C, 0x4C, 0x98), (0xE8, 0x58, 0x58, 0xB0), (0x4A, 0xCF, 0xCF, 0x85),
     (0x6B, 0xD0, 0xD0, 0xBB), (0x2A, 0xEF, 0xEF, 0xC5), (0xE5, 0xAA, 0xAA, 0x4F), (0x16, 0xFB, 0xFB, 0xED),
     (0xC5, 0x43, 0x43, 0x86), (0xD7, 0x4D, 0x4D, 0x9A), (0x55, 0x33, 0x33, 0x66), (0x94, 0x85, 0x85, 0x11),
     (0xCF, 0x45, 0x45, 0x8A), (0x10, 0xF9, 0xF9, 0xE9), (0x06, 0x02, 0x02, 0x04), (0x81, 0x7F, 0x7F, 0xFE),
     (0xF0, 0x50, 0x50, 0xA0), (0x44, 0x3C, 0x3C, 0x78), (0xBA, 0x9F, 0x9F, 0x25), (0xE3, 0xA8, 0xA8, 0x4B),
     (0xF3, 0x51, 0x51, 0xA2), (0xFE, 0xA3, 0xA3, 0x5D), (0xC0, 0x40, 0x40, 0x80), (0x8A, 0x8F, 0x8F, 0x05),
     (0xAD, 0x92, 0x92, 0x3F), (0xBC, 0x9D, 0x9D, 0x21), (0x48, 0x38, 0x38, 0x70), (0x04, 0xF5, 0xF5, 0xF1),
     (0xDF, 0xBC, 0xBC, 0x63), (0xC1, 0xB6, 0xB6, 0x77), (0x75, 0xDA, 0xDA, 0xAF), (0x63, 0x21, 0x21, 0x42),
     (0x30, 0x10, 0x10, 0x20), (0x1A, 0xFF, 0xFF, 0xE5), (0x0E, 0xF3, 0xF3, 0xFD), (0x6D, 0xD2, 0xD2, 0xBF),
     (0x4C, 0xCD, 0xCD, 0x81), (0x14, 0x0C, 0x0C, 0x18), (0x35, 0x13, 0x13, 0x26), (0x2F, 0xEC, 0xEC, 0xC3),
     (0xE1, 0x5F, 0x5F, 0xBE), (0xA2, 0x97, 0x97, 0x35), (0xCC, 0x44, 0x44, 0x88), (0x39, 0x17, 0x17, 0x2E),
     (0x57, 0xC4, 0xC4, 0x93), (0xF2, 0xA7, 0xA7, 0x55), (0x82, 0x7E, 0x7E, 0xFC), (0x47, 0x3D, 0x3D, 0x7A),
     (0xAC, 0x64, 0x64, 0xC8), (0xE7, 0x5D, 0x5D, 0xBA), (0x2B, 0x19, 0x19, 0x32), (0x95, 0x73, 0x73, 0xE6),
     (0xA0, 0x60, 0x60, 0xC0), (0x98, 0x81, 0x81, 0x19), (0xD1, 0x4F, 0x4F, 0x9E), (0x7F, 0xDC, 0xDC, 0xA3),
     (0x66, 0x22, 0x22, 0x44), (0x7E, 0x2A, 0x2A, 0x54), (0xAB, 0x90, 0x90, 0x3B), (0x83, 0x88, 0x88, 0x0B),
     (0xCA, 0x46, 0x46, 0x8C), (0x29, 0xEE, 0xEE, 0xC7), (0xD3, 0xB8, 0xB8, 0x6B), (0x3C, 0x14, 0x14, 0x28),
     (0x79, 0xDE, 0xDE, 0xA7), (0xE2, 0x5E, 0x5E, 0xBC), (0x1D, 0x0B, 0x0B, 0x16), (0x76, 0xDB, 0xDB, 0xAD),
     (0x3B, 0xE0, 0xE0, 0xDB), (0x56, 0x32, 0x32, 0x64), (0x4E, 0x3A, 0x3A, 0x74), (0x1E, 0x0A, 0x0A, 0x14),
     (0xDB, 0x49, 0x49, 0x92), (0x0A, 0x06, 0x06, 0x0C), (0x6C, 0x24, 0x24, 0x48), (0xE4, 0x5C, 0x5C, 0xB8),
     (0x5D, 0xC2, 0xC2, 0x9F), (0x6E, 0xD3, 0xD3, 0xBD), (0xEF, 0xAC, 0xAC, 0x43), (0xA6, 0x62, 0x62, 0xC4),
     (0xA8, 0x91, 0x91, 0x39), (0xA4, 0x95, 0x95, 0x31), (0x37, 0xE4, 0xE4, 0xD3), (0x8B, 0x79, 0x79, 0xF2),
     (0x32, 0xE7, 0xE7, 0xD5), (0x43, 0xC8, 0xC8, 0x8B), (0x59, 0x37, 0x37, 0x6E), (0xB7, 0x6D, 0x6D, 0xDA),
     (0x8C, 0x8D, 0x8D, 0x01), (0x64, 0xD5, 0xD5, 0xB1), (0xD2, 0x4E, 0x4E, 0x9C), (0xE0, 0xA9, 0xA9, 0x49),
     (0xB4, 0x6C, 0x6C, 0xD8), (0xFA, 0x56, 0x56, 0xAC), (0x07, 0xF4, 0xF4, 0xF3), (0x25, 0xEA, 0xEA, 0xCF),
     (0xAF, 0x65, 0x65, 0xCA), (0x8E, 0x7A, 0x7A, 0xF4), (0xE9, 0xAE, 0xAE, 0x47), (0x18, 0x08, 0x08, 0x10),
     (0xD5, 0xBA, 0xBA, 0x6F), (0x88, 0x78, 0x78, 0xF0), (0x6F, 0x25, 0x25, 0x4A), (0x72, 0x2E, 0x2E, 0x5C),
     (0x24, 0x1C, 0x1C, 0x38), (0xF1, 0xA6, 0xA6, 0x57), (0xC7, 0xB4, 0xB4, 0x73), (0x51, 0xC6, 0xC6, 0x97),
     (0x23, 0xE8, 0xE8, 0xCB), (0x7C, 0xDD, 0xDD, 0xA1), (0x9C, 0x74, 0x74, 0xE8), (0x21, 0x1F, 0x1F, 0x3E),
     (0xDD, 0x4B, 0x4B, 0x96), (0xDC, 0xBD, 0xBD, 0x61), (0x86, 0x8B, 0x8B, 0x0D), (0x85, 0x8A, 0x8A, 0x0F),
     (0x90, 0x70, 0x70, 0xE0), (0x42, 0x3E, 0x3E, 0x7C), (0xC4, 0xB5, 0xB5, 0x71), (0xAA, 0x66, 0x66, 0xCC),
     (0xD8, 0x48, 0x48, 0x90), (0x05, 0x03, 0x03, 0x06), (0x01, 0xF6, 0xF6, 0xF7), (0x12, 0x0E, 0x0E, 0x1C),
     (0xA3, 0x61, 0x61, 0xC2), (0x5F, 0x35, 0x35, 0x6A), (0xF9, 0x57, 0x57, 0xAE), (0xD0, 0xB9, 0xB9, 0x69),
     (0x91, 0x86, 0x86, 0x17), (0x58, 0xC1, 0xC1, 0x99), (0x27, 0x1D, 0x1D, 0x3A), (0xB9, 0x9E, 0x9E, 0x27),
     (0x38, 0xE1, 0xE1, 0xD9), (0x13, 0xF8, 0xF8, 0xEB), (0xB3, 0x98, 0x98, 0x2B), (0x33, 0x11, 0x11, 0x22),
     (0xBB, 0x69, 0x69, 0xD2), (0x70, 0xD9, 0xD9, 0xA9), (0x89, 0x8E, 0x8E, 0x07), (0xA7, 0x94, 0x94, 0x33),
     (0xB6, 0x9B, 0x9B, 0x2D), (0x22, 0x1E, 0x1E, 0x3C), (0x92, 0x87, 0x87, 0x15), (0x20, 0xE9, 0xE9, 0xC9),
     (0x49, 0xCE, 0xCE, 0x87), (0xFF, 0x55, 0x55, 0xAA), (0x78, 0x28, 0x28, 0x50), (0x7A, 0xDF, 0xDF, 0xA5),
     (0x8F, 0x8C, 0x8C, 0x03), (0xF8, 0xA1, 0xA1, 0x59), (0x80, 0x89, 0x89, 0x09), (0x17, 0x0D, 0x0D, 0x1A),
     (0xDA, 0xBF, 0xBF, 0x65), (0x31, 0xE6, 0xE6, 0xD7), (0xC6, 0x42, 0x42, 0x84), (0xB8, 0x68, 0x68, 0xD0),
     (0xC3, 0x41, 0x41, 0x82), (0xB0, 0x99, 0x99, 0x29), (0x77, 0x2D, 0x2D, 0x5A), (0x11, 0x0F, 0x0F, 0x1E),
     (0xCB, 0xB0, 0xB0, 0x7B), (0xFC, 0x54, 0x54, 0xA8), (0xD6, 0xBB, 0xBB, 0x6D), (0x3A, 0x16, 0x16, 0x2C)]"

definition RSb :: bytes where
  "RSb = [
     0x52, 0x09, 0x6A, 0xD5, 0x30, 0x36, 0xA5, 0x38,
     0xBF, 0x40, 0xA3, 0x9E, 0x81, 0xF3, 0xD7, 0xFB,
     0x7C, 0xE3, 0x39, 0x82, 0x9B, 0x2F, 0xFF, 0x87,
     0x34, 0x8E, 0x43, 0x44, 0xC4, 0xDE, 0xE9, 0xCB,
     0x54, 0x7B, 0x94, 0x32, 0xA6, 0xC2, 0x23, 0x3D,
     0xEE, 0x4C, 0x95, 0x0B, 0x42, 0xFA, 0xC3, 0x4E,
     0x08, 0x2E, 0xA1, 0x66, 0x28, 0xD9, 0x24, 0xB2,
     0x76, 0x5B, 0xA2, 0x49, 0x6D, 0x8B, 0xD1, 0x25,
     0x72, 0xF8, 0xF6, 0x64, 0x86, 0x68, 0x98, 0x16,
     0xD4, 0xA4, 0x5C, 0xCC, 0x5D, 0x65, 0xB6, 0x92,
     0x6C, 0x70, 0x48, 0x50, 0xFD, 0xED, 0xB9, 0xDA,
     0x5E, 0x15, 0x46, 0x57, 0xA7, 0x8D, 0x9D, 0x84,
     0x90, 0xD8, 0xAB, 0x00, 0x8C, 0xBC, 0xD3, 0x0A,
     0xF7, 0xE4, 0x58, 0x05, 0xB8, 0xB3, 0x45, 0x06,
     0xD0, 0x2C, 0x1E, 0x8F, 0xCA, 0x3F, 0x0F, 0x02,
     0xC1, 0xAF, 0xBD, 0x03, 0x01, 0x13, 0x8A, 0x6B,
     0x3A, 0x91, 0x11, 0x41, 0x4F, 0x67, 0xDC, 0xEA,
     0x97, 0xF2, 0xCF, 0xCE, 0xF0, 0xB4, 0xE6, 0x73,
     0x96, 0xAC, 0x74, 0x22, 0xE7, 0xAD, 0x35, 0x85,
     0xE2, 0xF9, 0x37, 0xE8, 0x1C, 0x75, 0xDF, 0x6E,
     0x47, 0xF1, 0x1A, 0x71, 0x1D, 0x29, 0xC5, 0x89,
     0x6F, 0xB7, 0x62, 0x0E, 0xAA, 0x18, 0xBE, 0x1B,
     0xFC, 0x56, 0x3E, 0x4B, 0xC6, 0xD2, 0x79, 0x20,
     0x9A, 0xDB, 0xC0, 0xFE, 0x78, 0xCD, 0x5A, 0xF4,
     0x1F, 0xDD, 0xA8, 0x33, 0x88, 0x07, 0xC7, 0x31,
     0xB1, 0x12, 0x10, 0x59, 0x27, 0x80, 0xEC, 0x5F,
     0x60, 0x51, 0x7F, 0xA9, 0x19, 0xB5, 0x4A, 0x0D,
     0x2D, 0xE5, 0x7A, 0x9F, 0x93, 0xC9, 0x9C, 0xEF,
     0xA0, 0xE0, 0x3B, 0x4D, 0xAE, 0x2A, 0xF5, 0xB0,
     0xC8, 0xEB, 0xBB, 0x3C, 0x83, 0x53, 0x99, 0x61,
     0x17, 0x2B, 0x04, 0x7E, 0xBA, 0x77, 0xD6, 0x26,
     0xE1, 0x69, 0x14, 0x63, 0x55, 0x21, 0x0C, 0x7D]"

definition RT :: "(u8 \<times> u8 \<times> u8 \<times> u8) list" where
  "RT = [
     (0x50, 0xA7, 0xF4, 0x51), (0x53, 0x65, 0x41, 0x7E), (0xC3, 0xA4, 0x17, 0x1A), (0x96, 0x5E, 0x27, 0x3A),
     (0xCB, 0x6B, 0xAB, 0x3B), (0xF1, 0x45, 0x9D, 0x1F), (0xAB, 0x58, 0xFA, 0xAC), (0x93, 0x03, 0xE3, 0x4B),
     (0x55, 0xFA, 0x30, 0x20), (0xF6, 0x6D, 0x76, 0xAD), (0x91, 0x76, 0xCC, 0x88), (0x25, 0x4C, 0x02, 0xF5),
     (0xFC, 0xD7, 0xE5, 0x4F), (0xD7, 0xCB, 0x2A, 0xC5), (0x80, 0x44, 0x35, 0x26), (0x8F, 0xA3, 0x62, 0xB5),
     (0x49, 0x5A, 0xB1, 0xDE), (0x67, 0x1B, 0xBA, 0x25), (0x98, 0x0E, 0xEA, 0x45), (0xE1, 0xC0, 0xFE, 0x5D),
     (0x02, 0x75, 0x2F, 0xC3), (0x12, 0xF0, 0x4C, 0x81), (0xA3, 0x97, 0x46, 0x8D), (0xC6, 0xF9, 0xD3, 0x6B),
     (0xE7, 0x5F, 0x8F, 0x03), (0x95, 0x9C, 0x92, 0x15), (0xEB, 0x7A, 0x6D, 0xBF), (0xDA, 0x59, 0x52, 0x95),
     (0x2D, 0x83, 0xBE, 0xD4), (0xD3, 0x21, 0x74, 0x58), (0x29, 0x69, 0xE0, 0x49), (0x44, 0xC8, 0xC9, 0x8E),
     (0x6A, 0x89, 0xC2, 0x75), (0x78, 0x79, 0x8E, 0xF4), (0x6B, 0x3E, 0x58, 0x99), (0xDD, 0x71, 0xB9, 0x27),
     (0xB6, 0x4F, 0xE1, 0xBE), (0x17, 0xAD, 0x88, 0xF0), (0x66, 0xAC, 0x20, 0xC9), (0xB4, 0x3A, 0xCE, 0x7D),
     (0x18, 0x4A, 0xDF, 0x63), (0x82, 0x31, 0x1A, 0xE5), (0x60, 0x33, 0x51, 0x97), (0x45, 0x7F, 0x53, 0x62),
     (0xE0, 0x77, 0x64, 0xB1), (0x84, 0xAE, 0x6B, 0xBB), (0x1C, 0xA0, 0x81, 0xFE), (0x94, 0x2B, 0x08, 0xF9),
     (0x58, 0x68, 0x48, 0x70), (0x19, 0xFD, 0x45, 0x8F), (0x87, 0x6C, 0xDE, 0x94), (0xB7, 0xF8, 0x7B, 0x52),
     (0x23, 0xD3, 0x73, 0xAB), (0xE2, 0x02, 0x4B, 0x72), (0x57, 0x8F, 0x1F, 0xE3), (0x2A, 0xAB, 0x55, 0x66),
     (0x07, 0x28, 0xEB, 0xB2), (0x03, 0xC2, 0xB5, 0x2F), (0x9A, 0x7B, 0xC5, 0x86), (0xA5, 0x08, 0x37, 0xD3),
     (0xF2, 0x87, 0x28, 0x30), (0xB2, 0xA5, 0xBF, 0x23), (0xBA, 0x6A, 0x03, 0x02), (0x5C, 0x82, 0x16, 0xED),
     (0x2B, 0x1C, 0xCF, 0x8A), (0x92, 0xB4, 0x79, 0xA7), (0xF0, 0xF2, 0x07, 0xF3), (0xA1, 0xE2, 0x69, 0x4E),
     (0xCD, 0xF4, 0xDA, 0x65), (0xD5, 0xBE, 0x05, 0x06), (0x1F, 0x62, 0x34, 0xD1), (0x8A, 0xFE, 0xA6, 0xC4),
     (0x9D, 0x53, 0x2E, 0x34), (0xA0, 0x55, 0xF3, 0xA2), (0x32, 0xE1, 0x8A, 0x05), (0x75, 0xEB, 0xF6, 0xA4),
     (0x39, 0xEC, 0x83, 0x0B), (0xAA, 0xEF, 0x60, 0x40), (0x06, 0x9F, 0x71, 0x5E), (0x51, 0x10, 0x6E, 0xBD),
     (0xF9, 0x8A, 0x21, 0x3E), (0x3D, 0x06, 0xDD, 0x96), (0xAE, 0x05, 0x3E, 0xDD), (0x46, 0xBD, 0xE6, 0x4D),
     (0xB5, 0x8D, 0x54, 0x91), (0x05, 0x5D, 0xC4, 0x71), (0x6F, 0xD4, 0x06, 0x04), (0xFF, 0x15, 0x50, 0x60),
     (0x24, 0xFB, 0x98, 0x19), (0x97, 0xE9, 0xBD, 0xD6), (0xCC, 0x43, 0x40, 0x89), (0x77, 0x9E, 0xD9, 0x67),
     (0xBD, 0x42, 0xE8, 0xB0), (0x88, 0x8B, 0x89, 0x07), (0x38, 0x5B, 0x19, 0xE7), (0xDB, 0xEE, 0xC8, 0x79),
     (0x47, 0x0A, 0x7C, 0xA1), (0xE9, 0x0F, 0x42, 0x7C), (0xC9, 0x1E, 0x84, 0xF8), (0x00, 0x00, 0x00, 0x00),
     (0x83, 0x86, 0x80, 0x09), (0x48, 0xED, 0x2B, 0x32), (0xAC, 0x70, 0x11, 0x1E), (0x4E, 0x72, 0x5A, 0x6C),
     (0xFB, 0xFF, 0x0E, 0xFD), (0x56, 0x38, 0x85, 0x0F), (0x1E, 0xD5, 0xAE, 0x3D), (0x27, 0x39, 0x2D, 0x36),
     (0x64, 0xD9, 0x0F, 0x0A), (0x21, 0xA6, 0x5C, 0x68), (0xD1, 0x54, 0x5B, 0x9B), (0x3A, 0x2E, 0x36, 0x24),
     (0xB1, 0x67, 0x0A, 0x0C), (0x0F, 0xE7, 0x57, 0x93), (0xD2, 0x96, 0xEE, 0xB4), (0x9E, 0x91, 0x9B, 0x1B),
     (0x4F, 0xC5, 0xC0, 0x80), (0xA2, 0x20, 0xDC, 0x61), (0x69, 0x4B, 0x77, 0x5A), (0x16, 0x1A, 0x12, 0x1C),
     (0x0A, 0xBA, 0x93, 0xE2), (0xE5, 0x2A, 0xA0, 0xC0), (0x43, 0xE0, 0x22, 0x3C), (0x1D, 0x17, 0x1B, 0x12),
     (0x0B, 0x0D, 0x09, 0x0E), (0xAD, 0xC7, 0x8B, 0xF2), (0xB9, 0xA8, 0xB6, 0x2D), (0xC8, 0xA9, 0x1E, 0x14),
     (0x85, 0x19, 0xF1, 0x57), (0x4C, 0x07, 0x75, 0xAF), (0xBB, 0xDD, 0x99, 0xEE), (0xFD, 0x60, 0x7F, 0xA3),
     (0x9F, 0x26, 0x01, 0xF7), (0xBC, 0xF5, 0x72, 0x5C), (0xC5, 0x3B, 0x66, 0x44), (0x34, 0x7E, 0xFB, 0x5B),
     (0x76, 0x29, 0x43, 0x8B), (0xDC, 0xC6, 0x23, 0xCB), (0x68, 0xFC, 0xED, 0xB6), (0x63, 0xF1, 0xE4, 0xB8),
     (0xCA, 0xDC, 0x31, 0xD7), (0x10, 0x85, 0x63, 0x42), (0x40, 0x22, 0x97, 0x13), (0x20, 0x11, 0xC6, 0x84),
     (0x7D, 0x24, 0x4A, 0x85), (0xF8, 0x3D, 0xBB, 0xD2), (0x11, 0x32, 0xF9, 0xAE), (0x6D, 0xA1, 0x29, 0xC7),
     (0x4B, 0x2F, 0x9E, 0x1D), (0xF3, 0x30, 0xB2, 0xDC), (0xEC, 0x52, 0x86, 0x0D), (0xD0, 0xE3, 0xC1, 0x77),
     (0x6C, 0x16, 0xB3, 0x2B), (0x99, 0xB9, 0x70, 0xA9), (0xFA, 0x48, 0x94, 0x11), (0x22, 0x64, 0xE9, 0x47),
     (0xC4, 0x8C, 0xFC, 0xA8), (0x1A, 0x3F, 0xF0, 0xA0), (0xD8, 0x2C, 0x7D, 0x56), (0xEF, 0x90, 0x33, 0x22),
     (0xC7, 0x4E, 0x49, 0x87), (0xC1, 0xD1, 0x38, 0xD9), (0xFE, 0xA2, 0xCA, 0x8C), (0x36, 0x0B, 0xD4, 0x98),
     (0xCF, 0x81, 0xF5, 0xA6), (0x28, 0xDE, 0x7A, 0xA5), (0x26, 0x8E, 0xB7, 0xDA), (0xA4, 0xBF, 0xAD, 0x3F),
     (0xE4, 0x9D, 0x3A, 0x2C), (0x0D, 0x92, 0x78, 0x50), (0x9B, 0xCC, 0x5F, 0x6A), (0x62, 0x46, 0x7E, 0x54),
     (0xC2, 0x13, 0x8D, 0xF6), (0xE8, 0xB8, 0xD8, 0x90), (0x5E, 0xF7, 0x39, 0x2E), (0xF5, 0xAF, 0xC3, 0x82),
     (0xBE, 0x80, 0x5D, 0x9F), (0x7C, 0x93, 0xD0, 0x69), (0xA9, 0x2D, 0xD5, 0x6F), (0xB3, 0x12, 0x25, 0xCF),
     (0x3B, 0x99, 0xAC, 0xC8), (0xA7, 0x7D, 0x18, 0x10), (0x6E, 0x63, 0x9C, 0xE8), (0x7B, 0xBB, 0x3B, 0xDB),
     (0x09, 0x78, 0x26, 0xCD), (0xF4, 0x18, 0x59, 0x6E), (0x01, 0xB7, 0x9A, 0xEC), (0xA8, 0x9A, 0x4F, 0x83),
     (0x65, 0x6E, 0x95, 0xE6), (0x7E, 0xE6, 0xFF, 0xAA), (0x08, 0xCF, 0xBC, 0x21), (0xE6, 0xE8, 0x15, 0xEF),
     (0xD9, 0x9B, 0xE7, 0xBA), (0xCE, 0x36, 0x6F, 0x4A), (0xD4, 0x09, 0x9F, 0xEA), (0xD6, 0x7C, 0xB0, 0x29),
     (0xAF, 0xB2, 0xA4, 0x31), (0x31, 0x23, 0x3F, 0x2A), (0x30, 0x94, 0xA5, 0xC6), (0xC0, 0x66, 0xA2, 0x35),
     (0x37, 0xBC, 0x4E, 0x74), (0xA6, 0xCA, 0x82, 0xFC), (0xB0, 0xD0, 0x90, 0xE0), (0x15, 0xD8, 0xA7, 0x33),
     (0x4A, 0x98, 0x04, 0xF1), (0xF7, 0xDA, 0xEC, 0x41), (0x0E, 0x50, 0xCD, 0x7F), (0x2F, 0xF6, 0x91, 0x17),
     (0x8D, 0xD6, 0x4D, 0x76), (0x4D, 0xB0, 0xEF, 0x43), (0x54, 0x4D, 0xAA, 0xCC), (0xDF, 0x04, 0x96, 0xE4),
     (0xE3, 0xB5, 0xD1, 0x9E), (0x1B, 0x88, 0x6A, 0x4C), (0xB8, 0x1F, 0x2C, 0xC1), (0x7F, 0x51, 0x65, 0x46),
     (0x04, 0xEA, 0x5E, 0x9D), (0x5D, 0x35, 0x8C, 0x01), (0x73, 0x74, 0x87, 0xFA), (0x2E, 0x41, 0x0B, 0xFB),
     (0x5A, 0x1D, 0x67, 0xB3), (0x52, 0xD2, 0xDB, 0x92), (0x33, 0x56, 0x10, 0xE9), (0x13, 0x47, 0xD6, 0x6D),
     (0x8C, 0x61, 0xD7, 0x9A), (0x7A, 0x0C, 0xA1, 0x37), (0x8E, 0x14, 0xF8, 0x59), (0x89, 0x3C, 0x13, 0xEB),
     (0xEE, 0x27, 0xA9, 0xCE), (0x35, 0xC9, 0x61, 0xB7), (0xED, 0xE5, 0x1C, 0xE1), (0x3C, 0xB1, 0x47, 0x7A),
     (0x59, 0xDF, 0xD2, 0x9C), (0x3F, 0x73, 0xF2, 0x55), (0x79, 0xCE, 0x14, 0x18), (0xBF, 0x37, 0xC7, 0x73),
     (0xEA, 0xCD, 0xF7, 0x53), (0x5B, 0xAA, 0xFD, 0x5F), (0x14, 0x6F, 0x3D, 0xDF), (0x86, 0xDB, 0x44, 0x78),
     (0x81, 0xF3, 0xAF, 0xCA), (0x3E, 0xC4, 0x68, 0xB9), (0x2C, 0x34, 0x24, 0x38), (0x5F, 0x40, 0xA3, 0xC2),
     (0x72, 0xC3, 0x1D, 0x16), (0x0C, 0x25, 0xE2, 0xBC), (0x8B, 0x49, 0x3C, 0x28), (0x41, 0x95, 0x0D, 0xFF),
     (0x71, 0x01, 0xA8, 0x39), (0xDE, 0xB3, 0x0C, 0x08), (0x9C, 0xE4, 0xB4, 0xD8), (0x90, 0xC1, 0x56, 0x64),
     (0x61, 0x84, 0xCB, 0x7B), (0x70, 0xB6, 0x32, 0xD5), (0x74, 0x5C, 0x6C, 0x48), (0x42, 0x57, 0xB8, 0xD0)]"

definition quad :: "u8 \<Rightarrow> u8 \<Rightarrow> u8 \<Rightarrow> u8 \<Rightarrow> u32" where
  "quad a b c d = push_bit 24 (ucast a) OR push_bit 16 (ucast b) OR push_bit 8 (ucast c) OR ucast d"

definition FT0 :: "u32 list" where "FT0 = map (\<lambda>(a, b, c, d). quad a b c d) FT"
definition FT1 :: "u32 list" where "FT1 = map (\<lambda>(a, b, c, d). quad b c d a) FT"
definition FT2 :: "u32 list" where "FT2 = map (\<lambda>(a, b, c, d). quad c d a b) FT"
definition FT3 :: "u32 list" where "FT3 = map (\<lambda>(a, b, c, d). quad d a b c) FT"

definition RT0 :: "u32 list" where "RT0 = map (\<lambda>(a, b, c, d). quad a b c d) RT"
definition RT1 :: "u32 list" where "RT1 = map (\<lambda>(a, b, c, d). quad b c d a) RT"
definition RT2 :: "u32 list" where "RT2 = map (\<lambda>(a, b, c, d). quad c d a b) RT"
definition RT3 :: "u32 list" where "RT3 = map (\<lambda>(a, b, c, d). quad d a b c) RT"

definition RCON :: "u32 list" where
  "RCON = [0x00000001, 0x00000002, 0x00000004, 0x00000008,
           0x00000010, 0x00000020, 0x00000040, 0x00000080,
           0x0000001B, 0x00000036]"

text \<open>\<open>T[ ( w >> 8 * k ) & 0xFF ]\<close>\<close>

definition lookup :: "'a list \<Rightarrow> nat \<Rightarrow> u32 \<Rightarrow> 'a" where
  "lookup T k w = T ! unat (drop_bit (8 * k) w AND 0xFF)"

section \<open>The key schedules\<close>

text \<open>The context; \<open>rk\<close> always points to \<open>buf\<close> in this build.\<close>

record aes_context =
  aes_nr :: nat
  aes_buf :: "u32 list"

definition aes_init :: aes_context where
  "aes_init = \<lparr> aes_nr = 0, aes_buf = replicate 68 0 \<rparr>"

text \<open>One pass of the loops, \<open>RK\<close> being \<open>p\<close> words into the buffer.\<close>

definition expand128 :: "nat \<Rightarrow> u32 list \<Rightarrow> u32 list" where
  "expand128 i RK =
     (let p = 4 * i;
          RK = RK [p + 4 := RK ! p XOR RCON ! i XOR
            ucast (lookup FSb 1 (RK ! (p + 3))) XOR
            push_bit 8 (ucast (lookup FSb 2 (RK ! (p + 3)))) XOR
            push_bit 16 (ucast (lookup FSb 3 (RK ! (p + 3)))) XOR
            push_bit 24 (ucast (lookup FSb 0 (RK ! (p + 3))))];
          RK = RK [p + 5 := RK ! (p + 1) XOR RK ! (p + 4)];
          RK = RK [p + 6 := RK ! (p + 2) XOR RK ! (p + 5)]
      in RK [p + 7 := RK ! (p + 3) XOR RK ! (p + 6)])"

definition expand192 :: "nat \<Rightarrow> u32 list \<Rightarrow> u32 list" where
  "expand192 i RK =
     (let p = 6 * i;
          RK = RK [p + 6 := RK ! p XOR RCON ! i XOR
            ucast (lookup FSb 1 (RK ! (p + 5))) XOR
            push_bit 8 (ucast (lookup FSb 2 (RK ! (p + 5)))) XOR
            push_bit 16 (ucast (lookup FSb 3 (RK ! (p + 5)))) XOR
            push_bit 24 (ucast (lookup FSb 0 (RK ! (p + 5))))];
          RK = RK [p + 7 := RK ! (p + 1) XOR RK ! (p + 6)];
          RK = RK [p + 8 := RK ! (p + 2) XOR RK ! (p + 7)];
          RK = RK [p + 9 := RK ! (p + 3) XOR RK ! (p + 8)];
          RK = RK [p + 10 := RK ! (p + 4) XOR RK ! (p + 9)]
      in RK [p + 11 := RK ! (p + 5) XOR RK ! (p + 10)])"

definition expand256 :: "nat \<Rightarrow> u32 list \<Rightarrow> u32 list" where
  "expand256 i RK =
     (let p = 8 * i;
          RK = RK [p + 8 := RK ! p XOR RCON ! i XOR
            ucast (lookup FSb 1 (RK ! (p + 7))) XOR
            push_bit 8 (ucast (lookup FSb 2 (RK ! (p + 7)))) XOR
            push_bit 16 (ucast (lookup FSb 3 (RK ! (p + 7)))) XOR
            push_bit 24 (ucast (lookup FSb 0 (RK ! (p + 7))))];
          RK = RK [p + 9 := RK ! (p + 1) XOR RK ! (p + 8)];
          RK = RK [p + 10 := RK ! (p + 2) XOR RK ! (p + 9)];
          RK = RK [p + 11 := RK ! (p + 3) XOR RK ! (p + 10)];
          RK = RK [p + 12 := RK ! (p + 4) XOR
            ucast (lookup FSb 0 (RK ! (p + 11))) XOR
            push_bit 8 (ucast (lookup FSb 1 (RK ! (p + 11)))) XOR
            push_bit 16 (ucast (lookup FSb 2 (RK ! (p + 11)))) XOR
            push_bit 24 (ucast (lookup FSb 3 (RK ! (p + 11))))];
          RK = RK [p + 13 := RK ! (p + 5) XOR RK ! (p + 12)];
          RK = RK [p + 14 := RK ! (p + 6) XOR RK ! (p + 13)]
      in RK [p + 15 := RK ! (p + 7) XOR RK ! (p + 14)])"

definition aes_setkey_enc :: "aes_context \<Rightarrow> bytes \<Rightarrow> nat \<Rightarrow> int \<times> aes_context" where
  "aes_setkey_enc ctx key keysize =
     (if keysize \<noteq> 128 \<and> keysize \<noteq> 192 \<and> keysize \<noteq> 256 then (-0x20, ctx)
      else
        let nr = (if keysize = 128 then 10 else if keysize = 192 then 12 else 14);
            RK = fold (\<lambda>i RK. RK [i := get_uint32_le key (4 * i)]) [0..<keysize div 32] (aes_buf ctx);
            RK = (if nr = 10 then fold expand128 [0..<10] RK
                  else if nr = 12 then fold expand192 [0..<8] RK
                  else fold expand256 [0..<7] RK)
        in (0, ctx \<lparr> aes_nr := nr, aes_buf := RK \<rparr>))"

text \<open>\<open>*RK++ = ... *SK++ ...\<close>, four times, with \<open>f\<close> the word computed.\<close>

definition move_words :: "(u32 \<Rightarrow> u32) \<Rightarrow> u32 list \<Rightarrow> nat \<times> nat \<times> u32 list \<Rightarrow> nat \<times> nat \<times> u32 list" where
  "move_words f src = fold (\<lambda>j (RK, SK, b). (RK + 1, SK + 1, b [RK := f (src ! SK)])) [0..<4]"

definition mix_key :: "u32 \<Rightarrow> u32" where
  "mix_key w = RT0 ! unat (lookup FSb 0 w) XOR RT1 ! unat (lookup FSb 1 w) XOR
     RT2 ! unat (lookup FSb 2 w) XOR RT3 ! unat (lookup FSb 3 w)"

definition aes_setkey_dec :: "aes_context \<Rightarrow> bytes \<Rightarrow> nat \<Rightarrow> int \<times> aes_context" where
  "aes_setkey_dec ctx key keysize =
     (let (ret, cty) = aes_setkey_enc aes_init key keysize
      in if ret \<noteq> 0 then (ret, ctx)
         else
           let nr = aes_nr cty;
               (RK, SK, b) = move_words (\<lambda>w. w) (aes_buf cty) (0, nr * 4, aes_buf ctx);
               (RK, SK, b) = fold (\<lambda>i s.
                   let (RK, SK, b) = move_words mix_key (aes_buf cty) s in (RK, SK - 8, b))
                 (rev [1..<nr]) (RK, SK - 8, b);
               (RK, SK, b) = move_words (\<lambda>w. w) (aes_buf cty) (RK, SK, b)
           in (0, ctx \<lparr> aes_nr := nr, aes_buf := b \<rparr>))"

section \<open>One block\<close>

type_synonym quad = "u32 \<times> u32 \<times> u32 \<times> u32"

text \<open>The macros of a round take the words \<open>Y\<close> and the round key pointer, \<open>p\<close>
  words into the key schedule, and give the words \<open>X\<close> and the pointer behind.\<close>

fun AES_FROUND :: "u32 list \<Rightarrow> quad \<times> nat \<Rightarrow> quad \<times> nat" where
  "AES_FROUND RK ((Y0, Y1, Y2, Y3), p) =
     ((RK ! p XOR lookup FT0 0 Y0 XOR lookup FT1 1 Y1 XOR lookup FT2 2 Y2 XOR lookup FT3 3 Y3,
       RK ! (p + 1) XOR lookup FT0 0 Y1 XOR lookup FT1 1 Y2 XOR lookup FT2 2 Y3 XOR lookup FT3 3 Y0,
       RK ! (p + 2) XOR lookup FT0 0 Y2 XOR lookup FT1 1 Y3 XOR lookup FT2 2 Y0 XOR lookup FT3 3 Y1,
       RK ! (p + 3) XOR lookup FT0 0 Y3 XOR lookup FT1 1 Y0 XOR lookup FT2 2 Y1 XOR lookup FT3 3 Y2), p + 4)"

fun AES_RROUND :: "u32 list \<Rightarrow> quad \<times> nat \<Rightarrow> quad \<times> nat" where
  "AES_RROUND RK ((Y0, Y1, Y2, Y3), p) =
     ((RK ! p XOR lookup RT0 0 Y0 XOR lookup RT1 1 Y3 XOR lookup RT2 2 Y2 XOR lookup RT3 3 Y1,
       RK ! (p + 1) XOR lookup RT0 0 Y1 XOR lookup RT1 1 Y0 XOR lookup RT2 2 Y3 XOR lookup RT3 3 Y2,
       RK ! (p + 2) XOR lookup RT0 0 Y2 XOR lookup RT1 1 Y1 XOR lookup RT2 2 Y0 XOR lookup RT3 3 Y3,
       RK ! (p + 3) XOR lookup RT0 0 Y3 XOR lookup RT1 1 Y2 XOR lookup RT2 2 Y1 XOR lookup RT3 3 Y0), p + 4)"

definition sub_word :: "bytes \<Rightarrow> u32 \<Rightarrow> u32 \<Rightarrow> u32 \<Rightarrow> u32 \<Rightarrow> u32" where
  "sub_word S a b c d = ucast (lookup S 0 a) XOR push_bit 8 (ucast (lookup S 1 b)) XOR
     push_bit 16 (ucast (lookup S 2 c)) XOR push_bit 24 (ucast (lookup S 3 d))"

fun last_round_dec :: "u32 list \<Rightarrow> quad \<times> nat \<Rightarrow> quad" where
  "last_round_dec RK ((Y0, Y1, Y2, Y3), p) =
     (RK ! p XOR sub_word RSb Y0 Y3 Y2 Y1, RK ! (p + 1) XOR sub_word RSb Y1 Y0 Y3 Y2,
      RK ! (p + 2) XOR sub_word RSb Y2 Y1 Y0 Y3, RK ! (p + 3) XOR sub_word RSb Y3 Y2 Y1 Y0)"

fun last_round_enc :: "u32 list \<Rightarrow> quad \<times> nat \<Rightarrow> quad" where
  "last_round_enc RK ((Y0, Y1, Y2, Y3), p) =
     (RK ! p XOR sub_word FSb Y0 Y1 Y2 Y3, RK ! (p + 1) XOR sub_word FSb Y1 Y2 Y3 Y0,
      RK ! (p + 2) XOR sub_word FSb Y2 Y3 Y0 Y1, RK ! (p + 3) XOR sub_word FSb Y3 Y0 Y1 Y2)"

definition AES_ENCRYPT :: int where "AES_ENCRYPT = 1"
definition AES_DECRYPT :: int where "AES_DECRYPT = 0"

definition aes_crypt_ecb :: "aes_context \<Rightarrow> int \<Rightarrow> bytes \<Rightarrow> int \<times> bytes" where
  "aes_crypt_ecb ctx mode input =
     (let RK = aes_buf ctx;
          X = ((get_uint32_le input 0 XOR RK ! 0, get_uint32_le input 4 XOR RK ! 1,
                get_uint32_le input 8 XOR RK ! 2, get_uint32_le input 12 XOR RK ! 3), 4);
          (X0, X1, X2, X3) =
            (if mode = AES_DECRYPT
             then let X = ((\<lambda>X. AES_RROUND RK (AES_RROUND RK X)) ^^ (aes_nr ctx div 2 - 1)) X
                  in last_round_dec RK (AES_RROUND RK X)
             else let X = ((\<lambda>X. AES_FROUND RK (AES_FROUND RK X)) ^^ (aes_nr ctx div 2 - 1)) X
                  in last_round_enc RK (AES_FROUND RK X))
      in (0, put_uint32_le X0 @ put_uint32_le X1 @ put_uint32_le X2 @ put_uint32_le X3))"

section \<open>The tables as functions of the S-box\<close>

lemma length_tables [simp]: "length FSb = 256" "length RSb = 256" "length FT = 256" "length RT = 256"
  by (simp_all add: FSb_def RSb_def FT_def RT_def)

lemma lookup_index [simp]: "unat (drop_bit (8 * k) w AND 0xFF) < 256" for w :: u32
  using unsigned_less[of "word_byte k w"] by (simp add: unat_word_byte)

end
