(* ===== verification/AesFips.thy ===== *)
theory AesFips
  imports Aes
begin

text \<open>
  AES as FIPS 197 defines it, on columns of bytes, and the lemmas of Aes.thy: the
  S-box is the one of the standard, the word tables hold its multiples, the
  two key schedules and the rounds compute the standard, for all three key sizes, and
  decryption inverts encryption.
\<close>

section \<open>FIPS 197\<close>

text \<open>The state is four columns of four bytes. Multiplication in the field is by
  \<open>xtime\<close>; the S-box is a parameter.\<close>

type_synonym column = "u8 \<times> u8 \<times> u8 \<times> u8"
type_synonym state = "column \<times> column \<times> column \<times> column"

definition xtime :: "u8 \<Rightarrow> u8" where
  "xtime x = push_bit 1 x XOR (if x AND 0x80 \<noteq> 0 then 0x1B else 0)"

definition mul2 :: "u8 \<Rightarrow> u8" where "mul2 x = xtime x"
definition mul3 :: "u8 \<Rightarrow> u8" where "mul3 x = xtime x XOR x"
definition mul9 :: "u8 \<Rightarrow> u8" where "mul9 x = xtime (xtime (xtime x)) XOR x"
definition mul11 :: "u8 \<Rightarrow> u8" where "mul11 x = xtime (xtime (xtime x)) XOR xtime x XOR x"
definition mul13 :: "u8 \<Rightarrow> u8" where "mul13 x = xtime (xtime (xtime x)) XOR xtime (xtime x) XOR x"
definition mul14 :: "u8 \<Rightarrow> u8" where "mul14 x = xtime (xtime (xtime x)) XOR xtime (xtime x) XOR xtime x"

fun map_column :: "(u8 \<Rightarrow> u8) \<Rightarrow> column \<Rightarrow> column" where
  "map_column f (a, b, c, d) = (f a, f b, f c, f d)"

fun add_column :: "column \<Rightarrow> column \<Rightarrow> column" where
  "add_column (a, b, c, d) (a', b', c', d') = (a XOR a', b XOR b', c XOR c', d XOR d')"

fun mix_column :: "column \<Rightarrow> column" where
  "mix_column (a, b, c, d) =
     (mul2 a XOR mul3 b XOR c XOR d, a XOR mul2 b XOR mul3 c XOR d,
      a XOR b XOR mul2 c XOR mul3 d, mul3 a XOR b XOR c XOR mul2 d)"

fun inv_mix_column :: "column \<Rightarrow> column" where
  "inv_mix_column (a, b, c, d) =
     (mul14 a XOR mul11 b XOR mul13 c XOR mul9 d, mul9 a XOR mul14 b XOR mul11 c XOR mul13 d,
      mul13 a XOR mul9 b XOR mul14 c XOR mul11 d, mul11 a XOR mul13 b XOR mul9 c XOR mul14 d)"

fun map_state :: "(column \<Rightarrow> column) \<Rightarrow> state \<Rightarrow> state" where
  "map_state f (p, q, r, s) = (f p, f q, f r, f s)"

fun add_round_key :: "state \<Rightarrow> state \<Rightarrow> state" where
  "add_round_key (k, l, m, n) (p, q, r, s) = (add_column k p, add_column l q, add_column m r, add_column n s)"

fun shift_rows :: "state \<Rightarrow> state" where
  "shift_rows ((a0, b0, c0, d0), (a1, b1, c1, d1), (a2, b2, c2, d2), (a3, b3, c3, d3)) =
     ((a0, b1, c2, d3), (a1, b2, c3, d0), (a2, b3, c0, d1), (a3, b0, c1, d2))"

fun inv_shift_rows :: "state \<Rightarrow> state" where
  "inv_shift_rows ((a0, b0, c0, d0), (a1, b1, c1, d1), (a2, b2, c2, d2), (a3, b3, c3, d3)) =
     ((a0, b3, c2, d1), (a1, b0, c3, d2), (a2, b1, c0, d3), (a3, b2, c1, d0))"

definition sbox :: "u8 \<Rightarrow> u8" where "sbox x = FSb ! unat x"
definition inv_sbox :: "u8 \<Rightarrow> u8" where "inv_sbox x = RSb ! unat x"

definition sub_bytes :: "state \<Rightarrow> state" where "sub_bytes = map_state (map_column sbox)"
definition inv_sub_bytes :: "state \<Rightarrow> state" where "inv_sub_bytes = map_state (map_column inv_sbox)"

text \<open>\<open>w i\<close> is the round key of round \<open>i\<close>, \<open>nr\<close> the number of rounds.\<close>

fun cipher_rounds :: "(nat \<Rightarrow> state) \<Rightarrow> nat \<Rightarrow> state \<Rightarrow> state" where
  "cipher_rounds w 0 s = add_round_key (w 0) s"
| "cipher_rounds w (Suc i) s =
     add_round_key (w (Suc i)) (map_state mix_column (shift_rows (sub_bytes (cipher_rounds w i s))))"

definition fips_cipher :: "nat \<Rightarrow> (nat \<Rightarrow> state) \<Rightarrow> state \<Rightarrow> state" where
  "fips_cipher nr w s = add_round_key (w nr) (shift_rows (sub_bytes (cipher_rounds w (nr - 1) s)))"

fun inv_cipher_rounds :: "nat \<Rightarrow> (nat \<Rightarrow> state) \<Rightarrow> nat \<Rightarrow> state \<Rightarrow> state" where
  "inv_cipher_rounds nr w 0 s = add_round_key (w nr) s"
| "inv_cipher_rounds nr w (Suc i) s = map_state inv_mix_column
     (add_round_key (w (nr - Suc i)) (inv_sub_bytes (inv_shift_rows (inv_cipher_rounds nr w i s))))"

definition fips_inv_cipher :: "nat \<Rightarrow> (nat \<Rightarrow> state) \<Rightarrow> state \<Rightarrow> state" where
  "fips_inv_cipher nr w s =
     add_round_key (w 0) (inv_sub_bytes (inv_shift_rows (inv_cipher_rounds nr w (nr - 1) s)))"

text \<open>The key expansion for a key of \<open>Nk\<close> columns.\<close>

definition rot_column :: "column \<Rightarrow> column" where
  "rot_column = (\<lambda>(a, b, c, d). (b, c, d, a))"

definition expand_next :: "nat \<Rightarrow> column list \<Rightarrow> column list" where
  "expand_next nk w =
     (let i = length w; temp = w ! (i - 1);
          temp = (if i mod nk = 0
                  then add_column (map_column sbox (rot_column temp)) ((xtime ^^ (i div nk - 1)) 1, 0, 0, 0)
                  else if nk > 6 \<and> i mod nk = 4 then map_column sbox temp
                  else temp)
      in w @ [add_column (w ! (i - nk)) temp])"

definition key_columns :: "nat \<Rightarrow> bytes \<Rightarrow> column list" where
  "key_columns nk key = map (\<lambda>i. (key ! (4 * i), key ! (4 * i + 1), key ! (4 * i + 2), key ! (4 * i + 3))) [0..<nk]"

definition key_expansion :: "nat \<Rightarrow> bytes \<Rightarrow> column list" where
  "key_expansion nk key = (expand_next nk ^^ (4 * (nk + 7) - nk)) (key_columns nk key)"

definition round_keys :: "nat \<Rightarrow> bytes \<Rightarrow> nat \<Rightarrow> state" where
  "round_keys nk key i =
     (let w = key_expansion nk key in (w ! (4 * i), w ! (4 * i + 1), w ! (4 * i + 2), w ! (4 * i + 3)))"

definition block_state :: "bytes \<Rightarrow> state" where
  "block_state b = ((b ! 0, b ! 1, b ! 2, b ! 3), (b ! 4, b ! 5, b ! 6, b ! 7),
     (b ! 8, b ! 9, b ! 10, b ! 11), (b ! 12, b ! 13, b ! 14, b ! 15))"

fun state_block :: "state \<Rightarrow> bytes" where
  "state_block ((a0, b0, c0, d0), (a1, b1, c1, d1), (a2, b2, c2, d2), (a3, b3, c3, d3)) =
     [a0, b0, c0, d0, a1, b1, c1, d1, a2, b2, c2, d2, a3, b3, c3, d3]"

section \<open>Decryption inverts encryption\<close>

lemma bit8_msb: "(x AND 0x80 \<noteq> 0) = bit x 7" for x :: u8
  by (simp add: bit_iff_and_push_bit_not_eq_0)

lemma xtime_xor: "xtime (a XOR b) = xtime a XOR xtime b"
  unfolding xtime_def bit8_msb by (rule bit_word_eqI) (auto simp: bit_simps)

lemmas mul_defs = mul2_def mul3_def mul9_def mul11_def mul13_def mul14_def

lemma xor_self_left: "a XOR (a XOR b) = b" for a :: "'a :: len word"
  by (simp add: xor.assoc[symmetric])

lemma add_column_twice [simp]: "add_column k (add_column k c) = c"
  by (cases k; cases c) (simp add: xor_self_left)

lemma add_round_key_twice [simp]: "add_round_key k (add_round_key k s) = s"
  by (cases k; cases s) simp

lemma inv_mix_column_mix [simp]: "inv_mix_column (mix_column c) = c"
  by (cases c) (simp add: mul_defs xtime_xor ac_simps xor_self_left)

lemma inv_mix_column_add: "inv_mix_column (add_column a b) = add_column (inv_mix_column a) (inv_mix_column b)"
  by (cases a; cases b) (simp add: mul_defs xtime_xor ac_simps)

lemma inv_shift_rows_shift [simp]: "inv_shift_rows (shift_rows s) = s"
  by (cases s rule: shift_rows.cases) simp

lemma RSb_FSb: "map (\<lambda>s. RSb ! unat s) FSb = map word_of_nat [0..<256]"
  by code_simp

lemma nth_of_map:
  assumes "map f xs = map g [0..<n]" "i < n" shows "f (xs ! i) = g i"
  using assms by (metis add.left_neutral length_map length_upt minus_nat.diff_0 nth_map nth_upt)

lemma inv_sbox_sbox [simp]: "inv_sbox (sbox x) = x"
proof -
  have "unat x < 256" using unsigned_less[of x] by simp
  from nth_of_map[OF RSb_FSb this] show ?thesis by (simp add: inv_sbox_def sbox_def)
qed

lemma inv_sub_bytes_sub [simp]: "inv_sub_bytes (sub_bytes s) = s"
  by (cases s) (auto simp: inv_sub_bytes_def sub_bytes_def split: prod.splits)

lemma inv_rounds:
  assumes "0 < nr" "i \<le> nr - 1"
  shows "inv_cipher_rounds nr w i (fips_cipher nr w s) = shift_rows (sub_bytes (cipher_rounds w (nr - 1 - i) s))"
  using assms(2)
proof (induction i)
  case 0
  then show ?case by (simp add: fips_cipher_def)
next
  case (Suc i)
  then obtain j where "nr - 1 = Suc i + j" by (metis le_Suc_ex)
  then have j: "nr = Suc (Suc (i + j))" using assms(1) by simp
  have [simp]: "map_state inv_mix_column (map_state mix_column s) = s" for s
    by (cases s rule: prod_cases4) simp
  from Suc show ?case by (simp add: j)
qed

lemma fips_inverse:
  assumes "0 < nr" shows "fips_inv_cipher nr w (fips_cipher nr w s) = s"
  using inv_rounds[OF assms, of "nr - 1"] by (simp add: fips_inv_cipher_def)

section \<open>The lookups compute FIPS 197\<close>

fun col :: "u32 \<Rightarrow> column" where
  "col w = (word_byte 0 w, word_byte 1 w, word_byte 2 w, word_byte 3 w)"

fun cols :: "quad \<Rightarrow> state" where
  "cols (x0, x1, x2, x3) = (col x0, col x1, col x2, col x3)"

definition key_at :: "u32 list \<Rightarrow> nat \<Rightarrow> state" where
  "key_at RK i = cols (RK ! (4 * i), RK ! (4 * i + 1), RK ! (4 * i + 2), RK ! (4 * i + 3))"

lemma col_inject: "col a = col b \<Longrightarrow> a = b"
  by (auto intro: word_eq_bytes)

lemma col_xor: "col (a XOR b) = add_column (col a) (col b)"
  by simp

lemma word_byte_quad [simp]:
  "word_byte 0 (quad a b c d) = d" "word_byte (Suc 0) (quad a b c d) = c"
  "word_byte 2 (quad a b c d) = b" "word_byte 3 (quad a b c d) = a"
  by (rule bit_word_eqI; auto simp: bit_word_byte quad_def bit_simps dest: bit_imp_le_length)+

lemma word_byte_shifted [simp]:
  "word_byte 0 (ucast (b :: u8)) = b" "word_byte (Suc 0) (ucast b) = 0" "word_byte 2 (ucast b) = 0" "word_byte 3 (ucast b) = 0"
  "word_byte 0 (push_bit 8 (ucast b)) = 0" "word_byte (Suc 0) (push_bit 8 (ucast b)) = b"
  "word_byte 2 (push_bit 8 (ucast b)) = 0" "word_byte 3 (push_bit 8 (ucast b)) = 0"
  "word_byte 0 (push_bit 16 (ucast b)) = 0" "word_byte (Suc 0) (push_bit 16 (ucast b)) = 0"
  "word_byte 2 (push_bit 16 (ucast b)) = b" "word_byte 3 (push_bit 16 (ucast b)) = 0"
  "word_byte 0 (push_bit 24 (ucast b)) = 0" "word_byte (Suc 0) (push_bit 24 (ucast b)) = 0"
  "word_byte 2 (push_bit 24 (ucast b)) = 0" "word_byte 3 (push_bit 24 (ucast b)) = b"
  by (rule bit_word_eqI; auto simp: bit_word_byte bit_simps dest: bit_imp_le_length)+

lemma lookup_sbox [simp]:
  "lookup FSb k w = sbox (word_byte k w)" "lookup RSb k w = inv_sbox (word_byte k w)"
  by (simp_all add: lookup_def sbox_def inv_sbox_def unat_word_byte)

lemma FT_bytes: "FT = map (\<lambda>s. (mul3 s, s, s, mul2 s)) FSb"
  by code_simp

lemma RT_bytes: "RT = map (\<lambda>s. (mul11 s, mul13 s, mul9 s, mul14 s)) RSb"
  by code_simp

lemma byte_index [simp]: "unat x < 256" for x :: u8
  using unsigned_less[of x] by simp

lemma lookup_FT: "lookup FT k w = (let s = sbox (word_byte k w) in (mul3 s, s, s, mul2 s))"
  by (simp add: lookup_def FT_bytes sbox_def unat_word_byte Let_def)

lemma lookup_RT: "lookup RT k w = (let s = inv_sbox (word_byte k w) in (mul11 s, mul13 s, mul9 s, mul14 s))"
  by (simp add: lookup_def RT_bytes inv_sbox_def unat_word_byte Let_def)

lemma lookup_words:
  "lookup FT0 k w = (case lookup FT k w of (a, b, c, d) \<Rightarrow> quad a b c d)"
  "lookup FT1 k w = (case lookup FT k w of (a, b, c, d) \<Rightarrow> quad b c d a)"
  "lookup FT2 k w = (case lookup FT k w of (a, b, c, d) \<Rightarrow> quad c d a b)"
  "lookup FT3 k w = (case lookup FT k w of (a, b, c, d) \<Rightarrow> quad d a b c)"
  "lookup RT0 k w = (case lookup RT k w of (a, b, c, d) \<Rightarrow> quad a b c d)"
  "lookup RT1 k w = (case lookup RT k w of (a, b, c, d) \<Rightarrow> quad b c d a)"
  "lookup RT2 k w = (case lookup RT k w of (a, b, c, d) \<Rightarrow> quad c d a b)"
  "lookup RT3 k w = (case lookup RT k w of (a, b, c, d) \<Rightarrow> quad d a b c)"
  by (simp_all add: lookup_def FT0_def FT1_def FT2_def FT3_def RT0_def RT1_def RT2_def RT3_def)

lemma forward_column:
  "col (lookup FT0 0 y0 XOR (lookup FT1 1 y1 XOR (lookup FT2 2 y2 XOR lookup FT3 3 y3))) =
     mix_column (sbox (word_byte 0 y0), sbox (word_byte 1 y1), sbox (word_byte 2 y2), sbox (word_byte 3 y3))"
  by (simp add: lookup_words lookup_FT Let_def)

lemma reverse_words:
  "x0 < 256 \<Longrightarrow> x1 < 256 \<Longrightarrow> x2 < 256 \<Longrightarrow> x3 < 256 \<Longrightarrow>
   col (RT0 ! x0 XOR (RT1 ! x1 XOR (RT2 ! x2 XOR RT3 ! x3))) =
     inv_mix_column (RSb ! x0, RSb ! x1, RSb ! x2, RSb ! x3)"
  by (simp add: RT0_def RT1_def RT2_def RT3_def RT_bytes)

lemma reverse_column:
  "col (lookup RT0 0 y0 XOR (lookup RT1 1 y1 XOR (lookup RT2 2 y2 XOR lookup RT3 3 y3))) =
     inv_mix_column (inv_sbox (word_byte 0 y0), inv_sbox (word_byte 1 y1), inv_sbox (word_byte 2 y2),
       inv_sbox (word_byte 3 y3))"
  unfolding lookup_def unat_word_byte inv_sbox_def by (intro reverse_words byte_index)

lemma mix_key_col: "col (mix_key w) = inv_mix_column (col w)"
  unfolding mix_key_def lookup_sbox xor.assoc
  by (subst reverse_words) (simp_all add: inv_sbox_sbox[unfolded inv_sbox_def])

lemma sub_word_col:
  "col (sub_word FSb a b c d) = (sbox (word_byte 0 a), sbox (word_byte 1 b), sbox (word_byte 2 c), sbox (word_byte 3 d))"
  "col (sub_word RSb a b c d) = (inv_sbox (word_byte 0 a), inv_sbox (word_byte 1 b),
     inv_sbox (word_byte 2 c), inv_sbox (word_byte 3 d))"
  by (simp_all add: sub_word_def)

text \<open>With a round key in front; the columns stay folded.\<close>

lemma key_columns_xor:
  "col (k XOR (lookup FT0 0 y0 XOR (lookup FT1 1 y1 XOR (lookup FT2 2 y2 XOR lookup FT3 3 y3)))) =
     add_column (col k)
       (mix_column (sbox (word_byte 0 y0), sbox (word_byte 1 y1), sbox (word_byte 2 y2), sbox (word_byte 3 y3)))"
  "col (k XOR (lookup RT0 0 y0 XOR (lookup RT1 1 y1 XOR (lookup RT2 2 y2 XOR lookup RT3 3 y3)))) =
     add_column (col k)
       (inv_mix_column (inv_sbox (word_byte 0 y0), inv_sbox (word_byte 1 y1), inv_sbox (word_byte 2 y2),
          inv_sbox (word_byte 3 y3)))"
  "col (k XOR sub_word FSb y0 y1 y2 y3) =
     add_column (col k) (sbox (word_byte 0 y0), sbox (word_byte 1 y1), sbox (word_byte 2 y2), sbox (word_byte 3 y3))"
  "col (k XOR sub_word RSb y0 y1 y2 y3) =
     add_column (col k) (inv_sbox (word_byte 0 y0), inv_sbox (word_byte 1 y1), inv_sbox (word_byte 2 y2),
       inv_sbox (word_byte 3 y3))"
  by (simp_all only: col_xor[of k] forward_column reverse_column sub_word_col)

lemma map_column_col:
  "map_column f (col w) = (f (word_byte 0 w), f (word_byte 1 w), f (word_byte 2 w), f (word_byte 3 w))"
  by simp

lemmas round_cols = fst_conv snd_conv cols.simps xor.assoc key_columns_xor key_at_def sub_bytes_def
  inv_sub_bytes_def map_state.simps map_column_col map_column.simps add_round_key.simps

lemma shift_columns:
  "shift_rows (col a, col b, col c, col d) =
     ((word_byte 0 a, word_byte 1 b, word_byte 2 c, word_byte 3 d), (word_byte 0 b, word_byte 1 c, word_byte 2 d, word_byte 3 a),
      (word_byte 0 c, word_byte 1 d, word_byte 2 a, word_byte 3 b), (word_byte 0 d, word_byte 1 a, word_byte 2 b, word_byte 3 c))"
  "inv_shift_rows (col a, col b, col c, col d) =
     ((word_byte 0 a, word_byte 1 d, word_byte 2 c, word_byte 3 b), (word_byte 0 b, word_byte 1 a, word_byte 2 d, word_byte 3 c),
      (word_byte 0 c, word_byte 1 b, word_byte 2 a, word_byte 3 d), (word_byte 0 d, word_byte 1 c, word_byte 2 b, word_byte 3 a))"
  by simp_all

lemma fround:
  "cols (fst (AES_FROUND RK (Y, 4 * i))) =
     add_round_key (key_at RK i) (map_state mix_column (shift_rows (sub_bytes (cols Y))))"
  by (cases Y rule: prod_cases4; simp only: AES_FROUND.simps round_cols shift_rows.simps)

lemma rround:
  "cols (fst (AES_RROUND RK (Y, 4 * i))) =
     add_round_key (key_at RK i) (map_state inv_mix_column (inv_sub_bytes (inv_shift_rows (cols Y))))"
  by (cases Y rule: prod_cases4; simp only: AES_RROUND.simps round_cols shift_columns)

lemma round_pointer [simp]:
  "snd (AES_FROUND RK X) = snd X + 4" "snd (AES_RROUND RK X) = snd X + 4"
  by (cases X; cases "fst X" rule: prod_cases4; simp)+

lemma last_rounds:
  "cols (last_round_enc RK (Y, 4 * i)) = add_round_key (key_at RK i) (shift_rows (sub_bytes (cols Y)))"
  "cols (last_round_dec RK (Y, 4 * i)) = add_round_key (key_at RK i) (inv_sub_bytes (inv_shift_rows (cols Y)))"
  by (cases Y rule: prod_cases4; simp only: last_round_enc.simps last_round_dec.simps round_cols
      shift_rows.simps shift_columns)+

section \<open>The S-box\<close>

text \<open>Multiplication in the field, and the affine map of FIPS 197.\<close>

fun gf_mul :: "nat \<Rightarrow> u8 \<Rightarrow> u8 \<Rightarrow> u8" where
  "gf_mul 0 x y = 0"
| "gf_mul (Suc n) x y = (if y AND 1 \<noteq> 0 then x else 0) XOR gf_mul n (xtime x) (drop_bit 1 y)"

definition rotl8 :: "nat \<Rightarrow> u8 \<Rightarrow> u8" where
  "rotl8 n x = push_bit n x OR drop_bit (8 - n) x"

definition affine :: "u8 \<Rightarrow> u8" where
  "affine x = x XOR rotl8 1 x XOR rotl8 2 x XOR rotl8 3 x XOR rotl8 4 x XOR 0x63"

definition inv_affine :: "u8 \<Rightarrow> u8" where
  "inv_affine y = rotl8 1 y XOR rotl8 3 y XOR rotl8 6 y XOR 0x05"

lemma gf_mul_code [code]:
  "gf_mul 0 x y = 0"
  "gf_mul (Suc n) x y = (if y AND 1 \<noteq> 0 then x else 0) XOR gf_mul n (value_of (xtime x)) (value_of (drop_bit 1 y))"
  by (simp_all add: value_of_id)

definition sbox_entry :: "u8 \<Rightarrow> u8 \<Rightarrow> bool" where
  "sbox_entry x y = (let z = value_of (inv_affine y) in affine z = y \<and> (if x = 0 then z = 0 else gf_mul 8 x z = 1))"

lemma FSb_entries0: "list_all2 sbox_entry (map word_of_nat [0..<0 + 64]) (take 64 (drop 0 FSb))"
  by code_simp

lemma FSb_entries1: "list_all2 sbox_entry (map word_of_nat [64..<64 + 64]) (take 64 (drop 64 FSb))"
  by code_simp

lemma FSb_entries2: "list_all2 sbox_entry (map word_of_nat [128..<128 + 64]) (take 64 (drop 128 FSb))"
  by code_simp

lemma FSb_entries3: "list_all2 sbox_entry (map word_of_nat [192..<192 + 64]) (take 64 (drop 192 FSb))"
  by code_simp

lemma entry_chunk:
  assumes "list_all2 sbox_entry (map word_of_nat [n..<n + 64]) (take 64 (drop n FSb))" "n \<le> i" "i < n + 64" "i < 256"
  shows "sbox_entry (word_of_nat i) (FSb ! i)"
  using list_all2_nthD[OF assms(1), of "i - n"] assms(2-) by simp

lemma sbox_fips: "sbox_entry x (sbox x)"
proof -
  have "sbox_entry (word_of_nat i) (FSb ! i)" if "i < 256" for i
  proof -
    consider "i < 64" | "64 \<le> i" "i < 128" | "128 \<le> i" "i < 192" | "192 \<le> i" by linarith
    then show ?thesis
      by cases (rule entry_chunk[OF FSb_entries0] entry_chunk[OF FSb_entries1] entry_chunk[OF FSb_entries2]
        entry_chunk[OF FSb_entries3]; use that in linarith)+
  qed
  from this[of "unat x"] show ?thesis by (simp add: sbox_def)
qed

section \<open>A block through the code\<close>

lemma funpow_twice: "((\<lambda>x. f (f x)) ^^ n) x = (f ^^ (2 * n)) x"
  by (induction n) auto

lemma enc_rounds:
  assumes "cols X = add_round_key (key_at RK 0) s"
  shows "\<exists>Y. (AES_FROUND RK ^^ n) (X, 4) = (Y, 4 * (n + 1)) \<and> cols Y = cipher_rounds (key_at RK) n s"
proof (induction n)
  case (Suc n)
  then obtain Y where Y: "(AES_FROUND RK ^^ n) (X, 4) = (Y, 4 * (n + 1))" "cols Y = cipher_rounds (key_at RK) n s"
    by blast
  have "cols (fst (AES_FROUND RK (Y, 4 * (n + 1)))) = cipher_rounds (key_at RK) (Suc n) s"
    by (subst fround) (simp add: Y(2))
  moreover have "snd (AES_FROUND RK (Y, 4 * (n + 1))) = 4 * (Suc n + 1)" by simp
  ultimately show ?case
    by (intro exI[of _ "fst (AES_FROUND RK (Y, 4 * (n + 1)))"]) (simp add: Y(1) prod_eq_iff)
qed (use assms in simp)

text \<open>The round keys of decryption: those of encryption in reverse order, all
  but the first and the last unmixed.\<close>

definition unmixed_keys :: "nat \<Rightarrow> (nat \<Rightarrow> state) \<Rightarrow> (nat \<Rightarrow> state) \<Rightarrow> bool" where
  "unmixed_keys nr w v \<longleftrightarrow> v 0 = w nr \<and> v nr = w 0 \<and>
     (\<forall>m. 0 < m \<and> m < nr \<longrightarrow> v m = map_state inv_mix_column (w (nr - m)))"

lemma inv_mix_add:
  "map_state inv_mix_column (add_round_key k s) =
     add_round_key (map_state inv_mix_column k) (map_state inv_mix_column s)"
  by (cases k rule: prod_cases4; cases s rule: prod_cases4) (simp only: map_state.simps add_round_key.simps inv_mix_column_add)

lemma dec_rounds:
  assumes X: "cols X = add_round_key (w nr) s" and keys: "unmixed_keys nr w (key_at RK)" and "n < nr"
  shows "\<exists>Y. (AES_RROUND RK ^^ n) (X, 4) = (Y, 4 * (n + 1)) \<and> cols Y = inv_cipher_rounds nr w n s"
  using assms(3)
proof (induction n)
  case (Suc n)
  then obtain Y where Y: "(AES_RROUND RK ^^ n) (X, 4) = (Y, 4 * (n + 1))" "cols Y = inv_cipher_rounds nr w n s"
    by (meson Suc_lessD)
  have k: "key_at RK (n + 1) = map_state inv_mix_column (w (nr - Suc n))"
    using keys Suc.prems by (simp add: unmixed_keys_def)
  have "cols (fst (AES_RROUND RK (Y, 4 * (n + 1)))) = inv_cipher_rounds nr w (Suc n) s"
    by (subst rround) (simp only: k Y(2) inv_cipher_rounds.simps inv_mix_add)
  moreover have "snd (AES_RROUND RK (Y, 4 * (n + 1))) = 4 * (Suc n + 1)" by simp
  ultimately show ?case
    by (intro exI[of _ "fst (AES_RROUND RK (Y, 4 * (n + 1)))"]) (simp add: Y(1) prod_eq_iff)
qed (use X in simp)

lemma state_block_cols:
  "state_block (cols (x0, x1, x2, x3)) = put_uint32_le x0 @ put_uint32_le x1 @ put_uint32_le x2 @ put_uint32_le x3"
  by (simp add: put_uint32_le_bytes)

lemma col_get: "col (get_uint32_le b i) = (b ! i, b ! (i + 1), b ! (i + 2), b ! (i + 3))"
  by (simp only: col.simps word_byte_get_le)

lemma first_key_added:
  "cols (get_uint32_le b 0 XOR RK ! 0, get_uint32_le b 4 XOR RK ! 1, get_uint32_le b 8 XOR RK ! 2,
     get_uint32_le b 12 XOR RK ! 3) = add_round_key (key_at RK 0) (block_state b)"
  by (simp only: cols.simps key_at_def block_state_def col_xor col_get add_round_key.simps)
    (simp add: ac_simps numeral_2_eq_2)

lemma crypt_ecb_enc:
  assumes "even (aes_nr ctx)" "2 \<le> aes_nr ctx"
  shows "aes_crypt_ecb ctx AES_ENCRYPT b =
    (0, state_block (fips_cipher (aes_nr ctx) (key_at (aes_buf ctx)) (block_state b)))"
proof -
  define RK nr where "RK = aes_buf ctx" and "nr = aes_nr ctx"
  obtain m where nr: "nr = 2 * Suc m" using assms unfolding nr_def by (metis evenE mult_is_0 not_numeral_le_zero old.nat.exhaust)
  define X where "X = (get_uint32_le b 0 XOR RK ! 0, get_uint32_le b 4 XOR RK ! 1,
    get_uint32_le b 8 XOR RK ! 2, get_uint32_le b 12 XOR RK ! 3)"
  have "cols X = add_round_key (key_at RK 0) (block_state b)"
    unfolding X_def by (rule first_key_added)
  from enc_rounds[OF this, of "Suc (2 * m)"] obtain Y where
      Y: "(AES_FROUND RK ^^ Suc (2 * m)) (X, 4) = (Y, 4 * nr)" "cols Y = cipher_rounds (key_at RK) (nr - 1) (block_state b)"
    unfolding nr by auto
  have l: "AES_FROUND RK (((\<lambda>X. AES_FROUND RK (AES_FROUND RK X)) ^^ (nr div 2 - 1)) (X, 4)) = (Y, 4 * nr)"
    using Y(1) by (simp add: funpow_twice nr)
  obtain x0 x1 x2 x3 where x: "last_round_enc RK (Y, 4 * nr) = (x0, x1, x2, x3)"
    using prod_cases4 by blast
  have "cols (x0, x1, x2, x3) = fips_cipher nr (key_at RK) (block_state b)"
    by (simp only: x[symmetric] last_rounds Y(2) fips_cipher_def)
  moreover have "aes_crypt_ecb ctx AES_ENCRYPT b =
      (0, put_uint32_le x0 @ put_uint32_le x1 @ put_uint32_le x2 @ put_uint32_le x3)"
    by (simp only: aes_crypt_ecb_def Let_def X_def[symmetric] RK_def[symmetric] nr_def[symmetric] l x
        AES_ENCRYPT_def AES_DECRYPT_def prod.case if_False zero_neq_one[symmetric])
  ultimately show ?thesis by (simp only: state_block_cols[symmetric] nr_def RK_def)
qed

lemma crypt_ecb_dec:
  assumes "even (aes_nr ctx)" "2 \<le> aes_nr ctx" and keys: "unmixed_keys (aes_nr ctx) w (key_at (aes_buf ctx))"
  shows "aes_crypt_ecb ctx AES_DECRYPT b = (0, state_block (fips_inv_cipher (aes_nr ctx) w (block_state b)))"
proof -
  define RK nr where "RK = aes_buf ctx" and "nr = aes_nr ctx"
  have k: "unmixed_keys nr w (key_at RK)" using keys by (simp add: RK_def nr_def)
  obtain m where nr: "nr = 2 * Suc m" using assms unfolding nr_def by (metis evenE mult_is_0 not_numeral_le_zero old.nat.exhaust)
  define X where "X = (get_uint32_le b 0 XOR RK ! 0, get_uint32_le b 4 XOR RK ! 1,
    get_uint32_le b 8 XOR RK ! 2, get_uint32_le b 12 XOR RK ! 3)"
  have "cols X = add_round_key (w nr) (block_state b)"
    using first_key_added[of b RK] k by (simp only: X_def unmixed_keys_def)
  from dec_rounds[OF this k, of "Suc (2 * m)"] obtain Y where
      Y: "(AES_RROUND RK ^^ Suc (2 * m)) (X, 4) = (Y, 4 * nr)" "cols Y = inv_cipher_rounds nr w (nr - 1) (block_state b)"
    unfolding nr by auto
  have l: "AES_RROUND RK (((\<lambda>X. AES_RROUND RK (AES_RROUND RK X)) ^^ (nr div 2 - 1)) (X, 4)) = (Y, 4 * nr)"
    using Y(1) by (simp add: funpow_twice nr)
  obtain x0 x1 x2 x3 where x: "last_round_dec RK (Y, 4 * nr) = (x0, x1, x2, x3)"
    using prod_cases4 by blast
  have "cols (x0, x1, x2, x3) = fips_inv_cipher nr w (block_state b)"
    using k by (simp only: x[symmetric] last_rounds Y(2) fips_inv_cipher_def unmixed_keys_def)
  moreover have "aes_crypt_ecb ctx AES_DECRYPT b =
      (0, put_uint32_le x0 @ put_uint32_le x1 @ put_uint32_le x2 @ put_uint32_le x3)"
    by (simp only: aes_crypt_ecb_def Let_def X_def[symmetric] RK_def[symmetric] nr_def[symmetric] l x
        AES_DECRYPT_def prod.case if_True simp_thms)
  ultimately show ?thesis by (simp only: state_block_cols[symmetric] nr_def)
qed

section \<open>The key schedules compute the key expansion\<close>

lemma move_words:
  assumes "4 * m + 4 \<le> length b"
  obtains b' where "move_words f src (4 * m, SK, b) = (4 * m + 4, SK + 4, b')" "length b' = length b"
    "\<forall>j<4. b' ! (4 * m + j) = f (src ! (SK + j))" "\<forall>i<4 * m. b' ! i = b ! i"
proof
  let ?b = "b [4 * m := f (src ! SK), 4 * m + 1 := f (src ! (SK + 1)), 4 * m + 2 := f (src ! (SK + 2)),
    4 * m + 3 := f (src ! (SK + 3))]"
  show "move_words f src (4 * m, SK, b) = (4 * m + 4, SK + 4, ?b)"
    by (simp add: move_words_def upt_rec numeral_eq_Suc)
  show "\<forall>j<4. ?b ! (4 * m + j) = f (src ! (SK + j))"
    using assms by (auto simp: numeral_eq_Suc less_Suc_eq nth_list_update)
qed simp_all

definition words_at :: "u32 list \<Rightarrow> nat \<Rightarrow> quad" where
  "words_at b i = (b ! (4 * i), b ! (4 * i + 1), b ! (4 * i + 2), b ! (4 * i + 3))"

fun map_quad :: "(u32 \<Rightarrow> u32) \<Rightarrow> quad \<Rightarrow> quad" where
  "map_quad f (a, b, c, d) = (f a, f b, f c, f d)"

lemma key_at_words: "key_at b i = cols (words_at b i)"
  by (simp only: key_at_def words_at_def)

lemma words_at_moved:
  "\<forall>j<4. b' ! (4 * m + j) = f (src ! (4 * n + j)) \<Longrightarrow> words_at b' m = map_quad f (words_at src n)"
  by (auto simp: words_at_def dest: spec[of _ 0] spec[of _ 1] spec[of _ 2] spec[of _ 3])

lemma words_at_kept: "\<forall>i<4 * m. b' ! i = b ! i \<Longrightarrow> k < m \<Longrightarrow> words_at b' k = words_at b k"
  by (simp add: words_at_def)

lemma mix_loop:
  assumes "4 * (m + n) \<le> length b"
  shows "\<exists>b'. fold (\<lambda>i s. let (RK, SK, b) = move_words mix_key src s in (RK, SK - 8, b)) (rev [1..<Suc n]) (4 * m, 4 * n, b)
      = (4 * (m + n), 0, b') \<and> length b' = length b \<and> (\<forall>k<m. words_at b' k = words_at b k) \<and>
        (\<forall>k<n. words_at b' (m + k) = map_quad mix_key (words_at src (n - k)))"
  using assms
proof (induction n arbitrary: m b)
  case (Suc n)
  obtain b1 where b1: "move_words mix_key src (4 * m, 4 * Suc n, b) = (4 * m + 4, 4 * Suc n + 4, b1)" "length b1 = length b"
    "\<forall>j<4. b1 ! (4 * m + j) = mix_key (src ! (4 * Suc n + j))" "\<forall>i<4 * m. b1 ! i = b ! i"
    using move_words[of m b mix_key src "4 * Suc n"] Suc.prems by auto
  from Suc.IH[of "Suc m" b1] Suc.prems b1(2) obtain b' where b':
    "fold (\<lambda>i s. let (RK, SK, b) = move_words mix_key src s in (RK, SK - 8, b)) (rev [1..<Suc n]) (4 * Suc m, 4 * n, b1)
      = (4 * (Suc m + n), 0, b')" "length b' = length b1" "\<forall>k<Suc m. words_at b' k = words_at b1 k"
    "\<forall>k<n. words_at b' (Suc m + k) = map_quad mix_key (words_at src (n - k))"
    by auto
  have "words_at b' (m + k) = map_quad mix_key (words_at src (Suc n - k))" if "k < Suc n" for k
  proof (cases k)
    case 0
    then show ?thesis using b'(3) words_at_moved[OF b1(3)] by simp
  next
    case (Suc j)
    then show ?thesis using b'(4) that by auto
  qed
  moreover have "\<forall>k<m. words_at b' k = words_at b k"
    using b'(3) words_at_kept[OF b1(4)] by simp
  ultimately show ?case
    using b1(1,2) b'(1,2) by (simp add: algebra_simps)
qed auto

lemma setkey_dec:
  assumes e: "aes_setkey_enc aes_init key keysize = (0, cty)" and nr: "0 < aes_nr cty" "aes_nr cty \<le> 14"
    and len: "length (aes_buf ctx) = 68"
  obtains ctx' where "aes_setkey_dec ctx key keysize = (0, ctx')" "aes_nr ctx' = aes_nr cty"
    "unmixed_keys (aes_nr cty) (key_at (aes_buf cty)) (key_at (aes_buf ctx'))"
proof -
  define src nr where "src = aes_buf cty" and "nr = aes_nr cty"
  obtain b1 where b1: "move_words (\<lambda>w. w) src (0, 4 * nr, aes_buf ctx) = (4 * 1, 4 * nr + 4, b1)" "length b1 = 68"
      "words_at b1 0 = words_at src nr"
  proof (rule move_words[of 0 "aes_buf ctx" "\<lambda>w. w" src "4 * nr"])
    have map_id: "map_quad (\<lambda>w. w) q = q" for q by (cases q rule: prod_cases4) simp
    fix b' assume b': "move_words (\<lambda>w. w) src (4 * 0, 4 * nr, aes_buf ctx) = (4 * 0 + 4, 4 * nr + 4, b')"
      "length b' = length (aes_buf ctx)" "\<forall>j<4. b' ! (4 * 0 + j) = src ! (4 * nr + j)"
    show thesis
      by (rule that[of b']) (use b' len words_at_moved[OF b'(3)] map_id in auto)
  qed (use len in simp)
  obtain n where n: "nr = Suc n" using assms(2) by (metis gr0_implies_Suc nr_def)
  from mix_loop[of 1 n b1 src] b1(2) assms(3) obtain b2 where b2:
    "fold (\<lambda>i s. let (RK, SK, b) = move_words mix_key src s in (RK, SK - 8, b)) (rev [1..<nr]) (4 * 1, 4 * n, b1)
      = (4 * nr, 0, b2)" "length b2 = 68" "\<forall>k<1. words_at b2 k = words_at b1 k"
    "\<forall>k<n. words_at b2 (1 + k) = map_quad mix_key (words_at src (n - k))"
    unfolding n nr_def[symmetric] by auto
  obtain b3 where b3: "move_words (\<lambda>w. w) src (4 * nr, 0, b2) = (4 * nr + 4, 4, b3)"
      "\<forall>j<4. b3 ! (4 * nr + j) = src ! (4 * 0 + j)" "\<forall>i<4 * nr. b3 ! i = b2 ! i"
  proof (rule move_words[of nr b2 "\<lambda>w. w" src 0])
    fix b' assume "move_words (\<lambda>w. w) src (4 * nr, 0, b2) = (4 * nr + 4, 0 + 4, b')"
      "\<forall>j<4. b' ! (4 * nr + j) = src ! (0 + j)" "\<forall>i<4 * nr. b' ! i = b2 ! i"
    then show thesis by (intro that[of b']) simp_all
  qed (use b2(2) assms(3) in \<open>simp add: nr_def\<close>)
  show thesis
  proof (rule that)
    show "aes_setkey_dec ctx key keysize = (0, ctx \<lparr> aes_nr := nr, aes_buf := b3 \<rparr>)"
      using b1(1) b2(1) b3(1) by (simp add: aes_setkey_dec_def e src_def[symmetric] nr_def[symmetric] mult.commute n)
    have kept: "words_at b3 k = words_at b2 k" if "k < nr" for k by (rule words_at_kept[OF b3(3) that])
    have map_id: "map_quad (\<lambda>w. w) q = q" for q by (cases q rule: prod_cases4) simp
    have mix: "cols (map_quad mix_key q) = map_state inv_mix_column (cols q)" for q
      by (cases q rule: prod_cases4) (simp only: map_quad.simps cols.simps map_state.simps mix_key_col)
    have "words_at b3 nr = words_at src 0" using words_at_moved[OF b3(2)] map_id by simp
    moreover have "words_at b3 m = map_quad mix_key (words_at src (nr - m))" if "0 < m" "m < nr" for m
      using that kept b2(4) n by (cases m) auto
    moreover have "words_at b3 0 = words_at src nr" using kept b1(3) b2(3) n by simp
    ultimately show "unmixed_keys (aes_nr cty) (key_at (aes_buf cty)) (key_at (aes_buf (ctx \<lparr> aes_nr := nr, aes_buf := b3 \<rparr>)))"
      by (simp add: unmixed_keys_def key_at_words mix nr_def[symmetric] src_def[symmetric] del: cols.simps)
  qed (simp add: nr_def)
qed

text \<open>The columns of the key expansion.\<close>

definition key_col :: "nat \<Rightarrow> bytes \<Rightarrow> nat \<Rightarrow> column" where
  "key_col nk key n = (expand_next nk ^^ (n + 1 - nk)) (key_columns nk key) ! n"

lemma expand_next_length [simp]: "length (expand_next nk w) = Suc (length w)"
  by (simp add: expand_next_def Let_def)

lemma expand_next_old: "n < length w \<Longrightarrow> expand_next nk w ! n = w ! n"
  unfolding expand_next_def Let_def by (simp only: nth_append if_True)

lemma length_expand: "length ((expand_next nk ^^ m) (key_columns nk key)) = nk + m"
  by (induction m) (simp_all add: key_columns_def)

lemma expand_prefix:
  "n < nk + m \<Longrightarrow> (expand_next nk ^^ (m + d)) (key_columns nk key) ! n = (expand_next nk ^^ m) (key_columns nk key) ! n"
  by (induction d) (simp_all add: expand_next_old length_expand)

lemma expand_nth:
  assumes "n < nk + m" shows "(expand_next nk ^^ m) (key_columns nk key) ! n = key_col nk key n"
proof -
  have "m = (n + 1 - nk) + (m - (n + 1 - nk))" using assms by simp
  then show ?thesis
    using expand_prefix[of n nk "n + 1 - nk" "m - (n + 1 - nk)" key] assms by (simp add: key_col_def)
qed

lemma key_col_first: "n < nk \<Longrightarrow> key_col nk key n = (key ! (4 * n), key ! (4 * n + 1), key ! (4 * n + 2), key ! (4 * n + 3))"
  by (simp add: key_col_def key_columns_def)

lemma key_col_next:
  assumes "0 < nk" "nk \<le> n"
  shows "key_col nk key n = add_column (key_col nk key (n - nk))
    (let temp = key_col nk key (n - 1) in
     if n mod nk = 0 then add_column (map_column sbox (rot_column temp)) ((xtime ^^ (n div nk - 1)) 1, 0, 0, 0)
     else if nk > 6 \<and> n mod nk = 4 then map_column sbox temp else temp)"
proof -
  let ?w = "(expand_next nk ^^ (n - nk)) (key_columns nk key)"
  have l: "length ?w = n" using assms by (simp add: length_expand)
  have "n + 1 - nk = Suc (n - nk)" using assms by simp
  then have "key_col nk key n = expand_next nk ?w ! n" by (simp add: key_col_def)
  moreover have "?w ! (n - nk) = key_col nk key (n - nk)" "?w ! (n - 1) = key_col nk key (n - 1)"
    using assms by (simp_all add: expand_nth)
  ultimately show ?thesis by (simp add: expand_next_def l Let_def nth_append)
qed

text \<open>The first \<open>n\<close> words of the buffer are right.\<close>

definition expanded :: "nat \<Rightarrow> bytes \<Rightarrow> nat \<Rightarrow> u32 list \<Rightarrow> bool" where
  "expanded nk key n RK \<longleftrightarrow> length RK = 68 \<and> (\<forall>m<n. col (RK ! m) = key_col nk key m)"

lemma expanded_step:
  assumes "expanded nk key n RK" "n < 68" "col v = key_col nk key n"
  shows "expanded nk key (Suc n) (RK [n := v])"
  using assms by (simp add: expanded_def nth_list_update less_Suc_eq del: col.simps)

lemma expanded_nth: "expanded nk key n RK \<Longrightarrow> m < n \<Longrightarrow> col (RK ! m) = key_col nk key m"
  by (simp add: expanded_def del: col.simps)

lemma expanded_xor:
  assumes "expanded nk key n RK" "0 < nk" "nk \<le> n" "n mod nk \<noteq> 0" "\<not> (nk > 6 \<and> n mod nk = 4)"
    "i + nk = n" "j + 1 = n" "n < 68" "n + 1 = m"
  shows "expanded nk key m (RK [n := RK ! i XOR RK ! j])"
proof (unfold assms(9)[symmetric], rule expanded_step[OF assms(1,8), simplified Suc_eq_plus1])
  have "i = n - nk" "j = n - 1" using assms by auto
  then show "col (RK ! i XOR RK ! j) = key_col nk key n"
    using assms expanded_nth[OF assms(1)]
    by (simp only: col_xor) (auto simp: key_col_next[of nk n] Let_def simp del: col.simps add_column.simps)
qed

lemma RCON_xtime: "i < 10 \<Longrightarrow> col (RCON ! i) = ((xtime ^^ i) 1, 0, 0, 0)"
proof -
  assume "i < 10"
  then have "i \<in> set [0..<10]" by simp
  moreover have "list_all (\<lambda>i. col (RCON ! i) = ((xtime ^^ i) 1, 0, 0, 0)) [0..<10]" by code_simp
  ultimately show ?thesis by (simp add: list_all_iff del: col.simps set_upt)
qed

lemma expanded_rcon:
  assumes "expanded nk key n RK" "0 < nk" "n = nk * (c + 1)" "p + nk = n" "j + 1 = n" "n < 68" "c < 10" "n + 1 = m"
  shows "expanded nk key m (RK [n := RK ! p XOR RCON ! c XOR
     ucast (sbox (word_byte 1 (RK ! j))) XOR push_bit 8 (ucast (sbox (word_byte 2 (RK ! j)))) XOR
     push_bit 16 (ucast (sbox (word_byte 3 (RK ! j)))) XOR push_bit 24 (ucast (sbox (word_byte 0 (RK ! j))))])"
proof (unfold assms(8)[symmetric], rule expanded_step[OF assms(1,6), simplified Suc_eq_plus1])
  have i: "p = n - nk" "j = n - 1" "n mod nk = 0" "n div nk - 1 = c" using assms by auto
  obtain b0 b1 b2 b3 where b: "col (RK ! j) = (b0, b1, b2, b3)" by simp
  have "key_col nk key n = add_column (col (RK ! p)) (add_column (sbox b1, sbox b2, sbox b3, sbox b0) (col (RCON ! c)))"
    using assms expanded_nth[OF assms(1), of p] expanded_nth[OF assms(1), of j] b i
    by (subst key_col_next) (simp_all add: rot_column_def RCON_xtime del: col.simps add_column.simps)
  then show "col (RK ! p XOR RCON ! c XOR
     ucast (sbox (word_byte 1 (RK ! j))) XOR push_bit 8 (ucast (sbox (word_byte 2 (RK ! j)))) XOR
     push_bit 16 (ucast (sbox (word_byte 3 (RK ! j)))) XOR push_bit 24 (ucast (sbox (word_byte 0 (RK ! j))))) = key_col nk key n"
    using b by (auto simp: ac_simps)
qed

lemma expanded_sub:
  assumes "expanded 8 key n RK" "n mod 8 = 4" "p + 8 = n" "j + 1 = n" "n < 68" "n + 1 = m"
  shows "expanded 8 key m (RK [n := RK ! p XOR
     ucast (sbox (word_byte 0 (RK ! j))) XOR push_bit 8 (ucast (sbox (word_byte 1 (RK ! j)))) XOR
     push_bit 16 (ucast (sbox (word_byte 2 (RK ! j)))) XOR push_bit 24 (ucast (sbox (word_byte 3 (RK ! j))))])"
proof (unfold assms(6)[symmetric], rule expanded_step[OF assms(1,5), simplified Suc_eq_plus1])
  have i: "p = n - 8" "j = n - 1" "8 \<le> n" using assms by auto
  obtain b0 b1 b2 b3 where b: "col (RK ! j) = (b0, b1, b2, b3)" by simp
  have "key_col 8 key n = add_column (col (RK ! p)) (sbox b0, sbox b1, sbox b2, sbox b3)"
    using assms expanded_nth[OF assms(1), of p] expanded_nth[OF assms(1), of j] b i
    by (subst key_col_next) (simp_all del: col.simps add_column.simps)
  then show "col (RK ! p XOR
     ucast (sbox (word_byte 0 (RK ! j))) XOR push_bit 8 (ucast (sbox (word_byte 1 (RK ! j)))) XOR
     push_bit 16 (ucast (sbox (word_byte 2 (RK ! j)))) XOR push_bit 24 (ucast (sbox (word_byte 3 (RK ! j))))) = key_col 8 key n"
    using b by (auto simp: ac_simps)
qed

lemma expand128:
  assumes "expanded 4 key (4 * i + 4) RK" "i < 10"
  shows "expanded 4 key (4 * Suc i + 4) (expand128 i RK)"
  unfolding expand128_def Let_def lookup_sbox
  by (intro expanded_xor[where nk = 4 and n = "4 * i + 7" and i = "4 * i + 3" and j = "4 * i + 6"]
      expanded_xor[where nk = 4 and n = "4 * i + 6" and i = "4 * i + 2" and j = "4 * i + 5"]
      expanded_xor[where nk = 4 and n = "4 * i + 5" and i = "4 * i + 1" and j = "4 * i + 4"]
      expanded_rcon[where nk = 4 and c = i and n = "4 * i + 4" and p = "4 * i" and j = "4 * i + 3"];
      (use assms in simp | presburger))

lemma expand192:
  assumes "expanded 6 key (6 * i + 6) RK" "i < 8"
  shows "expanded 6 key (6 * Suc i + 6) (expand192 i RK)"
  unfolding expand192_def Let_def lookup_sbox
  by (intro expanded_xor[where nk = 6 and n = "6 * i + 11" and i = "6 * i + 5" and j = "6 * i + 10"]
      expanded_xor[where nk = 6 and n = "6 * i + 10" and i = "6 * i + 4" and j = "6 * i + 9"]
      expanded_xor[where nk = 6 and n = "6 * i + 9" and i = "6 * i + 3" and j = "6 * i + 8"]
      expanded_xor[where nk = 6 and n = "6 * i + 8" and i = "6 * i + 2" and j = "6 * i + 7"]
      expanded_xor[where nk = 6 and n = "6 * i + 7" and i = "6 * i + 1" and j = "6 * i + 6"]
      expanded_rcon[where nk = 6 and c = i and n = "6 * i + 6" and p = "6 * i" and j = "6 * i + 5"];
      (use assms in simp | presburger))

lemma expand256:
  assumes "expanded 8 key (8 * i + 8) RK" "i < 7"
  shows "expanded 8 key (8 * Suc i + 8) (expand256 i RK)"
  unfolding expand256_def Let_def lookup_sbox
  by (intro expanded_xor[where nk = 8 and n = "8 * i + 15" and i = "8 * i + 7" and j = "8 * i + 14"]
      expanded_xor[where nk = 8 and n = "8 * i + 14" and i = "8 * i + 6" and j = "8 * i + 13"]
      expanded_xor[where nk = 8 and n = "8 * i + 13" and i = "8 * i + 5" and j = "8 * i + 12"]
      expanded_sub[where n = "8 * i + 12" and p = "8 * i + 4" and j = "8 * i + 11"]
      expanded_xor[where nk = 8 and n = "8 * i + 11" and i = "8 * i + 3" and j = "8 * i + 10"]
      expanded_xor[where nk = 8 and n = "8 * i + 10" and i = "8 * i + 2" and j = "8 * i + 9"]
      expanded_xor[where nk = 8 and n = "8 * i + 9" and i = "8 * i + 1" and j = "8 * i + 8"]
      expanded_rcon[where nk = 8 and c = i and n = "8 * i + 8" and p = "8 * i" and j = "8 * i + 7"];
      (use assms in simp | presburger))

lemma setkey_loop:
  assumes "expanded nk key nk RK" "\<And>i RK. expanded nk key (nk * i + nk) RK \<Longrightarrow> i < k \<Longrightarrow> expanded nk key (nk * Suc i + nk) (f i RK)"
    "n \<le> k"
  shows "expanded nk key (nk * n + nk) (fold f [0..<n] RK)"
  using assms(3)
proof (induction n)
  case (Suc n)
  then show ?case using assms(2)[of n "fold f [0..<n] RK"] by simp
qed (use assms(1) in simp)

lemma setkey_first:
  assumes "length RK = 68" "nk \<le> 68"
  shows "expanded nk key nk (fold (\<lambda>i RK. RK [i := get_uint32_le key (4 * i)]) [0..<nk] RK)"
proof -
  have "expanded nk key n (fold (\<lambda>i RK. RK [i := get_uint32_le key (4 * i)]) [0..<n] RK)" if "n \<le> nk" for n
    using that
  proof (induction n)
    case (Suc n)
    then show ?case
      using assms(2) by (simp, intro expanded_step) (simp_all add: col_get key_col_first del: col.simps)
  qed (use assms in \<open>simp add: expanded_def\<close>)
  then show ?thesis by simp
qed

definition rounds_of :: "nat \<Rightarrow> nat" where "rounds_of keysize = keysize div 32 + 6"

lemma expanded_key_at:
  assumes "expanded nk key n RK" "4 * (nk + 7) \<le> n" "i \<le> nk + 6" "0 < nk"
  shows "key_at RK i = round_keys nk key i"
  using assms by (simp add: key_at_def round_keys_def key_expansion_def Let_def expanded_nth expand_nth del: col.simps)

lemma setkey_enc:
  assumes "keysize \<in> {128, 192, 256}" "length (aes_buf ctx) = 68"
  obtains ctx' where "aes_setkey_enc ctx key keysize = (0, ctx')" "aes_nr ctx' = rounds_of keysize"
    "\<forall>i \<le> rounds_of keysize. key_at (aes_buf ctx') i = round_keys (keysize div 32) key i"
proof -
  let ?RK = "fold (\<lambda>i RK. RK [i := get_uint32_le key (4 * i)]) [0..<keysize div 32] (aes_buf ctx)"
  have f: "expanded (keysize div 32) key (keysize div 32) ?RK"
    using setkey_first[OF assms(2), of "keysize div 32"] assms(1) by auto
  consider "keysize = 128" | "keysize = 192" | "keysize = 256" using assms(1) by blast
  then show thesis
  proof cases
    case 1
    have "expanded 4 key (4 * 10 + 4) (fold expand128 [0..<10] ?RK)"
      by (rule setkey_loop[where k = 10]) (use f 1 expand128 in auto)
    from expanded_key_at[OF this] show thesis
      by (intro that[of "ctx \<lparr> aes_nr := 10, aes_buf := fold expand128 [0..<10] ?RK \<rparr>"])
        (simp_all add: aes_setkey_enc_def 1 rounds_of_def Let_def del: upt_rec_numeral)
  next
    case 2
    have "expanded 6 key (6 * 8 + 6) (fold expand192 [0..<8] ?RK)"
      by (rule setkey_loop[where k = 8]) (use f 2 expand192 in auto)
    from expanded_key_at[OF this] show thesis
      by (intro that[of "ctx \<lparr> aes_nr := 12, aes_buf := fold expand192 [0..<8] ?RK \<rparr>"])
        (simp_all add: aes_setkey_enc_def 2 rounds_of_def Let_def del: upt_rec_numeral)
  next
    case 3
    have "expanded 8 key (8 * 7 + 8) (fold expand256 [0..<7] ?RK)"
      by (rule setkey_loop[where k = 7]) (use f 3 expand256 in auto)
    from expanded_key_at[OF this] show thesis
      by (intro that[of "ctx \<lparr> aes_nr := 14, aes_buf := fold expand256 [0..<7] ?RK \<rparr>"])
        (simp_all add: aes_setkey_enc_def 3 rounds_of_def Let_def del: upt_rec_numeral)
  qed
qed

section \<open>Results\<close>

lemma cipher_rounds_cong: "(\<And>i. i \<le> n \<Longrightarrow> w i = v i) \<Longrightarrow> cipher_rounds w n s = cipher_rounds v n s"
  by (induction n) auto

lemma fips_cipher_cong: "(\<And>i. i \<le> nr \<Longrightarrow> w i = v i) \<Longrightarrow> fips_cipher nr w s = fips_cipher nr v s"
  by (simp add: fips_cipher_def cipher_rounds_cong[of "nr - Suc 0" w v])

lemma inv_cipher_rounds_cong:
  "(\<And>i. i \<le> nr \<Longrightarrow> w i = v i) \<Longrightarrow> inv_cipher_rounds nr w n s = inv_cipher_rounds nr v n s"
  by (induction n) auto

lemma fips_inv_cipher_cong: "(\<And>i. i \<le> nr \<Longrightarrow> w i = v i) \<Longrightarrow> fips_inv_cipher nr w s = fips_inv_cipher nr v s"
  by (simp add: fips_inv_cipher_def inv_cipher_rounds_cong[of nr w v])

lemma block_state_block [simp]: "block_state (state_block s) = s"
  by (cases s rule: state_block.cases) (simp add: block_state_def)

lemma state_block_state: "length b = 16 \<Longrightarrow> state_block (block_state b) = b"
  by (auto simp: block_state_def length_Suc_conv numeral_eq_Suc)

lemma length_state_block [simp, len_simps]: "length (state_block s) = 16"
  by (cases s rule: state_block.cases) simp

lemma length_init [simp]: "length (aes_buf aes_init) = 68"
  by (simp add: aes_init_def)

lemma rounds_even: "keysize \<in> {128, 192, 256} \<Longrightarrow> even (rounds_of keysize) \<and> 2 \<le> rounds_of keysize \<and> rounds_of keysize \<le> 14"
  by (auto simp: rounds_of_def)

lemma aes_block:
  assumes k: "keysize \<in> {128, 192, 256}"
  shows "aes_crypt_ecb (snd (aes_setkey_enc aes_init key keysize)) AES_ENCRYPT b =
      (0, state_block (fips_cipher (rounds_of keysize) (round_keys (keysize div 32) key) (block_state b)))"
    and "aes_crypt_ecb (snd (aes_setkey_dec aes_init key keysize)) AES_DECRYPT b =
      (0, state_block (fips_inv_cipher (rounds_of keysize) (round_keys (keysize div 32) key) (block_state b)))"
    and "fst (aes_setkey_enc aes_init key keysize) = 0" "fst (aes_setkey_dec aes_init key keysize) = 0"
proof -
  obtain e where e: "aes_setkey_enc aes_init key keysize = (0, e)" "aes_nr e = rounds_of keysize"
    "\<forall>i \<le> rounds_of keysize. key_at (aes_buf e) i = round_keys (keysize div 32) key i"
    using setkey_enc[OF k, of aes_init key] by auto
  obtain d where d: "aes_setkey_dec aes_init key keysize = (0, d)" "aes_nr d = aes_nr e"
    "unmixed_keys (aes_nr e) (key_at (aes_buf e)) (key_at (aes_buf d))"
    by (rule setkey_dec[OF e(1)]) (use rounds_even[OF k] e(2) in auto)
  show "aes_crypt_ecb (snd (aes_setkey_enc aes_init key keysize)) AES_ENCRYPT b =
      (0, state_block (fips_cipher (rounds_of keysize) (round_keys (keysize div 32) key) (block_state b)))"
    using crypt_ecb_enc[of e b] rounds_even[OF k] e fips_cipher_cong[of "rounds_of keysize" "key_at (aes_buf e)"] by simp
  show "aes_crypt_ecb (snd (aes_setkey_dec aes_init key keysize)) AES_DECRYPT b =
      (0, state_block (fips_inv_cipher (rounds_of keysize) (round_keys (keysize div 32) key) (block_state b)))"
    using crypt_ecb_dec[of d "key_at (aes_buf e)" b] rounds_even[OF k] e d
      fips_inv_cipher_cong[of "rounds_of keysize" "key_at (aes_buf e)"] by simp
  show "fst (aes_setkey_enc aes_init key keysize) = 0" "fst (aes_setkey_dec aes_init key keysize) = 0"
    using e d by auto
qed

section \<open>Property\<close>

text \<open>C26. The cipher compiled into the program is AES of FIPS 197: the compiled
  S-box is the affine image of the inverse in the field, and for each of the three
  key sizes the key schedules succeed, \<open>aes_crypt_ecb\<close> computes the cipher
  and the inverse cipher of the standard on every block, and decryption gives an
  encrypted block back.\<close>

theorem aes_is_fips197:
  assumes "keysize \<in> {128, 192, 256}" "length b = 16"
  shows "(\<forall>x. sbox_entry x (sbox x)) \<and>
    (let w = round_keys (keysize div 32) key; nr = rounds_of keysize;
         (r1, e) = aes_setkey_enc aes_init key keysize; (r2, d) = aes_setkey_dec aes_init key keysize
     in r1 = 0 \<and> r2 = 0 \<and>
        aes_crypt_ecb e AES_ENCRYPT b = (0, state_block (fips_cipher nr w (block_state b))) \<and>
        aes_crypt_ecb d AES_DECRYPT b = (0, state_block (fips_inv_cipher nr w (block_state b))) \<and>
        aes_crypt_ecb d AES_DECRYPT (snd (aes_crypt_ecb e AES_ENCRYPT b)) = (0, b))"
  using aes_block[OF assms(1), of key] rounds_even[OF assms(1)] assms(2)
  by (simp add: sbox_fips split_beta Let_def fips_inverse state_block_state)

lemma aes_is_fips197_witness:
  "let (r1, e) = aes_setkey_enc aes_init (replicate 16 7) 128; (r2, d) = aes_setkey_dec aes_init (replicate 16 7) 128
   in r1 = 0 \<and> r2 = 0 \<and> aes_crypt_ecb d AES_DECRYPT (snd (aes_crypt_ecb e AES_ENCRYPT (replicate 16 1))) = (0, replicate 16 1)"
  using aes_is_fips197[of 128 "replicate 16 1" "replicate 16 7", OF insertI1 length_replicate]
  unfolding split_beta Let_def by blast

text \<open>Any other key size is refused and the context kept.\<close>

lemma aes_key_size: "keysize \<notin> {128, 192, 256} \<Longrightarrow>
   aes_setkey_enc ctx key keysize = (-0x20, ctx) \<and> aes_setkey_dec ctx key keysize = (-0x20, ctx)"
  by (simp add: aes_setkey_enc_def aes_setkey_dec_def)

end
