(* ===== verification/Digest.thy ===== *)
theory Digest
  imports Words
begin

text \<open>
  What the three hash functions of src/lib have in common: a context with a byte
  counter, the chaining state and a buffer for a started block; the update in pieces
  of any size and the padding at the end. The word size of the counter and the state
  is 32 bits in md5.cpp and 64 bits (\<open>unsigned long\<close>) in the two SHA files, so the
  functions are polymorphic in it. Locale \<open>block_hash\<close>: whatever the pieces, the
  result is the hash of the padded concatenation.
\<close>

section \<open>The code\<close>

text \<open>\<open>total[0]\<close>, \<open>total[1]\<close>, \<open>state\<close>, \<open>buffer\<close>, and the two pads of HMAC.\<close>

record (overloaded) 'w digest_context =
  ctx_total0 :: "'w word"
  ctx_total1 :: "'w word"
  ctx_state :: "'w word list"
  ctx_buffer :: bytes
  ctx_ipad :: bytes
  ctx_opad :: bytes

text \<open>A local context before it is started: arbitrary, its buffer being 64 bytes.\<close>

definition local_context :: "('w :: len, 'z) digest_context_scheme \<Rightarrow> ('w, 'z) digest_context_scheme" where
  "local_context stack = stack \<lparr> ctx_buffer := take 64 (ctx_buffer stack @ replicate 64 0) \<rparr>"

lemma length_local_context [simp]: "length (ctx_buffer (local_context stack)) = 64"
  by (simp add: local_context_def)

text \<open>\<open>while( ilen >= 64 ) ...\<close>: the state after the whole blocks, and what is left.\<close>

function digest_blocks :: "('s \<Rightarrow> bytes \<Rightarrow> 's) \<Rightarrow> 's \<Rightarrow> bytes \<Rightarrow> 's \<times> bytes" where
  "digest_blocks process st input =
     (if length input < 64 then (st, input)
      else digest_blocks process (process st (take 64 input)) (drop 64 input))"
  by auto
termination by (relation "measure (\<lambda>(p, s, input). length input)") auto

declare digest_blocks.simps [simp del]

definition overwrite :: "bytes \<Rightarrow> nat \<Rightarrow> bytes \<Rightarrow> bytes" where
  "overwrite buf off bs = take off buf @ bs @ drop (off + length bs) buf"

lemma length_overwrite: "off + length bs \<le> length b \<Longrightarrow> length (overwrite b off bs) = length b"
  by (simp add: overwrite_def)

lemma take_overwrite: "off \<le> length b \<Longrightarrow> take (off + length bs) (overwrite b off bs) = take off b @ bs"
  by (simp add: overwrite_def)

definition digest_update ::
  "('w :: len word list \<Rightarrow> bytes \<Rightarrow> 'w word list) \<Rightarrow> ('w, 'z) digest_context_scheme \<Rightarrow> bytes \<Rightarrow> ('w, 'z) digest_context_scheme" where
  "digest_update process ctx input =
     (if input = [] then ctx
      else
        let ilen = length input;
            left = unat (ctx_total0 ctx AND 0x3F); fill = 64 - left;
            t0 = (ctx_total0 ctx + word_of_nat ilen) AND 0xFFFFFFFF;
            t1 = (if t0 < word_of_nat ilen then ctx_total1 ctx + 1 else ctx_total1 ctx);
            (st, buf, input, left) =
              (if left \<noteq> 0 \<and> ilen \<ge> fill
               then let buf = overwrite (ctx_buffer ctx) left (take fill input)
                    in (process (ctx_state ctx) buf, buf, drop fill input, 0)
               else (ctx_state ctx, ctx_buffer ctx, input, left));
            (st, input) = digest_blocks process st input;
            buf = (if input \<noteq> [] then overwrite buf left input else buf)
        in ctx \<lparr> ctx_total0 := t0, ctx_total1 := t1, ctx_state := st, ctx_buffer := buf \<rparr>)"

definition digest_padding :: bytes where
  "digest_padding = 0x80 # replicate 63 0"

text \<open>The padding; \<open>msglen\<close> writes the high and the low half of the length in bits.\<close>

definition digest_pad ::
  "('w :: len word list \<Rightarrow> bytes \<Rightarrow> 'w word list) \<Rightarrow> ('w word \<Rightarrow> 'w word \<Rightarrow> bytes) \<Rightarrow>
   ('w, 'z) digest_context_scheme \<Rightarrow> ('w, 'z) digest_context_scheme" where
  "digest_pad process msglen ctx =
     (let high = drop_bit 29 (ctx_total0 ctx) OR push_bit 3 (ctx_total1 ctx);
          low = push_bit 3 (ctx_total0 ctx);
          last = unat (ctx_total0 ctx AND 0x3F);
          padn = (if last < 56 then 56 - last else 120 - last);
          ctx = digest_update process ctx (take padn digest_padding)
      in digest_update process ctx (msglen high low))"

section \<open>What it computes\<close>

text \<open>The iteration over the blocks of a message, and the padded message: a bit, zeros
  and the length in bits, which \<open>len8\<close> writes in eight bytes.\<close>

definition hash_blocks :: "('s \<Rightarrow> bytes \<Rightarrow> 's) \<Rightarrow> 's \<Rightarrow> bytes \<Rightarrow> 's" where
  "hash_blocks process st m = fst (digest_blocks process st m)"

definition padded :: "(nat \<Rightarrow> bytes) \<Rightarrow> bytes \<Rightarrow> bytes" where
  "padded len8 m = m @ [0x80] @ replicate ((119 - length m mod 64) mod 64) 0 @ len8 (8 * length m)"

definition length_le :: "nat \<Rightarrow> bytes" where
  "length_le n = map (\<lambda>i. word_of_nat (drop_bit (8 * i) n)) [0..<8]"

definition length_be :: "nat \<Rightarrow> bytes" where
  "length_be n = rev (length_le n)"

lemma length_length_bytes [simp]: "length (length_le n) = 8" "length (length_be n) = 8"
  by (simp_all add: length_le_def length_be_def)

lemma padded_blocks: "(\<And>n. length (len8 n) = 8) \<Longrightarrow> length (padded len8 m) mod 64 = 0"
proof -
  assume l: "\<And>n. length (len8 n) = 8"
  have "(n + 9 + (119 - n mod 64) mod 64) mod 64 = 0" for n :: nat
  proof -
    obtain q r where n: "n = 64 * q + r" "r < 64"
      by (metis mod_less_divisor mult_div_mod_eq zero_less_numeral)
    have "(119 - r) mod 64 = (if r \<le> 55 then 55 - r else 119 - r)"
      using n(2) by (simp add: mod_if)
    then have "n + 9 + (119 - n mod 64) mod 64 = 64 * (q + (if r \<le> 55 then 1 else 2))"
      using n by simp
    then show ?thesis by (simp only: mod_mult_self1_is_0)
  qed
  from this[of "length m"] show ?thesis by (simp add: padded_def l ac_simps)
qed

lemma digest_blocks_rest: "snd (digest_blocks p st m) = drop (length m - length m mod 64) m"
proof (induction p st m rule: digest_blocks.induct)
  case (1 p st m)
  show ?case
  proof (cases "length m < 64")
    case False
    then have "length m mod 64 = (length m - 64) mod 64" by (simp add: le_mod_geq)
    moreover have "(length m - 64) mod 64 \<le> length m - 64" by simp
    ultimately have "length m - 64 - (length m - 64) mod 64 + 64 = length m - length m mod 64"
      using False by linarith
    then show ?thesis using 1 False by (subst digest_blocks.simps) simp
  qed (simp add: digest_blocks.simps)
qed

lemma digest_blocks_append:
  "digest_blocks p st (m @ x) = digest_blocks p (fst (digest_blocks p st m)) (snd (digest_blocks p st m) @ x)"
proof (induction p st m rule: digest_blocks.induct)
  case (1 p st m)
  show ?case
  proof (cases "length m < 64")
    case False
    have "digest_blocks p st (m @ x) = digest_blocks p (p st (take 64 m)) (drop 64 m @ x)"
      using False by (subst digest_blocks.simps) simp
    also have "\<dots> = digest_blocks p (fst (digest_blocks p (p st (take 64 m)) (drop 64 m)))
        (snd (digest_blocks p (p st (take 64 m)) (drop 64 m)) @ x)"
      using 1 False by simp
    also have "digest_blocks p (p st (take 64 m)) (drop 64 m) = digest_blocks p st m"
      using False by (subst (2) digest_blocks.simps) simp
    finally show ?thesis .
  qed (simp add: digest_blocks.simps)
qed

lemma hash_blocks_map:
  assumes step: "\<And>st b. P st \<Longrightarrow> f (p st b) = q (f st) b \<and> P (p st b)" and "P st"
  shows "f (hash_blocks p st m) = hash_blocks q (f st) m \<and> P (hash_blocks p st m)"
  using assms(2)
proof (induction "length m" arbitrary: st m rule: less_induct)
  case less
  show ?case
  proof (cases "length m < 64")
    case True
    then show ?thesis using less.prems by (simp add: hash_blocks_def digest_blocks.simps)
  next
    case False
    then have "length (drop 64 m) < length m" by simp
    from less.hyps[OF this, of "p st (take 64 m)"] step[OF less.prems] False show ?thesis
      unfolding hash_blocks_def by (subst (1 3) digest_blocks.simps, subst (2) digest_blocks.simps) simp
  qed
qed

section \<open>Registers in turn\<close>

text \<open>The rounds are written out with the registers passed in rotated order. Seen
  from the roles the arguments play, a step works on a list that it then rotates.\<close>

definition reg :: "nat \<Rightarrow> nat \<Rightarrow> nat \<Rightarrow> nat" where
  "reg n t j = (j + (n - 1) * t) mod n"

definition view :: "nat \<Rightarrow> 'a list \<Rightarrow> 'a list" where
  "view t R = map (\<lambda>j. R ! reg (length R) t j) [0..<length R]"

lemma length_view [simp]: "length (view t R) = length R"
  by (simp add: view_def)

lemma view_nth: "j < length R \<Longrightarrow> view t R ! j = R ! reg (length R) t j"
  by (simp add: view_def)

lemma reg_less: "j < n \<Longrightarrow> reg n t j < n"
  by (simp add: reg_def)

lemma add_mod_inject: "(i + c) mod n = (j + c) mod n \<Longrightarrow> i < n \<Longrightarrow> j < n \<Longrightarrow> i = j" for i j n :: nat
proof -
  assume e: "(i + c) mod n = (j + c) mod n" and ij: "i < n" "j < n"
  have "k = ((k + c) mod n + (n * c - c)) mod n" if "k < n" for k
  proof -
    have "c \<le> n * c" using that by simp
    then have "k + c + (n * c - c) = k + n * c" by simp
    moreover have "((k + c) mod n + (n * c - c)) mod n = (k + c + (n * c - c)) mod n" by (rule mod_add_left_eq)
    ultimately show ?thesis using that by (simp only: mod_mult_self2 mod_less)
  qed
  from this[OF ij(1)] this[OF ij(2)] e show "i = j" by simp
qed

lemma reg_inject: "i < n \<Longrightarrow> j < n \<Longrightarrow> reg n t i = reg n t j \<longleftrightarrow> i = j"
  using add_mod_inject[of i "(n - 1) * t" n j] by (auto simp: reg_def)

lemma view_update: "j < length R \<Longrightarrow> view t (R [reg (length R) t j := v]) = (view t R) [j := v]"
  by (rule nth_equalityI) (auto simp: view_nth nth_list_update reg_inject reg_less)

lemma view_next: "R \<noteq> [] \<Longrightarrow> view (Suc t) R = last (view t R) # butlast (view t R)"
proof (rule nth_equalityI)
  assume R: "R \<noteq> []"
  then show "length (view (Suc t) R) = length (last (view t R) # butlast (view t R))" by simp
  let ?n = "length R"
  fix i assume i: "i < length (view (Suc t) R)"
  show "view (Suc t) R ! i = (last (view t R) # butlast (view t R)) ! i"
  proof (cases i)
    case 0
    have "reg ?n (Suc t) 0 = reg ?n t (?n - 1)" by (simp add: reg_def ac_simps)
    moreover have "last (view t R) = view t R ! (?n - 1)" using R by (metis last_conv_nth length_0_conv length_view)
    ultimately show ?thesis using R 0 i by (simp add: view_nth)
  next
    case (Suc j)
    have "(Suc j + (?n - 1) * Suc t) mod ?n = (j + (?n - 1) * t + ?n) mod ?n" using R by (cases ?n) (simp_all add: ac_simps)
    then have "reg ?n (Suc t) (Suc j) = reg ?n t j" unfolding reg_def by simp
    then show ?thesis using Suc i by (simp add: view_nth nth_butlast)
  qed
qed

lemma view_whole: "length R dvd t \<Longrightarrow> view t R = R"
proof (rule nth_equalityI)
  assume d: "length R dvd t"
  fix i assume "i < length (view t R)"
  moreover have "(i + (length R - 1) * t) mod length R = i mod length R"
    using d by (metis dvd_mult mod_add_right_eq dvd_imp_mod_0 add.right_neutral)
  ultimately show "view t R ! i = R ! i" by (simp add: view_nth reg_def)
qed simp

section \<open>Streaming\<close>

text \<open>\<open>ctx\<close> has taken in the message \<open>m\<close>.\<close>

definition absorbed ::
  "('w :: len word list \<Rightarrow> bytes \<Rightarrow> 'w word list) \<Rightarrow> 'w word list \<Rightarrow> bytes \<Rightarrow> ('w, 'z) digest_context_scheme \<Rightarrow> bool" where
  "absorbed process init m ctx \<longleftrightarrow>
     ctx_total0 ctx = word_of_nat (length m mod 2 ^ 32) \<and> ctx_total1 ctx = word_of_nat (length m div 2 ^ 32) \<and>
     ctx_state ctx = hash_blocks process init m \<and> length (ctx_buffer ctx) = 64 \<and>
     take (length m mod 64) (ctx_buffer ctx) = drop (length m - length m mod 64) m"

locale block_hash =
  fixes process :: "'w :: len word list \<Rightarrow> bytes \<Rightarrow> 'w word list"
    and init :: "'w word list" and msglen :: "'w word \<Rightarrow> 'w word \<Rightarrow> bytes" and len8 :: "nat \<Rightarrow> bytes"
  assumes wide: "32 \<le> LENGTH('w)"
    and length_len8: "length (len8 n) = 8"
    and msglen_bits: "n < 2 ^ 61 \<Longrightarrow>
      msglen (drop_bit 29 (word_of_nat (n mod 2 ^ 32)) OR push_bit 3 (word_of_nat (n div 2 ^ 32)))
        (push_bit 3 (word_of_nat (n mod 2 ^ 32))) = len8 (8 * n)"
begin

lemma small_count: "a < 2 ^ 32 \<Longrightarrow> unat (word_of_nat a :: 'w word) = a"
proof -
  assume "a < 2 ^ 32"
  also have "(2 :: nat) ^ 32 \<le> 2 ^ LENGTH('w)" using wide by (rule power_increasing) simp
  finally show ?thesis by (simp add: unsigned_of_nat take_bit_nat_eq_self)
qed

lemma count_left: "absorbed process init m ctx \<Longrightarrow> unat (ctx_total0 ctx AND 0x3F) = length m mod 64"
proof -
  assume a: "absorbed process init m ctx"
  have k: "(0x3F :: 'w word) = mask 6" by (simp add: mask_eq_exp_minus_1)
  have "word_of_nat (length m mod 2 ^ 32) AND 0x3F = (word_of_nat (take_bit 6 (length m mod 2 ^ 32)) :: 'w word)"
    unfolding k by (simp flip: take_bit_eq_mask) (simp add: take_bit_of_nat)
  also have "take_bit 6 (length m mod 2 ^ 32) = length m mod 64"
    by (simp add: take_bit_eq_mod mod_mod_cancel)
  finally have "unat (word_of_nat (length m mod 2 ^ 32) AND 0x3F :: 'w word) = unat (word_of_nat (length m mod 64) :: 'w word)"
    by simp
  moreover have "unat (word_of_nat (length m mod 64) :: 'w word) = length m mod 64"
    by (rule small_count) (simp add: order.strict_trans[of _ 64])
  ultimately show ?thesis using a by (simp add: absorbed_def)
qed

text \<open>The two halves of the counter.\<close>

lemma count_add:
  fixes l n :: nat
  assumes "n < 2 ^ 32"
  defines "t \<equiv> (word_of_nat (l mod 2 ^ 32) + word_of_nat n) AND (0xFFFFFFFF :: 'w word)"
  shows "t = word_of_nat ((l + n) mod 2 ^ 32)"
    and "t < word_of_nat n \<longleftrightarrow> (l + n) div 2 ^ 32 = Suc (l div 2 ^ 32)"
    and "\<not> t < word_of_nat n \<longleftrightarrow> (l + n) div 2 ^ 32 = l div 2 ^ 32"
proof -
  have k: "(0xFFFFFFFF :: 'w word) = mask 32" by (simp add: mask_eq_exp_minus_1)
  have "t = word_of_nat (take_bit 32 (l mod 2 ^ 32 + n))"
    unfolding t_def k by (simp only: of_nat_add[symmetric] take_bit_eq_mask[symmetric] take_bit_of_nat)
  also have "take_bit 32 (l mod 2 ^ 32 + n) = (l + n) mod 2 ^ 32"
    by (simp add: take_bit_eq_mod mod_simps)
  finally show t: "t = word_of_nat ((l + n) mod 2 ^ 32)" .
  define K where "K = (2 :: nat) ^ 32"
  have n: "n < K" and r: "l mod K < K" using assms(1) by (simp_all add: K_def)
  have "t < word_of_nat n \<longleftrightarrow> (l + n) mod K < n"
    using assms(1) by (simp add: t word_less_nat_alt small_count K_def)
  moreover have "(l + n) mod K < n \<longleftrightarrow> K \<le> l mod K + n"
  proof (cases "K \<le> l mod K + n")
    case True
    have "(l + n) mod K = (l mod K + n) mod K" by (rule mod_add_left_eq[symmetric])
    also have "\<dots> = (l mod K + n - K) mod K" using True by (rule le_mod_geq)
    also have "\<dots> = l mod K + n - K" using r n by (intro mod_less) linarith
    finally show ?thesis using True r n by linarith
  next
    case False
    then have "(l + n) mod K = l mod K + n" by (metis mod_add_left_eq mod_less not_le)
    then show ?thesis using False by simp
  qed
  moreover have "(l + n) div K = l div K + (if K \<le> l mod K + n then 1 else 0)"
  proof -
    have "(l mod K + n) div K = (if K \<le> l mod K + n then 1 else 0)"
      using r n add_strict_mono[OF r n] by (auto intro!: div_nat_eqI)
    then show ?thesis using n by (simp add: div_add1_eq[of l n])
  qed
  ultimately show "t < word_of_nat n \<longleftrightarrow> (l + n) div 2 ^ 32 = Suc (l div 2 ^ 32)"
    and "\<not> t < word_of_nat n \<longleftrightarrow> (l + n) div 2 ^ 32 = l div 2 ^ 32"
    unfolding K_def[symmetric] by simp_all
qed

text \<open>The update is the iteration on what the buffer held and the new input.\<close>

lemma update_blocks:
  assumes a: "absorbed process init m ctx" and x: "x \<noteq> []"
  obtains rest where
    "digest_blocks process (ctx_state ctx) (drop (length m - length m mod 64) m @ x) =
       (ctx_state (digest_update process ctx x), rest)"
    "length (ctx_buffer (digest_update process ctx x)) = 64"
    "take (length rest) (ctx_buffer (digest_update process ctx x)) = rest"
proof -
  define r where "r = drop (length m - length m mod 64) m"
  let ?st = "ctx_state ctx" and ?buf = "ctx_buffer ctx" and ?left = "length m mod 64" and ?fill = "64 - length m mod 64"
  have left: "unat (ctx_total0 ctx AND 0x3F) = ?left" by (rule count_left[OF a])
  have r: "take ?left ?buf = r" "length r = ?left" and buf: "length ?buf = 64"
    using a by (auto simp: absorbed_def r_def)
  have lt: "?left < 64" by simp
  have small: "length (snd (digest_blocks process st y)) < 64" for st y
    by (simp add: digest_blocks_rest)
  have result: "ctx_state (digest_update process ctx x) = st2 \<and>
      ctx_buffer (digest_update process ctx x) = (if rest \<noteq> [] then overwrite buf1 left1 rest else buf1)"
    if "(if ?left \<noteq> 0 \<and> length x \<ge> ?fill
        then (process ?st (overwrite ?buf ?left (take ?fill x)), overwrite ?buf ?left (take ?fill x), drop ?fill x, 0)
        else (?st, ?buf, x, ?left)) = (st1, buf1, x1, left1)" "digest_blocks process st1 x1 = (st2, rest)"
    for st1 buf1 x1 left1 st2 rest
    by (simp only: digest_update_def Let_def left that x if_False prod.case) simp
  show thesis
  proof (cases "?left \<noteq> 0 \<and> length x \<ge> ?fill")
    case True
    let ?buf1 = "r @ take ?fill x"
    have b1: "overwrite ?buf ?left (take ?fill x) = ?buf1" using r buf True lt by (simp add: overwrite_def)
    have l1: "length ?buf1 = 64" using r True lt by simp
    obtain st2 rest where d: "digest_blocks process (process ?st ?buf1) (drop ?fill x) = (st2, rest)" by fastforce
    have "digest_blocks process ?st (r @ x) = (st2, rest)"
    proof -
      have "\<not> length (r @ x) < 64" unfolding length_append r(2) using True lt by linarith
      moreover have "take 64 (r @ x) = ?buf1" "drop 64 (r @ x) = drop ?fill x" using r True lt by simp_all
      ultimately show ?thesis by (subst digest_blocks.simps) (simp only: if_False d)
    qed
    moreover have "ctx_state (digest_update process ctx x) = st2 \<and>
        ctx_buffer (digest_update process ctx x) = (if rest \<noteq> [] then overwrite ?buf1 0 rest else ?buf1)"
      by (rule result[OF _ d]) (simp only: True b1 if_True simp_thms)
    moreover have "length rest < 64" using small[of "process ?st ?buf1" "drop ?fill x"] d by simp
    ultimately show thesis
      using l1 take_overwrite[of 0 ?buf1 rest] length_overwrite[of 0 rest ?buf1]
      by (intro that[of rest]) (auto simp: r_def[symmetric] simp del: length_append)
  next
    case False
    obtain st2 rest where d: "digest_blocks process ?st x = (st2, rest)" by fastforce
    have u: "ctx_state (digest_update process ctx x) = st2 \<and>
        ctx_buffer (digest_update process ctx x) = (if rest \<noteq> [] then overwrite ?buf ?left rest else ?buf)"
      by (rule result[OF _ d]) (simp only: False if_False simp_thms)
    have s: "length rest < 64" using small[of ?st x] d by simp
    show thesis
    proof (cases "?left = 0")
      case True
      then have "r = []" using r by simp
      then show thesis using u d s True buf by (intro that[of rest]) (auto simp: r_def[symmetric] overwrite_def)
    next
      case left0: False
      then have f: "length x < ?fill" using False by simp
      then have "length x < 64" by linarith
      then have "digest_blocks process ?st x = (?st, x)" by (simp add: digest_blocks.simps)
      then have e: "st2 = ?st" "rest = x" using d by simp_all
      have "length (r @ x) < 64" using f r(2) by simp
      then have "digest_blocks process ?st (r @ x) = (?st, r @ x)" by (subst digest_blocks.simps) (simp only: if_True)
      then show thesis
        using u e x r buf f by (intro that[of "r @ x"]) (auto simp: r_def[symmetric] overwrite_def)
    qed
  qed
qed

lemma update_absorbed:
  assumes a: "absorbed process init m ctx" and x: "length x < 2 ^ 32"
  shows "absorbed process init (m @ x) (digest_update process ctx x)"
proof (cases "x = []")
  case True
  then show ?thesis using a by (simp add: digest_update_def)
next
  case False
  obtain rest where u: "digest_blocks process (ctx_state ctx) (drop (length m - length m mod 64) m @ x) =
       (ctx_state (digest_update process ctx x), rest)"
    "length (ctx_buffer (digest_update process ctx x)) = 64"
    "take (length rest) (ctx_buffer (digest_update process ctx x)) = rest"
    by (rule update_blocks[OF a False])
  have d: "digest_blocks process init (m @ x) = (ctx_state (digest_update process ctx x), rest)"
    using a u(1) by (subst digest_blocks_append) (simp add: absorbed_def hash_blocks_def digest_blocks_rest)
  then have rest: "rest = drop (length (m @ x) - length (m @ x) mod 64) (m @ x)"
    using digest_blocks_rest[of process init "m @ x"] by simp
  then have "length rest = length (m @ x) mod 64" by simp
  have t: "ctx_total0 ctx = word_of_nat (length m mod 2 ^ 32)" "ctx_total1 ctx = word_of_nat (length m div 2 ^ 32)"
    using a by (simp_all add: absorbed_def)
  have t0: "ctx_total0 (digest_update process ctx x) =
      (word_of_nat (length m mod 2 ^ 32) + word_of_nat (length x)) AND 0xFFFFFFFF"
    and t1: "ctx_total1 (digest_update process ctx x) =
      (if (word_of_nat (length m mod 2 ^ 32) + word_of_nat (length x)) AND 0xFFFFFFFF < (word_of_nat (length x) :: 'w word)
       then word_of_nat (length m div 2 ^ 32) + 1 else word_of_nat (length m div 2 ^ 32))"
    using False t by (simp_all add: digest_update_def Let_def split: prod.splits)
  have "ctx_total0 (digest_update process ctx x) = word_of_nat (length (m @ x) mod 2 ^ 32)"
    using count_add(1)[OF x, of "length m"] by (simp only: t0 length_append)
  moreover have "ctx_total1 (digest_update process ctx x) = word_of_nat (length (m @ x) div 2 ^ 32)"
    using count_add(2,3)[OF x, of "length m"] unfolding t1 length_append by (auto simp del: of_nat_add)
  ultimately show ?thesis
    using u d \<open>length rest = _\<close> rest by (simp add: absorbed_def hash_blocks_def)
qed

lemma padding_bytes:
  "take (if l < 56 then 56 - l else 120 - l) digest_padding = [0x80] @ replicate ((119 - l) mod 64) 0" if "l < 64"
proof (cases "l < 56")
  case True
  then have "(119 - l) mod 64 = 55 - l" by (simp add: mod_if)
  then show ?thesis using True by (simp add: digest_padding_def take_Cons' Suc_diff_le)
next
  case False
  then have "(119 - l) mod 64 = 119 - l" using that by simp
  then show ?thesis using False that by (simp add: digest_padding_def take_Cons' Suc_diff_le)
qed

lemma pad_state:
  assumes a: "absorbed process init m ctx" and m: "length m < 2 ^ 61"
  shows "ctx_state (digest_pad process msglen ctx) = hash_blocks process init (padded len8 m)"
    and "length (ctx_buffer (digest_pad process msglen ctx)) = 64"
proof -
  let ?l = "length m mod 64"
  let ?p = "take (if ?l < 56 then 56 - ?l else 120 - ?l) digest_padding"
  have p: "?p = [0x80] @ replicate ((119 - ?l) mod 64) 0" by (rule padding_bytes) simp
  have "length ?p \<le> 64" unfolding p by (simp add: Suc_le_eq)
  then have "absorbed process init (m @ ?p) (digest_update process ctx ?p)" by (intro update_absorbed[OF a]) simp
  then have "absorbed process init ((m @ ?p) @ len8 (8 * length m))
      (digest_update process (digest_update process ctx ?p) (len8 (8 * length m)))"
    by (rule update_absorbed) (simp add: length_len8)
  moreover have "digest_pad process msglen ctx = digest_update process (digest_update process ctx ?p) (len8 (8 * length m))"
    using a msglen_bits[OF m] by (simp add: digest_pad_def count_left[OF a]) (simp add: absorbed_def)
  moreover have "(m @ ?p) @ len8 (8 * length m) = padded len8 m" unfolding p by (simp add: padded_def)
  ultimately have "absorbed process init (padded len8 m) (digest_pad process msglen ctx)" by simp
  then show "ctx_state (digest_pad process msglen ctx) = hash_blocks process init (padded len8 m)"
    and "length (ctx_buffer (digest_pad process msglen ctx)) = 64" by (simp_all add: absorbed_def)
qed

end

text \<open>The bytes of the two halves, for both word sizes.\<close>

lemma length_bytes:
  fixes n :: nat
  defines "low \<equiv> push_bit 3 (word_of_nat (n mod 2 ^ 32)) :: 'w :: len word"
    and "high \<equiv> drop_bit 29 (word_of_nat (n mod 2 ^ 32)) OR push_bit 3 (word_of_nat (n div 2 ^ 32)) :: 'w word"
  assumes w: "32 \<le> LENGTH('w)" and k: "k < 4"
  shows "(ucast (drop_bit (8 * k) low) :: u8) = word_of_nat (drop_bit (8 * k) (8 * n))"
    and "(ucast (drop_bit (8 * k) high) :: u8) = word_of_nat (drop_bit (8 * (k + 4)) (8 * n))"
proof -
  have b: "n mod 2 ^ 32 = take_bit 32 n" "n div 2 ^ 32 = drop_bit 32 n" "8 * n = push_bit 3 n"
    by (simp_all add: take_bit_eq_mod drop_bit_eq_div push_bit_eq_mult)
  show "(ucast (drop_bit (8 * k) low) :: u8) = word_of_nat (drop_bit (8 * k) (8 * n))"
    unfolding low_def b
    by (rule bit_word_eqI) (use w k in \<open>auto simp: bit_simps\<close>)
  show "(ucast (drop_bit (8 * k) high) :: u8) = word_of_nat (drop_bit (8 * (k + 4)) (8 * n))"
    unfolding high_def b
  proof (rule bit_word_eqI)
    fix j assume j: "j < LENGTH(8)"
    define i where "i = 8 * k + j"
    have i: "i < 32" using j k by (simp add: i_def)
    have e: "8 * k + 29 + j = 29 + i" "8 * k + j = i" by (simp_all add: i_def)
    have "bit (ucast (drop_bit (8 * k) (drop_bit 29 (word_of_nat (take_bit 32 n)) OR push_bit 3 (word_of_nat (drop_bit 32 n)) :: 'w word)) :: u8) j
        = bit n (29 + i)"
    proof (cases "i < 3")
      case True
      then show ?thesis using j w by (auto simp: bit_simps i_def ac_simps)
    next
      case False
      then have "32 + (i - 3) = 29 + i" by simp
      then show ?thesis using j i w e False by (auto simp: bit_simps)
    qed
    moreover have "bit (word_of_nat (drop_bit (8 * (k + 4)) (push_bit 3 n)) :: u8) j = bit n (29 + i)"
      using j by (simp add: bit_simps i_def)
    ultimately show "bit (ucast (drop_bit (8 * k) (drop_bit 29 (word_of_nat (take_bit 32 n)) OR push_bit 3 (word_of_nat (drop_bit 32 n)) :: 'w word)) :: u8) j
        = bit (word_of_nat (drop_bit (8 * (k + 4)) (push_bit 3 n)) :: u8) j" by simp
  qed
qed

section \<open>HMAC\<close>

text \<open>The code of the three \<open>*_hmac_*\<close> families, on the functions of a hash: a pad is
  a constant byte 64 times, with the key over it.\<close>

definition hmac_pad :: "u8 \<Rightarrow> bytes \<Rightarrow> bytes" where
  "hmac_pad c key = fold (\<lambda>i p. p [i := p ! i XOR key ! i]) [0..<length key] (replicate 64 c)"

definition hmac_setup ::
  "(bytes \<Rightarrow> bytes) \<Rightarrow> (('w :: len, 'z) digest_context_scheme \<Rightarrow> ('w, 'z) digest_context_scheme) \<Rightarrow>
   ('w word list \<Rightarrow> bytes \<Rightarrow> 'w word list) \<Rightarrow> ('w, 'z) digest_context_scheme \<Rightarrow> bytes \<Rightarrow> ('w, 'z) digest_context_scheme" where
  "hmac_setup digest starts process ctx key =
     (let key = (if length key > 64 then digest key else key);
          ctx = ctx \<lparr> ctx_ipad := hmac_pad 0x36 key, ctx_opad := hmac_pad 0x5C key \<rparr>;
          ctx = starts ctx
      in digest_update process ctx (ctx_ipad ctx))"

definition hmac_final ::
  "(('w :: len, 'z) digest_context_scheme \<Rightarrow> ('w, 'z) digest_context_scheme) \<Rightarrow> ('w word list \<Rightarrow> bytes \<Rightarrow> 'w word list) \<Rightarrow>
   (('w, 'z) digest_context_scheme \<Rightarrow> bytes \<times> ('w, 'z) digest_context_scheme) \<Rightarrow>
   ('w, 'z) digest_context_scheme \<Rightarrow> bytes \<times> ('w, 'z) digest_context_scheme" where
  "hmac_final starts process finish ctx =
     (let (tmpbuf, ctx) = finish ctx;
          ctx = starts ctx;
          ctx = digest_update process ctx (ctx_opad ctx);
          ctx = digest_update process ctx tmpbuf
      in finish ctx)"

text \<open>\<open>*_hmac_reset\<close>: another message under the same key.\<close>

definition hmac_reset ::
  "(('w :: len, 'z) digest_context_scheme \<Rightarrow> ('w, 'z) digest_context_scheme) \<Rightarrow> ('w word list \<Rightarrow> bytes \<Rightarrow> 'w word list) \<Rightarrow>
   ('w, 'z) digest_context_scheme \<Rightarrow> ('w, 'z) digest_context_scheme" where
  "hmac_reset starts process ctx = (let ctx = starts ctx in digest_update process ctx (ctx_ipad ctx))"

text \<open>The hash of a message and its HMAC (RFC 2104).\<close>

definition md_hash :: "('s \<Rightarrow> bytes \<Rightarrow> 's) \<Rightarrow> 's \<Rightarrow> (nat \<Rightarrow> bytes) \<Rightarrow> ('s \<Rightarrow> bytes) \<Rightarrow> bytes \<Rightarrow> bytes" where
  "md_hash process init len8 out m = out (hash_blocks process init (padded len8 m))"

definition hmac_key :: "(bytes \<Rightarrow> bytes) \<Rightarrow> bytes \<Rightarrow> bytes" where
  "hmac_key H key = (let k = (if length key > 64 then H key else key) in k @ replicate (64 - length k) 0)"

definition hmac_spec :: "(bytes \<Rightarrow> bytes) \<Rightarrow> bytes \<Rightarrow> bytes \<Rightarrow> bytes" where
  "hmac_spec H key m = (let k = hmac_key H key
     in H (map (\<lambda>b. b XOR 0x5C) k @ H (map (\<lambda>b. b XOR 0x36) k @ m)))"

lemma hmac_pad_key: "length key \<le> 64 \<Longrightarrow> hmac_pad c key = map (\<lambda>b. b XOR c) (key @ replicate (64 - length key) 0)"
proof -
  assume l: "length key \<le> 64"
  have "fold (\<lambda>i p. p [i := p ! i XOR key ! i]) [0..<n] (replicate 64 c) =
      map (\<lambda>b. b XOR c) (take n key @ replicate (64 - n) 0)" if "n \<le> length key" for n
    using that
  proof (induction n)
    case (Suc n)
    then have n: "n < length key" "n < 64" using l by auto
    then show ?case
      using Suc by (auto intro!: nth_equalityI simp: nth_append nth_list_update take_Suc_conv_app_nth less_Suc_eq xor.commute)
  qed (simp add: map_replicate_const)
  from this[of "length key"] show ?thesis by (simp add: hmac_pad_def)
qed

lemma length_hmac_key: "(\<And>m. length (H m) \<le> 64) \<Longrightarrow> length (hmac_key H key) = 64"
  by (simp add: hmac_key_def Let_def)

text \<open>What HMAC relies on: a context can be started, fed and finished.\<close>

locale hash_stream = block_hash process init msglen len8
  for process :: "'w :: len word list \<Rightarrow> bytes \<Rightarrow> 'w word list"
    and init :: "'w word list" and msglen :: "'w word \<Rightarrow> 'w word \<Rightarrow> bytes" and len8 :: "nat \<Rightarrow> bytes" +
  fixes ready :: "('w, 'z) digest_context_scheme \<Rightarrow> bool"
    and starts :: "('w, 'z) digest_context_scheme \<Rightarrow> ('w, 'z) digest_context_scheme"
    and finish :: "('w, 'z) digest_context_scheme \<Rightarrow> bytes \<times> ('w, 'z) digest_context_scheme"
    and out :: "'w word list \<Rightarrow> bytes"
  assumes starts: "length (ctx_buffer ctx) = 64 \<Longrightarrow> absorbed process init [] (starts ctx) \<and> ready (starts ctx)"
    and starts_pads: "ctx_ipad (starts ctx) = ctx_ipad ctx" "ctx_opad (starts ctx) = ctx_opad ctx"
    and update_ready: "ready ctx \<Longrightarrow> ready (digest_update process ctx x)"
    and finish: "ready ctx \<Longrightarrow>
      finish ctx = (out (ctx_state (digest_pad process msglen ctx)), digest_pad process msglen ctx)"
    and out_length: "length (out s) \<le> 64"
begin

lemma pads_kept [simp]:
  "ctx_ipad (digest_update process ctx x) = ctx_ipad ctx" "ctx_opad (digest_update process ctx x) = ctx_opad ctx"
  by (simp_all add: digest_update_def Let_def split: prod.splits)

lemma pads_kept_pad [simp]:
  "ctx_ipad (digest_pad process msglen ctx) = ctx_ipad ctx" "ctx_opad (digest_pad process msglen ctx) = ctx_opad ctx"
  by (simp_all add: digest_pad_def Let_def)

lemma finish_absorbed:
  assumes "absorbed process init m ctx" "ready ctx" "length m < 2 ^ 61"
  shows "fst (finish ctx) = md_hash process init len8 out m" "length (ctx_buffer (snd (finish ctx))) = 64"
    "ctx_ipad (snd (finish ctx)) = ctx_ipad ctx" "ctx_opad (snd (finish ctx)) = ctx_opad ctx"
  using pad_state[OF assms(1,3)] finish[OF assms(2)] by (simp_all add: md_hash_def)

lemma one_shot:
  assumes "length (ctx_buffer ctx) = 64" "length m < 2 ^ 32"
  shows "fst (finish (digest_update process (starts ctx) m)) = md_hash process init len8 out m"
  using finish_absorbed(1)[OF update_absorbed[of "[]" "starts ctx" m]] starts[OF assms(1)] assms(2)
  by (simp add: update_ready)

lemma pieces_absorbed:
  assumes "absorbed process init m ctx" "ready ctx" "\<forall>x \<in> set xs. length x < 2 ^ 32"
  shows "absorbed process init (m @ concat xs) (fold (\<lambda>x ctx. digest_update process ctx x) xs ctx) \<and>
    ready (fold (\<lambda>x ctx. digest_update process ctx x) xs ctx)"
  using assms
proof (induction xs arbitrary: m ctx)
  case (Cons x xs)
  have "absorbed process init (m @ x) (digest_update process ctx x)" using Cons.prems by (intro update_absorbed) simp_all
  from Cons.IH[OF this] Cons.prems show ?case by (simp add: update_ready)
qed simp

lemma pieces:
  assumes "length (ctx_buffer ctx) = 64" "\<forall>x \<in> set xs. length x < 2 ^ 32" "length (concat xs) < 2 ^ 61"
  shows "fst (finish (fold (\<lambda>x ctx. digest_update process ctx x) xs (starts ctx))) = md_hash process init len8 out (concat xs)"
  using pieces_absorbed[of "[]" "starts ctx" xs] starts[OF assms(1)] assms(2,3) finish_absorbed(1)[of "concat xs"]
  by simp

definition hmac_absorbed :: "bytes \<Rightarrow> bytes \<Rightarrow> ('w, 'z) digest_context_scheme \<Rightarrow> bool" where
  "hmac_absorbed key m ctx \<longleftrightarrow> ready ctx \<and>
     absorbed process init (map (\<lambda>b. b XOR 0x36) (hmac_key (md_hash process init len8 out) key) @ m) ctx \<and>
     ctx_ipad ctx = map (\<lambda>b. b XOR 0x36) (hmac_key (md_hash process init len8 out) key) \<and>
     ctx_opad ctx = map (\<lambda>b. b XOR 0x5C) (hmac_key (md_hash process init len8 out) key)"

lemma out_hash_length [simp]: "length (md_hash process init len8 out m) \<le> 64"
  by (simp add: md_hash_def out_length)

lemma hmac_setup_absorbed:
  assumes "length (ctx_buffer ctx) = 64" "length key > 64 \<longrightarrow> digest key = md_hash process init len8 out key"
  shows "hmac_absorbed key [] (hmac_setup digest starts process ctx key)"
proof -
  let ?k = "if length key > 64 then digest key else key" and ?K = "hmac_key (md_hash process init len8 out) key"
  let ?c = "starts (ctx \<lparr> ctx_ipad := hmac_pad 0x36 ?k, ctx_opad := hmac_pad 0x5C ?k \<rparr>)"
  have k: "length ?k \<le> 64" using assms(2) by simp
  have pad: "hmac_pad c ?k = map (\<lambda>b. b XOR c) ?K" for c
    using assms(2) by (subst hmac_pad_key[OF k]) (simp add: hmac_key_def Let_def)
  have s: "absorbed process init [] ?c" "ready ?c" using starts[of "ctx \<lparr> ctx_ipad := _, ctx_opad := _ \<rparr>"] assms(1) by simp_all
  have "length ?K = 64" by (rule length_hmac_key) simp
  then have "absorbed process init ([] @ map (\<lambda>b. b XOR 0x36) ?K) (digest_update process ?c (map (\<lambda>b. b XOR 0x36) ?K))"
    by (intro update_absorbed[OF s(1)]) simp
  then show ?thesis
    using s(2) pad by (simp add: hmac_absorbed_def hmac_setup_def Let_def starts_pads update_ready)
qed

lemma hmac_update_absorbed:
  "hmac_absorbed key m ctx \<Longrightarrow> length x < 2 ^ 32 \<Longrightarrow> hmac_absorbed key (m @ x) (digest_update process ctx x)"
  using update_absorbed[of "map (\<lambda>b. b XOR 0x36) (hmac_key (md_hash process init len8 out) key) @ m" ctx x]
  by (simp add: hmac_absorbed_def update_ready)

lemma hmac_reset_absorbed: "hmac_absorbed key m ctx \<Longrightarrow> hmac_absorbed key [] (hmac_reset starts process ctx)"
proof -
  let ?K = "hmac_key (md_hash process init len8 out) key"
  assume a: "hmac_absorbed key m ctx"
  then have s: "absorbed process init [] (starts ctx)" "ready (starts ctx)"
    using starts[of ctx] by (simp_all add: hmac_absorbed_def absorbed_def)
  have "length ?K = 64" by (rule length_hmac_key) simp
  then have "absorbed process init ([] @ map (\<lambda>b. b XOR 0x36) ?K) (digest_update process (starts ctx) (map (\<lambda>b. b XOR 0x36) ?K))"
    by (intro update_absorbed[OF s(1)]) simp
  then show ?thesis
    using a s(2) by (simp add: hmac_absorbed_def hmac_reset_def Let_def starts_pads update_ready)
qed

lemma hmac_final_absorbed:
  assumes "hmac_absorbed key m ctx" "length m < 2 ^ 60"
  shows "fst (hmac_final starts process finish ctx) = hmac_spec (md_hash process init len8 out) key m"
    and "length (ctx_buffer (snd (hmac_final starts process finish ctx))) = 64"
proof -
  let ?H = "md_hash process init len8 out" and ?K = "hmac_key (md_hash process init len8 out) key"
  let ?t = "?H (map (\<lambda>b. b XOR 0x36) ?K @ m)"
  have K: "length ?K = 64" by (rule length_hmac_key) simp
  have a: "absorbed process init (map (\<lambda>b. b XOR 0x36) ?K @ m) ctx" "ready ctx" "ctx_opad ctx = map (\<lambda>b. b XOR 0x5C) ?K"
    using assms(1) by (simp_all add: hmac_absorbed_def)
  have l: "length (map (\<lambda>b. b XOR 0x36) ?K @ m) < 2 ^ 61" using assms(2) K by simp
  obtain c1 where f: "finish ctx = (?t, c1)" "length (ctx_buffer c1) = 64" "ctx_opad c1 = map (\<lambda>b. b XOR 0x5C) ?K"
    using finish_absorbed[OF a(1,2) l] a(3) by (metis prod.collapse)
  have s: "absorbed process init [] (starts c1)" "ready (starts c1)" using starts[OF f(2)] by simp_all
  have "absorbed process init ([] @ map (\<lambda>b. b XOR 0x5C) ?K) (digest_update process (starts c1) (map (\<lambda>b. b XOR 0x5C) ?K))"
    by (rule update_absorbed[OF s(1)]) (simp add: K)
  then have "absorbed process init (([] @ map (\<lambda>b. b XOR 0x5C) ?K) @ ?t)
      (digest_update process (digest_update process (starts c1) (map (\<lambda>b. b XOR 0x5C) ?K)) ?t)"
    by (rule update_absorbed) (rule le_less_trans[OF out_hash_length], simp)
  then have e: "absorbed process init (map (\<lambda>b. b XOR 0x5C) ?K @ ?t)
      (digest_update process (digest_update process (starts c1) (map (\<lambda>b. b XOR 0x5C) ?K)) ?t)" by simp
  have l2: "length (map (\<lambda>b. b XOR 0x5C) ?K @ ?t) < 2 ^ 61"
  proof -
    have "length ?t \<le> 64" by (rule out_hash_length)
    then have "length (map (\<lambda>b. b XOR 0x5C) ?K @ ?t) \<le> 128" by (simp add: K)
    then show ?thesis by (rule le_less_trans) simp
  qed
  have "hmac_final starts process finish ctx =
      finish (digest_update process (digest_update process (starts c1) (map (\<lambda>b. b XOR 0x5C) ?K)) ?t)"
    by (simp add: hmac_final_def f starts_pads)
  then show "fst (hmac_final starts process finish ctx) = hmac_spec ?H key m"
    and "length (ctx_buffer (snd (hmac_final starts process finish ctx))) = 64"
    using finish_absorbed[OF e _ l2] s(2) by (simp_all add: hmac_spec_def Let_def update_ready)
qed

end

end
