(* ===== verification/Md5.thy ===== *)
theory Md5
  imports Digest
begin

text \<open>
  MD5 and HMAC-MD5 of lib/md5.cpp: 64 steps written out on four registers. The
  lemmas: the steps are those of RFC 1321, so that the digest of a message taken
  in by pieces is the one the RFC defines.
\<close>

section \<open>The code\<close>

text \<open>A line \<open>P( a, b, c, d, k, s, t )\<close>, the registers A to D being 0 to 3.\<close>

type_synonym md5_line = "nat \<times> nat \<times> nat \<times> nat \<times> nat \<times> nat \<times> u32"

definition md5_S :: "u32 \<Rightarrow> nat \<Rightarrow> u32" where
  "md5_S x n = push_bit n x OR drop_bit (32 - n) (x AND 0xFFFFFFFF)"

definition md5_P :: "(u32 \<Rightarrow> u32 \<Rightarrow> u32 \<Rightarrow> u32) \<Rightarrow> u32 list \<Rightarrow> md5_line \<Rightarrow> u32 list \<Rightarrow> u32 list" where
  "md5_P F X = (\<lambda>(a, b, c, d, k, s, t) R.
     let R = R [a := R ! a + (F (R ! b) (R ! c) (R ! d) + X ! k + t)]
     in R [a := md5_S (R ! a) s + R ! b])"

definition md5_round1 :: "md5_line list" where
  "md5_round1 = [
     (0, 1, 2, 3, 0, 7, 0xD76AA478), (3, 0, 1, 2, 1, 12, 0xE8C7B756),
     (2, 3, 0, 1, 2, 17, 0x242070DB), (1, 2, 3, 0, 3, 22, 0xC1BDCEEE),
     (0, 1, 2, 3, 4, 7, 0xF57C0FAF), (3, 0, 1, 2, 5, 12, 0x4787C62A),
     (2, 3, 0, 1, 6, 17, 0xA8304613), (1, 2, 3, 0, 7, 22, 0xFD469501),
     (0, 1, 2, 3, 8, 7, 0x698098D8), (3, 0, 1, 2, 9, 12, 0x8B44F7AF),
     (2, 3, 0, 1, 10, 17, 0xFFFF5BB1), (1, 2, 3, 0, 11, 22, 0x895CD7BE),
     (0, 1, 2, 3, 12, 7, 0x6B901122), (3, 0, 1, 2, 13, 12, 0xFD987193),
     (2, 3, 0, 1, 14, 17, 0xA679438E), (1, 2, 3, 0, 15, 22, 0x49B40821)]"

definition md5_round2 :: "md5_line list" where
  "md5_round2 = [
     (0, 1, 2, 3, 1, 5, 0xF61E2562), (3, 0, 1, 2, 6, 9, 0xC040B340),
     (2, 3, 0, 1, 11, 14, 0x265E5A51), (1, 2, 3, 0, 0, 20, 0xE9B6C7AA),
     (0, 1, 2, 3, 5, 5, 0xD62F105D), (3, 0, 1, 2, 10, 9, 0x02441453),
     (2, 3, 0, 1, 15, 14, 0xD8A1E681), (1, 2, 3, 0, 4, 20, 0xE7D3FBC8),
     (0, 1, 2, 3, 9, 5, 0x21E1CDE6), (3, 0, 1, 2, 14, 9, 0xC33707D6),
     (2, 3, 0, 1, 3, 14, 0xF4D50D87), (1, 2, 3, 0, 8, 20, 0x455A14ED),
     (0, 1, 2, 3, 13, 5, 0xA9E3E905), (3, 0, 1, 2, 2, 9, 0xFCEFA3F8),
     (2, 3, 0, 1, 7, 14, 0x676F02D9), (1, 2, 3, 0, 12, 20, 0x8D2A4C8A)]"

definition md5_round3 :: "md5_line list" where
  "md5_round3 = [
     (0, 1, 2, 3, 5, 4, 0xFFFA3942), (3, 0, 1, 2, 8, 11, 0x8771F681),
     (2, 3, 0, 1, 11, 16, 0x6D9D6122), (1, 2, 3, 0, 14, 23, 0xFDE5380C),
     (0, 1, 2, 3, 1, 4, 0xA4BEEA44), (3, 0, 1, 2, 4, 11, 0x4BDECFA9),
     (2, 3, 0, 1, 7, 16, 0xF6BB4B60), (1, 2, 3, 0, 10, 23, 0xBEBFBC70),
     (0, 1, 2, 3, 13, 4, 0x289B7EC6), (3, 0, 1, 2, 0, 11, 0xEAA127FA),
     (2, 3, 0, 1, 3, 16, 0xD4EF3085), (1, 2, 3, 0, 6, 23, 0x04881D05),
     (0, 1, 2, 3, 9, 4, 0xD9D4D039), (3, 0, 1, 2, 12, 11, 0xE6DB99E5),
     (2, 3, 0, 1, 15, 16, 0x1FA27CF8), (1, 2, 3, 0, 2, 23, 0xC4AC5665)]"

definition md5_round4 :: "md5_line list" where
  "md5_round4 = [
     (0, 1, 2, 3, 0, 6, 0xF4292244), (3, 0, 1, 2, 7, 10, 0x432AFF97),
     (2, 3, 0, 1, 14, 15, 0xAB9423A7), (1, 2, 3, 0, 5, 21, 0xFC93A039),
     (0, 1, 2, 3, 12, 6, 0x655B59C3), (3, 0, 1, 2, 3, 10, 0x8F0CCC92),
     (2, 3, 0, 1, 10, 15, 0xFFEFF47D), (1, 2, 3, 0, 1, 21, 0x85845DD1),
     (0, 1, 2, 3, 8, 6, 0x6FA87E4F), (3, 0, 1, 2, 15, 10, 0xFE2CE6E0),
     (2, 3, 0, 1, 6, 15, 0xA3014314), (1, 2, 3, 0, 13, 21, 0x4E0811A1),
     (0, 1, 2, 3, 4, 6, 0xF7537E82), (3, 0, 1, 2, 11, 10, 0xBD3AF235),
     (2, 3, 0, 1, 2, 15, 0x2AD7D2BB), (1, 2, 3, 0, 9, 21, 0xEB86D391)]"

definition md5_process :: "u32 list \<Rightarrow> bytes \<Rightarrow> u32 list" where
  "md5_process state data =
     (let X = map (\<lambda>i. get_uint32_le data (4 * i)) [0..<16];
          R = fold (md5_P (\<lambda>x y z. z XOR (x AND (y XOR z))) X) md5_round1 state;
          R = fold (md5_P (\<lambda>x y z. y XOR (z AND (x XOR y))) X) md5_round2 R;
          R = fold (md5_P (\<lambda>x y z. x XOR y XOR z) X) md5_round3 R;
          R = fold (md5_P (\<lambda>x y z. y XOR (x OR NOT z)) X) md5_round4 R
      in map2 (+) state R)"

type_synonym md5_context = "32 digest_context"

definition md5_init :: md5_context where
  "md5_init = \<lparr> ctx_total0 = 0, ctx_total1 = 0, ctx_state = replicate 4 0, ctx_buffer = replicate 64 0,
     ctx_ipad = replicate 64 0, ctx_opad = replicate 64 0 \<rparr>"

definition md5_starts :: "md5_context \<Rightarrow> md5_context" where
  "md5_starts ctx = ctx \<lparr> ctx_total0 := 0, ctx_total1 := 0,
     ctx_state := [0x67452301, 0xEFCDAB89, 0x98BADCFE, 0x10325476] \<rparr>"

definition md5_update :: "md5_context \<Rightarrow> bytes \<Rightarrow> md5_context" where
  "md5_update = digest_update md5_process"

definition md5_msglen :: "u32 \<Rightarrow> u32 \<Rightarrow> bytes" where
  "md5_msglen high low = put_uint32_le low @ put_uint32_le high"

definition md5_output :: "u32 list \<Rightarrow> bytes" where
  "md5_output st = put_uint32_le (st ! 0) @ put_uint32_le (st ! 1) @ put_uint32_le (st ! 2) @ put_uint32_le (st ! 3)"

definition md5_finish :: "md5_context \<Rightarrow> bytes \<times> md5_context" where
  "md5_finish ctx = (let ctx = digest_pad md5_process md5_msglen ctx in (md5_output (ctx_state ctx), ctx))"

definition md5_digest :: "bytes \<Rightarrow> bytes" where
  "md5_digest input = fst (md5_finish (md5_update (md5_starts md5_init) input))"

definition md5_hmac_starts :: "md5_context \<Rightarrow> bytes \<Rightarrow> md5_context" where
  "md5_hmac_starts = hmac_setup md5_digest md5_starts md5_process"

definition md5_hmac_finish :: "md5_context \<Rightarrow> bytes \<times> md5_context" where
  "md5_hmac_finish = hmac_final md5_starts md5_process md5_finish"

definition md5_hmac_reset :: "md5_context \<Rightarrow> md5_context" where
  "md5_hmac_reset = hmac_reset md5_starts md5_process"

definition md5_hmac :: "bytes \<Rightarrow> bytes \<Rightarrow> bytes" where
  "md5_hmac key input = fst (md5_hmac_finish (md5_update (md5_hmac_starts md5_init key) input))"

section \<open>RFC 1321\<close>

type_synonym md5_state = "u32 \<times> u32 \<times> u32 \<times> u32"

text \<open>\<open>T i\<close> is the integer part of \<open>4294967296 * abs (sin (i + 1))\<close>.\<close>

definition rfc1321_T :: "u32 list" where
  "rfc1321_T = [
     0xD76AA478, 0xE8C7B756, 0x242070DB, 0xC1BDCEEE, 0xF57C0FAF, 0x4787C62A,
     0xA8304613, 0xFD469501, 0x698098D8, 0x8B44F7AF, 0xFFFF5BB1, 0x895CD7BE,
     0x6B901122, 0xFD987193, 0xA679438E, 0x49B40821, 0xF61E2562, 0xC040B340,
     0x265E5A51, 0xE9B6C7AA, 0xD62F105D, 0x02441453, 0xD8A1E681, 0xE7D3FBC8,
     0x21E1CDE6, 0xC33707D6, 0xF4D50D87, 0x455A14ED, 0xA9E3E905, 0xFCEFA3F8,
     0x676F02D9, 0x8D2A4C8A, 0xFFFA3942, 0x8771F681, 0x6D9D6122, 0xFDE5380C,
     0xA4BEEA44, 0x4BDECFA9, 0xF6BB4B60, 0xBEBFBC70, 0x289B7EC6, 0xEAA127FA,
     0xD4EF3085, 0x04881D05, 0xD9D4D039, 0xE6DB99E5, 0x1FA27CF8, 0xC4AC5665,
     0xF4292244, 0x432AFF97, 0xAB9423A7, 0xFC93A039, 0x655B59C3, 0x8F0CCC92,
     0xFFEFF47D, 0x85845DD1, 0x6FA87E4F, 0xFE2CE6E0, 0xA3014314, 0x4E0811A1,
     0xF7537E82, 0xBD3AF235, 0x2AD7D2BB, 0xEB86D391]"

definition rfc1321_fun :: "nat \<Rightarrow> u32 \<Rightarrow> u32 \<Rightarrow> u32 \<Rightarrow> u32" where
  "rfc1321_fun i x y z =
     (if i < 16 then (x AND y) OR (NOT x AND z)
      else if i < 32 then (x AND z) OR (y AND NOT z)
      else if i < 48 then x XOR y XOR z
      else y XOR (x OR NOT z))"

definition rfc1321_index :: "nat \<Rightarrow> nat" where
  "rfc1321_index i =
     (if i < 16 then i else if i < 32 then (5 * i + 1) mod 16
      else if i < 48 then (3 * i + 5) mod 16 else (7 * i) mod 16)"

definition rfc1321_shift :: "nat \<Rightarrow> nat" where
  "rfc1321_shift i =
     (if i < 16 then [7, 12, 17, 22] else if i < 32 then [5, 9, 14, 20]
      else if i < 48 then [4, 11, 16, 23] else [6, 10, 15, 21]) ! (i mod 4)"

fun rfc1321_step :: "u32 list \<Rightarrow> nat \<Rightarrow> md5_state \<Rightarrow> md5_state" where
  "rfc1321_step X i (a, b, c, d) =
     (d, b + word_rotl (rfc1321_shift i) (a + rfc1321_fun i b c d + X ! rfc1321_index i + rfc1321_T ! i), b, c)"

definition rfc1321_block :: "md5_state \<Rightarrow> bytes \<Rightarrow> md5_state" where
  "rfc1321_block st data =
     (let X = map (\<lambda>i. get_uint32_le data (4 * i)) [0..<16];
          (a, b, c, d) = st; (a', b', c', d') = fold (rfc1321_step X) [0..<64] st
      in (a + a', b + b', c + c', d + d'))"

definition rfc1321_md5 :: "bytes \<Rightarrow> bytes" where
  "rfc1321_md5 = md_hash rfc1321_block (0x67452301, 0xEFCDAB89, 0x98BADCFE, 0x10325476) length_le
     (\<lambda>(a, b, c, d). put_uint32_le a @ put_uint32_le b @ put_uint32_le c @ put_uint32_le d)"

section \<open>The steps\<close>

definition md5_entry :: "nat \<Rightarrow> md5_line" where
  "md5_entry i = (reg 4 i 0, reg 4 i 1, reg 4 i 2, reg 4 i 3, rfc1321_index i, rfc1321_shift i, rfc1321_T ! i)"

lemma md5_lines:
  "md5_round1 = map md5_entry [0..<16]" "md5_round2 = map md5_entry [16..<32]"
  "md5_round3 = map md5_entry [32..<48]" "md5_round4 = map md5_entry [48..<64]"
  by code_simp+

lemma md5_S_rotl: "n < 32 \<Longrightarrow> md5_S x n = word_rotl n x"
proof -
  assume n: "n < 32"
  have k: "(0xFFFFFFFF :: u32) = mask 32" by (simp add: mask_eq_exp_minus_1)
  have "x AND 0xFFFFFFFF = x" unfolding k by (rule bit_word_eqI) (simp add: bit_simps)
  then have "md5_S x n = push_bit n x OR drop_bit (32 - n) x" by (simp add: md5_S_def)
  also have "\<dots> = word_rotl n x"
  proof (rule bit_word_eqI)
    fix i assume i: "i < LENGTH(32)"
    have d: "(i + (32 - n)) mod 32 = (if n \<le> i then i - n else i + (32 - n))"
      using n i by (auto simp: mod_if)
    have r: "bit (word_rotl n x) i = bit x ((i + (32 - n)) mod 32)"
      using n i by (simp add: bit_word_rotl_iff)
    have "bit (push_bit n x OR drop_bit (32 - n) x) i = bit x (if n \<le> i then i - n else i + (32 - n))"
      using n i by (auto simp: bit_simps ac_simps dest: bit_imp_le_length)
    then show "bit (push_bit n x OR drop_bit (32 - n) x) i = bit (word_rotl n x) i" by (simp only: r d)
  qed
  finally show ?thesis .
qed

lemma fold_cong_upt:
  "(\<And>i. a \<le> i \<Longrightarrow> i < b \<Longrightarrow> f i = g i) \<Longrightarrow> fold f [a..<b] s = fold g [a..<b] s"
  by (rule fold_cong) auto

lemma md5_funs:
  "z XOR (x AND (y XOR z)) = (x AND y) OR (NOT x AND z)" "y XOR (z AND (x XOR y)) = (x AND z) OR (y AND NOT z)"
  for x y z :: u32
  by (auto intro!: bit_word_eqI simp: bit_simps)

lemma rfc1321_funs:
  "i < 16 \<Longrightarrow> rfc1321_fun i = (\<lambda>x y z. z XOR (x AND (y XOR z)))"
  "16 \<le> i \<Longrightarrow> i < 32 \<Longrightarrow> rfc1321_fun i = (\<lambda>x y z. y XOR (z AND (x XOR y)))"
  "32 \<le> i \<Longrightarrow> i < 48 \<Longrightarrow> rfc1321_fun i = (\<lambda>x y z. x XOR y XOR z)"
  "48 \<le> i \<Longrightarrow> rfc1321_fun i = (\<lambda>x y z. y XOR (x OR NOT z))"
  by (simp_all add: fun_eq_iff rfc1321_fun_def md5_funs ac_simps)

definition md5_step :: "u32 list \<Rightarrow> nat \<Rightarrow> u32 list \<Rightarrow> u32 list" where
  "md5_step X i = md5_P (rfc1321_fun i) X (md5_entry i)"

lemma md5_process_steps:
  "md5_process state data =
     (let X = map (\<lambda>i. get_uint32_le data (4 * i)) [0..<16] in map2 (+) state (fold (md5_step X) [0..<64] state))"
proof -
  have u: "[0..<64] = [0..<16] @ [16..<32] @ [32..<48] @ [48..<64 :: nat]"
    by code_simp
  have r: "fold (md5_P (\<lambda>x y z. z XOR (x AND (y XOR z))) X) md5_round1 R = fold (md5_step X) [0..<16] R"
    "fold (md5_P (\<lambda>x y z. y XOR (z AND (x XOR y))) X) md5_round2 R = fold (md5_step X) [16..<32] R"
    "fold (md5_P (\<lambda>x y z. x XOR y XOR z) X) md5_round3 R = fold (md5_step X) [32..<48] R"
    "fold (md5_P (\<lambda>x y z. y XOR (x OR NOT z)) X) md5_round4 R = fold (md5_step X) [48..<64] R" for X R
    unfolding md5_lines fold_map o_def
    by (rule fold_cong_upt; simp only: md5_step_def rfc1321_funs)+
  show ?thesis unfolding md5_process_def Let_def r u by simp
qed

fun quad_list :: "md5_state \<Rightarrow> u32 list" where
  "quad_list (a, b, c, d) = [a, b, c, d]"

lemma shift_small: "rfc1321_shift i < 32"
proof -
  have "i mod 4 < 4" by simp
  then have "i mod 4 \<in> {0, 1, 2, 3}" by auto
  then show ?thesis by (auto simp: rfc1321_shift_def)
qed

lemma md5_step_view:
  assumes "view i R = quad_list st" "length R = 4"
  shows "view (Suc i) (md5_step X i R) = quad_list (rfc1321_step X i st)" "length (md5_step X i R) = 4"
proof -
  obtain a b c d where st: "st = (a, b, c, d)" by (cases st)
  have n: "R ! reg 4 i 0 = a" "R ! reg 4 i 1 = b" "R ! reg 4 i 2 = c" "R ! reg 4 i 3 = d"
    using assms view_nth[of 0 R i] view_nth[of 1 R i] view_nth[of 2 R i] view_nth[of 3 R i] by (simp_all add: st)
  let ?x = "a + (rfc1321_fun i b c d + X ! rfc1321_index i + rfc1321_T ! i)"
  have r: "reg 4 i 1 \<noteq> reg 4 i 0" "reg 4 i 0 < length R" using reg_inject[of 1 4 0 i] reg_less[of 0 4 i] assms(2) by simp_all
  have s: "md5_step X i R = R [reg 4 i 0 := word_rotl (rfc1321_shift i) ?x + b]"
    using r n by (simp add: md5_step_def md5_P_def md5_entry_def Let_def md5_S_rotl[OF shift_small])
  have "view i (md5_step X i R) = [word_rotl (rfc1321_shift i) ?x + b, b, c, d]"
    using view_update[of 0 R i] assms by (simp add: s st)
  then show "view (Suc i) (md5_step X i R) = quad_list (rfc1321_step X i st)"
    using assms(2) by (subst view_next) (auto simp: s st ac_simps)
  show "length (md5_step X i R) = 4" using assms(2) by (simp add: s)
qed

lemma md5_steps:
  assumes "length state = 4" "state = quad_list st"
  shows "view n (fold (md5_step X) [0..<n] state) = quad_list (fold (rfc1321_step X) [0..<n] st) \<and>
    length (fold (md5_step X) [0..<n] state) = 4"
proof (induction n)
  case (Suc n)
  then show ?case using md5_step_view[of n "fold (md5_step X) [0..<n] state" _ X] by simp
qed (use assms in \<open>simp add: view_whole\<close>)

lemma md5_steps_whole:
  assumes "4 dvd n" shows "fold (md5_step X) [0..<n] [a, b, c, d] = quad_list (fold (rfc1321_step X) [0..<n] (a, b, c, d))"
proof -
  let ?F = "fold (md5_step X) [0..<n] [a, b, c, d]"
  have s: "view n ?F = quad_list (fold (rfc1321_step X) [0..<n] (a, b, c, d)) \<and> length ?F = 4"
    by (rule md5_steps) simp_all
  then have "view n ?F = ?F" using assms by (intro view_whole) simp
  then show ?thesis using s by simp
qed

lemma md5_process_rfc: "md5_process (quad_list st) data = quad_list (rfc1321_block st data)"
proof -
  define X where "X = map (\<lambda>i. get_uint32_le data (4 * i)) [0..<16]"
  obtain a b c d where st: "st = (a, b, c, d)" by (cases st)
  obtain a' b' c' d' where st': "fold (rfc1321_step X) [0..<64] (a, b, c, d) = (a', b', c', d')"
    by (cases "fold (rfc1321_step X) [0..<64] (a, b, c, d)")
  have "(4 :: nat) dvd 64" by simp
  note f = md5_steps_whole[OF this, of X a b c d, unfolded st' quad_list.simps]
  show ?thesis
    by (simp only: md5_process_steps rfc1321_block_def Let_def X_def[symmetric] st st' f quad_list.simps prod.case
        zip_Cons_Cons zip_Nil list.map)
qed

section \<open>Digests\<close>

lemma md5_msglen_bytes:
  "md5_msglen (drop_bit 29 (word_of_nat (n mod 2 ^ 32)) OR push_bit 3 (word_of_nat (n div 2 ^ 32)))
     (push_bit 3 (word_of_nat (n mod 2 ^ 32))) = length_le (8 * n)"
proof -
  note l = length_bytes[where 'w = 32 and n = n]
  have "[0..<8] = [0, 1, 2, 3, 4, 5, 6, 7 :: nat]" by (simp add: upt_rec)
  then show ?thesis
    using l[of 0] l[of 1] l[of 2] l[of 3] by (simp add: md5_msglen_def put_uint32_le_def length_le_def)
qed

interpretation md5: hash_stream md5_process "[0x67452301, 0xEFCDAB89, 0x98BADCFE, 0x10325476]" md5_msglen length_le
  "\<lambda>ctx. True" md5_starts md5_finish md5_output
proof
  show "length (md5_output s) \<le> 64" for s by (simp add: md5_output_def)
  show "length (ctx_buffer ctx) = 64 \<Longrightarrow>
      absorbed md5_process [0x67452301, 0xEFCDAB89, 0x98BADCFE, 0x10325476] [] (md5_starts ctx) \<and> True" for ctx
    by (simp add: absorbed_def md5_starts_def hash_blocks_def digest_blocks.simps)
qed (simp_all only: md5_msglen_bytes, simp_all add: md5_starts_def md5_finish_def Let_def)

lemma md5_hash_rfc: "md_hash md5_process [0x67452301, 0xEFCDAB89, 0x98BADCFE, 0x10325476] length_le md5_output = rfc1321_md5"
proof
  fix m
  have "hash_blocks md5_process (quad_list st) m = quad_list (hash_blocks rfc1321_block st m)" for st m
    using hash_blocks_map[of "\<lambda>_. True" quad_list rfc1321_block md5_process st m] by (simp add: md5_process_rfc)
  from this[of "(0x67452301, 0xEFCDAB89, 0x98BADCFE, 0x10325476)" "padded length_le m"]
  show "md_hash md5_process [0x67452301, 0xEFCDAB89, 0x98BADCFE, 0x10325476] length_le md5_output m = rfc1321_md5 m"
    by (simp add: md_hash_def rfc1321_md5_def md5_output_def split: prod.splits)
qed

lemma md5_correct: "length m < 2 ^ 32 \<Longrightarrow> md5_digest m = rfc1321_md5 m"
  using md5.one_shot[of md5_init m]
  by (simp add: md5_digest_def md5_update_def md5_hash_rfc) (simp add: md5_init_def)

lemma md5_hmac_correct:
  assumes "length key < 2 ^ 32" "length m < 2 ^ 32"
  shows "md5_hmac key m = hmac_spec rfc1321_md5 key m"
proof -
  have "md5.hmac_absorbed key [] (md5_hmac_starts md5_init key)"
    unfolding md5_hmac_starts_def
    by (rule md5.hmac_setup_absorbed) (use assms in \<open>auto simp: md5_correct md5_hash_rfc md5_init_def\<close>)
  from md5.hmac_final_absorbed(1)[OF md5.hmac_update_absorbed[OF this assms(2)]] assms(2)
  show ?thesis by (simp add: md5_hmac_def md5_hmac_finish_def md5_update_def md5_hash_rfc)
qed

lemma md5_hmac_reset_correct:
  assumes "length key < 2 ^ 32" "length x < 2 ^ 32" "length m < 2 ^ 32"
  shows "fst (md5_hmac_finish (md5_update (md5_hmac_reset (md5_update (md5_hmac_starts md5_init key) x)) m)) = hmac_spec rfc1321_md5 key m"
proof -
  have "md5.hmac_absorbed key [] (md5_hmac_starts md5_init key)"
    unfolding md5_hmac_starts_def
    by (rule md5.hmac_setup_absorbed) (use assms in \<open>auto simp: md5_correct md5_hash_rfc md5_init_def\<close>)
  from md5.hmac_final_absorbed(1)[OF md5.hmac_update_absorbed[OF md5.hmac_reset_absorbed[OF md5.hmac_update_absorbed[OF this assms(2)]] assms(3)]] assms(3)
  show ?thesis by (simp add: md5_hmac_reset_def md5_hmac_finish_def md5_update_def md5_hash_rfc)
qed

end
