(* ===== verification/Sha1.thy ===== *)
theory Sha1
  imports Digest
begin

text \<open>
  SHA-1 and HMAC-SHA-1 of lib/pbkdf2-sha1.cpp: 80 steps written out on five registers
  of 64 bits, the message schedule in a ring of sixteen words. The lemmas: the low halves of
  the registers are those of FIPS 180-4, so the digest is SHA-1 and the
  authentication tag HMAC-SHA-1 of RFC 2104.
\<close>

section \<open>The code\<close>

text \<open>A line \<open>P(a, b, c, d, e, W[t])\<close> or \<open>P(a, b, c, d, e, R(t))\<close>, the registers A to E
  being 0 to 4.\<close>

type_synonym sha1_line = "nat \<times> nat \<times> nat \<times> nat \<times> nat \<times> nat"

definition sha1_R :: "nat \<Rightarrow> u64 list \<Rightarrow> u64 list" where
  "sha1_R t W = W [t mod 16 := long_S (W ! ((t - 3) mod 16) XOR W ! ((t - 8) mod 16) XOR
     W ! ((t - 14) mod 16) XOR W ! (t mod 16)) 1]"

definition sha1_P :: "(u64 \<Rightarrow> u64 \<Rightarrow> u64 \<Rightarrow> u64) \<Rightarrow> u64 \<Rightarrow> sha1_line \<Rightarrow> u64 list \<times> u64 list \<Rightarrow> u64 list \<times> u64 list" where
  "sha1_P F K = (\<lambda>(a, b, c, d, e, t) (W, R).
     let W = (if t < 16 then W else sha1_R t W);
         R = R [e := R ! e + (long_S (R ! a) 5 + F (R ! b) (R ! c) (R ! d) + K + W ! (t mod 16))];
         R = R [b := long_S (R ! b) 30]
     in (W, R))"

definition sha1_round1 :: "sha1_line list" where
  "sha1_round1 = [
     (0, 1, 2, 3, 4, 0), (4, 0, 1, 2, 3, 1), (3, 4, 0, 1, 2, 2), (2, 3, 4, 0, 1, 3),
     (1, 2, 3, 4, 0, 4), (0, 1, 2, 3, 4, 5), (4, 0, 1, 2, 3, 6), (3, 4, 0, 1, 2, 7),
     (2, 3, 4, 0, 1, 8), (1, 2, 3, 4, 0, 9), (0, 1, 2, 3, 4, 10), (4, 0, 1, 2, 3, 11),
     (3, 4, 0, 1, 2, 12), (2, 3, 4, 0, 1, 13), (1, 2, 3, 4, 0, 14), (0, 1, 2, 3, 4, 15),
     (4, 0, 1, 2, 3, 16), (3, 4, 0, 1, 2, 17), (2, 3, 4, 0, 1, 18), (1, 2, 3, 4, 0, 19)]"

definition sha1_round2 :: "sha1_line list" where
  "sha1_round2 = [
     (0, 1, 2, 3, 4, 20), (4, 0, 1, 2, 3, 21), (3, 4, 0, 1, 2, 22), (2, 3, 4, 0, 1, 23),
     (1, 2, 3, 4, 0, 24), (0, 1, 2, 3, 4, 25), (4, 0, 1, 2, 3, 26), (3, 4, 0, 1, 2, 27),
     (2, 3, 4, 0, 1, 28), (1, 2, 3, 4, 0, 29), (0, 1, 2, 3, 4, 30), (4, 0, 1, 2, 3, 31),
     (3, 4, 0, 1, 2, 32), (2, 3, 4, 0, 1, 33), (1, 2, 3, 4, 0, 34), (0, 1, 2, 3, 4, 35),
     (4, 0, 1, 2, 3, 36), (3, 4, 0, 1, 2, 37), (2, 3, 4, 0, 1, 38), (1, 2, 3, 4, 0, 39)]"

definition sha1_round3 :: "sha1_line list" where
  "sha1_round3 = [
     (0, 1, 2, 3, 4, 40), (4, 0, 1, 2, 3, 41), (3, 4, 0, 1, 2, 42), (2, 3, 4, 0, 1, 43),
     (1, 2, 3, 4, 0, 44), (0, 1, 2, 3, 4, 45), (4, 0, 1, 2, 3, 46), (3, 4, 0, 1, 2, 47),
     (2, 3, 4, 0, 1, 48), (1, 2, 3, 4, 0, 49), (0, 1, 2, 3, 4, 50), (4, 0, 1, 2, 3, 51),
     (3, 4, 0, 1, 2, 52), (2, 3, 4, 0, 1, 53), (1, 2, 3, 4, 0, 54), (0, 1, 2, 3, 4, 55),
     (4, 0, 1, 2, 3, 56), (3, 4, 0, 1, 2, 57), (2, 3, 4, 0, 1, 58), (1, 2, 3, 4, 0, 59)]"

definition sha1_round4 :: "sha1_line list" where
  "sha1_round4 = [
     (0, 1, 2, 3, 4, 60), (4, 0, 1, 2, 3, 61), (3, 4, 0, 1, 2, 62), (2, 3, 4, 0, 1, 63),
     (1, 2, 3, 4, 0, 64), (0, 1, 2, 3, 4, 65), (4, 0, 1, 2, 3, 66), (3, 4, 0, 1, 2, 67),
     (2, 3, 4, 0, 1, 68), (1, 2, 3, 4, 0, 69), (0, 1, 2, 3, 4, 70), (4, 0, 1, 2, 3, 71),
     (3, 4, 0, 1, 2, 72), (2, 3, 4, 0, 1, 73), (1, 2, 3, 4, 0, 74), (0, 1, 2, 3, 4, 75),
     (4, 0, 1, 2, 3, 76), (3, 4, 0, 1, 2, 77), (2, 3, 4, 0, 1, 78), (1, 2, 3, 4, 0, 79)]"

definition sha1_process :: "u64 list \<Rightarrow> bytes \<Rightarrow> u64 list" where
  "sha1_process state data =
     (let W = map (\<lambda>i. get_ulong_be data (4 * i)) [0..<16];
          s = fold (sha1_P (\<lambda>x y z. z XOR (x AND (y XOR z))) 0x5A827999) sha1_round1 (W, state);
          s = fold (sha1_P (\<lambda>x y z. x XOR y XOR z) 0x6ED9EBA1) sha1_round2 s;
          s = fold (sha1_P (\<lambda>x y z. (x AND y) OR (z AND (x OR y))) 0x8F1BBCDC) sha1_round3 s;
          s = fold (sha1_P (\<lambda>x y z. x XOR y XOR z) 0xCA62C1D6) sha1_round4 s
      in map2 (+) state (snd s))"

type_synonym sha1_context = "64 digest_context"

definition sha1_starts :: "sha1_context \<Rightarrow> sha1_context" where
  "sha1_starts ctx = ctx \<lparr> ctx_total0 := 0, ctx_total1 := 0,
     ctx_state := [0x67452301, 0xEFCDAB89, 0x98BADCFE, 0x10325476, 0xC3D2E1F0] \<rparr>"

definition sha1_update :: "sha1_context \<Rightarrow> bytes \<Rightarrow> sha1_context" where
  "sha1_update = digest_update sha1_process"

definition ulong_msglen :: "u64 \<Rightarrow> u64 \<Rightarrow> bytes" where
  "ulong_msglen high low = put_ulong_be high @ put_ulong_be low"

definition sha1_output :: "u64 list \<Rightarrow> bytes" where
  "sha1_output st = put_ulong_be (st ! 0) @ put_ulong_be (st ! 1) @ put_ulong_be (st ! 2) @
     put_ulong_be (st ! 3) @ put_ulong_be (st ! 4)"

definition sha1_finish :: "sha1_context \<Rightarrow> bytes \<times> sha1_context" where
  "sha1_finish ctx = (let ctx = digest_pad sha1_process ulong_msglen ctx in (sha1_output (ctx_state ctx), ctx))"

text \<open>\<open>stack\<close>: what the local context holds before it is started.\<close>

definition sha1 :: "sha1_context \<Rightarrow> bytes \<Rightarrow> bytes" where
  "sha1 stack input = fst (sha1_finish (sha1_update (sha1_starts (local_context stack)) input))"

definition sha1_hmac_starts :: "sha1_context \<Rightarrow> sha1_context \<Rightarrow> bytes \<Rightarrow> sha1_context" where
  "sha1_hmac_starts stack = hmac_setup (sha1 stack) sha1_starts sha1_process"

definition sha1_hmac_finish :: "sha1_context \<Rightarrow> bytes \<times> sha1_context" where
  "sha1_hmac_finish = hmac_final sha1_starts sha1_process sha1_finish"

definition sha1_hmac_reset :: "sha1_context \<Rightarrow> sha1_context" where
  "sha1_hmac_reset = hmac_reset sha1_starts sha1_process"

definition hmac_sha1 :: "sha1_context \<Rightarrow> bytes \<Rightarrow> bytes \<Rightarrow> bytes" where
  "hmac_sha1 stack key input = fst (sha1_hmac_finish (sha1_update (sha1_hmac_starts stack (local_context stack) key) input))"

section \<open>FIPS 180-4\<close>

type_synonym sha1_state = "u32 \<times> u32 \<times> u32 \<times> u32 \<times> u32"

definition fips_Ch :: "u32 \<Rightarrow> u32 \<Rightarrow> u32 \<Rightarrow> u32" where
  "fips_Ch x y z = (x AND y) XOR (NOT x AND z)"

definition fips_Maj :: "u32 \<Rightarrow> u32 \<Rightarrow> u32 \<Rightarrow> u32" where
  "fips_Maj x y z = (x AND y) XOR (x AND z) XOR (y AND z)"

definition sha1_fun :: "nat \<Rightarrow> u32 \<Rightarrow> u32 \<Rightarrow> u32 \<Rightarrow> u32" where
  "sha1_fun t x y z =
     (if t < 20 then fips_Ch x y z else if t < 40 then x XOR y XOR z
      else if t < 60 then fips_Maj x y z else x XOR y XOR z)"

definition sha1_K :: "nat \<Rightarrow> u32" where
  "sha1_K t = (if t < 20 then 0x5A827999 else if t < 40 then 0x6ED9EBA1
     else if t < 60 then 0x8F1BBCDC else 0xCA62C1D6)"

definition sha1_schedule :: "bytes \<Rightarrow> u32 list" where
  "sha1_schedule data = extend_to 80
     (\<lambda>w. let t = length w in word_rotl 1 (w ! (t - 3) XOR w ! (t - 8) XOR w ! (t - 14) XOR w ! (t - 16)))
     (map (\<lambda>i. get_be data (4 * i)) [0..<16])"

fun fips_sha1_step :: "u32 list \<Rightarrow> nat \<Rightarrow> sha1_state \<Rightarrow> sha1_state" where
  "fips_sha1_step w t (a, b, c, d, e) =
     (word_rotl 5 a + sha1_fun t b c d + e + sha1_K t + w ! t, a, word_rotl 30 b, c, d)"

definition fips_sha1_block :: "sha1_state \<Rightarrow> bytes \<Rightarrow> sha1_state" where
  "fips_sha1_block st data =
     (let (a, b, c, d, e) = st;
          (a', b', c', d', e') = fold (fips_sha1_step (sha1_schedule data)) [0..<80] st
      in (a + a', b + b', c + c', d + d', e + e'))"

definition fips_sha1 :: "bytes \<Rightarrow> bytes" where
  "fips_sha1 = md_hash fips_sha1_block (0x67452301, 0xEFCDAB89, 0x98BADCFE, 0x10325476, 0xC3D2E1F0) length_be
     (\<lambda>(a, b, c, d, e). put_be a @ put_be b @ put_be c @ put_be d @ put_be e)"

section \<open>The steps\<close>

definition sha1_entry :: "nat \<Rightarrow> sha1_line" where
  "sha1_entry t = (reg 5 t 0, reg 5 t 1, reg 5 t 2, reg 5 t 3, reg 5 t 4, t)"

lemma sha1_lines:
  "sha1_round1 = map sha1_entry [0..<20]" "sha1_round2 = map sha1_entry [20..<40]"
  "sha1_round3 = map sha1_entry [40..<60]" "sha1_round4 = map sha1_entry [60..<80]"
  by code_simp+

text \<open>The functions and constants of the code, by step.\<close>

definition code_fun :: "nat \<Rightarrow> u64 \<Rightarrow> u64 \<Rightarrow> u64 \<Rightarrow> u64" where
  "code_fun t = (if t < 20 then (\<lambda>x y z. z XOR (x AND (y XOR z))) else if t < 40 then (\<lambda>x y z. x XOR y XOR z)
     else if t < 60 then (\<lambda>x y z. (x AND y) OR (z AND (x OR y))) else (\<lambda>x y z. x XOR y XOR z))"

definition code_K :: "nat \<Rightarrow> u64" where
  "code_K t = (if t < 20 then 0x5A827999 else if t < 40 then 0x6ED9EBA1
     else if t < 60 then 0x8F1BBCDC else 0xCA62C1D6)"

lemma low_Ch: "low32 (z XOR (x AND (y XOR z))) = fips_Ch (low32 x) (low32 y) (low32 z)"
  by (rule bit_word_eqI) (auto simp: fips_Ch_def bit_simps)

lemma low_Maj: "low32 ((x AND y) OR (z AND (x OR y))) = fips_Maj (low32 x) (low32 y) (low32 z)"
  by (rule bit_word_eqI) (auto simp: fips_Maj_def bit_simps)

lemma low_fun: "low32 (code_fun t x y z) = sha1_fun t (low32 x) (low32 y) (low32 z)"
  by (simp add: code_fun_def sha1_fun_def low_Ch low_Maj del: low_arith) simp

lemma low_K: "low32 (code_K t) = sha1_K t"
  by (simp add: code_K_def sha1_K_def low32_def)

definition sha1_step :: "nat \<Rightarrow> u64 list \<times> u64 list \<Rightarrow> u64 list \<times> u64 list" where
  "sha1_step t = sha1_P (code_fun t) (code_K t) (sha1_entry t)"

lemma fold_cong_upt_sha1:
  "(\<And>i. a \<le> i \<Longrightarrow> i < b \<Longrightarrow> f i = g i) \<Longrightarrow> fold f [a..<b] s = fold g [a..<b] s"
  by (rule fold_cong) auto

lemma sha1_process_steps:
  "sha1_process state data =
     map2 (+) state (snd (fold sha1_step [0..<80] (map (\<lambda>i. get_ulong_be data (4 * i)) [0..<16], state)))"
proof -
  have u: "[0..<80] = [0..<20] @ [20..<40] @ [40..<60] @ [60..<80 :: nat]" by code_simp
  have r: "fold (sha1_P (\<lambda>x y z. z XOR (x AND (y XOR z))) 0x5A827999) sha1_round1 s = fold sha1_step [0..<20] s"
    "fold (sha1_P (\<lambda>x y z. x XOR y XOR z) 0x6ED9EBA1) sha1_round2 s = fold sha1_step [20..<40] s"
    "fold (sha1_P (\<lambda>x y z. (x AND y) OR (z AND (x OR y))) 0x8F1BBCDC) sha1_round3 s = fold sha1_step [40..<60] s"
    "fold (sha1_P (\<lambda>x y z. x XOR y XOR z) 0xCA62C1D6) sha1_round4 s = fold sha1_step [60..<80] s" for s
    unfolding sha1_lines fold_map o_def
    by (rule fold_cong_upt_sha1; simp add: sha1_step_def code_fun_def code_K_def)+
  show ?thesis unfolding sha1_process_def Let_def r u by simp
qed

lemma schedule_first: "t < 16 \<Longrightarrow> sha1_schedule data ! t = get_be data (4 * t)"
  by (simp add: sha1_schedule_def extend_to_old)

lemma schedule_next:
  assumes "16 \<le> t" "t < 80"
  shows "sha1_schedule data ! t = word_rotl 1 (sha1_schedule data ! (t - 3) XOR sha1_schedule data ! (t - 8) XOR
    sha1_schedule data ! (t - 14) XOR sha1_schedule data ! (t - 16))"
proof -
  define f where "f = (\<lambda>w :: u32 list. let t = length w in
    word_rotl 1 (w ! (t - 3) XOR w ! (t - 8) XOR w ! (t - 14) XOR w ! (t - 16)))"
  define xs where "xs = map (\<lambda>i. get_be data (4 * i)) [0..<16]"
  have S: "sha1_schedule data = extend_to 80 f xs" by (simp only: sha1_schedule_def f_def xs_def)
  have x: "length xs = 16" by (simp add: xs_def)
  have "extend_to 80 f xs ! t = f (take t (extend_to 80 f xs))"
    by (rule extend_to_new) (use assms x in simp_all)
  moreover have "length (extend_to 80 f xs) = 80" using x by (simp add: length_extend_to)
  ultimately show ?thesis using assms by (simp add: S) (simp add: f_def Let_def)
qed

text \<open>Before step \<open>t\<close> the ring holds the last sixteen words of the schedule.\<close>

definition ring_ok :: "bytes \<Rightarrow> nat \<Rightarrow> u64 list \<Rightarrow> bool" where
  "ring_ok data t W \<longleftrightarrow> length W = 16 \<and>
     (\<forall>j < max t 16. max t 16 \<le> j + 16 \<longrightarrow> low32 (W ! (j mod 16)) = sha1_schedule data ! j)"

lemma ring_first: "ring_ok data 0 (map (\<lambda>i. get_ulong_be data (4 * i)) [0..<16])"
  by (simp add: ring_ok_def low_get schedule_first)

lemma ring_next:
  assumes "ring_ok data t W" "t < 80"
  defines "W' \<equiv> if t < 16 then W else sha1_R t W"
  shows "ring_ok data (Suc t) W'" "low32 (W' ! (t mod 16)) = sha1_schedule data ! t"
proof -
  have "ring_ok data (Suc t) W' \<and> low32 (W' ! (t mod 16)) = sha1_schedule data ! t"
  proof (cases "t < 16")
    case True
    then show ?thesis using assms by (auto simp: ring_ok_def W'_def max_def)
  next
    case False
    have old: "low32 (W ! (j mod 16)) = sha1_schedule data ! j" if "j < t" "t \<le> j + 16" for j
      using assms(1) that False by (simp add: ring_ok_def max_def)
    have "t mod 16 = (t - 16) mod 16" using False by (simp add: le_mod_geq)
    then have new: "low32 (W' ! (t mod 16)) = sha1_schedule data ! t"
      using False assms(1,2) old[of "t - 3"] old[of "t - 8"] old[of "t - 14"] old[of "t - 16"]
      by (simp add: W'_def sha1_R_def schedule_next low_S ring_ok_def)
    have "low32 (W' ! (j mod 16)) = sha1_schedule data ! j" if "j < Suc t" "Suc t \<le> j + 16" for j
    proof (cases "j = t")
      case True
      then show ?thesis using new by simp
    next
      case j: False
      have "j mod 16 \<noteq> t mod 16"
      proof
        assume "j mod 16 = t mod 16"
        moreover have "j \<le> t" "t - j < 16" using that by auto
        ultimately show False using j by (metis dvd_imp_le mod_eq_dvd_iff_nat not_le zero_less_diff le_neq_implies_less)
      qed
      then show ?thesis using old[of j] that j False by (simp add: W'_def sha1_R_def)
    qed
    moreover have "length W' = 16" using assms(1) by (simp add: ring_ok_def W'_def sha1_R_def)
    ultimately show ?thesis using new False by (auto simp: ring_ok_def)
  qed
  then show "ring_ok data (Suc t) W'" "low32 (W' ! (t mod 16)) = sha1_schedule data ! t" by simp_all
qed

fun list5 :: "sha1_state \<Rightarrow> u32 list" where
  "list5 (a, b, c, d, e) = [a, b, c, d, e]"

text \<open>The state of the code seen from the standard.\<close>

definition sha1_sees :: "bytes \<Rightarrow> nat \<Rightarrow> u64 list \<times> u64 list \<Rightarrow> sha1_state \<Rightarrow> bool" where
  "sha1_sees data t s st \<longleftrightarrow> ring_ok data t (fst s) \<and> length (snd s) = 5 \<and> map low32 (view t (snd s)) = list5 st"

lemma sha1_step_sees:
  assumes "sha1_sees data t s st" "t < 80"
  shows "sha1_sees data (Suc t) (sha1_step t s) (fips_sha1_step (sha1_schedule data) t st)"
proof -
  obtain W R where s: "s = (W, R)" by (cases s)
  obtain a b c d e where st: "st = (a, b, c, d, e)" by (cases st)
  define W' where "W' = (if t < 16 then W else sha1_R t W)"
  have W: "ring_ok data (Suc t) W'" "low32 (W' ! (t mod 16)) = sha1_schedule data ! t"
    using ring_next[of data t W] assms by (simp_all add: sha1_sees_def s W'_def)
  have R: "length R = 5" and v: "map low32 (view t R) = [a, b, c, d, e]"
    using assms(1) by (simp_all add: sha1_sees_def s st)
  obtain A B C D E where V: "view t R = [A, B, C, D, E]" "low32 A = a" "low32 B = b" "low32 C = c" "low32 D = d" "low32 E = e"
    using v by (auto simp: map_eq_Cons_conv)
  have n: "R ! reg 5 t 0 = A" "R ! reg 5 t 1 = B" "R ! reg 5 t 2 = C" "R ! reg 5 t 3 = D" "R ! reg 5 t 4 = E"
    using R V(1) view_nth[of 0 R t] view_nth[of 1 R t] view_nth[of 2 R t] view_nth[of 3 R t] view_nth[of 4 R t] by simp_all
  let ?x = "E + (long_S A 5 + code_fun t B C D + code_K t + W' ! (t mod 16))"
  have r: "reg 5 t 4 \<noteq> reg 5 t 1" using reg_inject[of 4 5 1 t] by simp
  have step: "sha1_step t s = (W', R [reg 5 t 4 := ?x, reg 5 t 1 := long_S B 30])"
    using n r by (simp add: sha1_step_def sha1_P_def sha1_entry_def s W'_def Let_def)
  have "view t (R [reg 5 t 4 := ?x, reg 5 t 1 := long_S B 30]) = [A, long_S B 30, C, D, ?x]"
    using view_update[of 4 R t ?x] view_update[of 1 "R [reg 5 t 4 := ?x]" t] R V(1) by simp
  then have "view (Suc t) (R [reg 5 t 4 := ?x, reg 5 t 1 := long_S B 30]) = [?x, A, long_S B 30, C, D]"
    using R by (subst view_next) auto
  then show ?thesis
    using W R V by (simp add: sha1_sees_def step st low_S low_fun low_K ac_simps)
qed

lemma sha1_steps_see:
  assumes "sha1_sees data 0 s st" "n \<le> 80"
  shows "sha1_sees data n (fold sha1_step [0..<n] s) (fold (fips_sha1_step (sha1_schedule data)) [0..<n] st)"
  using assms(2)
proof (induction n)
  case (Suc n)
  then show ?case using sha1_step_sees[of data n "fold sha1_step [0..<n] s"] by simp
qed (use assms(1) in simp)

definition low5 :: "u64 list \<Rightarrow> sha1_state" where
  "low5 R = (low32 (R ! 0), low32 (R ! 1), low32 (R ! 2), low32 (R ! 3), low32 (R ! 4))"

lemma list5_low5: "length R = 5 \<Longrightarrow> list5 (low5 R) = map low32 R"
  by (auto simp: low5_def length_Suc_conv numeral_eq_Suc)

lemma list5_inject: "list5 p = list5 q \<Longrightarrow> p = q"
  by (cases p; cases q) simp

lemma sha1_process_fips:
  assumes "length R = 5"
  shows "low5 (sha1_process R data) = fips_sha1_block (low5 R) data \<and> length (sha1_process R data) = 5"
proof -
  let ?W = "map (\<lambda>i. get_ulong_be data (4 * i)) [0..<16]"
  have "sha1_sees data 0 (?W, R) (low5 R)"
    using assms by (simp add: sha1_sees_def ring_first view_whole list5_low5 del: upt_rec_numeral)
  then have s: "sha1_sees data n (fold sha1_step [0..<n] (?W, R)) (fold (fips_sha1_step (sha1_schedule data)) [0..<n] (low5 R))"
    if "n \<le> 80" for n using that by (rule sha1_steps_see)
  define n :: nat where "n = 80"
  obtain W' R' where w: "fold sha1_step [0..<n] (?W, R) = (W', R')" by fastforce
  have R': "length R' = 5" "map low32 (view n R') = list5 (fold (fips_sha1_step (sha1_schedule data)) [0..<n] (low5 R))"
    using s[of n] w by (simp_all add: sha1_sees_def n_def del: upt_rec_numeral)
  have "view n R' = R'" using R'(1) by (intro view_whole) (simp add: n_def)
  then have f: "fold (fips_sha1_step (sha1_schedule data)) [0..<n] (low5 R) = low5 R'"
    using R' list5_low5[of R'] by (intro list5_inject) simp
  have "sha1_process R data = map2 (+) R R'" unfolding sha1_process_steps n_def[symmetric] w by simp
  moreover have "fips_sha1_block (low5 R) data = low5 (map2 (+) R R')"
    unfolding fips_sha1_block_def n_def[symmetric] f using assms R'(1) by (simp add: low5_def)
  ultimately show ?thesis using assms R'(1) by simp
qed

section \<open>Digests\<close>

lemma ulong_msglen_bytes:
  "ulong_msglen (drop_bit 29 (word_of_nat (n mod 2 ^ 32)) OR push_bit 3 (word_of_nat (n div 2 ^ 32)))
     (push_bit 3 (word_of_nat (n mod 2 ^ 32))) = length_be (8 * n)"
proof -
  note l = length_bytes[where 'w = 64 and n = n]
  have "[0..<8] = [0, 1, 2, 3, 4, 5, 6, 7 :: nat]" by (simp add: upt_rec)
  then show ?thesis
    using l[of 0] l[of 1] l[of 2] l[of 3]
    by (simp add: ulong_msglen_def put_ulong_be_def length_be_def length_le_def)
qed

interpretation sha1: hash_stream sha1_process "[0x67452301, 0xEFCDAB89, 0x98BADCFE, 0x10325476, 0xC3D2E1F0]"
  ulong_msglen length_be "\<lambda>ctx. True" sha1_starts sha1_finish sha1_output
proof
  show "length (sha1_output s) \<le> 64" for s by (simp add: sha1_output_def)
  show "length (ctx_buffer ctx) = 64 \<Longrightarrow>
      absorbed sha1_process [0x67452301, 0xEFCDAB89, 0x98BADCFE, 0x10325476, 0xC3D2E1F0] [] (sha1_starts ctx) \<and> True" for ctx
    by (simp add: absorbed_def sha1_starts_def hash_blocks_def digest_blocks.simps)
qed (simp_all only: ulong_msglen_bytes, simp_all add: sha1_starts_def sha1_finish_def Let_def)

lemma sha1_hash_fips:
  "md_hash sha1_process [0x67452301, 0xEFCDAB89, 0x98BADCFE, 0x10325476, 0xC3D2E1F0] length_be sha1_output = fips_sha1"
proof
  fix m
  let ?i = "[0x67452301, 0xEFCDAB89, 0x98BADCFE, 0x10325476, 0xC3D2E1F0] :: u64 list"
  have "low5 (hash_blocks sha1_process ?i m) = hash_blocks fips_sha1_block (low5 ?i) m" for m
    using hash_blocks_map[of "\<lambda>R. length R = 5" low5 sha1_process fips_sha1_block ?i m] by (simp add: sha1_process_fips)
  moreover have "low5 ?i = (0x67452301, 0xEFCDAB89, 0x98BADCFE, 0x10325476, 0xC3D2E1F0)"
    by (simp add: low5_def low32_def)
  moreover have "sha1_output R = (case low5 R of (a, b, c, d, e) \<Rightarrow> put_be a @ put_be b @ put_be c @ put_be d @ put_be e)" for R
    by (simp add: sha1_output_def low5_def put_low)
  ultimately show "md_hash sha1_process ?i length_be sha1_output m = fips_sha1 m"
    by (simp add: md_hash_def fips_sha1_def)
qed

lemma sha1_correct: "length m < 2 ^ 32 \<Longrightarrow> sha1 stack m = fips_sha1 m"
  using sha1.one_shot[of "local_context stack" m] by (simp add: sha1_def sha1_update_def sha1_hash_fips)

lemma sha1_hmac_starts_absorbed:
  assumes "length (ctx_buffer ctx) = 64" "length key < 2 ^ 32"
  shows "sha1.hmac_absorbed key [] (sha1_hmac_starts stack ctx key)"
  unfolding sha1_hmac_starts_def
  by (rule sha1.hmac_setup_absorbed) (use assms in \<open>auto simp: sha1_correct sha1_hash_fips\<close>)

lemma hmac_sha1_correct:
  assumes "length key < 2 ^ 32" "length m < 2 ^ 32"
  shows "hmac_sha1 stack key m = hmac_spec fips_sha1 key m"
  using sha1.hmac_final_absorbed(1)[OF sha1.hmac_update_absorbed[OF sha1_hmac_starts_absorbed assms(2)]] assms
  by (simp add: hmac_sha1_def sha1_hmac_finish_def sha1_update_def sha1_hash_fips)

lemma length_fips_sha1 [simp]: "length (fips_sha1 m) = 20"
  by (simp add: fips_sha1_def md_hash_def split: prod.splits)

lemma sha1_hmac_reset_correct:
  assumes "length (ctx_buffer ctx) = 64" "length key < 2 ^ 32" "length x < 2 ^ 32" "length m < 2 ^ 32"
  shows "fst (sha1_hmac_finish (sha1_update (sha1_hmac_reset (sha1_update (sha1_hmac_starts stack ctx key) x)) m)) = hmac_spec fips_sha1 key m"
  using sha1.hmac_final_absorbed(1)[OF sha1.hmac_update_absorbed[OF sha1.hmac_reset_absorbed[OF
      sha1.hmac_update_absorbed[OF sha1_hmac_starts_absorbed[OF assms(1,2)] assms(3)]] assms(4)]] assms(4)
  by (simp add: sha1_hmac_reset_def sha1_hmac_finish_def sha1_update_def sha1_hash_fips)

end
