(* ===== verification/Sha2.thy ===== *)
theory Sha2
  imports Sha1
begin

text \<open>
  SHA-256 and HMAC-SHA-256 of lib/pbkdf2-sha256.cpp: 64 steps written out on eight
  registers of 64 bits, with the message schedule filled as they go; the flag
  \<open>is224\<close> selects SHA-224. The lemmas: with the flag off, the low halves of
  the registers are those of FIPS 180-4, and the tag is HMAC-SHA-256 of RFC 2104.
\<close>

section \<open>The code\<close>

definition sha2_S0 :: "u64 \<Rightarrow> u64" where "sha2_S0 x = long_ROTR x 7 XOR long_ROTR x 18 XOR long_SHR x 3"
definition sha2_S1 :: "u64 \<Rightarrow> u64" where "sha2_S1 x = long_ROTR x 17 XOR long_ROTR x 19 XOR long_SHR x 10"
definition sha2_S2 :: "u64 \<Rightarrow> u64" where "sha2_S2 x = long_ROTR x 2 XOR long_ROTR x 13 XOR long_ROTR x 22"
definition sha2_S3 :: "u64 \<Rightarrow> u64" where "sha2_S3 x = long_ROTR x 6 XOR long_ROTR x 11 XOR long_ROTR x 25"
definition sha2_F0 :: "u64 \<Rightarrow> u64 \<Rightarrow> u64 \<Rightarrow> u64" where "sha2_F0 x y z = (x AND y) OR (z AND (x OR y))"
definition sha2_F1 :: "u64 \<Rightarrow> u64 \<Rightarrow> u64 \<Rightarrow> u64" where "sha2_F1 x y z = z XOR (x AND (y XOR z))"

text \<open>A line \<open>P( a, ..., h, W[t], K )\<close> or \<open>P( a, ..., h, R(t), K )\<close>, the registers A
  to H being 0 to 7.\<close>

type_synonym sha2_line = "nat \<times> nat \<times> nat \<times> nat \<times> nat \<times> nat \<times> nat \<times> nat \<times> nat \<times> u64"

definition sha2_R :: "nat \<Rightarrow> u64 list \<Rightarrow> u64 list" where
  "sha2_R t W = W [t := sha2_S1 (W ! (t - 2)) + W ! (t - 7) + sha2_S0 (W ! (t - 15)) + W ! (t - 16)]"

definition sha2_P :: "sha2_line \<Rightarrow> u64 list \<times> u64 list \<Rightarrow> u64 list \<times> u64 list" where
  "sha2_P = (\<lambda>(a, b, c, d, e, f, g, h, t, K) (W, R).
     let W = (if t < 16 then W else sha2_R t W);
         temp1 = R ! h + sha2_S3 (R ! e) + sha2_F1 (R ! e) (R ! f) (R ! g) + K + W ! t;
         temp2 = sha2_S2 (R ! a) + sha2_F0 (R ! a) (R ! b) (R ! c);
         R = R [d := R ! d + temp1]; R = R [h := temp1 + temp2]
     in (W, R))"

definition sha2_rounds :: "sha2_line list" where
  "sha2_rounds = [
     (0, 1, 2, 3, 4, 5, 6, 7, 0, 0x428A2F98), (7, 0, 1, 2, 3, 4, 5, 6, 1, 0x71374491),
     (6, 7, 0, 1, 2, 3, 4, 5, 2, 0xB5C0FBCF), (5, 6, 7, 0, 1, 2, 3, 4, 3, 0xE9B5DBA5),
     (4, 5, 6, 7, 0, 1, 2, 3, 4, 0x3956C25B), (3, 4, 5, 6, 7, 0, 1, 2, 5, 0x59F111F1),
     (2, 3, 4, 5, 6, 7, 0, 1, 6, 0x923F82A4), (1, 2, 3, 4, 5, 6, 7, 0, 7, 0xAB1C5ED5),
     (0, 1, 2, 3, 4, 5, 6, 7, 8, 0xD807AA98), (7, 0, 1, 2, 3, 4, 5, 6, 9, 0x12835B01),
     (6, 7, 0, 1, 2, 3, 4, 5, 10, 0x243185BE), (5, 6, 7, 0, 1, 2, 3, 4, 11, 0x550C7DC3),
     (4, 5, 6, 7, 0, 1, 2, 3, 12, 0x72BE5D74), (3, 4, 5, 6, 7, 0, 1, 2, 13, 0x80DEB1FE),
     (2, 3, 4, 5, 6, 7, 0, 1, 14, 0x9BDC06A7), (1, 2, 3, 4, 5, 6, 7, 0, 15, 0xC19BF174),
     (0, 1, 2, 3, 4, 5, 6, 7, 16, 0xE49B69C1), (7, 0, 1, 2, 3, 4, 5, 6, 17, 0xEFBE4786),
     (6, 7, 0, 1, 2, 3, 4, 5, 18, 0x0FC19DC6), (5, 6, 7, 0, 1, 2, 3, 4, 19, 0x240CA1CC),
     (4, 5, 6, 7, 0, 1, 2, 3, 20, 0x2DE92C6F), (3, 4, 5, 6, 7, 0, 1, 2, 21, 0x4A7484AA),
     (2, 3, 4, 5, 6, 7, 0, 1, 22, 0x5CB0A9DC), (1, 2, 3, 4, 5, 6, 7, 0, 23, 0x76F988DA),
     (0, 1, 2, 3, 4, 5, 6, 7, 24, 0x983E5152), (7, 0, 1, 2, 3, 4, 5, 6, 25, 0xA831C66D),
     (6, 7, 0, 1, 2, 3, 4, 5, 26, 0xB00327C8), (5, 6, 7, 0, 1, 2, 3, 4, 27, 0xBF597FC7),
     (4, 5, 6, 7, 0, 1, 2, 3, 28, 0xC6E00BF3), (3, 4, 5, 6, 7, 0, 1, 2, 29, 0xD5A79147),
     (2, 3, 4, 5, 6, 7, 0, 1, 30, 0x06CA6351), (1, 2, 3, 4, 5, 6, 7, 0, 31, 0x14292967),
     (0, 1, 2, 3, 4, 5, 6, 7, 32, 0x27B70A85), (7, 0, 1, 2, 3, 4, 5, 6, 33, 0x2E1B2138),
     (6, 7, 0, 1, 2, 3, 4, 5, 34, 0x4D2C6DFC), (5, 6, 7, 0, 1, 2, 3, 4, 35, 0x53380D13),
     (4, 5, 6, 7, 0, 1, 2, 3, 36, 0x650A7354), (3, 4, 5, 6, 7, 0, 1, 2, 37, 0x766A0ABB),
     (2, 3, 4, 5, 6, 7, 0, 1, 38, 0x81C2C92E), (1, 2, 3, 4, 5, 6, 7, 0, 39, 0x92722C85),
     (0, 1, 2, 3, 4, 5, 6, 7, 40, 0xA2BFE8A1), (7, 0, 1, 2, 3, 4, 5, 6, 41, 0xA81A664B),
     (6, 7, 0, 1, 2, 3, 4, 5, 42, 0xC24B8B70), (5, 6, 7, 0, 1, 2, 3, 4, 43, 0xC76C51A3),
     (4, 5, 6, 7, 0, 1, 2, 3, 44, 0xD192E819), (3, 4, 5, 6, 7, 0, 1, 2, 45, 0xD6990624),
     (2, 3, 4, 5, 6, 7, 0, 1, 46, 0xF40E3585), (1, 2, 3, 4, 5, 6, 7, 0, 47, 0x106AA070),
     (0, 1, 2, 3, 4, 5, 6, 7, 48, 0x19A4C116), (7, 0, 1, 2, 3, 4, 5, 6, 49, 0x1E376C08),
     (6, 7, 0, 1, 2, 3, 4, 5, 50, 0x2748774C), (5, 6, 7, 0, 1, 2, 3, 4, 51, 0x34B0BCB5),
     (4, 5, 6, 7, 0, 1, 2, 3, 52, 0x391C0CB3), (3, 4, 5, 6, 7, 0, 1, 2, 53, 0x4ED8AA4A),
     (2, 3, 4, 5, 6, 7, 0, 1, 54, 0x5B9CCA4F), (1, 2, 3, 4, 5, 6, 7, 0, 55, 0x682E6FF3),
     (0, 1, 2, 3, 4, 5, 6, 7, 56, 0x748F82EE), (7, 0, 1, 2, 3, 4, 5, 6, 57, 0x78A5636F),
     (6, 7, 0, 1, 2, 3, 4, 5, 58, 0x84C87814), (5, 6, 7, 0, 1, 2, 3, 4, 59, 0x8CC70208),
     (4, 5, 6, 7, 0, 1, 2, 3, 60, 0x90BEFFFA), (3, 4, 5, 6, 7, 0, 1, 2, 61, 0xA4506CEB),
     (2, 3, 4, 5, 6, 7, 0, 1, 62, 0xBEF9A3F7), (1, 2, 3, 4, 5, 6, 7, 0, 63, 0xC67178F2)]"

text \<open>The last 48 words of the schedule are not initialised; each is written before
  it is read.\<close>

definition sha2_process :: "u64 list \<Rightarrow> bytes \<Rightarrow> u64 list" where
  "sha2_process state data =
     (let W = map (\<lambda>i. get_ulong_be data (4 * i)) [0..<16] @ replicate 48 0
      in map2 (+) state (snd (fold sha2_P sha2_rounds (W, state))))"

record sha2_context = "64 digest_context" +
  ctx_is224 :: int

definition sha2_init :: "int \<Rightarrow> u64 list" where
  "sha2_init is224 =
     (if is224 = 0
      then [0x6A09E667, 0xBB67AE85, 0x3C6EF372, 0xA54FF53A, 0x510E527F, 0x9B05688C, 0x1F83D9AB, 0x5BE0CD19]
      else [0xC1059ED8, 0x367CD507, 0x3070DD17, 0xF70E5939, 0xFFC00B31, 0x68581511, 0x64F98FA7, 0xBEFA4FA4])"

definition sha2_starts :: "sha2_context \<Rightarrow> int \<Rightarrow> sha2_context" where
  "sha2_starts ctx is224 = ctx \<lparr> ctx_total0 := 0, ctx_total1 := 0, ctx_state := sha2_init is224, ctx_is224 := is224 \<rparr>"

definition sha2_update :: "sha2_context \<Rightarrow> bytes \<Rightarrow> sha2_context" where
  "sha2_update = digest_update sha2_process"

definition sha2_output :: "int \<Rightarrow> u64 list \<Rightarrow> bytes" where
  "sha2_output is224 st = put_ulong_be (st ! 0) @ put_ulong_be (st ! 1) @ put_ulong_be (st ! 2) @
     put_ulong_be (st ! 3) @ put_ulong_be (st ! 4) @ put_ulong_be (st ! 5) @ put_ulong_be (st ! 6) @
     (if is224 = 0 then put_ulong_be (st ! 7) else [])"

definition sha2_finish :: "sha2_context \<Rightarrow> bytes \<times> sha2_context" where
  "sha2_finish ctx = (let ctx = digest_pad sha2_process ulong_msglen ctx
     in (sha2_output (ctx_is224 ctx) (ctx_state ctx), ctx))"

definition sha2 :: "sha2_context \<Rightarrow> bytes \<Rightarrow> int \<Rightarrow> bytes" where
  "sha2 stack input is224 = fst (sha2_finish (sha2_update (sha2_starts (local_context stack) is224) input))"

definition sha2_hmac_starts :: "sha2_context \<Rightarrow> sha2_context \<Rightarrow> bytes \<Rightarrow> int \<Rightarrow> sha2_context" where
  "sha2_hmac_starts stack ctx key is224 =
     hmac_setup (\<lambda>k. sha2 stack k is224) (\<lambda>c. sha2_starts c is224) sha2_process ctx key"

definition sha2_hmac_finish :: "sha2_context \<Rightarrow> bytes \<times> sha2_context" where
  "sha2_hmac_finish ctx = hmac_final (\<lambda>c. sha2_starts c (ctx_is224 ctx)) sha2_process sha2_finish ctx"

definition sha2_hmac_reset :: "sha2_context \<Rightarrow> sha2_context" where
  "sha2_hmac_reset ctx = hmac_reset (\<lambda>c. sha2_starts c (ctx_is224 ctx)) sha2_process ctx"

definition sha2_hmac :: "sha2_context \<Rightarrow> bytes \<Rightarrow> bytes \<Rightarrow> int \<Rightarrow> bytes" where
  "sha2_hmac stack key input is224 =
     fst (sha2_hmac_finish (sha2_update (sha2_hmac_starts stack (local_context stack) key is224) input))"

section \<open>FIPS 180-4\<close>

type_synonym sha2_state = "u32 \<times> u32 \<times> u32 \<times> u32 \<times> u32 \<times> u32 \<times> u32 \<times> u32"

text \<open>The constants are the first bits of the fractional parts of the cube roots
  of the first 64 primes.\<close>

definition fips180_K :: "u32 list" where
  "fips180_K = [
     0x428A2F98, 0x71374491, 0xB5C0FBCF, 0xE9B5DBA5, 0x3956C25B, 0x59F111F1,
     0x923F82A4, 0xAB1C5ED5, 0xD807AA98, 0x12835B01, 0x243185BE, 0x550C7DC3,
     0x72BE5D74, 0x80DEB1FE, 0x9BDC06A7, 0xC19BF174, 0xE49B69C1, 0xEFBE4786,
     0x0FC19DC6, 0x240CA1CC, 0x2DE92C6F, 0x4A7484AA, 0x5CB0A9DC, 0x76F988DA,
     0x983E5152, 0xA831C66D, 0xB00327C8, 0xBF597FC7, 0xC6E00BF3, 0xD5A79147,
     0x06CA6351, 0x14292967, 0x27B70A85, 0x2E1B2138, 0x4D2C6DFC, 0x53380D13,
     0x650A7354, 0x766A0ABB, 0x81C2C92E, 0x92722C85, 0xA2BFE8A1, 0xA81A664B,
     0xC24B8B70, 0xC76C51A3, 0xD192E819, 0xD6990624, 0xF40E3585, 0x106AA070,
     0x19A4C116, 0x1E376C08, 0x2748774C, 0x34B0BCB5, 0x391C0CB3, 0x4ED8AA4A,
     0x5B9CCA4F, 0x682E6FF3, 0x748F82EE, 0x78A5636F, 0x84C87814, 0x8CC70208,
     0x90BEFFFA, 0xA4506CEB, 0xBEF9A3F7, 0xC67178F2]"

definition fips_sigma0 :: "u32 \<Rightarrow> u32" where "fips_sigma0 x = word_rotr 7 x XOR word_rotr 18 x XOR drop_bit 3 x"
definition fips_sigma1 :: "u32 \<Rightarrow> u32" where "fips_sigma1 x = word_rotr 17 x XOR word_rotr 19 x XOR drop_bit 10 x"
definition fips_Sigma0 :: "u32 \<Rightarrow> u32" where "fips_Sigma0 x = word_rotr 2 x XOR word_rotr 13 x XOR word_rotr 22 x"
definition fips_Sigma1 :: "u32 \<Rightarrow> u32" where "fips_Sigma1 x = word_rotr 6 x XOR word_rotr 11 x XOR word_rotr 25 x"

definition sha256_schedule :: "bytes \<Rightarrow> u32 list" where
  "sha256_schedule data = extend_to 64
     (\<lambda>w. let t = length w in fips_sigma1 (w ! (t - 2)) + w ! (t - 7) + fips_sigma0 (w ! (t - 15)) + w ! (t - 16))
     (map (\<lambda>i. get_be data (4 * i)) [0..<16])"

fun fips_sha256_step :: "u32 list \<Rightarrow> nat \<Rightarrow> sha2_state \<Rightarrow> sha2_state" where
  "fips_sha256_step w t (a, b, c, d, e, f, g, h) =
     (let T1 = h + fips_Sigma1 e + fips_Ch e f g + fips180_K ! t + w ! t;
          T2 = fips_Sigma0 a + fips_Maj a b c
      in (T1 + T2, a, b, c, d + T1, e, f, g))"

definition fips_sha256_block :: "sha2_state \<Rightarrow> bytes \<Rightarrow> sha2_state" where
  "fips_sha256_block st data =
     (let (a, b, c, d, e, f, g, h) = st;
          (a', b', c', d', e', f', g', h') = fold (fips_sha256_step (sha256_schedule data)) [0..<64] st
      in (a + a', b + b', c + c', d + d', e + e', f + f', g + g', h + h'))"

definition fips_sha256 :: "bytes \<Rightarrow> bytes" where
  "fips_sha256 = md_hash fips_sha256_block
     (0x6A09E667, 0xBB67AE85, 0x3C6EF372, 0xA54FF53A, 0x510E527F, 0x9B05688C, 0x1F83D9AB, 0x5BE0CD19) length_be
     (\<lambda>(a, b, c, d, e, f, g, h). put_be a @ put_be b @ put_be c @ put_be d @ put_be e @ put_be f @ put_be g @ put_be h)"

section \<open>The steps\<close>

definition sha2_entry :: "nat \<Rightarrow> sha2_line" where
  "sha2_entry t = (reg 8 t 0, reg 8 t 1, reg 8 t 2, reg 8 t 3, reg 8 t 4, reg 8 t 5, reg 8 t 6, reg 8 t 7, t,
     ucast (fips180_K ! t))"

lemma sha2_lines: "sha2_rounds = map sha2_entry [0..<64]"
  by code_simp

lemma low_functions:
  "low32 (sha2_S0 x) = fips_sigma0 (low32 x)" "low32 (sha2_S1 x) = fips_sigma1 (low32 x)"
  "low32 (sha2_S2 x) = fips_Sigma0 (low32 x)" "low32 (sha2_S3 x) = fips_Sigma1 (low32 x)"
  "low32 (sha2_F0 x y z) = fips_Maj (low32 x) (low32 y) (low32 z)"
  "low32 (sha2_F1 x y z) = fips_Ch (low32 x) (low32 y) (low32 z)"
  "low32 (ucast k) = k"
  by (simp_all only: sha2_S0_def sha2_S1_def sha2_S2_def sha2_S3_def fips_sigma0_def fips_sigma1_def
      fips_Sigma0_def fips_Sigma1_def sha2_F0_def sha2_F1_def low_Maj low_Ch low_ucast)
    (simp_all add: low_ROTR low_SHR)

lemma sha256_schedule_first: "t < 16 \<Longrightarrow> sha256_schedule data ! t = get_be data (4 * t)"
  by (simp add: sha256_schedule_def extend_to_old)

lemma sha256_schedule_next:
  assumes "16 \<le> t" "t < 64"
  shows "sha256_schedule data ! t = fips_sigma1 (sha256_schedule data ! (t - 2)) + sha256_schedule data ! (t - 7) +
    fips_sigma0 (sha256_schedule data ! (t - 15)) + sha256_schedule data ! (t - 16)"
proof -
  define f where "f = (\<lambda>w :: u32 list. let t = length w in
    fips_sigma1 (w ! (t - 2)) + w ! (t - 7) + fips_sigma0 (w ! (t - 15)) + w ! (t - 16))"
  define xs where "xs = map (\<lambda>i. get_be data (4 * i)) [0..<16]"
  have S: "sha256_schedule data = extend_to 64 f xs" by (simp only: sha256_schedule_def f_def xs_def)
  have x: "length xs = 16" by (simp add: xs_def)
  have "extend_to 64 f xs ! t = f (take t (extend_to 64 f xs))"
    by (rule extend_to_new) (use assms x in simp_all)
  moreover have "length (extend_to 64 f xs) = 64" using x by (simp add: length_extend_to)
  ultimately show ?thesis using assms by (simp add: S) (simp add: f_def Let_def)
qed

text \<open>Before step \<open>t\<close> the first words of the array are those of the schedule.\<close>

definition words_ok :: "bytes \<Rightarrow> nat \<Rightarrow> u64 list \<Rightarrow> bool" where
  "words_ok data t W \<longleftrightarrow> length W = 64 \<and> (\<forall>j < max t 16. low32 (W ! j) = sha256_schedule data ! j)"

lemma words_first: "words_ok data 0 (map (\<lambda>i. get_ulong_be data (4 * i)) [0..<16] @ replicate 48 0)"
  by (simp add: words_ok_def nth_append low_get sha256_schedule_first)

lemma words_next:
  assumes "words_ok data t W" "t < 64"
  defines "W' \<equiv> if t < 16 then W else sha2_R t W"
  shows "words_ok data (Suc t) W'" "low32 (W' ! t) = sha256_schedule data ! t"
proof -
  have "words_ok data (Suc t) W' \<and> low32 (W' ! t) = sha256_schedule data ! t"
  proof (cases "t < 16")
    case True
    then show ?thesis using assms by (auto simp: words_ok_def W'_def max_def)
  next
    case False
    have old: "low32 (W ! j) = sha256_schedule data ! j" if "j < t" for j
      using assms(1) that False by (simp add: words_ok_def max_def)
    have new: "low32 (W' ! t) = sha256_schedule data ! t"
      using False assms(1,2) old[of "t - 2"] old[of "t - 7"] old[of "t - 15"] old[of "t - 16"]
      by (simp add: W'_def sha2_R_def sha256_schedule_next low_functions words_ok_def)
    have "low32 (W' ! j) = sha256_schedule data ! j" if "j < Suc t" for j
      using that new old[of j] False by (cases "j = t") (simp_all add: W'_def sha2_R_def)
    moreover have "length W' = 64" using assms(1) by (simp add: words_ok_def W'_def sha2_R_def)
    ultimately show ?thesis using new False by (auto simp: words_ok_def)
  qed
  then show "words_ok data (Suc t) W'" "low32 (W' ! t) = sha256_schedule data ! t" by simp_all
qed

fun list8 :: "sha2_state \<Rightarrow> u32 list" where
  "list8 (a, b, c, d, e, f, g, h) = [a, b, c, d, e, f, g, h]"

definition sha2_sees :: "bytes \<Rightarrow> nat \<Rightarrow> u64 list \<times> u64 list \<Rightarrow> sha2_state \<Rightarrow> bool" where
  "sha2_sees data t s st \<longleftrightarrow> words_ok data t (fst s) \<and> length (snd s) = 8 \<and> map low32 (view t (snd s)) = list8 st"

lemma sha2_step_sees:
  assumes "sha2_sees data t s st" "t < 64"
  shows "sha2_sees data (Suc t) (sha2_P (sha2_entry t) s) (fips_sha256_step (sha256_schedule data) t st)"
proof -
  obtain W R where s: "s = (W, R)" by (cases s)
  obtain a b c d e f g h where st: "st = (a, b, c, d, e, f, g, h)" by (cases st rule: list8.cases)
  define W' where "W' = (if t < 16 then W else sha2_R t W)"
  have W: "words_ok data (Suc t) W'" "low32 (W' ! t) = sha256_schedule data ! t"
    using words_next[of data t W] assms by (simp_all add: sha2_sees_def s W'_def)
  have R: "length R = 8" and v: "map low32 (view t R) = [a, b, c, d, e, f, g, h]"
    using assms(1) by (simp_all add: sha2_sees_def s st)
  obtain A B C D E F G H where V: "view t R = [A, B, C, D, E, F, G, H]" "low32 A = a" "low32 B = b" "low32 C = c"
      "low32 D = d" "low32 E = e" "low32 F = f" "low32 G = g" "low32 H = h"
    using v by (auto simp: map_eq_Cons_conv)
  have n: "R ! reg 8 t 0 = A" "R ! reg 8 t 1 = B" "R ! reg 8 t 2 = C" "R ! reg 8 t 3 = D" "R ! reg 8 t 4 = E"
      "R ! reg 8 t 5 = F" "R ! reg 8 t 6 = G" "R ! reg 8 t 7 = H"
    using R V(1) view_nth[of 0 R t] view_nth[of 1 R t] view_nth[of 2 R t] view_nth[of 3 R t] view_nth[of 4 R t]
      view_nth[of 5 R t] view_nth[of 6 R t] view_nth[of 7 R t] by simp_all
  let ?t1 = "H + sha2_S3 E + sha2_F1 E F G + ucast (fips180_K ! t) + W' ! t"
  let ?t2 = "sha2_S2 A + sha2_F0 A B C"
  have r: "reg 8 t 7 \<noteq> reg 8 t 3" using reg_inject[of 7 8 3 t] by simp
  have step: "sha2_P (sha2_entry t) s = (W', R [reg 8 t 3 := D + ?t1, reg 8 t 7 := ?t1 + ?t2])"
    using n r by (simp add: sha2_P_def sha2_entry_def s W'_def Let_def)
  have "view t (R [reg 8 t 3 := D + ?t1, reg 8 t 7 := ?t1 + ?t2]) = [A, B, C, D + ?t1, E, F, G, ?t1 + ?t2]"
    using view_update[of 3 R t "D + ?t1"] view_update[of 7 "R [reg 8 t 3 := D + ?t1]" t] R V(1) by simp
  then have "view (Suc t) (R [reg 8 t 3 := D + ?t1, reg 8 t 7 := ?t1 + ?t2]) = [?t1 + ?t2, A, B, C, D + ?t1, E, F, G]"
    using R by (subst view_next) auto
  then show ?thesis
    using W R V by (simp add: sha2_sees_def step st low_functions Let_def)
qed

lemma sha2_steps_see:
  assumes "sha2_sees data 0 s st" "n \<le> 64"
  shows "sha2_sees data n (fold (\<lambda>t. sha2_P (sha2_entry t)) [0..<n] s) (fold (fips_sha256_step (sha256_schedule data)) [0..<n] st)"
  using assms(2)
proof (induction n)
  case (Suc n)
  then show ?case using sha2_step_sees[of data n "fold (\<lambda>t. sha2_P (sha2_entry t)) [0..<n] s"] by simp
qed (use assms(1) in simp)

definition low8 :: "u64 list \<Rightarrow> sha2_state" where
  "low8 R = (low32 (R ! 0), low32 (R ! 1), low32 (R ! 2), low32 (R ! 3), low32 (R ! 4), low32 (R ! 5),
     low32 (R ! 6), low32 (R ! 7))"

lemma list8_low8: "length R = 8 \<Longrightarrow> list8 (low8 R) = map low32 R"
  by (auto simp: low8_def length_Suc_conv numeral_eq_Suc)

lemma list8_inject: "list8 p = list8 q \<Longrightarrow> p = q"
  by (cases p rule: list8.cases; cases q rule: list8.cases) simp

lemma sha2_process_fips:
  assumes "length R = 8"
  shows "low8 (sha2_process R data) = fips_sha256_block (low8 R) data \<and> length (sha2_process R data) = 8"
proof -
  let ?W = "map (\<lambda>i. get_ulong_be data (4 * i)) [0..<16] @ replicate 48 0"
  let ?f = "\<lambda>t. sha2_P (sha2_entry t)"
  have "sha2_sees data 0 (?W, R) (low8 R)"
    using assms words_first by (simp add: sha2_sees_def view_whole list8_low8 del: upt_rec_numeral)
  then have s: "sha2_sees data n (fold ?f [0..<n] (?W, R)) (fold (fips_sha256_step (sha256_schedule data)) [0..<n] (low8 R))"
    if "n \<le> 64" for n using that by (rule sha2_steps_see)
  define n :: nat where "n = 64"
  obtain W' R' where w: "fold ?f [0..<n] (?W, R) = (W', R')" by fastforce
  have R': "length R' = 8" "map low32 (view n R') = list8 (fold (fips_sha256_step (sha256_schedule data)) [0..<n] (low8 R))"
    using s[of n] w by (simp_all add: sha2_sees_def n_def del: upt_rec_numeral)
  have "view n R' = R'" using R'(1) by (intro view_whole) (simp add: n_def)
  then have f: "fold (fips_sha256_step (sha256_schedule data)) [0..<n] (low8 R) = low8 R'"
    using R' list8_low8[of R'] by (intro list8_inject) simp
  have "sha2_process R data = map2 (+) R R'"
    unfolding sha2_process_def sha2_lines fold_map o_def n_def[symmetric] Let_def w by simp
  moreover have "fips_sha256_block (low8 R) data = low8 (map2 (+) R R')"
    unfolding fips_sha256_block_def n_def[symmetric] f using assms R'(1) by (simp add: low8_def)
  ultimately show ?thesis using assms R'(1) by simp
qed

section \<open>Digests\<close>

interpretation sha256: hash_stream sha2_process "sha2_init 0"
  ulong_msglen length_be "\<lambda>ctx. ctx_is224 ctx = 0" "\<lambda>ctx. sha2_starts ctx 0" sha2_finish "sha2_output 0"
proof
  show "length (sha2_output 0 s) \<le> 64" for s by (simp add: sha2_output_def)
  show "length (ctx_buffer ctx) = 64 \<Longrightarrow>
      absorbed sha2_process (sha2_init 0) [] (sha2_starts ctx 0) \<and> ctx_is224 (sha2_starts ctx 0) = 0" for ctx
    by (simp add: absorbed_def sha2_starts_def hash_blocks_def digest_blocks.simps)
  have u: "ctx_is224 (digest_update sha2_process ctx x) = ctx_is224 ctx" for ctx :: sha2_context and x
    by (simp add: digest_update_def Let_def split: prod.splits)
  then show "ctx_is224 ctx = 0 \<Longrightarrow> ctx_is224 (digest_update sha2_process ctx x) = 0" for ctx :: sha2_context and x by simp
  show "ctx_is224 ctx = 0 \<Longrightarrow> sha2_finish ctx =
      (sha2_output 0 (ctx_state (digest_pad sha2_process ulong_msglen ctx)), digest_pad sha2_process ulong_msglen ctx)" for ctx :: sha2_context
    by (simp add: sha2_finish_def digest_pad_def Let_def u)
qed (rule ulong_msglen_bytes | simp add: sha2_starts_def)+

lemma sha2_hash_fips: "md_hash sha2_process (sha2_init 0) length_be (sha2_output 0) = fips_sha256"
proof
  fix m
  let ?i = "sha2_init 0"
  have "low8 (hash_blocks sha2_process ?i m) = hash_blocks fips_sha256_block (low8 ?i) m" for m
    using hash_blocks_map[of "\<lambda>R. length R = 8" low8 sha2_process fips_sha256_block ?i m]
    by (simp add: sha2_process_fips) (simp add: sha2_init_def)
  moreover have "low8 ?i = (0x6A09E667, 0xBB67AE85, 0x3C6EF372, 0xA54FF53A, 0x510E527F, 0x9B05688C, 0x1F83D9AB, 0x5BE0CD19)"
    by (simp add: low8_def low32_def sha2_init_def)
  moreover have "sha2_output 0 R = (case low8 R of (a, b, c, d, e, f, g, h) \<Rightarrow>
      put_be a @ put_be b @ put_be c @ put_be d @ put_be e @ put_be f @ put_be g @ put_be h)" for R
    by (simp add: sha2_output_def low8_def put_low)
  ultimately show "md_hash sha2_process ?i length_be (sha2_output 0) m = fips_sha256 m"
    by (simp add: md_hash_def fips_sha256_def)
qed

lemma sha2_correct: "length m < 2 ^ 32 \<Longrightarrow> sha2 stack m 0 = fips_sha256 m"
  using sha256.one_shot[of "local_context stack" m] by (simp add: sha2_def sha2_update_def sha2_hash_fips)

lemma sha2_hmac_starts_absorbed:
  assumes "length (ctx_buffer ctx) = 64" "length key < 2 ^ 32"
  shows "sha256.hmac_absorbed key [] (sha2_hmac_starts stack ctx key 0)"
  unfolding sha2_hmac_starts_def
  by (rule sha256.hmac_setup_absorbed) (use assms in \<open>auto simp: sha2_correct sha2_hash_fips\<close>)

lemma sha2_hmac_finish_absorbed:
  assumes "sha256.hmac_absorbed key m ctx" "length m < 2 ^ 60"
  shows "fst (sha2_hmac_finish ctx) = hmac_spec fips_sha256 key m" "length (ctx_buffer (snd (sha2_hmac_finish ctx))) = 64"
proof -
  have "ctx_is224 ctx = 0" using assms(1) by (simp add: sha256.hmac_absorbed_def)
  then show "fst (sha2_hmac_finish ctx) = hmac_spec fips_sha256 key m" "length (ctx_buffer (snd (sha2_hmac_finish ctx))) = 64"
    using sha256.hmac_final_absorbed[OF assms] by (simp_all add: sha2_hmac_finish_def sha2_hash_fips)
qed

lemma sha2_hmac_correct:
  assumes "length key < 2 ^ 32" "length m < 2 ^ 32"
  shows "sha2_hmac stack key m 0 = hmac_spec fips_sha256 key m"
  using sha2_hmac_finish_absorbed(1)[OF sha256.hmac_update_absorbed[OF sha2_hmac_starts_absorbed assms(2)]] assms
  by (simp add: sha2_hmac_def sha2_update_def)

lemma length_fips_sha256 [simp]: "length (fips_sha256 m) = 32"
  by (simp add: fips_sha256_def md_hash_def split: prod.splits)

lemma sha2_hmac_reset_correct:
  assumes "length (ctx_buffer ctx) = 64" "length key < 2 ^ 32" "length x < 2 ^ 32" "length m < 2 ^ 32"
  shows "fst (sha2_hmac_finish (sha2_update (sha2_hmac_reset (sha2_update (sha2_hmac_starts stack ctx key 0) x)) m)) = hmac_spec fips_sha256 key m"
proof -
  have a: "sha256.hmac_absorbed key ([] @ x) (sha2_update (sha2_hmac_starts stack ctx key 0) x)"
    unfolding sha2_update_def by (rule sha256.hmac_update_absorbed[OF sha2_hmac_starts_absorbed[OF assms(1,2)] assms(3)])
  then have "ctx_is224 (sha2_update (sha2_hmac_starts stack ctx key 0) x) = 0" by (simp add: sha256.hmac_absorbed_def)
  then have "sha2_hmac_reset (sha2_update (sha2_hmac_starts stack ctx key 0) x) =
      hmac_reset (\<lambda>c. sha2_starts c 0) sha2_process (sha2_update (sha2_hmac_starts stack ctx key 0) x)"
    by (simp add: sha2_hmac_reset_def)
  then have "sha256.hmac_absorbed key ([] @ m) (sha2_update (sha2_hmac_reset (sha2_update (sha2_hmac_starts stack ctx key 0) x)) m)"
    unfolding sha2_update_def using sha256.hmac_update_absorbed[OF sha256.hmac_reset_absorbed[OF a] assms(4)]
    by (simp add: sha2_update_def)
  from sha2_hmac_finish_absorbed(1)[OF this] show ?thesis using assms(4) by simp
qed

end
