(* ===== verification/Kdf.thy ===== *)
theory Kdf
  imports Sha2 "HOL-Library.While_Combinator"
begin

text \<open>
  Key derivation in src/lib: PBKDF2 with HMAC-SHA-1 and with HMAC-SHA-256
  (pbkdf2-sha1.cpp, pbkdf2-sha256.cpp) and HKDF with SHA-256 (pbkdf2-sha256.cpp). They
  use a hash through the four functions of its HMAC, whose contract is the locale
  \<open>hmac_stream\<close>; the lemmas show that they compute RFC 8018 and RFC 5869.
\<close>

section \<open>The code\<close>

text \<open>Both files have the same \<open>PKCS5_PBKDF2\<close>, for their \<open>*_hmac_*\<close> functions: one
  block, and the loop that collects \<open>key_length\<close> bytes.\<close>

definition counter_bytes :: "u64 \<Rightarrow> bytes" where
  "counter_bytes counter = [ucast (drop_bit 24 counter AND 0xff), ucast (drop_bit 16 counter AND 0xff),
     ucast (drop_bit 8 counter AND 0xff), ucast (counter AND 0xff)]"

definition pbkdf2_block ::
  "('c \<Rightarrow> bytes \<Rightarrow> 'c) \<Rightarrow> ('c \<Rightarrow> bytes \<Rightarrow> 'c) \<Rightarrow> ('c \<Rightarrow> bytes \<times> 'c) \<Rightarrow> bytes \<Rightarrow> bytes \<Rightarrow> nat \<Rightarrow> u64 \<Rightarrow> 'c \<Rightarrow> bytes \<times> 'c" where
  "pbkdf2_block hstarts hupdate hfinish password salt iteration_count counter ctx =
     (let ctx = hstarts ctx password;
          ctx = hupdate ctx salt;
          ctx = hupdate ctx (counter_bytes counter);
          (md1, ctx) = hfinish ctx;
          (work, md1, ctx) = fold (\<lambda>ic (work, md1, ctx).
              let ctx = hstarts ctx password; ctx = hupdate ctx md1; (md1, ctx) = hfinish ctx
              in (map2 (XOR) work md1, md1, ctx)) [1..<iteration_count] (md1, md1, ctx)
      in (work, ctx))"

definition pbkdf2_while ::
  "(u64 \<Rightarrow> 'c \<Rightarrow> bytes \<times> 'c) \<Rightarrow> nat \<Rightarrow> nat \<Rightarrow> 'c \<Rightarrow> bytes" where
  "pbkdf2_while block md_size key_length ctx =
     (let (counter, generated, output, ctx) =
        while (\<lambda>(counter, generated, output, ctx). generated < key_length)
          (\<lambda>(counter, generated, output, ctx).
             let (work, ctx) = block counter ctx;
                 bytes_to_write = min (key_length - generated) md_size
             in (counter + 1, generated + bytes_to_write, output @ take bytes_to_write work, ctx))
          (1, 0, [], ctx)
      in output)"

definition PKCS5_PBKDF2_HMAC_SHA1 :: "sha1_context \<Rightarrow> bytes \<Rightarrow> bytes \<Rightarrow> nat \<Rightarrow> nat \<Rightarrow> bytes" where
  "PKCS5_PBKDF2_HMAC_SHA1 stack password salt iteration_count key_length =
     (let ctx = sha1_starts (local_context stack)
      in pbkdf2_while (pbkdf2_block (sha1_hmac_starts stack) sha1_update sha1_hmac_finish password salt iteration_count)
           20 key_length ctx)"

definition pbkdf2_hmac_sha256 :: "sha2_context \<Rightarrow> bytes \<Rightarrow> bytes \<Rightarrow> nat \<Rightarrow> nat \<Rightarrow> bytes" where
  "pbkdf2_hmac_sha256 stack password salt iteration_count key_length =
     (let ctx = sha2_starts (local_context stack) 0
      in pbkdf2_while (pbkdf2_block (\<lambda>c k. sha2_hmac_starts stack c k 0) sha2_update sha2_hmac_finish password salt
           iteration_count) 32 key_length ctx)"

text \<open>A null pointer is \<open>None\<close>.\<close>

definition MBEDTLS_ERR_HKDF_BAD_INPUT_DATA :: int where "MBEDTLS_ERR_HKDF_BAD_INPUT_DATA = -0x5F80"

definition zero_context :: sha2_context where
  "zero_context = \<lparr> ctx_total0 = 0, ctx_total1 = 0, ctx_state = replicate 8 0, ctx_buffer = replicate 64 0,
     ctx_ipad = replicate 64 0, ctx_opad = replicate 64 0, ctx_is224 = 0 \<rparr>"

definition hkdf_extract :: "sha2_context \<Rightarrow> bytes option \<Rightarrow> bytes \<Rightarrow> int \<times> bytes" where
  "hkdf_extract stack salt ikm =
     (let salt = (case salt of None \<Rightarrow> replicate 32 0 | Some s \<Rightarrow> s)
      in (0, sha2_hmac stack salt ikm 0))"

definition hkdf_expand :: "sha2_context \<Rightarrow> bytes \<Rightarrow> bytes option \<Rightarrow> nat \<Rightarrow> int \<times> bytes" where
  "hkdf_expand stack prk info okm_len =
     (let hash_len = 32 in
      if length prk < hash_len then (MBEDTLS_ERR_HKDF_BAD_INPUT_DATA, [])
      else
        let info = (case info of None \<Rightarrow> [] | Some s \<Rightarrow> s);
            n = (if okm_len mod hash_len \<noteq> 0 then okm_len div hash_len + 1 else okm_len div hash_len)
        in if n > 255 then (MBEDTLS_ERR_HKDF_BAD_INPUT_DATA, [])
           else
             let (where1, t, t_len, okm, ctx) = fold (\<lambda>i (where1, t, t_len, okm, ctx).
                   let ctx = sha2_hmac_starts stack ctx prk 0;
                       ctx = sha2_update ctx (take t_len t);
                       ctx = sha2_update ctx info;
                       ctx = sha2_update ctx [word_of_nat i];
                       (t, ctx) = sha2_hmac_finish ctx;
                       num_to_copy = (if i \<noteq> n then hash_len else okm_len - where1)
                   in (where1 + hash_len, t, hash_len, okm @ take num_to_copy t, ctx))
                 [1..<n + 1] (0, [], 0, [], zero_context)
             in (0, okm))"

definition hkdf :: "sha2_context \<Rightarrow> bytes option \<Rightarrow> bytes \<Rightarrow> bytes option \<Rightarrow> nat \<Rightarrow> int \<times> bytes" where
  "hkdf stack salt ikm info okm_len =
     (let (ret, prk) = hkdf_extract stack salt ikm
      in if ret = 0 then hkdf_expand stack (take 32 prk) info okm_len else (ret, []))"

section \<open>RFC 8018 and RFC 5869\<close>

text \<open>For a pseudorandom function with the key already applied.\<close>

definition pbkdf2_U :: "(bytes \<Rightarrow> bytes) \<Rightarrow> bytes \<Rightarrow> nat \<Rightarrow> nat \<Rightarrow> bytes" where
  "pbkdf2_U mac salt i j = (mac ^^ j) (mac (salt @ put_be (word_of_nat i)))"

definition pbkdf2_T :: "(bytes \<Rightarrow> bytes) \<Rightarrow> bytes \<Rightarrow> nat \<Rightarrow> nat \<Rightarrow> bytes" where
  "pbkdf2_T mac salt c i = fold (\<lambda>j x. map2 (XOR) x (pbkdf2_U mac salt i j)) [1..<c] (pbkdf2_U mac salt i 0)"

definition rfc8018_pbkdf2 :: "(bytes \<Rightarrow> bytes) \<Rightarrow> nat \<Rightarrow> bytes \<Rightarrow> nat \<Rightarrow> nat \<Rightarrow> bytes" where
  "rfc8018_pbkdf2 mac hLen salt c dkLen =
     take dkLen (concat (map (pbkdf2_T mac salt c) [1..<(dkLen + hLen - 1) div hLen + 1]))"

fun hkdf_T :: "(bytes \<Rightarrow> bytes) \<Rightarrow> bytes \<Rightarrow> nat \<Rightarrow> bytes" where
  "hkdf_T mac info 0 = []"
| "hkdf_T mac info (Suc i) = mac (hkdf_T mac info i @ info @ [word_of_nat (Suc i)])"

definition rfc5869_expand :: "(bytes \<Rightarrow> bytes) \<Rightarrow> nat \<Rightarrow> bytes \<Rightarrow> nat \<Rightarrow> bytes" where
  "rfc5869_expand mac hLen info L =
     take L (concat (map (hkdf_T mac info) [1..<(L + hLen - 1) div hLen + 1]))"

lemma counter_bytes: "counter_bytes (word_of_nat i) = put_be (word_of_nat i)"
proof -
  have "counter_bytes w = put_ulong_be w" for w
    by (simp add: counter_bytes_def put_ulong_be_def)
  moreover have "low32 (word_of_nat i) = word_of_nat i"
    by (rule bit_word_eqI) (auto simp: low_bits bit_simps)
  ultimately show ?thesis by (simp add: put_low)
qed

section \<open>The contract of an HMAC\<close>

text \<open>\<open>fed key m ctx\<close>: a computation under \<open>key\<close> has taken in \<open>m\<close>.\<close>

locale hmac_stream =
  fixes good :: "'c \<Rightarrow> bool" and fed :: "bytes \<Rightarrow> bytes \<Rightarrow> 'c \<Rightarrow> bool"
    and hstarts :: "'c \<Rightarrow> bytes \<Rightarrow> 'c" and hupdate :: "'c \<Rightarrow> bytes \<Rightarrow> 'c" and hfinish :: "'c \<Rightarrow> bytes \<times> 'c"
    and mac :: "bytes \<Rightarrow> bytes \<Rightarrow> bytes" and md_size :: nat
  assumes hstarts: "good ctx \<Longrightarrow> length key < 2 ^ 32 \<Longrightarrow> fed key [] (hstarts ctx key)"
    and hupdate: "fed key m ctx \<Longrightarrow> length x < 2 ^ 32 \<Longrightarrow> fed key (m @ x) (hupdate ctx x)"
    and hfinish: "fed key m ctx \<Longrightarrow> length m < 2 ^ 60 \<Longrightarrow> fst (hfinish ctx) = mac key m \<and> good (snd (hfinish ctx))"
    and mac_length: "length (mac key m) = md_size"
    and md_size: "0 < md_size" "md_size < 2 ^ 32"
begin

lemma finish_pair:
  assumes "fed key m ctx" "length m < 2 ^ 60"
  obtains ctx' where "hfinish ctx = (mac key m, ctx')" "good ctx'"
  using hfinish[OF assms] by (metis prod.collapse)

lemma U_length: "length (pbkdf2_U (mac key) salt i j) = md_size"
  by (cases j) (simp_all add: pbkdf2_U_def mac_length)

lemma T_length: "length (pbkdf2_T (mac key) salt c i) = md_size"
proof -
  have "length (fold (\<lambda>j x. map2 (XOR) x (pbkdf2_U (mac key) salt i j)) js y) = md_size" if "length y = md_size" for js y
    using that by (induction js arbitrary: y) (simp_all add: U_length)
  then show ?thesis by (simp add: pbkdf2_T_def U_length)
qed

lemma block_T:
  assumes "good ctx" "length password < 2 ^ 32" "length salt < 2 ^ 32"
  shows "\<exists>ctx'. pbkdf2_block hstarts hupdate hfinish password salt c (word_of_nat i) ctx =
    (pbkdf2_T (mac password) salt c i, ctx') \<and> good ctx'"
proof -
  let ?U = "pbkdf2_U (mac password) salt i"
  let ?step = "\<lambda>ic (work, md1, ctx). let ctx = hstarts ctx password; ctx = hupdate ctx md1; (md1, ctx) = hfinish ctx
    in (map2 (XOR) work md1, md1, ctx)"
  have f: "fed password ([] @ salt @ counter_bytes (word_of_nat i))
      (hupdate (hupdate (hstarts ctx password) salt) (counter_bytes (word_of_nat i)))"
    unfolding append_assoc[symmetric]
    by (intro hupdate hstarts) (use assms in \<open>simp_all add: counter_bytes_def\<close>)
  obtain c1 where c1: "hfinish (hupdate (hupdate (hstarts ctx password) salt) (counter_bytes (word_of_nat i))) = (?U 0, c1)"
      "good c1"
    by (rule finish_pair[OF f]) (use assms(3) in \<open>simp_all add: counter_bytes pbkdf2_U_def\<close>)
  have "\<exists>ctx'. fold ?step [1..<n] (?U 0, ?U 0, c1) =
      (fold (\<lambda>j x. map2 (XOR) x (?U j)) [1..<n] (?U 0), ?U (n - 1), ctx') \<and> good ctx'" for n
  proof (induction n)
    case (Suc n)
    show ?case
    proof (cases "n = 0")
      case False
      obtain c2 where c2: "fold ?step [1..<n] (?U 0, ?U 0, c1) =
          (fold (\<lambda>j x. map2 (XOR) x (?U j)) [1..<n] (?U 0), ?U (n - 1), c2)" "good c2"
        using Suc.IH by blast
      have l: "length (?U (n - 1)) < 2 ^ 32" using md_size by (simp add: U_length)
      have "fed password ([] @ ?U (n - 1)) (hupdate (hstarts c2 password) (?U (n - 1)))"
        by (intro hupdate hstarts c2(2) assms(2) l)
      then have f: "fed password (?U (n - 1)) (hupdate (hstarts c2 password) (?U (n - 1)))" by simp
      obtain c3 where "hfinish (hupdate (hstarts c2 password) (?U (n - 1))) = (mac password (?U (n - 1)), c3)" "good c3"
        by (rule finish_pair[OF f]) (use l in simp)
      moreover have "mac password (?U (n - 1)) = ?U n" using False by (cases n) (simp_all add: pbkdf2_U_def)
      ultimately show ?thesis using c2 False by simp
    qed (use c1 in simp)
  qed (use c1 in simp)
  from this[of c] show ?thesis using c1 by (auto simp: pbkdf2_block_def Let_def pbkdf2_T_def)
qed

lemma length_blocks: "length (concat (map (pbkdf2_T (mac key) salt c) js)) = length js * md_size"
  by (induction js) (simp_all add: T_length)

lemma while_T:
  assumes block: "\<And>i ctx. good ctx \<Longrightarrow> \<exists>ctx'. F (word_of_nat i) ctx = (pbkdf2_T (mac key) salt c i, ctx') \<and> good ctx'"
    and "good ctx"
  shows "pbkdf2_while F md_size dkLen ctx = rfc8018_pbkdf2 (mac key) md_size salt c dkLen"
proof -
  let ?T = "pbkdf2_T (mac key) salt c"
  define I where "I = (\<lambda>(counter :: u64, gen, out, ctx). \<exists>k. counter = word_of_nat (k + 1) \<and> gen = min dkLen (k * md_size) \<and>
    out = take gen (concat (map ?T [1..<k + 1])) \<and> good ctx \<and> k * md_size < dkLen + md_size)"
  let ?b = "\<lambda>(counter, generated, output, ctx). generated < dkLen"
  let ?body = "\<lambda>(counter, generated, output, ctx).
    let (work, ctx) = F counter ctx; bytes_to_write = min (dkLen - generated) md_size
    in (counter + 1, generated + bytes_to_write, output @ take bytes_to_write work, ctx)"
  have "case while ?b ?body (1, 0, [], ctx) of (counter, generated, output, ctx) \<Rightarrow>
      output = rfc8018_pbkdf2 (mac key) md_size salt c dkLen"
  proof (rule while_rule[where P = I and r = "measure (\<lambda>(counter, generated, output, ctx). dkLen - generated)"])
    show "I (1, 0, [], ctx)" using assms(2) md_size by (auto simp: I_def intro!: exI[of _ 0])
  next
    fix s assume I: "I s" and b: "?b s"
    obtain counter gen out c0 where s: "s = (counter, gen, out, c0)" by (cases s)
    obtain k where k: "counter = word_of_nat (k + 1)" "gen = min dkLen (k * md_size)"
      "out = take gen (concat (map ?T [1..<k + 1]))" "good c0"
      using I by (auto simp: I_def s)
    have lt: "k * md_size < dkLen" and g: "gen = k * md_size" using b k(2) by (auto simp: s)
    obtain c1 where F: "F counter c0 = (?T (k + 1), c1)" "good c1" using block[OF k(4), of "k + 1"] k(1) by auto
    let ?n = "min (dkLen - gen) md_size"
    define C where "C = concat (map ?T [1..<k + 1])"
    have len: "length C = gen" unfolding C_def length_blocks g by simp
    have C': "concat (map ?T [1..<Suc k + 1]) = C @ ?T (k + 1)" by (simp add: C_def)
    have out: "out = C" using k(3) len by (simp add: C_def del: upt_Suc)
    have body: "?body s = (counter + 1, gen + ?n, out @ take ?n (?T (k + 1)), c1)" using F(1) by (simp add: s Let_def)
    have "out @ take ?n (?T (k + 1)) = take (gen + ?n) (concat (map ?T [1..<Suc k + 1]))"
      unfolding C' out using len by simp
    moreover have "gen + ?n = min dkLen (Suc k * md_size)" using lt g by simp
    moreover have "Suc k * md_size < dkLen + md_size" using lt by simp
    moreover have "counter + 1 = word_of_nat (Suc k + 1)" using k(1) by simp
    ultimately show "I (?body s)" unfolding body I_def using F(2) by (auto intro!: exI[of _ "Suc k"])
    show "(?body s, s) \<in> measure (\<lambda>(counter, generated, output, ctx). dkLen - generated)"
      unfolding body using b md_size by (auto simp: s)
  next
    fix s assume I: "I s" and b: "\<not> ?b s"
    obtain counter gen out c0 where s: "s = (counter, gen, out, c0)" by (cases s)
    obtain k where k: "gen = min dkLen (k * md_size)" "out = take gen (concat (map ?T [1..<k + 1]))"
      "k * md_size < dkLen + md_size"
      using I by (auto simp: I_def s)
    have ge: "dkLen \<le> k * md_size" using b k(1) by (simp add: s)
    have "(dkLen + md_size - 1) div md_size = k"
      by (rule div_nat_eqI) (use ge k(3) md_size in \<open>simp_all add: ac_simps\<close>)
    then show "case s of (counter, generated, output, ctx) \<Rightarrow> output = rfc8018_pbkdf2 (mac key) md_size salt c dkLen"
      using k(1,2) ge by (simp add: s rfc8018_pbkdf2_def)
  qed simp
  then show ?thesis by (auto simp: pbkdf2_while_def split: prod.splits)
qed

lemma pbkdf2:
  assumes "good ctx" "length password < 2 ^ 32" "length salt < 2 ^ 32"
  shows "pbkdf2_while (pbkdf2_block hstarts hupdate hfinish password salt c) md_size dkLen ctx =
    rfc8018_pbkdf2 (mac password) md_size salt c dkLen"
  by (rule while_T) (use assms block_T in auto)

end

section \<open>Both hashes\<close>

lemma length_hmac_spec [simp]: "(\<And>m. length (H m) = n) \<Longrightarrow> length (hmac_spec H key m) = n"
  by (simp add: hmac_spec_def Let_def)

interpretation hmac1: hmac_stream "\<lambda>ctx. length (ctx_buffer ctx) = 64" "sha1.hmac_absorbed" "sha1_hmac_starts stack"
  sha1_update sha1_hmac_finish "hmac_spec fips_sha1" 20 for stack
proof
  show "length (ctx_buffer ctx) = 64 \<Longrightarrow> length key < 2 ^ 32 \<Longrightarrow> sha1.hmac_absorbed key [] (sha1_hmac_starts stack ctx key)"
    for ctx key by (rule sha1_hmac_starts_absorbed)
  show "sha1.hmac_absorbed key m ctx \<Longrightarrow> length x < 2 ^ 32 \<Longrightarrow> sha1.hmac_absorbed key (m @ x) (sha1_update ctx x)" for key m ctx x
    unfolding sha1_update_def by (rule sha1.hmac_update_absorbed)
  show "sha1.hmac_absorbed key m ctx \<Longrightarrow> length m < 2 ^ 60 \<Longrightarrow> fst (sha1_hmac_finish ctx) = hmac_spec fips_sha1 key m \<and>
      length (ctx_buffer (snd (sha1_hmac_finish ctx))) = 64" for key m ctx
    unfolding sha1_hmac_finish_def using sha1.hmac_final_absorbed by (simp add: sha1_hash_fips)
qed simp_all

interpretation hmac256: hmac_stream "\<lambda>ctx. length (ctx_buffer ctx) = 64" "sha256.hmac_absorbed"
  "\<lambda>c k. sha2_hmac_starts stack c k 0" sha2_update sha2_hmac_finish "hmac_spec fips_sha256" 32 for stack
proof
  show "length (ctx_buffer ctx) = 64 \<Longrightarrow> length key < 2 ^ 32 \<Longrightarrow> sha256.hmac_absorbed key [] (sha2_hmac_starts stack ctx key 0)"
    for ctx key by (rule sha2_hmac_starts_absorbed)
  show "sha256.hmac_absorbed key m ctx \<Longrightarrow> length x < 2 ^ 32 \<Longrightarrow> sha256.hmac_absorbed key (m @ x) (sha2_update ctx x)" for key m ctx x
    unfolding sha2_update_def by (rule sha256.hmac_update_absorbed)
  show "sha256.hmac_absorbed key m ctx \<Longrightarrow> length m < 2 ^ 60 \<Longrightarrow> fst (sha2_hmac_finish ctx) = hmac_spec fips_sha256 key m \<and>
      length (ctx_buffer (snd (sha2_hmac_finish ctx))) = 64" for key m ctx
    using sha2_hmac_finish_absorbed by blast
qed simp_all

lemma starts_buffer [simp]:
  "ctx_buffer (sha1_starts c) = ctx_buffer c" "ctx_buffer (sha2_starts d is224) = ctx_buffer d"
  by (simp_all add: sha1_starts_def sha2_starts_def)

lemma pbkdf2_sha1_correct:
  assumes "length password < 2 ^ 32" "length salt < 2 ^ 32"
  shows "PKCS5_PBKDF2_HMAC_SHA1 stack password salt c dkLen = rfc8018_pbkdf2 (hmac_spec fips_sha1 password) 20 salt c dkLen"
  using hmac1.pbkdf2[OF _ assms, of "sha1_starts (local_context stack)" stack c dkLen]
  by (simp add: PKCS5_PBKDF2_HMAC_SHA1_def Let_def)

lemma pbkdf2_sha256_correct:
  assumes "length password < 2 ^ 32" "length salt < 2 ^ 32"
  shows "pbkdf2_hmac_sha256 stack password salt c dkLen = rfc8018_pbkdf2 (hmac_spec fips_sha256 password) 32 salt c dkLen"
  using hmac256.pbkdf2[OF _ assms, of "sha2_starts (local_context stack) 0" stack c dkLen]
  by (simp add: pbkdf2_hmac_sha256_def Let_def)

section \<open>HKDF\<close>

lemma length_hkdf_T: "(\<And>m. length (f m) = n) \<Longrightarrow> length (hkdf_T f info (Suc i)) = n"
  by simp

lemma length_hkdf_blocks:
  "(\<And>m. length (f m) = n) \<Longrightarrow> length (concat (map (hkdf_T f info) [1..<k + 1])) = k * n"
  by (induction k) simp_all

lemma hkdf_loop:
  assumes prk: "length prk < 2 ^ 32" and info: "length info < 2 ^ 32" and k: "k \<le> n"
    and n: "L \<le> n * 32" "n * 32 < L + 32"
  defines "T \<equiv> hkdf_T (hmac_spec fips_sha256 prk) info"
  shows "\<exists>ctx. fold (\<lambda>i (where1, t, t_len, okm, ctx).
        let ctx = sha2_hmac_starts stack ctx prk 0; ctx = sha2_update ctx (take t_len t); ctx = sha2_update ctx info;
            ctx = sha2_update ctx [word_of_nat i]; (t, ctx) = sha2_hmac_finish ctx;
            num_to_copy = (if i \<noteq> n then 32 else L - where1)
        in (where1 + 32, t, 32, okm @ take num_to_copy t, ctx)) [1..<k + 1] (0, [], 0, [], zero_context) =
      (k * 32, T k, if k = 0 then 0 else 32, take (if k = n then L else k * 32) (concat (map T [1..<k + 1])), ctx) \<and>
      length (ctx_buffer ctx) = 64"
  using k
proof (induction k)
  case 0
  then show ?case by (simp add: T_def zero_context_def)
next
  case (Suc k)
  have H: "length (hmac_spec fips_sha256 prk m) = 32" for m by simp
  obtain ctx where IH: "fold (\<lambda>i (where1, t, t_len, okm, ctx).
        let ctx = sha2_hmac_starts stack ctx prk 0; ctx = sha2_update ctx (take t_len t); ctx = sha2_update ctx info;
            ctx = sha2_update ctx [word_of_nat i]; (t, ctx) = sha2_hmac_finish ctx;
            num_to_copy = (if i \<noteq> n then 32 else L - where1)
        in (where1 + 32, t, 32, okm @ take num_to_copy t, ctx)) [1..<k + 1] (0, [], 0, [], zero_context) =
      (k * 32, T k, if k = 0 then 0 else 32, take (if k = n then L else k * 32) (concat (map T [1..<k + 1])), ctx)"
      "length (ctx_buffer ctx) = 64"
    using Suc by (meson Suc_leD)
  have t: "take (if k = 0 then 0 else 32) (T k) = T k" "length (T k) \<le> 32"
    by (cases k; simp add: T_def)+
  have f: "sha256.hmac_absorbed prk (T k @ info @ [word_of_nat (Suc k)])
      (sha2_update (sha2_update (sha2_update (sha2_hmac_starts stack ctx prk 0) (T k)) info) [word_of_nat (Suc k)])"
    using hmac256.hupdate[OF hmac256.hupdate[OF hmac256.hupdate[OF hmac256.hstarts[OF IH(2) prk]]], of "T k" info "[word_of_nat (Suc k)]"]
      t(2) info by simp
  obtain c2 where c2: "sha2_hmac_finish (sha2_update (sha2_update (sha2_update (sha2_hmac_starts stack ctx prk 0) (T k)) info)
      [word_of_nat (Suc k)]) = (T (Suc k), c2)" "length (ctx_buffer c2) = 64"
    by (rule hmac256.finish_pair[OF f]) (use t(2) info in \<open>auto simp: T_def\<close>)
  define C where "C = concat (map T [1..<k + 1])"
  have C: "length C = k * 32" unfolding C_def T_def by (rule length_hkdf_blocks[OF H])
  have C': "concat (map T [1..<Suc k + 1]) = C @ T (Suc k)" by (simp add: C_def)
  have T': "length (T (Suc k)) = 32" unfolding T_def by (rule length_hkdf_T[OF H])
  have "k \<noteq> n" using Suc.prems by simp
  have u: "[1..<Suc k + 1] = [1..<k + 1] @ [Suc k]" by simp
  have "take (k * 32) C @ take (if Suc k \<noteq> n then 32 else L - k * 32) (T (Suc k)) =
      take (if Suc k = n then L else Suc k * 32) (concat (map T [1..<Suc k + 1]))"
    unfolding C' using C T' n by auto
  then show ?case
    unfolding u fold_append o_apply IH(1) C_def[symmetric] using c2 \<open>k \<noteq> n\<close> t(1)
    by (simp add: Let_def C_def[symmetric] C'[unfolded C_def[symmetric] u])
qed

lemma hkdf_blocks: "(if L mod 32 \<noteq> 0 then L div 32 + 1 else L div 32) = (L + 31) div (32 :: nat)"
proof -
  have "L = 32 * (L div 32) + L mod 32" "L mod 32 < 32" by simp_all
  moreover have "(32 * q + r + 31) div 32 = (if r \<noteq> 0 then q + 1 else q)" if "r < 32" for q r :: nat
    by (rule div_nat_eqI) (use that in auto)
  ultimately show ?thesis by metis
qed

lemma hkdf_blocks_bounds:
  "L \<le> (L + 31) div 32 * 32" "(L + 31) div 32 * 32 < L + (32 :: nat)" "(L + 31) div 32 \<le> n \<longleftrightarrow> L \<le> n * 32"
proof -
  have "(L + 31) div 32 * 32 + (L + 31) mod 32 = L + 31" "(L + 31) mod 32 < 32" by simp_all
  then show "L \<le> (L + 31) div 32 * 32" "(L + 31) div 32 * 32 < L + (32 :: nat)" "(L + 31) div 32 \<le> n \<longleftrightarrow> L \<le> n * 32"
    by linarith+
qed

lemma hkdf_expand_correct:
  assumes prk: "32 \<le> length prk" "length prk < 2 ^ 32" and info: "length info < 2 ^ 32" and L: "L \<le> 255 * 32"
  shows "hkdf_expand stack prk (Some info) L = (0, rfc5869_expand (hmac_spec fips_sha256 prk) 32 info L)"
proof -
  define n where "n = (L + 31) div 32"
  have n: "L \<le> n * 32" "n * 32 < L + 32" "n \<le> 255"
    unfolding n_def using L by (simp_all only: hkdf_blocks_bounds)
  have "\<not> length prk < 32" "\<not> 255 < n" using prk(1) n(3) by (simp_all only: not_less)
  moreover have "(L + 32 - 1) div 32 = n" by (simp add: n_def)
  moreover obtain ctx where "fold (\<lambda>i (where1, t, t_len, okm, ctx).
        let ctx = sha2_hmac_starts stack ctx prk 0; ctx = sha2_update ctx (take t_len t); ctx = sha2_update ctx info;
            ctx = sha2_update ctx [word_of_nat i]; (t, ctx) = sha2_hmac_finish ctx;
            num_to_copy = (if i \<noteq> n then 32 else L - where1)
        in (where1 + 32, t, 32, okm @ take num_to_copy t, ctx)) [1..<n + 1] (0, [], 0, [], zero_context) =
      (n * 32, hkdf_T (hmac_spec fips_sha256 prk) info n, if n = 0 then 0 else 32,
       take L (concat (map (hkdf_T (hmac_spec fips_sha256 prk) info) [1..<n + 1])), ctx)"
    using hkdf_loop[OF prk(2) info order_refl n(1,2), of stack] by (auto simp only: if_True refl)
  ultimately show ?thesis
    unfolding hkdf_expand_def rfc5869_expand_def
    by (simp only: Let_def hkdf_blocks n_def[symmetric] if_False option.case prod.case)
qed

lemma hkdf_expand_errors:
  "length prk < 32 \<or> 255 * 32 < L \<Longrightarrow> hkdf_expand stack prk info L = (MBEDTLS_ERR_HKDF_BAD_INPUT_DATA, [])"
proof -
  assume a: "length prk < 32 \<or> 255 * 32 < L"
  have "255 < (L + 31) div 32" if "255 * 32 < L" using that hkdf_blocks_bounds(3)[of L 255] by linarith
  then show ?thesis using a unfolding hkdf_expand_def Let_def hkdf_blocks by (auto simp only: if_True if_cancel split: if_split)
qed

lemma hkdf_correct:
  assumes "length salt < 2 ^ 32" "length ikm < 2 ^ 32" "length info < 2 ^ 32" "L \<le> 255 * 32"
  shows "hkdf stack (Some salt) ikm (Some info) L =
    (0, rfc5869_expand (hmac_spec fips_sha256 (hmac_spec fips_sha256 salt ikm)) 32 info L)"
proof -
  have l: "length (hmac_spec fips_sha256 salt ikm) = 32" by simp
  have "32 \<le> length (hmac_spec fips_sha256 salt ikm)" "length (hmac_spec fips_sha256 salt ikm) < 2 ^ 32"
    unfolding l by simp_all
  note hkdf_expand_correct[OF this assms(3,4), of stack]
  then show ?thesis using sha2_hmac_correct[OF assms(1,2), of stack] l
    by (simp add: hkdf_def hkdf_extract_def)
qed

end
