(* ===== verification/Bundled.thy ===== *)
theory Bundled
  imports OptionsProps AesFips Md5 Kdf
begin

text \<open>
  The program with the primitives it is built with. The records \<open>crypto_lib\<close> and
  \<open>kdf_lib\<close> keep encrypt.cpp independent of them; here they are filled with the
  functions of src/lib, and lib/aes_faster_c/wrapper.cpp is modelled: each of its six
  functions has a static context, loaded only when a key is given. The results
  hold with no hypothesis on a primitive.
\<close>

section \<open>wrapper.cpp\<close>

definition AES_KEYSIZE :: nat where "AES_KEYSIZE = 128"

definition load_enc :: "bytes \<Rightarrow> aes_context" where
  "load_enc key = snd (aes_setkey_enc aes_init key AES_KEYSIZE)"

definition load_dec :: "bytes \<Rightarrow> aes_context" where
  "load_dec key = snd (aes_setkey_dec aes_init key AES_KEYSIZE)"

definition aes_crypt_cbc :: "aes_context \<Rightarrow> int \<Rightarrow> bytes \<Rightarrow> bytes \<Rightarrow> int \<times> bytes" where
  "aes_crypt_cbc ctx mode iv input =
     (if length input mod 16 \<noteq> 0 then (-0x22, [])
      else if mode = AES_DECRYPT then (0, cbc_decrypt_blocks (\<lambda>b. snd (aes_crypt_ecb ctx mode b)) iv input)
      else (0, cbc_encrypt_blocks (\<lambda>b. snd (aes_crypt_ecb ctx mode b)) iv input))"

definition aes_crypt_cfb128 :: "aes_context \<Rightarrow> int \<Rightarrow> nat \<Rightarrow> bytes \<Rightarrow> bytes \<Rightarrow> int \<times> bytes" where
  "aes_crypt_cfb128 ctx mode n iv input =
     (if mode = AES_DECRYPT then (0, cfb_decrypt_bytes (\<lambda>b. snd (aes_crypt_ecb ctx AES_ENCRYPT b)) n iv input)
      else (0, cfb_encrypt_bytes (\<lambda>b. snd (aes_crypt_ecb ctx AES_ENCRYPT b)) n iv input))"

text \<open>CFB8 is compiled in and not used by the program; \<open>mode\<close> is one of the two.\<close>

fun cfb8_bytes :: "(bytes \<Rightarrow> bytes) \<Rightarrow> int \<Rightarrow> bytes \<Rightarrow> bytes \<Rightarrow> bytes" where
  "cfb8_bytes E mode iv [] = []"
| "cfb8_bytes E mode iv (x # input) =
     (let c = E iv ! 0 XOR x; last = (if mode = AES_DECRYPT then x else c)
      in c # cfb8_bytes E mode (drop 1 (take 16 iv @ [last])) input)"

definition aes_crypt_cfb8 :: "aes_context \<Rightarrow> int \<Rightarrow> bytes \<Rightarrow> bytes \<Rightarrow> int \<times> bytes" where
  "aes_crypt_cfb8 ctx mode iv input = (0, cfb8_bytes (\<lambda>b. snd (aes_crypt_ecb ctx AES_ENCRYPT b)) mode iv input)"

text \<open>\<open>static ctx\<close> is an argument and a result; a null key is \<open>None\<close>.\<close>

definition AES_ECB_encrypt_buffer :: "bytes \<Rightarrow> bytes option \<Rightarrow> aes_context \<Rightarrow> (bytes \<times> aes_context) option" where
  "AES_ECB_encrypt_buffer input key ctx =
     (let ctx = (case key of None \<Rightarrow> ctx | Some k \<Rightarrow> load_enc k);
          (ret, output) = aes_crypt_ecb ctx AES_ENCRYPT input
      in do { assert_c (ret = 0); Some (output, ctx) })"

definition AES_ECB_decrypt_buffer :: "bytes \<Rightarrow> bytes option \<Rightarrow> aes_context \<Rightarrow> (bytes \<times> aes_context) option" where
  "AES_ECB_decrypt_buffer input key ctx =
     (let ctx = (case key of None \<Rightarrow> ctx | Some k \<Rightarrow> load_dec k);
          (ret, output) = aes_crypt_ecb ctx AES_DECRYPT input
      in do { assert_c (ret = 0); Some (output, ctx) })"

definition AES_CBC_encrypt_buffer :: "bytes \<Rightarrow> bytes option \<Rightarrow> bytes \<Rightarrow> aes_context \<Rightarrow> (bytes \<times> aes_context) option" where
  "AES_CBC_encrypt_buffer input key iv ctx =
     (let ctx = (case key of None \<Rightarrow> ctx | Some k \<Rightarrow> load_enc k);
          (ret, output) = aes_crypt_cbc ctx AES_ENCRYPT (take 16 iv) input
      in do { assert_c (ret = 0); Some (output, ctx) })"

definition AES_CBC_decrypt_buffer :: "bytes \<Rightarrow> bytes option \<Rightarrow> bytes \<Rightarrow> aes_context \<Rightarrow> (bytes \<times> aes_context) option" where
  "AES_CBC_decrypt_buffer input key iv ctx =
     (let ctx = (case key of None \<Rightarrow> ctx | Some k \<Rightarrow> load_dec k);
          (ret, output) = aes_crypt_cbc ctx AES_DECRYPT (take 16 iv) input
      in do { assert_c (ret = 0); Some (output, ctx) })"

definition AES_CFB_encrypt_buffer :: "bytes \<Rightarrow> bytes option \<Rightarrow> bytes \<Rightarrow> aes_context \<Rightarrow> (bytes \<times> aes_context) option" where
  "AES_CFB_encrypt_buffer input key iv ctx =
     (let ctx = (case key of None \<Rightarrow> ctx | Some k \<Rightarrow> load_enc k);
          (ret, output) = aes_crypt_cfb128 ctx AES_ENCRYPT 0 (take 16 iv) input
      in do { assert_c (ret = 0); Some (output, ctx) })"

definition AES_CFB_decrypt_buffer :: "bytes \<Rightarrow> bytes option \<Rightarrow> bytes \<Rightarrow> aes_context \<Rightarrow> (bytes \<times> aes_context) option" where
  "AES_CFB_decrypt_buffer input key iv ctx =
     (let ctx = (case key of None \<Rightarrow> ctx | Some k \<Rightarrow> load_enc k);
          (ret, output) = aes_crypt_cfb128 ctx AES_DECRYPT 0 (take 16 iv) input
      in do { assert_c (ret = 0); Some (output, ctx) })"

text \<open>\<open>first_time\<close> in encrypt.cpp: a key is passed in the first call only.\<close>

definition key_argument :: "bytes option \<Rightarrow> bytes \<Rightarrow> bytes option" where
  "key_argument cached key = (case cached of None \<Rightarrow> Some key | Some _ \<Rightarrow> None)"

section \<open>The libraries\<close>

definition bundled_crypto :: "sha1_context \<Rightarrow> crypto_lib" where
  "bundled_crypto stack = \<lparr> lib_md5 = (\<lambda>m i. md5_digest m ! i), lib_sha1_hmac = (\<lambda>k m i. hmac_sha1 stack k m ! i),
     lib_aes_enc = (\<lambda>k b i. snd (aes_crypt_ecb (load_enc k) AES_ENCRYPT b) ! i),
     lib_aes_dec = (\<lambda>k b i. snd (aes_crypt_ecb (load_dec k) AES_DECRYPT b) ! i) \<rparr>"

definition bundled_kdf :: "sha2_context \<Rightarrow> kdf_lib" where
  "bundled_kdf stack = \<lparr> PKCS5_PBKDF2_HMAC_SHA256 = pbkdf2_hmac_sha256 stack,
     hkdf_sha256_expand = (\<lambda>prk info n. hkdf_expand stack prk (Some info) n) \<rparr>"

section \<open>The block functions\<close>

lemma fold_key_cong: "n \<le> 4 \<Longrightarrow> fold (\<lambda>i RK. RK [i := get_uint32_le (take 16 key) (4 * i)]) [0..<n] RK =
   fold (\<lambda>i RK. RK [i := get_uint32_le key (4 * i)]) [0..<n] RK"
  by (induction n) (simp_all add: get_uint32_le_def)

lemma aes_setkey_enc_take: "aes_setkey_enc ctx (take 16 key) 128 = aes_setkey_enc ctx key 128"
  using fold_key_cong[of 4 key "aes_buf ctx"] by (simp add: aes_setkey_enc_def del: upt_rec_numeral)

lemma load_take [simp]: "load_enc (take 16 key) = load_enc key" "load_dec (take 16 key) = load_dec key"
  by (simp_all add: load_enc_def load_dec_def AES_KEYSIZE_def aes_setkey_dec_def aes_setkey_enc_take)

lemma length_ecb [simp]: "length (snd (aes_crypt_ecb ctx mode b)) = 16"
  by (simp add: aes_crypt_ecb_def Let_def put_uint32_le_def split: prod.splits)

lemma fst_ecb [simp]: "fst (aes_crypt_ecb ctx mode b) = 0"
  by (simp add: aes_crypt_ecb_def Let_def split: prod.splits)

lemma ecb_pair: "aes_crypt_ecb ctx mode b = (0, snd (aes_crypt_ecb ctx mode b))"
  by (metis fst_ecb prod.collapse)

lemma map_nth_16: "length xs = 16 \<Longrightarrow> map ((!) xs) [0..<16] = xs"
  using map_nth[of xs] by (simp del: upt_rec_numeral)

lemma bundled_aes:
  "aes_block_enc (bundled_crypto stack) key = (\<lambda>b. snd (aes_crypt_ecb (load_enc key) AES_ENCRYPT b))"
  "aes_block_dec (bundled_crypto stack) key = (\<lambda>b. snd (aes_crypt_ecb (load_dec key) AES_DECRYPT b))"
  by (simp_all add: fun_eq_iff aes_block_enc_def aes_block_dec_def bundled_crypto_def map_nth_16 del: upt_rec_numeral)

lemma bundled_aes_fips:
  "aes_block_enc (bundled_crypto stack) key b = state_block (fips_cipher 10 (round_keys 4 key) (block_state b))"
  "aes_block_dec (bundled_crypto stack) key b = state_block (fips_inv_cipher 10 (round_keys 4 key) (block_state b))"
  using aes_block(1,2)[of 128 key b] by (simp_all add: bundled_aes load_enc_def load_dec_def AES_KEYSIZE_def rounds_of_def)

lemma bundled_aes_inverts: "aes_inverts (bundled_crypto stack)"
  by (simp add: aes_inverts_def bundled_aes_fips fips_inverse state_block_state)

lemma bundled_md5: "length m < 2 ^ 32 \<Longrightarrow> md5 (bundled_crypto stack) m = rfc1321_md5 m"
proof -
  assume m: "length m < 2 ^ 32"
  have "length (rfc1321_md5 m) = 16" by (simp add: rfc1321_md5_def md_hash_def put_uint32_le_def split: prod.splits)
  then show ?thesis
    using md5_correct[OF m] by (simp add: md5_def bundled_crypto_def map_nth_16 del: upt_rec_numeral)
qed

lemma bundled_hmac: "length k < 2 ^ 32 \<Longrightarrow> length m < 2 ^ 32 \<Longrightarrow>
   sha1_hmac (bundled_crypto stack) k m = hmac_spec fips_sha1 k m"
proof -
  assume k: "length k < 2 ^ 32" and m: "length m < 2 ^ 32"
  have "length (hmac_spec fips_sha1 k m) = 20" by simp
  then show ?thesis
    using hmac_sha1_correct[OF k m] map_nth[of "hmac_spec fips_sha1 k m"]
    by (simp add: sha1_hmac_def bundled_crypto_def del: upt_rec_numeral)
qed

section \<open>The static contexts\<close>

text \<open>A context holds the key of the first call.\<close>

definition keyed :: "(bytes \<Rightarrow> aes_context) \<Rightarrow> bytes option \<Rightarrow> aes_context \<Rightarrow> bool" where
  "keyed load cached ctx \<longleftrightarrow> (\<forall>k. cached = Some k \<longrightarrow> ctx = load k)"

lemma keyed_load: "keyed load cached ctx \<Longrightarrow>
   (case key_argument cached key of None \<Rightarrow> ctx | Some k \<Rightarrow> load k) = load (first_key cached key)"
  by (cases cached) (simp_all add: keyed_def key_argument_def first_key_def)

lemma modes_differ [simp]: "AES_ENCRYPT \<noteq> AES_DECRYPT" "AES_DECRYPT \<noteq> AES_ENCRYPT"
  by (simp_all add: AES_ENCRYPT_def AES_DECRYPT_def)

lemma enc_buffers:
  assumes "keyed load_enc cached ctx" "length iv = 16"
  shows "AES_ECB_encrypt_buffer b (key_argument cached key) ctx =
      Some (aes_block_enc (bundled_crypto stack) (first_key cached key) b, load_enc (first_key cached key))"
    and "AES_CBC_encrypt_buffer b (key_argument cached key) iv ctx = (if length b mod 16 \<noteq> 0 then None else
      Some (cbc_encrypt_blocks (aes_block_enc (bundled_crypto stack) (first_key cached key)) iv b, load_enc (first_key cached key)))"
    and "AES_CFB_encrypt_buffer b (key_argument cached key) iv ctx =
      Some (cfb_encrypt_bytes (aes_block_enc (bundled_crypto stack) (first_key cached key)) 0 iv b, load_enc (first_key cached key))"
    and "AES_CFB_decrypt_buffer b (key_argument cached key) iv ctx =
      Some (cfb_decrypt_bytes (aes_block_enc (bundled_crypto stack) (first_key cached key)) 0 iv b, load_enc (first_key cached key))"
  using ecb_pair[of "load_enc (first_key cached key)" AES_ENCRYPT b] assms(2)
  by (simp_all add: AES_ECB_encrypt_buffer_def AES_CBC_encrypt_buffer_def AES_CFB_encrypt_buffer_def AES_CFB_decrypt_buffer_def
      keyed_load[OF assms(1)] Let_def aes_crypt_cbc_def aes_crypt_cfb128_def bundled_aes assert_c_def split_beta)

lemma dec_buffers:
  assumes "keyed load_dec cached ctx" "length iv = 16"
  shows "AES_ECB_decrypt_buffer b (key_argument cached key) ctx =
      Some (aes_block_dec (bundled_crypto stack) (first_key cached key) b, load_dec (first_key cached key))"
    and "AES_CBC_decrypt_buffer b (key_argument cached key) iv ctx = (if length b mod 16 \<noteq> 0 then None else
      Some (cbc_decrypt_blocks (aes_block_dec (bundled_crypto stack) (first_key cached key)) iv b, load_dec (first_key cached key)))"
  using ecb_pair[of "load_dec (first_key cached key)" AES_DECRYPT b] assms(2)
  by (simp_all add: AES_ECB_decrypt_buffer_def AES_CBC_decrypt_buffer_def
      keyed_load[OF assms(1)] Let_def aes_crypt_cbc_def bundled_aes assert_c_def split_beta)

lemma cfb8_roundtrip:
  "snd (aes_crypt_cfb8 ctx AES_DECRYPT iv (snd (aes_crypt_cfb8 ctx AES_ENCRYPT iv m))) = m"
proof -
  have "cfb8_bytes E AES_DECRYPT iv (cfb8_bytes E AES_ENCRYPT iv m) = m" for E iv
    by (induction m arbitrary: iv) (simp_all add: Let_def xor.assoc[symmetric])
  then show ?thesis by (simp add: aes_crypt_cfb8_def)
qed

section \<open>Channels and keys\<close>

text \<open>The round trip of encryption and the channel of two commands, for the program
  with its own primitives.\<close>

lemmas bundled_roundtrip = crypt_roundtrip[OF bundled_aes_inverts]

definition bundled_prk :: "string \<Rightarrow> bytes" where
  "bundled_prk pw = rfc8018_pbkdf2 (hmac_spec fips_sha256 (bytes_of pw)) 32
     (rfc1321_md5 (bytes_of ''udp2raw_salt1'')) 10000 32"

lemma length_bytes_of [simp]: "length (bytes_of s) = length s"
  by (simp add: bytes_of_def)

lemma length_pbkdf2_256: "length (rfc8018_pbkdf2 (hmac_spec fips_sha256 pw) 32 salt c 32) = 32"
proof -
  have "(32 + 32 - 1) div 32 = (1 :: nat)" by simp
  then have "rfc8018_pbkdf2 (hmac_spec fips_sha256 pw) 32 salt c 32 =
      take 32 (pbkdf2_T (hmac_spec fips_sha256 pw) salt c 1)"
    by (simp add: rfc8018_pbkdf2_def)
  then show ?thesis by (simp add: hmac256.T_length)
qed

lemma bundled_prk_length: "length (bundled_prk pw) = 32"
  by (simp add: bundled_prk_def length_pbkdf2_256)

lemma bundled_expand_key:
  assumes "length info < 2 ^ 32" "n \<le> 255 * 32"
  shows "expand_key (bundled_kdf stack) (bundled_prk pw) info n =
    Some (rfc5869_expand (hmac_spec fips_sha256 (bundled_prk pw)) 32 (bytes_of info) n)"
proof -
  have "32 \<le> length (bundled_prk pw)" "length (bundled_prk pw) < 2 ^ 32" by (simp_all add: bundled_prk_length)
  from hkdf_expand_correct[OF this, of "bytes_of info" n stack] assms show ?thesis
    by (simp add: expand_key_def bundled_kdf_def assert_c_def)
qed

lemma bundled_prk:
  assumes "length pw + 4 < 1000"
  shows "PKCS5_PBKDF2_HMAC_SHA256 (bundled_kdf stack) (bytes_of pw) (md5 (bundled_crypto stack1) (bytes_of ''udp2raw_salt1'')) 10000 32 =
    bundled_prk pw"
proof -
  have s: "md5 (bundled_crypto stack1) (bytes_of ''udp2raw_salt1'') = rfc1321_md5 (bytes_of ''udp2raw_salt1'')"
    by (rule bundled_md5) simp
  have "length (md5 (bundled_crypto stack1) m) < 2 ^ 32" for m by simp
  then have "length (rfc1321_md5 (bytes_of ''udp2raw_salt1'')) < 2 ^ 32" unfolding s[symmetric] .
  moreover have "length (bytes_of pw) < 2 ^ 32" using assms by simp
  ultimately show ?thesis
    unfolding s bundled_prk_def bundled_kdf_def kdf_lib.simps by (intro pbkdf2_sha256_correct)
qed

section \<open>Properties\<close>

text \<open>C16. The six functions of wrapper.cpp, with the key given in the first call only,
  compute AES-128 in the ECB, CBC and CFB modes with the key of the first call, and
  keep that key in their static context; a length that is not a multiple of 16
  stops the CBC functions. This is the abstract view of the ciphers that the
  encryption functions of encrypt.cpp are modelled with.\<close>

theorem wrapper_refines_modes:
  assumes "length iv = 16"
  shows "let k = first_key cached key; E = aes_block_enc (bundled_crypto stack) k; D = aes_block_dec (bundled_crypto stack) k;
      e = load_enc k; d = load_dec k; arg = key_argument cached key
    in (keyed load_enc cached ctx \<longrightarrow>
         AES_ECB_encrypt_buffer b arg ctx = Some (E b, e) \<and>
         AES_CBC_encrypt_buffer b arg iv ctx = (if length b mod 16 \<noteq> 0 then None else Some (cbc_encrypt_blocks E iv b, e)) \<and>
         AES_CFB_encrypt_buffer b arg iv ctx = Some (cfb_encrypt_bytes E 0 iv b, e) \<and>
         AES_CFB_decrypt_buffer b arg iv ctx = Some (cfb_decrypt_bytes E 0 iv b, e)) \<and>
       (keyed load_dec cached ctx \<longrightarrow>
         AES_ECB_decrypt_buffer b arg ctx = Some (D b, d) \<and>
         AES_CBC_decrypt_buffer b arg iv ctx = (if length b mod 16 \<noteq> 0 then None else Some (cbc_decrypt_blocks D iv b, d))) \<and>
       keyed load_enc (Some k) e \<and> keyed load_dec (Some k) d"
  unfolding Let_def
  by (intro conjI impI; (simp only: enc_buffers[OF _ assms] dec_buffers[OF _ assms])?) (simp_all add: keyed_def)

definition example_stack :: sha1_context where
  "example_stack = \<lparr> ctx_total0 = 0, ctx_total1 = 0, ctx_state = replicate 5 0, ctx_buffer = replicate 64 0,
     ctx_ipad = replicate 64 0, ctx_opad = replicate 64 0 \<rparr>"

lemma wrapper_refines_modes_witness:
  "AES_ECB_encrypt_buffer (replicate 16 1) None (load_enc (replicate 16 7)) =
     Some (aes_block_enc (bundled_crypto example_stack) (replicate 16 7) (replicate 16 1), load_enc (replicate 16 7)) \<and>
   AES_CBC_encrypt_buffer [1, 2, 3] (Some (replicate 16 7)) zero_iv aes_init = None"
  using wrapper_refines_modes[of zero_iv "Some (replicate 16 7)" "replicate 16 9" example_stack "load_enc (replicate 16 7)" "replicate 16 1"]
    wrapper_refines_modes[of zero_iv None "replicate 16 7" example_stack aes_init "[1, 2, 3]"]
  by (simp add: zero_iv_def keyed_def key_argument_def first_key_def Let_def)

text \<open>C18. MD5, SHA-1 and SHA-256 of src/lib are the hashes of RFC 1321 and FIPS 180-4:
  a message of less than \<open>2 ^ 61\<close> bytes given in any number of pieces, of any
  length an \<open>int\<close> can hold, empty ones included, has the hash of the whole, whatever the context held before.\<close>

theorem hashes_in_pieces:
  assumes "\<forall>x \<in> set xs. length x < 2 ^ 31" "length (concat xs) < 2 ^ 61"
    and "length (ctx_buffer c5) = 64" "length (ctx_buffer c1) = 64" "length (ctx_buffer c2) = 64"
  shows "fst (md5_finish (fold (\<lambda>x ctx. md5_update ctx x) xs (md5_starts c5))) = rfc1321_md5 (concat xs) \<and>
    fst (sha1_finish (fold (\<lambda>x ctx. sha1_update ctx x) xs (sha1_starts c1))) = fips_sha1 (concat xs) \<and>
    fst (sha2_finish (fold (\<lambda>x ctx. sha2_update ctx x) xs (sha2_starts c2 0))) = fips_sha256 (concat xs)"
  using md5.pieces[OF assms(3) _ assms(2)] sha1.pieces[OF assms(4) _ assms(2)] sha256.pieces[OF assms(5) _ assms(2)] assms(1)
  by (fastforce simp add: md5_update_def sha1_update_def sha2_update_def md5_hash_rfc sha1_hash_fips sha2_hash_fips)

lemma hashes_in_pieces_witness:
  "fst (sha2_finish (fold (\<lambda>x ctx. sha2_update ctx x) [[1, 2], [], replicate 70 3] (sha2_starts zero_context 0))) =
     fips_sha256 ([1, 2] @ replicate 70 3)"
  using hashes_in_pieces[of "[[1, 2], [], replicate 70 3]" md5_init example_stack zero_context]
  by (simp add: md5_init_def example_stack_def zero_context_def)

text \<open>C25. In the mode hmac_sha1, as the program is built, a packet that decryption
  accepts ends with the HMAC of RFC 2104 over SHA-1, under the first 20 bytes of the
  key, of what precedes it; the tag is checked before anything is decrypted.\<close>

theorem accepted_packets_authentic:
  assumes "is_hmac_used cf \<noteq> 0" "auth_mode cf = auth_hmac_sha1"
    and "my_decrypt (bundled_crypto stack) cf kc x = Some ((0, m, n), kc')"
  shows "\<exists>c. x = c @ hmac_spec fips_sha1 (take 20 (hmac_key_decrypt cf)) c \<and>
    cipher_decrypt (bundled_crypto stack) cf kc (cipher_key_decrypt cf) c = Some ((0, m, n), kc')"
proof -
  let ?L = "bundled_crypto stack" and ?k = "take 20 (hmac_key_decrypt cf)" and ?c = "take (length x - 20) x"
  have l: "int (length x) \<le> 1800" and v: "auth_hmac_sha1_verify ?L (hmac_key_decrypt cf) x = (0, int (length x) - 20)"
    and d: "cipher_decrypt ?L cf kc (cipher_key_decrypt cf) ?c = Some ((0, m, n), kc')"
    using assms by (auto simp: my_decrypt_def decrypt_AE_def auth_verify_def bind_eq_Some_conv max_data_len_def
        auth_hmac_sha1_verify_def Let_def nat_diff_distrib split: if_splits)
  have "length ?c < 2 ^ 32" "length ?k < 2 ^ 32" using l by simp_all
  then have "drop (length x - 20) x = hmac_spec fips_sha1 ?k ?c"
    using v bundled_hmac[of ?k ?c stack] by (simp add: auth_hmac_sha1_verify_def Let_def split: if_splits)
  then have "x = ?c @ hmac_spec fips_sha1 ?k ?c" by (metis append_take_drop_id)
  then show ?thesis using d by blast
qed

text \<open>C35. Any password of at most 995 characters gives keys: the shared key is the MD5
  of the password with "key1"; the 64-byte keys of the two directions and the mask are
  the HKDF expansions (RFC 5869) of what PBKDF2 (RFC 8018, 10000 rounds) makes of the
  password; no assertion fails, and client and server differ only in the directions.\<close>

theorem keys_are_rfc:
  assumes "length (c_text pw) + 4 < 1000" "lib cf = bundled_crypto hash_stack"
  shows "let p = c_text pw; okm = (\<lambda>info. rfc5869_expand (hmac_spec fips_sha256 (bundled_prk p)) 32 (bytes_of info));
      c2s = (if is_client then ''client-->server'' else ''server-->client'');
      s2c = (if is_client then ''server-->client'' else ''client-->server'')
    in my_init_keys (bundled_kdf stack) pw is_client cf = Some (cf \<lparr> crypt_cf := (crypt_cf cf) \<lparr>
         normal_key := rfc1321_md5 (bytes_of (p @ ''key1'')),
         is_hmac_used := (if auth_mode (crypt_cf cf) = auth_hmac_sha1 then 1 else is_hmac_used (crypt_cf cf)),
         cipher_key_encrypt := okm (''cipher_key '' @ c2s) 64, cipher_key_decrypt := okm (''cipher_key '' @ s2c) 64,
         hmac_key_encrypt := okm (''hmac_key '' @ c2s) 64, hmac_key_decrypt := okm (''hmac_key '' @ s2c) 64 \<rparr>,
       gro_xor := okm ''gro'' 256 \<rparr>)"
proof -
  have "length (bytes_of (c_text pw @ ''key1'')) < 2 ^ 32" using assms(1) by simp
  note n = bundled_md5[OF this, of hash_stack]
  show ?thesis
    unfolding my_init_keys_def Let_def assms(2) n bundled_prk[OF assms(1)]
    using assms(1) by (cases is_client) (simp_all add: bundled_expand_key assert_c_def)
qed

lemma keys_are_rfc_witness:
  "my_init_keys (bundled_kdf zero_context) ''passwd'' True (example_vpn \<lparr> lib := bundled_crypto example_stack \<rparr>) \<noteq> None"
  using keys_are_rfc[where pw = "''passwd''" and cf = "example_vpn \<lparr> lib := bundled_crypto example_stack \<rparr>"
      and hash_stack = example_stack and stack = zero_context and is_client = True]
  by (simp add: c_text_def Let_def)

lemma accepted_packets_authentic_witness:
  "\<exists>x kc. my_encrypt (bundled_crypto example_stack) example_conf (\<lambda>_. 9) key_cache_init [1, 2, 3] = Some ((0, x, int (length x)), kc) \<and>
     (\<exists>c. x = c @ hmac_spec fips_sha1 (replicate 20 1) c)"
proof -
  let ?L = "bundled_crypto example_stack" and ?m = "[1, 2, 3 :: u8]"
  obtain x kc where x: "my_encrypt ?L example_conf (\<lambda>_. 9) key_cache_init ?m = Some ((0, x, int (length x)), kc)"
    "length x \<le> length ?m + 36"
    "length x \<le> 1800 \<longrightarrow> (\<exists>w kr'. my_decrypt ?L (peer_conf example_conf) key_cache_init x = Some ((0, w, int (length ?m)), kr'))"
    using bundled_roundtrip[of example_conf ?m key_cache_init key_cache_init example_stack "\<lambda>_. 9"]
    by (auto simp: example_conf_def)
  then obtain w kr' where "my_decrypt ?L (peer_conf example_conf) key_cache_init x = Some ((0, w, int (length ?m)), kr')"
    by auto
  from accepted_packets_authentic[OF _ _ this] x(1) show ?thesis
    by (auto simp: peer_conf_def example_conf_def)
qed

end
