(* ===== verification/Spec2Isabelle.thy ===== *)
theory Spec2Isabelle
  imports AntiReplay World Wire Checksum Hashes Encrypt Lru FdManager ConvManager Address RawIp
    Transport ConnInfo Safer ConnManager Sockets ChanFrame Client
    ClientSafety ClientProps Server ServerSafety ServerProps Options OptionsProps Route Firewall Startup Words Aes AesFips
    Digest Md5 Sha1 Sha2 Kdf Bundled
begin

text \<open>
  udp2raw carries UDP traffic in encrypted packets that look like TCP, UDP or
  ICMP traffic. A client listens on a UDP socket for local applications and
  talks to a server through a raw socket; the server hands every conversation
  to a UDP socket of its own. This library models the Linux build of the program
  (src/*.cpp, src/*.h with \<open>is_udp2raw_mp\<close> = 0) from the command line to the
  handlers of the two event loops, as functions on explicit states, and proves
  what the program relies on.

  How the parts fit together. \<open>main\<close> reads the options, derives the keys,
  prepares the firewall, the sockets and the packet filter (Options, Route,
  Firewall, Sockets, Startup) and enters \<open>client_event_loop\<close> or
  \<open>server_event_loop\<close>. A datagram of an application gets a conversation number
  (ConvManager over Lru), a sequence number (AntiReplay) and a heartbeat roller,
  is encrypted and authenticated (Encrypt over Hashes), framed (Safer), put in a
  transport segment with a checksum (Transport, Checksum) and an IP packet
  (RawIp), and the same layers are undone at the other end. The connection itself
  is a handshake state machine in the client (Client) and a table of connections
  in the server (ConnManager, Server), whose sockets and timers are named by
  handles that are never reused (FdManager).

  Theories and what they model.
  \<^item> Prelude: integer widths, byte lists, lemma collections, the assertions of the
    code and the calculus \<open>ensures\<close> for operations that may fail one.
  \<^item> World (common.cpp): the environment record \<open>env\<close> with the readings of the
    clock and of /dev/urandom, the results of system calls and the log of the calls
    made; \<open>get_current_time\<close>, the random numbers. Locale \<open>monotone_clock\<close>.
  \<^item> Wire (common.cpp, common.h): byte fields, identifiers, serial numbers.
    Checksum (common.cpp): \<open>csum\<close>, \<open>djb2\<close>, \<open>sdbm\<close>. Locale \<open>serial_order\<close>.
  \<^item> Hashes, Encrypt (encrypt.cpp, lib/aes_faster_c): the five authentication
    modes (locale \<open>auth_scheme\<close>, one interpretation for each), the ciphers, padding,
    the cached keys of the AES wrappers, \<open>my_encrypt\<close> and \<open>my_decrypt\<close>, over a
    record of primitives.
  \<^item> Words, Aes, AesFips (lib/aes_faster_c/aes.cpp): byte and word macros, the tables,
    the key schedules and the rounds; FIPS 197 as a specification on states of four
    columns, and the proof that the tables implement it.
  \<^item> Digest (the part md5.cpp, pbkdf2-sha1.cpp and pbkdf2-sha256.cpp share): taking
    in a message by pieces, padding, HMAC, for any function that takes in a block.
    Locales \<open>block_hash\<close>, \<open>hash_stream\<close>. Md5, Sha1, Sha2: the three functions
    and RFC 1321, FIPS 180-4; one interpretation of \<open>hash_stream\<close> for each.
  \<^item> Kdf (pbkdf2-sha1.cpp, pbkdf2-sha256.cpp): PBKDF2 and HKDF over the contract
    of an HMAC, locale \<open>hmac_stream\<close>, interpreted for both hashes; RFC 8018, RFC 5869.
  \<^item> Bundled (lib/aes_faster_c/wrapper.cpp): the six wrappers with their static
    contexts, and the records of primitives filled with the functions above.
  \<^item> AntiReplay (connection.cpp): the ring of 4000 flags; locale
    \<open>replay_filter\<close>, refinement of a window given as a set.
  \<^item> Lru, ConvManager (common.h, connection.h): time-ordered list, conversations
    and their cleaner; locales \<open>timed_lru\<close> and \<open>conv_cleaner\<close>.
  \<^item> FdManager (fd_manager.cpp): 64 bit handles; locale \<open>handle_table\<close>.
  \<^item> Address, RawIp, Transport (common.cpp, network.cpp): addresses, the two IP
    versions, ICMP, UDP and the simulated TCP with its options and window.
  \<^item> ConnInfo, Safer (connection.h, connection.cpp): the connection record and the
    encrypted channel; ChanFrame holds what its operations leave alone.
  \<^item> ConnManager (connection.cpp): the tables of the server and their cleaner.
  \<^item> Sockets (network.cpp, misc.cpp): source address, free port, packet filter,
    timers, link layer addresses.
  \<^item> Client, ClientSafety, ClientProps (client.cpp): the handlers, the states every
    event may lead to (\<open>client_next\<close>), the runs of the event loop.
  \<^item> Server, ServerSafety, ServerProps (server.cpp): the same for the server.
  \<^item> Options, OptionsProps (misc.cpp, encrypt.cpp, common.cpp, main.cpp): globals,
    \<open>getopt_long\<close>, \<open>process_arg\<close>, the configuration file, \<open>my_init_keys\<close>.
  \<^item> Route (network.cpp): the tables of /proc/net, the routes with the longest
    prefix, the walk over gateways, hardware addresses.
  \<^item> Firewall (misc.cpp, common.cpp): the iptables rules and their refreshing.
  \<^item> Startup (client.cpp, server.cpp, network.cpp): raw sockets, the fifo, and what
    the event loops do before the first event.

  What the lemmas show.
  \<^item> Data path: each layer is undone by its counterpart (checksum, transport,
    cipher and tag, channel), composed to delivery of a message from end to end
    and of a datagram to the socket of its conversation; received packets are
    read within their bounds, whatever they hold.
  \<^item> Security of the channel: no sequence number is delivered twice; the handshake of the
    client skips no state, and it becomes ready only on an authenticated message.
  \<^item> Primitives: AES, the three hashes, HMAC, PBKDF2 and HKDF of src/lib compute
    their standards, so that the round trip of encryption, the tags and the keys
    hold for the program as it is built, with no hypothesis on a primitive.
  \<^item> State: the tables of conversations, connections, handles and timers are
    consistent after every run of events, no assertion of the code fails in them
    but where a theorem says so, and connections are bounded; clocks do not go
    back, handles are not reused, timeouts are taken at the next timer.
  \<^item> Start: the options leave every variable in its range, both ends derive
    matching keys, and a start that succeeds ends in a state from which the runs
    of the client and the server begin.

  Effects, bounds and fuel. An operation with effects takes and returns the state
  and the environment; \<open>None\<close> is a failed assertion, \<open>myexit\<close> or a write past a
  buffer. Loops are recursions with a termination proof, or a \<open>while\<close> whose invariant and measure
  are proved (PBKDF2). Those the code bounds keep its bound (1000 gateways in the next-hop search; the
  cleaners, which stop after a share of their table). Three loops the code does not bound are
  \<open>partial_function\<close>, \<open>None\<close> when they do not return: the wait for a route (\<open>find_info_retrying\<close>), the
  draw of a nonzero number (\<open>get_true_random_number_nz\<close>), the search for an unused conversation
  number (\<open>get_new_conv\<close>). Lengths given to the hashes are below \<open>2 ^ 31\<close>, the largest an
  \<open>int\<close> holds, and a message below \<open>2 ^ 61\<close> bytes, what the length field holds; the registers of
  SHA-1 and SHA-256 are 64 bits wide as \<open>unsigned long\<close> is in the 64 bit build. The receive buffers are functions from
  indices to bytes, so a read past a packet sees what an earlier one left.

  Not modelled. libev (src/libev): third-party; the order in which it calls the handlers is
  the list of events of a run. The assembler and intrinsics of lib/aes_acc:
  alternative builds of the same block function. The self tests of src/lib, the table
  generator and the CTR mode of aes.cpp: left out by the preprocessor. The multi-platform build
  (pcap, libnet, Windows; the branches of \<open>UDP2RAW_MP\<close>). Logging (log.cpp), the signal
  handlers and the help text: output only. The thread of --keep-rule: its rounds are modelled, its
  interleaving with the event loop is not. The C library conversions of addresses
  (inet_pton, inet_ntop, inet_addr) and what iptables makes of a command are parameters with
  their documented behaviour.
\<close>

end
